(* ===== verification/Prelude.thy ===== *)
theory Prelude
  imports Main "HOL-Library.Multiset" "HOL-Library.List_Lexorder" "HOL-Library.Char_ord"
begin

text \<open>
  Shared material of the development: results (a value or an error), numbers as the
  TypeScript code sees them, strings, the stable sort of \<open>Array.prototype.sort\<close>, and the
  contract (a locale) that every comparator passed to that sort has to meet.

  A JavaScript string is modelled as a \<open>string\<close>, one \<open>char\<close> per UTF-16 code unit; the
  model covers code units below 256.  Comparison (\<open><\<close>) is by code units, as in the language.
\<close>

named_theorems result_simps \<open>unfolding and inversion rules for results\<close>
named_theorems model_defs \<open>definitions of the small model functions\<close>

section \<open>Results\<close>

text \<open>An exception is the left injection; every \<open>throw\<close> of the code is an \<open>Inl\<close>.\<close>

type_synonym ('e, 'a) result = "'e + 'a"

fun rbind :: "('e, 'a) result \<Rightarrow> ('a \<Rightarrow> ('e, 'b) result) \<Rightarrow> ('e, 'b) result" where
  "rbind (Inl e) f = Inl e"
| "rbind (Inr a) f = f a"

definition rassert :: "bool \<Rightarrow> 'e \<Rightarrow> ('e, unit) result" where
  "rassert b e = (if b then Inr () else Inl e)"

fun is_ok :: "('e, 'a) result \<Rightarrow> bool" where
  "is_ok (Inl e) = False"
| "is_ok (Inr a) = True"

lemma rbind_Inr_iff [result_simps]:
  "rbind r f = Inr b \<longleftrightarrow> (\<exists>a. r = Inr a \<and> f a = Inr b)"
  by (cases r) auto

lemma rbind_Inl_iff [result_simps]:
  "rbind r f = Inl e \<longleftrightarrow> r = Inl e \<or> (\<exists>a. r = Inr a \<and> f a = Inl e)"
  by (cases r) auto

lemma rassert_Inr_iff [result_simps]: "rassert b e = Inr u \<longleftrightarrow> b"
  by (simp add: rassert_def)

lemma rassert_Inl_iff [result_simps]: "rassert b e = Inl e' \<longleftrightarrow> \<not> b \<and> e' = e"
  by (auto simp: rassert_def)

lemma is_ok_iff: "is_ok r \<longleftrightarrow> (\<exists>a. r = Inr a)"
  by (cases r) auto

text \<open>A loop that applies a fallible step to each element and stops at the first error.\<close>

fun rmapM :: "('a \<Rightarrow> ('e, 'b) result) \<Rightarrow> 'a list \<Rightarrow> ('e, 'b list) result" where
  "rmapM f [] = Inr []"
| "rmapM f (x # xs) = rbind (f x) (\<lambda>y. rbind (rmapM f xs) (\<lambda>ys. Inr (y # ys)))"

fun rall :: "('a \<Rightarrow> ('e, unit) result) \<Rightarrow> 'a list \<Rightarrow> ('e, unit) result" where
  "rall f [] = Inr ()"
| "rall f (x # xs) = rbind (f x) (\<lambda>_. rall f xs)"

fun rfold :: "('s \<Rightarrow> 'a \<Rightarrow> ('e, 's) result) \<Rightarrow> 's \<Rightarrow> 'a list \<Rightarrow> ('e, 's) result" where
  "rfold f s [] = Inr s"
| "rfold f s (x # xs) = rbind (f s x) (\<lambda>s'. rfold f s' xs)"

lemma rmapM_Inr_iff [result_simps]:
  "rmapM f xs = Inr ys \<longleftrightarrow> list_all2 (\<lambda>x y. f x = Inr y) xs ys"
proof (induction xs arbitrary: ys)
  case Nil
  then show ?case by auto
next
  case (Cons x xs)
  then show ?case by (auto simp: result_simps list_all2_Cons1)
qed

lemma rall_Inr_iff [result_simps]: "rall f xs = Inr u \<longleftrightarrow> (\<forall>x \<in> set xs. f x = Inr ())"
  by (induction xs) (auto simp: result_simps)

lemma rfold_invariant:
  assumes "rfold f s xs = Inr t" and "P s"
    and "\<And>s x s'. x \<in> set xs \<Longrightarrow> P s \<Longrightarrow> f s x = Inr s' \<Longrightarrow> P s'"
  shows "P t"
  using assms
proof (induction xs arbitrary: s)
  case Nil
  then show ?case by simp
next
  case (Cons x xs)
  from Cons.prems(1) obtain s' where s': "f s x = Inr s'" and rest: "rfold f s' xs = Inr t"
    by (auto simp: result_simps)
  have "P s'" using Cons.prems(3) [OF _ Cons.prems(2) s'] by simp
  then show ?case by (rule Cons.IH [OF rest]) (rule Cons.prems(3), auto)
qed

lemma rfold_append: "rfold f s (xs @ ys) = rbind (rfold f s xs) (\<lambda>t. rfold f t ys)"
proof (induction xs arbitrary: s)
  case Nil
  then show ?case by simp
next
  case (Cons x xs)
  then show ?case by (cases "f s x") auto
qed

section \<open>Numbers\<close>

text \<open>
  A \<open>number\<close> the code only tests with \<open>Number.isSafeInteger\<close> or \<open>Number.isInteger\<close> before
  it computes with it: an integral value, or one of the values those tests reject
  (a fraction, NaN, an infinity).
\<close>

datatype jsnum = Num int | NonInt

definition max_safe :: int where
  "max_safe = 9007199254740991"

definition safe_int :: "int \<Rightarrow> bool" where
  "safe_int v \<longleftrightarrow> - max_safe \<le> v \<and> v \<le> max_safe"

fun is_safe_integer :: "jsnum \<Rightarrow> bool" where
  "is_safe_integer (Num v) = safe_int v"
| "is_safe_integer NonInt = False"

fun is_integer :: "jsnum \<Rightarrow> bool" where
  "is_integer (Num v) = True"
| "is_integer NonInt = False"

text \<open>
  Reads a number after an integrality test has accepted it; the second equation is never
  reached on a value that passed the test.
\<close>

fun int_of :: "jsnum \<Rightarrow> int" where
  "int_of (Num v) = v"
| "int_of NonInt = 0"

lemma is_safe_integer_iff: "is_safe_integer n \<longleftrightarrow> (\<exists>v. n = Num v \<and> safe_int v)"
  by (cases n) auto

lemma is_integer_iff: "is_integer n \<longleftrightarrow> (\<exists>v. n = Num v)"
  by (cases n) auto

section \<open>Strings\<close>

definition starts_with :: "string \<Rightarrow> string \<Rightarrow> bool" where
  "starts_with s p \<longleftrightarrow> take (length p) s = p"

definition ends_with :: "string \<Rightarrow> string \<Rightarrow> bool" where
  "ends_with s p \<longleftrightarrow> length p \<le> length s \<and> drop (length s - length p) s = p"

text \<open>\<open>String.prototype.split\<close> on a one-character separator: never empty.\<close>

fun split_on :: "char \<Rightarrow> string \<Rightarrow> string list" where
  "split_on c [] = [[]]"
| "split_on c (x # xs) =
     (if x = c then [] # split_on c xs
      else (case split_on c xs of [] \<Rightarrow> [[x]] | w # ws \<Rightarrow> (x # w) # ws))"

fun join :: "string \<Rightarrow> string list \<Rightarrow> string" where
  "join sep [] = []"
| "join sep [w] = w"
| "join sep (w # v # ws) = w @ sep @ join sep (v # ws)"

lemma split_on_nonempty [simp]: "split_on c s \<noteq> []"
  by (cases s) (auto split: list.splits)

lemma split_on_free: "w \<in> set (split_on c s) \<Longrightarrow> c \<notin> set w"
proof (induction s arbitrary: w)
  case Nil
  then show ?case by simp
next
  case (Cons x s)
  then show ?case by (cases "split_on c s") (auto split: if_splits)
qed

lemma split_on_no_sep: "c \<notin> set s \<Longrightarrow> split_on c s = [s]"
  by (induction s) auto

lemma split_on_append:
  "c \<notin> set w \<Longrightarrow> split_on c (w @ c # s) = w # split_on c s"
  by (induction w) auto

lemma join_Cons: "ws \<noteq> [] \<Longrightarrow> join sep (w # ws) = w @ sep @ join sep ws"
  by (cases ws) auto

lemma split_on_join:
  "ws \<noteq> [] \<Longrightarrow> (\<And>w. w \<in> set ws \<Longrightarrow> c \<notin> set w) \<Longrightarrow> split_on c (join [c] ws) = ws"
proof (induction ws rule: list_nonempty_induct)
  case (single w)
  then show ?case by (simp add: split_on_no_sep)
next
  case (cons w ws)
  then show ?case by (simp add: join_Cons split_on_append)
qed

text \<open>Joining with a separator that occurs in no part is injective.\<close>

lemma join_inj:
  assumes "join [c] ws = join [c] vs" and "ws \<noteq> []" and "vs \<noteq> []"
    and "\<And>w. w \<in> set ws \<Longrightarrow> c \<notin> set w" and "\<And>w. w \<in> set vs \<Longrightarrow> c \<notin> set w"
  shows "ws = vs"
proof -
  have "split_on c (join [c] ws) = ws" by (rule split_on_join) (use assms in auto)
  moreover have "split_on c (join [c] vs) = vs" by (rule split_on_join) (use assms in auto)
  ultimately show ?thesis using assms(1) by metis
qed

text \<open>The whitespace that \<open>trim\<close> and \<open>\s\<close> know, below code unit 256.\<close>

definition is_space :: "char \<Rightarrow> bool" where
  "is_space c \<longleftrightarrow> (let n = of_char c :: nat in (9 \<le> n \<and> n \<le> 13) \<or> n = 32 \<or> n = 160)"

definition trim_start :: "string \<Rightarrow> string" where
  "trim_start s = dropWhile is_space s"

definition trim :: "string \<Rightarrow> string" where
  "trim s = rev (dropWhile is_space (rev (trim_start s)))"

definition is_digit :: "char \<Rightarrow> bool" where
  "is_digit c \<longleftrightarrow> (let n = of_char c :: nat in 48 \<le> n \<and> n \<le> 57)"

text \<open>ASCII lower case, the part of \<open>toLowerCase\<close> the code relies on (MIME types, hex digests).\<close>

definition lower_char :: "char \<Rightarrow> char" where
  "lower_char c = (let n = of_char c :: nat in if 65 \<le> n \<and> n \<le> 90 then char_of (n + 32) else c)"

definition to_lower :: "string \<Rightarrow> string" where
  "to_lower s = map lower_char s"

section \<open>Decimal digits\<close>

text \<open>\<open>String(n)\<close> and \<open>BigInt(text)\<close> on digits only.\<close>

definition digit_value :: "char \<Rightarrow> nat" where
  "digit_value c = of_char c - 48"

definition digit_char :: "nat \<Rightarrow> char" where
  "digit_char n = char_of (48 + n)"

definition digits_value :: "string \<Rightarrow> nat" where
  "digits_value s = foldl (\<lambda>a c. 10 * a + digit_value c) 0 s"

fun show_nat :: "nat \<Rightarrow> string" where
  "show_nat n = (if n < 10 then [digit_char n] else show_nat (n div 10) @ [digit_char (n mod 10)])"

declare show_nat.simps [simp del]

lemma digits_value_snoc [simp]: "digits_value (xs @ [c]) = 10 * digits_value xs + digit_value c"
  by (simp add: digits_value_def)

lemma digits_value_Nil [simp]: "digits_value [] = 0"
  by (simp add: digits_value_def)

lemma digits_value_append:
  "digits_value (xs @ ys) = digits_value xs * 10 ^ length ys + digits_value ys"
proof (induction ys rule: rev_induct)
  case Nil
  then show ?case by simp
next
  case (snoc y ys)
  have "digits_value (xs @ ys @ [y]) = 10 * digits_value (xs @ ys) + digit_value y"
    using digits_value_snoc [of "xs @ ys" y] by simp
  then show ?case using snoc by (simp add: algebra_simps)
qed

lemma digits_value_zeros [simp]: "digits_value (replicate n CHR ''0'') = 0"
proof (induction n)
  case 0
  then show ?case by simp
next
  case (Suc n)
  have "replicate (Suc n) CHR ''0'' = replicate n CHR ''0'' @ [CHR ''0'']"
    by (simp add: replicate_append_same)
  then show ?case using Suc by (simp add: digit_value_def)
qed

lemma of_char_digit [simp]: "n < 10 \<Longrightarrow> (of_char (digit_char n) :: nat) = 48 + n"
  by (simp add: digit_char_def of_char_of)

lemma digit_char_facts [simp]:
  assumes "n < 10"
  shows "is_digit (digit_char n)" and "digit_value (digit_char n) = n"
  using assms by (simp_all add: is_digit_def digit_value_def)

lemma digit_char_0 [simp]: "digit_char n = CHR ''0'' \<longleftrightarrow> n = 0" if "n < 10"
proof -
  have "digit_char n = CHR ''0'' \<longleftrightarrow> (of_char (digit_char n) :: nat) = of_char (CHR ''0'')"
    by (simp only: of_char_eq_iff)
  then show ?thesis using that by simp
qed

lemma show_nat_value [simp]: "digits_value (show_nat n) = n"
proof (induction n rule: show_nat.induct)
  case (1 n)
  then show ?case
    by (cases "n < 10") (simp_all add: show_nat.simps [of n] digits_value_def)
qed

lemma show_nat_digits [simp]: "list_all is_digit (show_nat n)"
proof (induction n rule: show_nat.induct)
  case (1 n)
  then show ?case by (cases "n < 10") (simp_all add: show_nat.simps [of n])
qed

lemma show_nat_nonempty [simp]: "show_nat n \<noteq> []"
  by (simp add: show_nat.simps [of n])

lemma show_nat_10: "n > 0 \<Longrightarrow> show_nat (10 * n) = show_nat n @ [CHR ''0'']"
  by (subst show_nat.simps) simp

lemma not_digit_chars [simp]:
  "\<not> is_digit CHR ''.''" "\<not> is_digit CHR ''-''" "\<not> is_digit CHR ''+''"
  "\<not> is_digit CHR ''e''" "\<not> is_digit CHR ''E''" "is_digit CHR ''0''"
  by (simp_all add: is_digit_def)

lemma digit_char_eval [simp]:
  "digit_char 0 = CHR ''0''" "digit_char (Suc 0) = CHR ''1''" "digit_char 1 = CHR ''1''"
  "digit_char 2 = CHR ''2''" "digit_char 3 = CHR ''3''" "digit_char 4 = CHR ''4''"
  "digit_char 5 = CHR ''5''" "digit_char 6 = CHR ''6''" "digit_char 7 = CHR ''7''"
  "digit_char 8 = CHR ''8''" "digit_char 9 = CHR ''9''"
  by (simp_all add: digit_char_def char_of_def bit_0)

section \<open>Maps as insertion-ordered association lists\<close>

text \<open>
  A JavaScript \<open>Map\<close> keeps the position of a key when its value is set again and appends a
  new key; the operations below are \<open>get\<close>, \<open>set\<close> and \<open>has\<close> on such a list.
\<close>

fun assoc_set :: "'k \<Rightarrow> 'v \<Rightarrow> ('k \<times> 'v) list \<Rightarrow> ('k \<times> 'v) list" where
  "assoc_set k v [] = [(k, v)]"
| "assoc_set k v ((k', v') # m) = (if k = k' then (k, v) # m else (k', v') # assoc_set k v m)"

lemma map_of_assoc_set: "map_of (assoc_set k v m) = (map_of m)(k \<mapsto> v)"
  by (induction m) auto

lemma keys_assoc_set:
  "map fst (assoc_set k v m) =
     (if k \<in> set (map fst m) then map fst m else map fst m @ [k])"
proof (induction m)
  case Nil
  then show ?case by simp
next
  case (Cons e m)
  then show ?case by (cases e; cases "k \<in> fst ` set m") auto
qed

lemma distinct_assoc_set:
  "distinct (map fst m) \<Longrightarrow> distinct (map fst (assoc_set k v m))"
  unfolding keys_assoc_set by (auto simp del: set_map)

lemma set_assoc_set: "set (assoc_set k v m) \<subseteq> insert (k, v) (set m)"
  by (induction m) (auto split: if_splits)

section \<open>Stable sorting by a comparator\<close>

text \<open>
  \<open>Array.prototype.sort\<close> is stable.  A comparator \<open>cmp\<close> is used through
  \<open>le a b = (cmp a b \<le> 0)\<close>.
\<close>

fun insert_by :: "('a \<Rightarrow> 'a \<Rightarrow> bool) \<Rightarrow> 'a \<Rightarrow> 'a list \<Rightarrow> 'a list" where
  "insert_by le x [] = [x]"
| "insert_by le x (y # ys) = (if le x y then x # y # ys else y # insert_by le x ys)"

fun sort_by :: "('a \<Rightarrow> 'a \<Rightarrow> bool) \<Rightarrow> 'a list \<Rightarrow> 'a list" where
  "sort_by le [] = []"
| "sort_by le (x # xs) = insert_by le x (sort_by le xs)"

lemma mset_insert_by [simp]: "mset (insert_by le x xs) = add_mset x (mset xs)"
  by (induction xs) auto

lemma mset_sort_by [simp]: "mset (sort_by le xs) = mset xs"
  by (induction xs) auto

lemma set_sort_by [simp]: "set (sort_by le xs) = set xs"
  using mset_sort_by [of le xs] by (metis set_mset_mset)

lemma length_sort_by [simp]: "length (sort_by le xs) = length xs"
  using mset_sort_by [of le xs] by (metis size_mset)

lemma set_insert_by [simp]: "set (insert_by le x xs) = insert x (set xs)"
  by (induction xs) auto

lemma distinct_sort_by [simp]: "distinct (sort_by le xs) = distinct xs"
  using mset_sort_by [of le xs] by (metis mset_eq_imp_distinct_iff)

lemma sort_by_eq_Nil_iff [simp]: "sort_by le xs = [] \<longleftrightarrow> xs = []"
  using length_sort_by [of le xs] by (metis length_0_conv)

text \<open>The contract of a comparator: a total preorder on the elements it is given.\<close>

locale sort_order =
  fixes le :: "'a \<Rightarrow> 'a \<Rightarrow> bool"
  assumes total: "le x y \<or> le y x"
    and transitive: "le x y \<Longrightarrow> le y z \<Longrightarrow> le x z"
begin

lemma insert_sorted: "sorted_wrt le xs \<Longrightarrow> sorted_wrt le (insert_by le x xs)"
proof (induction xs)
  case Nil
  then show ?case by simp
next
  case (Cons y ys)
  show ?case
  proof (cases "le x y")
    case True
    then show ?thesis using Cons.prems transitive [OF True] by simp
  next
    case False
    then have "le y x" using total by blast
    then show ?thesis using Cons False by simp
  qed
qed

lemma sort_sorted: "sorted_wrt le (sort_by le xs)"
  by (induction xs) (auto intro: insert_sorted)

lemma sort_head_least: "sort_by le xs = x # rest \<Longrightarrow> y \<in> set xs \<Longrightarrow> le x y"
proof -
  assume eq: "sort_by le xs = x # rest" and y: "y \<in> set xs"
  have sorted: "sorted_wrt le (x # rest)" using sort_sorted [of xs] eq by simp
  have "y \<in> set (x # rest)" using y set_sort_by [of le xs] eq by metis
  then show "le x y" using sorted total [of x x] by auto
qed

text \<open>
  A strict order is antisymmetric on the elements sorted: then the result depends on the
  multiset of elements only, not on the order in which they arrived.
\<close>

lemma sort_unique:
  assumes anti: "\<And>x y. x \<in> set xs \<Longrightarrow> y \<in> set xs \<Longrightarrow> le x y \<Longrightarrow> le y x \<Longrightarrow> x = y"
    and "mset xs = mset ys"
  shows "sort_by le xs = sort_by le ys"
proof -
  have gen: "\<lbrakk>sorted_wrt le as; sorted_wrt le bs; mset as = mset bs;
      \<And>x y. x \<in> set as \<Longrightarrow> y \<in> set as \<Longrightarrow> le x y \<Longrightarrow> le y x \<Longrightarrow> x = y\<rbrakk> \<Longrightarrow> as = bs" for as bs
  proof (induction as arbitrary: bs)
    case Nil
    then show ?case by simp
  next
    case (Cons a as)
    then obtain b bs' where bs: "bs = b # bs'" by (cases bs) auto
    have b_in: "b \<in> set (a # as)" and a_in: "a \<in> set (b # bs')"
      using Cons.prems(3) bs by (metis list.set_intros(1) set_mset_mset)+
    have ab: "le a b" using b_in Cons.prems(1) total [of a a] by (auto simp del: set_mset_mset)
    have ba: "le b a" using a_in Cons.prems(2) bs total [of b b] by (auto simp del: set_mset_mset)
    have "a = b" by (rule Cons.prems(4) [OF _ b_in ab ba]) simp
    then have "as = bs'"
      using Cons.prems(1,2,3) bs by (intro Cons.IH [of bs'] Cons.prems(4)) simp_all
    then show ?case using \<open>a = b\<close> bs by simp
  qed
  show ?thesis
  proof (rule gen)
    show "sorted_wrt le (sort_by le xs)" "sorted_wrt le (sort_by le ys)" by (rule sort_sorted)+
    show "mset (sort_by le xs) = mset (sort_by le ys)" using assms(2) by simp
  qed (simp add: anti)
qed

end

end
