(* ===== verification/Access_Policy.thy ===== *)
theory Access_Policy
  imports Prelude
begin

text \<open>
  Workspace authorization: roles, permissions and the decision functions of
  \<open>packages/security/src/policy.ts\<close>, and the permission every administration read and action
  requires, \<open>packages/administration/src/resource-policy.ts\<close>.

  A union of string literals is a datatype with one constructor per literal; the literal itself
  is the constructor's name function, because \<open>effectivePermissions\<close> sorts by it.
\<close>

section \<open>Roles and permissions\<close>

datatype workspace_role = Administrator | Operator | Analyst | Viewer

datatype permission =
    P_analysis_request | P_analysis_forceRerun | P_analysis_cancel | P_analysis_read |
    P_evidence_read | P_connector_manage | P_credential_manage | P_publication_approve |
    P_publication_publish | P_configuration_manage | P_configuration_read |
    P_credential_readMetadata | P_webhook_manage | P_workspace_manage | P_identity_manage |
    P_diagnostics_export | P_audit_read | P_operations_inspect | P_operations_retry |
    P_operations_recover | P_cost_read | P_privacy_delete | P_retention_run

definition permissions :: "permission list" where
  "permissions = [
    P_analysis_request, P_analysis_forceRerun, P_analysis_cancel, P_analysis_read,
    P_evidence_read, P_connector_manage, P_credential_manage, P_publication_approve,
    P_publication_publish, P_configuration_manage, P_configuration_read,
    P_credential_readMetadata, P_webhook_manage, P_workspace_manage, P_identity_manage,
    P_diagnostics_export, P_audit_read, P_operations_inspect, P_operations_retry,
    P_operations_recover, P_cost_read, P_privacy_delete, P_retention_run]"

fun permission_name :: "permission \<Rightarrow> string" where
  "permission_name P_analysis_request = ''analysis.request''"
| "permission_name P_analysis_forceRerun = ''analysis.forceRerun''"
| "permission_name P_analysis_cancel = ''analysis.cancel''"
| "permission_name P_analysis_read = ''analysis.read''"
| "permission_name P_evidence_read = ''evidence.read''"
| "permission_name P_connector_manage = ''connector.manage''"
| "permission_name P_credential_manage = ''credential.manage''"
| "permission_name P_publication_approve = ''publication.approve''"
| "permission_name P_publication_publish = ''publication.publish''"
| "permission_name P_configuration_manage = ''configuration.manage''"
| "permission_name P_configuration_read = ''configuration.read''"
| "permission_name P_credential_readMetadata = ''credential.readMetadata''"
| "permission_name P_webhook_manage = ''webhook.manage''"
| "permission_name P_workspace_manage = ''workspace.manage''"
| "permission_name P_identity_manage = ''identity.manage''"
| "permission_name P_diagnostics_export = ''diagnostics.export''"
| "permission_name P_audit_read = ''audit.read''"
| "permission_name P_operations_inspect = ''operations.inspect''"
| "permission_name P_operations_retry = ''operations.retry''"
| "permission_name P_operations_recover = ''operations.recover''"
| "permission_name P_cost_read = ''cost.read''"
| "permission_name P_privacy_delete = ''privacy.delete''"
| "permission_name P_retention_run = ''retention.run''"

fun role_permissions :: "workspace_role \<Rightarrow> permission list" where
  "role_permissions Administrator = permissions"
| "role_permissions Operator = [
    P_analysis_request, P_analysis_forceRerun, P_analysis_cancel, P_analysis_read,
    P_evidence_read, P_connector_manage, P_credential_manage, P_credential_readMetadata,
    P_configuration_read, P_configuration_manage, P_webhook_manage, P_publication_approve,
    P_publication_publish, P_audit_read, P_operations_inspect, P_operations_retry,
    P_operations_recover, P_cost_read, P_retention_run, P_diagnostics_export]"
| "role_permissions Analyst = [P_analysis_request, P_analysis_read, P_evidence_read]"
| "role_permissions Viewer = [P_analysis_read, P_evidence_read]"

definition is_workspace_role :: "string \<Rightarrow> bool" where
  "is_workspace_role v \<longleftrightarrow> v \<in> set [''administrator'', ''operator'', ''analyst'', ''viewer'']"

record role_assignment =
  ra_workspace :: string
  ra_principal :: string
  ra_role :: workspace_role

record authorization_decision =
  allowed :: bool
  decided_permission :: permission

text \<open>\<open>AuthorizationError\<close> carries the permission that was missing.\<close>

datatype authorization_error = AuthorizationError permission

definition can ::
  "role_assignment list \<Rightarrow> string \<Rightarrow> string \<Rightarrow> permission \<Rightarrow> authorization_decision" where
  "can as ws pr p =
     \<lparr>allowed = list_ex (\<lambda>a. ra_workspace a = ws \<and> ra_principal a = pr \<and>
                           p \<in> set (role_permissions (ra_role a))) as,
      decided_permission = p\<rparr>"

definition require_permission ::
  "role_assignment list \<Rightarrow> string \<Rightarrow> string \<Rightarrow> permission \<Rightarrow> (authorization_error, unit) result" where
  "require_permission as ws pr p =
     (if \<not> allowed (can as ws pr p) then Inl (AuthorizationError p) else Inr ())"

text \<open>
  \<open>Array.prototype.sort\<close> without a comparator orders by the string value, so the permissions
  are ordered by their names.
\<close>

lemma permissions_UNIV: "set permissions = UNIV"
  by (rule UNIV_eq_I [symmetric], rename_tac p, case_tac p) (simp_all add: permissions_def)

lemma distinct_permission_names: "distinct (map permission_name permissions)"
  by code_simp

lemma inj_permission_name: "inj permission_name"
  using distinct_permission_names by (simp add: distinct_map permissions_UNIV)

instantiation permission :: linorder
begin

definition less_eq_permission :: "permission \<Rightarrow> permission \<Rightarrow> bool" where
  "less_eq_permission p q \<longleftrightarrow> permission_name p \<le> permission_name q"

definition less_permission :: "permission \<Rightarrow> permission \<Rightarrow> bool" where
  "less_permission p q \<longleftrightarrow> permission_name p < permission_name q"

instance
proof
  fix p q r :: permission
  show "p < q \<longleftrightarrow> p \<le> q \<and> \<not> q \<le> p" "p \<le> p" "p \<le> q \<or> q \<le> p"
    by (auto simp: less_eq_permission_def less_permission_def)
  show "p \<le> r" if "p \<le> q" "q \<le> r" using that by (simp add: less_eq_permission_def)
  show "p = q" if "p \<le> q" "q \<le> p"
    using that inj_permission_name by (auto simp: less_eq_permission_def dest: injD)
qed

end

text \<open>A \<open>Set\<close> built by adding each permission of each role, spread into an array and sorted.\<close>

definition effective_permissions :: "workspace_role list \<Rightarrow> permission list" where
  "effective_permissions rs = sort (remdups (concat (map role_permissions rs)))"

section \<open>Properties of the decision\<close>

lemma allowed_can_iff:
  "allowed (can as ws pr p) \<longleftrightarrow>
     (\<exists>a \<in> set as. ra_workspace a = ws \<and> ra_principal a = pr \<and> p \<in> set (role_permissions (ra_role a)))"
  by (auto simp: can_def list_ex_iff)

lemma set_effective_permissions:
  "set (effective_permissions rs) = (\<Union>r \<in> set rs. set (role_permissions r))"
  by (simp add: effective_permissions_def)

text \<open>The roles one principal holds in one workspace, in assignment order.\<close>

definition roles_of :: "role_assignment list \<Rightarrow> string \<Rightarrow> string \<Rightarrow> workspace_role list" where
  "roles_of as ws pr = map ra_role (filter (\<lambda>a. ra_workspace a = ws \<and> ra_principal a = pr) as)"

text \<open>
  the enforcement path and the read model agree.  \<open>requirePermission\<close> lets a principal
  through exactly when the permission is in the union \<open>effectivePermissions\<close> reports for the
  roles that principal holds in that workspace; otherwise it throws \<open>AuthorizationError\<close> with
  the permission asked for.  So no assignment of another workspace or principal has any effect.
\<close>

theorem require_permission_effective:
  "require_permission as ws pr p =
     (if p \<in> set (effective_permissions (roles_of as ws pr))
      then Inr () else Inl (AuthorizationError p))"
  by (auto simp: require_permission_def allowed_can_iff set_effective_permissions roles_of_def)

text \<open>
  The roles form a chain.  Each role's permissions are contained in those of the next
  stronger one (viewer, analyst, operator, administrator); the operator lacks exactly workspace
  management, identity management and privacy deletion.
\<close>

theorem role_hierarchy:
  "set (role_permissions Viewer) \<subset> set (role_permissions Analyst) \<and>
   set (role_permissions Analyst) \<subset> set (role_permissions Operator) \<and>
   set (role_permissions Administrator) = UNIV \<and>
   UNIV - set (role_permissions Operator) =
     {P_workspace_manage, P_identity_manage, P_privacy_delete}"
proof -
  have "UNIV - set (role_permissions Operator) =
      set (filter (\<lambda>p. p \<notin> set (role_permissions Operator)) permissions)"
    using permissions_UNIV by auto
  also have "\<dots> = {P_workspace_manage, P_identity_manage, P_privacy_delete}"
    by (simp add: permissions_def)
  finally show ?thesis using permissions_UNIV by auto
qed

text \<open>The read model lists every permission once, in the order of the names.\<close>

lemma effective_permissions_sorted:
  "sorted (effective_permissions rs) \<and> distinct (effective_permissions rs)"
  by (simp add: effective_permissions_def)

lemma effective_permissions_cong:
  assumes "set rs = set rs'"
  shows "effective_permissions rs = effective_permissions rs'"
  by (rule sorted_distinct_set_unique)
     (use effective_permissions_sorted set_effective_permissions assms in \<open>auto\<close>)

section \<open>Administration resources and actions\<close>

datatype administration_resource =
    R_overview | R_secret_references | R_connector_instances | R_knowledge_sources |
    R_schedules | R_publication_profiles | R_webhook_endpoints | R_ai_provider_instances |
    R_ai_catalog_snapshots | R_ai_models | R_ai_bindings | R_ai_role_defaults |
    R_ai_pricing_overrides | R_ai_budgets | R_collections | R_retrieval_profiles |
    R_prompt_profiles | R_analysis_profiles | R_analysis_recipes | R_code_repositories |
    R_repository_execution_policies | R_attachment_policies | R_case_analysis_triggers |
    R_case_analysis_schedules | R_analyses | R_publications | R_operation_jobs |
    R_dead_letters | R_costs | R_retention | R_privacy | R_diagnostics | R_audit_events |
    R_workspaces | R_principals | R_role_assignments | R_platform

definition administration_resources :: "administration_resource list" where
  "administration_resources = [
    R_overview, R_secret_references, R_connector_instances, R_knowledge_sources, R_schedules,
    R_publication_profiles, R_webhook_endpoints, R_ai_provider_instances,
    R_ai_catalog_snapshots, R_ai_models, R_ai_bindings, R_ai_role_defaults,
    R_ai_pricing_overrides, R_ai_budgets, R_collections, R_retrieval_profiles,
    R_prompt_profiles, R_analysis_profiles, R_analysis_recipes, R_code_repositories,
    R_repository_execution_policies, R_attachment_policies, R_case_analysis_triggers,
    R_case_analysis_schedules, R_analyses, R_publications, R_operation_jobs, R_dead_letters,
    R_costs, R_retention, R_privacy, R_diagnostics, R_audit_events, R_workspaces, R_principals,
    R_role_assignments, R_platform]"

datatype administration_action =
    A_connector_test | A_connector_activate | A_connector_disable | A_provider_test |
    A_provider_activate | A_provider_disable | A_repository_test | A_repository_activate |
    A_repository_disable | A_repository_execution_policy_activate |
    A_repository_execution_policy_disable | A_attachment_policy_activate |
    A_attachment_policy_disable | A_analysis_recipe_activate | A_analysis_recipe_disable |
    A_case_analysis_trigger_activate | A_case_analysis_trigger_disable |
    A_case_analysis_schedule_activate | A_case_analysis_schedule_disable |
    A_source_synchronize | A_source_fullRescan | A_dead_letter_retry | A_job_cancel |
    A_job_recover | A_retention_reap | A_privacy_purge | A_diagnostics_export |
    A_secret_rotate | A_secret_reconcile | A_secret_revoke | A_publication_approve

definition administration_actions :: "administration_action list" where
  "administration_actions = [
    A_connector_test, A_connector_activate, A_connector_disable, A_provider_test,
    A_provider_activate, A_provider_disable, A_repository_test, A_repository_activate,
    A_repository_disable, A_repository_execution_policy_activate,
    A_repository_execution_policy_disable, A_attachment_policy_activate,
    A_attachment_policy_disable, A_analysis_recipe_activate, A_analysis_recipe_disable,
    A_case_analysis_trigger_activate, A_case_analysis_trigger_disable,
    A_case_analysis_schedule_activate, A_case_analysis_schedule_disable, A_source_synchronize,
    A_source_fullRescan, A_dead_letter_retry, A_job_cancel, A_job_recover, A_retention_reap,
    A_privacy_purge, A_diagnostics_export, A_secret_rotate, A_secret_reconcile,
    A_secret_revoke, A_publication_approve]"

record resource_policy =
  rp_permission :: permission
  readAction :: string
  sensitiveRead :: bool

record action_policy =
  ap_permission :: permission
  actionCode :: string
  ap_target :: administration_resource

fun resource_policies :: "administration_resource \<Rightarrow> resource_policy" where
  "resource_policies R_overview =
     \<lparr>rp_permission = P_operations_inspect, readAction = ''admin.overview.read'', sensitiveRead = False\<rparr>"
| "resource_policies R_secret_references =
     \<lparr>rp_permission = P_credential_readMetadata, readAction = ''admin.secretReference.list'', sensitiveRead = True\<rparr>"
| "resource_policies R_connector_instances =
     \<lparr>rp_permission = P_configuration_read, readAction = ''admin.connectorInstance.list'', sensitiveRead = False\<rparr>"
| "resource_policies R_knowledge_sources =
     \<lparr>rp_permission = P_configuration_read, readAction = ''admin.knowledgeSource.list'', sensitiveRead = False\<rparr>"
| "resource_policies R_schedules =
     \<lparr>rp_permission = P_configuration_read, readAction = ''admin.schedule.list'', sensitiveRead = False\<rparr>"
| "resource_policies R_publication_profiles =
     \<lparr>rp_permission = P_configuration_read, readAction = ''admin.publicationProfile.list'', sensitiveRead = False\<rparr>"
| "resource_policies R_webhook_endpoints =
     \<lparr>rp_permission = P_configuration_read, readAction = ''admin.webhookEndpoint.list'', sensitiveRead = True\<rparr>"
| "resource_policies R_ai_provider_instances =
     \<lparr>rp_permission = P_configuration_read, readAction = ''admin.aiProviderInstance.list'', sensitiveRead = False\<rparr>"
| "resource_policies R_ai_catalog_snapshots =
     \<lparr>rp_permission = P_configuration_read, readAction = ''admin.aiCatalogSnapshot.list'', sensitiveRead = False\<rparr>"
| "resource_policies R_ai_models =
     \<lparr>rp_permission = P_configuration_read, readAction = ''admin.aiModel.list'', sensitiveRead = False\<rparr>"
| "resource_policies R_ai_bindings =
     \<lparr>rp_permission = P_configuration_read, readAction = ''admin.aiBinding.list'', sensitiveRead = False\<rparr>"
| "resource_policies R_ai_role_defaults =
     \<lparr>rp_permission = P_configuration_read, readAction = ''admin.aiRoleDefault.list'', sensitiveRead = False\<rparr>"
| "resource_policies R_ai_pricing_overrides =
     \<lparr>rp_permission = P_configuration_read, readAction = ''admin.aiPricingOverride.list'', sensitiveRead = False\<rparr>"
| "resource_policies R_ai_budgets =
     \<lparr>rp_permission = P_configuration_read, readAction = ''admin.aiBudget.list'', sensitiveRead = False\<rparr>"
| "resource_policies R_collections =
     \<lparr>rp_permission = P_configuration_read, readAction = ''admin.collection.list'', sensitiveRead = False\<rparr>"
| "resource_policies R_retrieval_profiles =
     \<lparr>rp_permission = P_configuration_read, readAction = ''admin.retrievalProfile.list'', sensitiveRead = False\<rparr>"
| "resource_policies R_prompt_profiles =
     \<lparr>rp_permission = P_configuration_read, readAction = ''admin.promptProfile.list'', sensitiveRead = False\<rparr>"
| "resource_policies R_analysis_profiles =
     \<lparr>rp_permission = P_configuration_read, readAction = ''admin.analysisProfile.list'', sensitiveRead = False\<rparr>"
| "resource_policies R_analysis_recipes =
     \<lparr>rp_permission = P_configuration_read, readAction = ''admin.analysisRecipe.list'', sensitiveRead = False\<rparr>"
| "resource_policies R_code_repositories =
     \<lparr>rp_permission = P_configuration_read, readAction = ''admin.codeRepository.list'', sensitiveRead = True\<rparr>"
| "resource_policies R_repository_execution_policies =
     \<lparr>rp_permission = P_configuration_read, readAction = ''admin.repositoryExecutionPolicy.list'', sensitiveRead = False\<rparr>"
| "resource_policies R_attachment_policies =
     \<lparr>rp_permission = P_configuration_read, readAction = ''admin.attachmentPolicy.list'', sensitiveRead = False\<rparr>"
| "resource_policies R_case_analysis_triggers =
     \<lparr>rp_permission = P_configuration_read, readAction = ''admin.caseAnalysisTrigger.list'', sensitiveRead = False\<rparr>"
| "resource_policies R_case_analysis_schedules =
     \<lparr>rp_permission = P_configuration_read, readAction = ''admin.caseAnalysisSchedule.list'', sensitiveRead = False\<rparr>"
| "resource_policies R_analyses =
     \<lparr>rp_permission = P_analysis_read, readAction = ''admin.analysis.list'', sensitiveRead = True\<rparr>"
| "resource_policies R_publications =
     \<lparr>rp_permission = P_analysis_read, readAction = ''admin.publication.list'', sensitiveRead = True\<rparr>"
| "resource_policies R_operation_jobs =
     \<lparr>rp_permission = P_operations_inspect, readAction = ''admin.operationJob.list'', sensitiveRead = True\<rparr>"
| "resource_policies R_dead_letters =
     \<lparr>rp_permission = P_operations_inspect, readAction = ''admin.deadLetter.list'', sensitiveRead = True\<rparr>"
| "resource_policies R_costs =
     \<lparr>rp_permission = P_cost_read, readAction = ''admin.cost.list'', sensitiveRead = True\<rparr>"
| "resource_policies R_retention =
     \<lparr>rp_permission = P_operations_inspect, readAction = ''admin.retention.list'', sensitiveRead = False\<rparr>"
| "resource_policies R_privacy =
     \<lparr>rp_permission = P_privacy_delete, readAction = ''admin.privacy.list'', sensitiveRead = True\<rparr>"
| "resource_policies R_diagnostics =
     \<lparr>rp_permission = P_diagnostics_export, readAction = ''admin.diagnostics.list'', sensitiveRead = True\<rparr>"
| "resource_policies R_audit_events =
     \<lparr>rp_permission = P_audit_read, readAction = ''admin.auditEvent.list'', sensitiveRead = True\<rparr>"
| "resource_policies R_workspaces =
     \<lparr>rp_permission = P_workspace_manage, readAction = ''admin.workspace.list'', sensitiveRead = False\<rparr>"
| "resource_policies R_principals =
     \<lparr>rp_permission = P_identity_manage, readAction = ''admin.principal.list'', sensitiveRead = True\<rparr>"
| "resource_policies R_role_assignments =
     \<lparr>rp_permission = P_identity_manage, readAction = ''admin.roleAssignment.list'', sensitiveRead = True\<rparr>"
| "resource_policies R_platform =
     \<lparr>rp_permission = P_configuration_read, readAction = ''admin.platform.read'', sensitiveRead = False\<rparr>"

fun action_policies :: "administration_action \<Rightarrow> action_policy" where
  "action_policies A_connector_test =
     \<lparr>ap_permission = P_connector_manage, actionCode = ''admin.connector.test'',
      ap_target = R_connector_instances\<rparr>"
| "action_policies A_connector_activate =
     \<lparr>ap_permission = P_configuration_manage, actionCode = ''admin.connector.activate'',
      ap_target = R_connector_instances\<rparr>"
| "action_policies A_connector_disable =
     \<lparr>ap_permission = P_configuration_manage, actionCode = ''admin.connector.disable'',
      ap_target = R_connector_instances\<rparr>"
| "action_policies A_provider_test =
     \<lparr>ap_permission = P_configuration_manage, actionCode = ''admin.provider.test'',
      ap_target = R_ai_provider_instances\<rparr>"
| "action_policies A_provider_activate =
     \<lparr>ap_permission = P_configuration_manage, actionCode = ''admin.provider.activate'',
      ap_target = R_ai_provider_instances\<rparr>"
| "action_policies A_provider_disable =
     \<lparr>ap_permission = P_configuration_manage, actionCode = ''admin.provider.disable'',
      ap_target = R_ai_provider_instances\<rparr>"
| "action_policies A_repository_test =
     \<lparr>ap_permission = P_configuration_manage, actionCode = ''admin.codeRepository.test'',
      ap_target = R_code_repositories\<rparr>"
| "action_policies A_repository_activate =
     \<lparr>ap_permission = P_configuration_manage, actionCode = ''admin.codeRepository.activate'',
      ap_target = R_code_repositories\<rparr>"
| "action_policies A_repository_disable =
     \<lparr>ap_permission = P_configuration_manage, actionCode = ''admin.codeRepository.disable'',
      ap_target = R_code_repositories\<rparr>"
| "action_policies A_repository_execution_policy_activate =
     \<lparr>ap_permission = P_configuration_manage, actionCode = ''admin.repositoryExecutionPolicy.activate'',
      ap_target = R_repository_execution_policies\<rparr>"
| "action_policies A_repository_execution_policy_disable =
     \<lparr>ap_permission = P_configuration_manage, actionCode = ''admin.repositoryExecutionPolicy.disable'',
      ap_target = R_repository_execution_policies\<rparr>"
| "action_policies A_attachment_policy_activate =
     \<lparr>ap_permission = P_configuration_manage, actionCode = ''admin.attachmentPolicy.activate'',
      ap_target = R_attachment_policies\<rparr>"
| "action_policies A_attachment_policy_disable =
     \<lparr>ap_permission = P_configuration_manage, actionCode = ''admin.attachmentPolicy.disable'',
      ap_target = R_attachment_policies\<rparr>"
| "action_policies A_analysis_recipe_activate =
     \<lparr>ap_permission = P_configuration_manage, actionCode = ''admin.analysisRecipe.activate'',
      ap_target = R_analysis_recipes\<rparr>"
| "action_policies A_analysis_recipe_disable =
     \<lparr>ap_permission = P_configuration_manage, actionCode = ''admin.analysisRecipe.disable'',
      ap_target = R_analysis_recipes\<rparr>"
| "action_policies A_case_analysis_trigger_activate =
     \<lparr>ap_permission = P_configuration_manage, actionCode = ''admin.caseAnalysisTrigger.activate'',
      ap_target = R_case_analysis_triggers\<rparr>"
| "action_policies A_case_analysis_trigger_disable =
     \<lparr>ap_permission = P_configuration_manage, actionCode = ''admin.caseAnalysisTrigger.disable'',
      ap_target = R_case_analysis_triggers\<rparr>"
| "action_policies A_case_analysis_schedule_activate =
     \<lparr>ap_permission = P_configuration_manage, actionCode = ''admin.caseAnalysisSchedule.activate'',
      ap_target = R_case_analysis_schedules\<rparr>"
| "action_policies A_case_analysis_schedule_disable =
     \<lparr>ap_permission = P_configuration_manage, actionCode = ''admin.caseAnalysisSchedule.disable'',
      ap_target = R_case_analysis_schedules\<rparr>"
| "action_policies A_source_synchronize =
     \<lparr>ap_permission = P_connector_manage, actionCode = ''admin.knowledgeSource.synchronize'',
      ap_target = R_knowledge_sources\<rparr>"
| "action_policies A_source_fullRescan =
     \<lparr>ap_permission = P_connector_manage, actionCode = ''admin.knowledgeSource.fullRescan'',
      ap_target = R_knowledge_sources\<rparr>"
| "action_policies A_dead_letter_retry =
     \<lparr>ap_permission = P_operations_retry, actionCode = ''admin.deadLetter.retry'',
      ap_target = R_dead_letters\<rparr>"
| "action_policies A_job_cancel =
     \<lparr>ap_permission = P_analysis_cancel, actionCode = ''admin.operationJob.cancel'',
      ap_target = R_operation_jobs\<rparr>"
| "action_policies A_job_recover =
     \<lparr>ap_permission = P_operations_recover, actionCode = ''admin.operationJob.recover'',
      ap_target = R_operation_jobs\<rparr>"
| "action_policies A_retention_reap =
     \<lparr>ap_permission = P_retention_run, actionCode = ''admin.retention.reap'',
      ap_target = R_retention\<rparr>"
| "action_policies A_privacy_purge =
     \<lparr>ap_permission = P_privacy_delete, actionCode = ''admin.privacy.purge'',
      ap_target = R_privacy\<rparr>"
| "action_policies A_diagnostics_export =
     \<lparr>ap_permission = P_diagnostics_export, actionCode = ''admin.diagnostics.export'',
      ap_target = R_diagnostics\<rparr>"
| "action_policies A_secret_rotate =
     \<lparr>ap_permission = P_credential_manage, actionCode = ''admin.secretReference.rotate'',
      ap_target = R_secret_references\<rparr>"
| "action_policies A_secret_reconcile =
     \<lparr>ap_permission = P_credential_manage, actionCode = ''admin.secretReference.reconcile'',
      ap_target = R_secret_references\<rparr>"
| "action_policies A_secret_revoke =
     \<lparr>ap_permission = P_credential_manage, actionCode = ''admin.secretReference.revoke'',
      ap_target = R_secret_references\<rparr>"
| "action_policies A_publication_approve =
     \<lparr>ap_permission = P_publication_approve, actionCode = ''admin.publication.approve'',
      ap_target = R_publications\<rparr>"

definition policy_for_resource :: "administration_resource \<Rightarrow> resource_policy" where
  "policy_for_resource r = resource_policies r"

definition policy_for_action :: "administration_action \<Rightarrow> action_policy" where
  "policy_for_action a = action_policies a"

lemma administration_resources_UNIV: "set administration_resources = UNIV"
  by (rule UNIV_eq_I [symmetric], rename_tac r, case_tac r) (simp_all add: administration_resources_def)

lemma administration_actions_UNIV: "set administration_actions = UNIV"
  by (rule UNIV_eq_I [symmetric], rename_tac a, case_tac a) (simp_all add: administration_actions_def)

text \<open>Every audit code a read or an action is recorded under, in table order.\<close>

definition audit_codes :: "string list" where
  "audit_codes = map readAction (map policy_for_resource administration_resources) @
                 map actionCode (map policy_for_action administration_actions)"

lemma distinct_audit_codes: "distinct audit_codes"
  by code_simp

text \<open>
  An audit code identifies what was done.  The read codes of all resources and the action
  codes of all actions are pairwise different, so equal codes come from the same table row.
\<close>

theorem audit_codes_identify:
  "inj (\<lambda>r. readAction (policy_for_resource r)) \<and>
   inj (\<lambda>a. actionCode (policy_for_action a)) \<and>
   (\<forall>r a. readAction (policy_for_resource r) \<noteq> actionCode (policy_for_action a))"
proof -
  have d: "distinct (map (\<lambda>r. readAction (policy_for_resource r)) administration_resources)"
      "distinct (map (\<lambda>a. actionCode (policy_for_action a)) administration_actions)"
    using distinct_audit_codes by (simp_all add: audit_codes_def o_def)
  have disj: "set (map (\<lambda>r. readAction (policy_for_resource r)) administration_resources) \<inter>
      set (map (\<lambda>a. actionCode (policy_for_action a)) administration_actions) = {}"
    using distinct_audit_codes by (auto simp: audit_codes_def o_def)
  show ?thesis
    using d disj by (auto simp: distinct_map administration_resources_UNIV administration_actions_UNIV)
qed

definition role_may_act :: "workspace_role \<Rightarrow> administration_action \<Rightarrow> bool" where
  "role_may_act r a \<longleftrightarrow> ap_permission (policy_for_action a) \<in> set (role_permissions r)"

definition role_may_read :: "workspace_role \<Rightarrow> administration_resource \<Rightarrow> bool" where
  "role_may_read r x \<longleftrightarrow> rp_permission (policy_for_resource x) \<in> set (role_permissions r)"

lemma operator_actions_table:
  "list_all (\<lambda>a. role_may_act Operator a = (a \<noteq> A_privacy_purge)) administration_actions"
  by code_simp

lemma reader_actions_table:
  "list_all (\<lambda>a. \<not> role_may_act Analyst a \<and> \<not> role_may_act Viewer a) administration_actions"
  by code_simp

lemma operator_reads_table:
  "list_all (\<lambda>x. role_may_read Operator x =
     (x \<notin> set [R_workspaces, R_principals, R_role_assignments, R_privacy])) administration_resources"
  by code_simp

lemma reader_reads_table:
  "list_all (\<lambda>x. role_may_read Viewer x = (x \<in> set [R_analyses, R_publications]) \<and>
     role_may_read Analyst x = (x \<in> set [R_analyses, R_publications])) administration_resources"
  by code_simp

text \<open>
  What each role can do in the administration console.  An operator may perform every action
  but the privacy purge and read every resource but workspaces, principals, role assignments and
  privacy; an analyst or a viewer may perform no action at all and read analyses and publications
  only; an administrator may do everything.
\<close>

theorem console_capabilities:
  "(role_may_act Operator a \<longleftrightarrow> a \<noteq> A_privacy_purge) \<and>
   (role_may_read Operator x \<longleftrightarrow> x \<notin> {R_workspaces, R_principals, R_role_assignments, R_privacy}) \<and>
   \<not> role_may_act Analyst a \<and> \<not> role_may_act Viewer a \<and>
   (role_may_read Viewer x \<longleftrightarrow> x \<in> {R_analyses, R_publications}) \<and>
   (role_may_read Analyst x \<longleftrightarrow> x \<in> {R_analyses, R_publications}) \<and>
   role_may_act Administrator a \<and> role_may_read Administrator x"
proof -
  have a: "a \<in> set administration_actions" by (simp add: administration_actions_UNIV)
  have x: "x \<in> set administration_resources" by (simp add: administration_resources_UNIV)
  have adm: "role_may_act Administrator a" "role_may_read Administrator x"
    by (simp_all add: role_may_act_def role_may_read_def permissions_UNIV)
  show ?thesis
    using adm a x operator_actions_table reader_actions_table operator_reads_table reader_reads_table
    by (simp add: list_all_iff)
qed

end
