(* ===== verification/Canonical_Json.thy ===== *)
theory Canonical_Json
  imports Prelude
begin

text \<open>
  Canonical JSON and the identities hashed from it: \<open>packages/connector-sdk/src/hash.ts\<close>
  (\<open>canonicalize\<close>, \<open>canonicalJson\<close>), \<open>packages/analysis/src/identity.ts\<close> and
  \<open>packages/knowledge/src/hashing.ts\<close> (each with its own \<open>canonicalize\<close>), and of the language
  \<open>JSON.stringify\<close> and the order in which an object lists its properties.  A finite number is
  the text \<open>String(value)\<close> gives for it.  SHA-256 is an argument.
\<close>

section \<open>Values\<close>

datatype js_value =
    JsNull | JsBool bool | JsNumber "string option" | JsText string
  | JsArray "js_value list" | JsObject "(string \<times> js_value) list"
  | JsUndefined | JsForeign | JsInstance "(string \<times> js_value) list"

text \<open>\<open>JsNumber None\<close> is a non-finite number; \<open>JsForeign\<close> a function, a symbol or a big integer, \<open>JsInstance\<close> an object with a prototype of its own.\<close>

datatype canonical_error = NonFiniteNumber | NotPlainObject | TopLevelUndefined | NotJsonCompatible

section \<open>JSON.stringify\<close>

definition backslash :: char where "backslash = CHR 0x5C"

definition quote_mark :: char where "quote_mark = CHR 0x22"

definition hex_digit :: "nat \<Rightarrow> char" where
  "hex_digit n = (if n < 10 then char_of (48 + n) else char_of (87 + n))"

definition json_escape :: "char \<Rightarrow> string" where
  "json_escape c = (let n = of_char c :: nat in
     if n = 34 then [backslash, quote_mark]
     else if n = 92 then [backslash, backslash]
     else if n = 8 then [backslash, CHR ''b'']
     else if n = 9 then [backslash, CHR ''t'']
     else if n = 10 then [backslash, CHR ''n'']
     else if n = 12 then [backslash, CHR ''f'']
     else if n = 13 then [backslash, CHR ''r'']
     else if n < 32 then [backslash, CHR ''u'', CHR ''0'', CHR ''0'', hex_digit (n div 16), hex_digit (n mod 16)]
     else [c])"

definition json_string :: "string \<Rightarrow> string" where
  "json_string s = quote_mark # concat (map json_escape s) @ [quote_mark]"

text \<open>The text of a value that holds no undefined or foreign part; a non-finite number gives \<open>null\<close>.\<close>

fun json_text :: "js_value \<Rightarrow> string" and json_items :: "js_value list \<Rightarrow> string list"
  and json_entries :: "(string \<times> js_value) list \<Rightarrow> string list" where
  "json_text JsNull = ''null''"
| "json_text (JsBool b) = (if b then ''true'' else ''false'')"
| "json_text (JsNumber n) = (case n of None \<Rightarrow> ''null'' | Some t \<Rightarrow> t)"
| "json_text (JsText s) = json_string s"
| "json_text (JsArray xs) = ''['' @ join '','' (json_items xs) @ '']''"
| "json_text (JsObject es) = ''{'' @ join '','' (json_entries es) @ ''}''"
| "json_text JsUndefined = []"
| "json_text JsForeign = []"
| "json_text (JsInstance es) = ''{'' @ join '','' (json_entries es) @ ''}''"
| "json_items [] = []"
| "json_items (x # xs) = json_text x # json_items xs"
| "json_entries [] = []"
| "json_entries ((k, v) # es) = (json_string k @ '':'' @ json_text v) # json_entries es"

section \<open>The canonical value of hash.ts\<close>

text \<open>
  The order of the properties of an object: array indices in numeric order, then the other keys in
  the order of insertion.  Assigning to \<open>__proto__\<close> makes no property.
\<close>

definition array_index :: "string \<Rightarrow> bool" where
  "array_index k \<longleftrightarrow> k \<noteq> [] \<and> list_all is_digit k \<and> (k = ''0'' \<or> hd k \<noteq> CHR ''0'') \<and> digits_value k < 4294967295"

definition proto_key :: string where
  "proto_key = ''__proto__''"

definition object_of :: "(string \<times> js_value) list \<Rightarrow> (string \<times> js_value) list" where
  "object_of es = (let own = filter (\<lambda>e. fst e \<noteq> proto_key) es in
     sort_by (\<lambda>a b. digits_value (fst a) \<le> digits_value (fst b)) (filter (\<lambda>e. array_index (fst e)) own) @
     filter (\<lambda>e. \<not> array_index (fst e)) own)"

definition sequence_entries ::
  "(string \<times> (canonical_error, js_value) result) list \<Rightarrow> (canonical_error, (string \<times> js_value) list) result" where
  "sequence_entries rs = rmapM (\<lambda>(k, r). rbind r (\<lambda>v. Inr (k, v))) rs"

definition sort_entries :: "(string \<times> 'v) list \<Rightarrow> (string \<times> 'v) list" where
  "sort_entries es = sort_by (\<lambda>a b. fst a \<le> fst b) es"

fun canonicalize :: "js_value \<Rightarrow> (canonical_error, js_value) result"
  and canonical_items :: "js_value list \<Rightarrow> (canonical_error, js_value list) result"
  and canonical_entries :: "(string \<times> js_value) list \<Rightarrow> (string \<times> (canonical_error, js_value) result) list" where
  "canonicalize JsNull = Inr JsNull"
| "canonicalize (JsBool b) = Inr (JsBool b)"
| "canonicalize (JsText s) = Inr (JsText s)"
| "canonicalize (JsNumber n) = (case n of None \<Rightarrow> Inl NonFiniteNumber | Some t \<Rightarrow> Inr (JsNumber (Some t)))"
| "canonicalize (JsArray xs) = rbind (canonical_items xs) (\<lambda>ys. Inr (JsArray ys))"
| "canonicalize (JsObject es) =
     rbind (sequence_entries (sort_entries (canonical_entries es))) (\<lambda>rs. Inr (JsObject (object_of rs)))"
| "canonicalize JsUndefined = Inl TopLevelUndefined"
| "canonicalize JsForeign = Inl NotJsonCompatible"
| "canonicalize (JsInstance es) = Inl NotPlainObject"
| "canonical_items [] = Inr []"
| "canonical_items (x # xs) =
     rbind (if x = JsUndefined then Inl NotJsonCompatible else canonicalize x) (\<lambda>y.
     rbind (canonical_items xs) (\<lambda>ys. Inr (y # ys)))"
| "canonical_entries [] = []"
| "canonical_entries ((k, v) # es) =
     (if v = JsUndefined then canonical_entries es else (k, canonicalize v) # canonical_entries es)"

definition canonical_json :: "js_value \<Rightarrow> (canonical_error, string) result" where
  "canonical_json v = rbind (canonicalize v) (\<lambda>c. Inr (json_text c))"

definition sha256_canonical_json :: "(string \<Rightarrow> string) \<Rightarrow> js_value \<Rightarrow> (canonical_error, string) result" where
  "sha256_canonical_json sha256 v = rbind (canonical_json v) (\<lambda>t. Inr (sha256 t))"

section \<open>The canonical texts of identity.ts and hashing.ts\<close>

text \<open>\<open>identity.ts\<close>: no test for non-finite numbers, an undefined property is an error.\<close>

definition sequence_texts ::
  "(string \<times> (canonical_error, string) result) list \<Rightarrow> (canonical_error, string list) result" where
  "sequence_texts rs = rmapM (\<lambda>(k, r). rbind r (\<lambda>t. Inr (json_string k @ '':'' @ t))) rs"

fun identity_text :: "js_value \<Rightarrow> (canonical_error, string) result"
  and identity_items :: "js_value list \<Rightarrow> (canonical_error, string list) result"
  and identity_entries :: "(string \<times> js_value) list \<Rightarrow> (string \<times> (canonical_error, string) result) list" where
  "identity_text JsNull = Inr ''null''"
| "identity_text (JsBool b) = Inr (json_text (JsBool b))"
| "identity_text (JsNumber n) = Inr (json_text (JsNumber n))"
| "identity_text (JsText s) = Inr (json_string s)"
| "identity_text (JsArray xs) = rbind (identity_items xs) (\<lambda>ts. Inr (''['' @ join '','' ts @ '']''))"
| "identity_text (JsObject es) =
     rbind (sequence_texts (sort_entries (identity_entries es))) (\<lambda>ts. Inr (''{'' @ join '','' ts @ ''}''))"
| "identity_text JsUndefined = Inl NotJsonCompatible"
| "identity_text JsForeign = Inl NotJsonCompatible"
| "identity_text (JsInstance es) =
     rbind (sequence_texts (sort_entries (identity_entries es))) (\<lambda>ts. Inr (''{'' @ join '','' ts @ ''}''))"
| "identity_items [] = Inr []"
| "identity_items (x # xs) = rbind (identity_text x) (\<lambda>t. rbind (identity_items xs) (\<lambda>ts. Inr (t # ts)))"
| "identity_entries [] = []"
| "identity_entries ((k, v) # es) = (k, identity_text v) # identity_entries es"

text \<open>\<open>hashing.ts\<close>: its argument type has no undefined or foreign values.\<close>

fun hashing_text :: "js_value \<Rightarrow> (canonical_error, string) result"
  and hashing_items :: "js_value list \<Rightarrow> (canonical_error, string list) result"
  and hashing_entries :: "(string \<times> js_value) list \<Rightarrow> (string \<times> (canonical_error, string) result) list" where
  "hashing_text JsNull = Inr ''null''"
| "hashing_text (JsBool b) = Inr (json_text (JsBool b))"
| "hashing_text (JsNumber n) = (case n of None \<Rightarrow> Inl NonFiniteNumber | Some t \<Rightarrow> Inr t)"
| "hashing_text (JsText s) = Inr (json_string s)"
| "hashing_text (JsArray xs) = rbind (hashing_items xs) (\<lambda>ts. Inr (''['' @ join '','' ts @ '']''))"
| "hashing_text (JsObject es) =
     rbind (sequence_texts (sort_entries (hashing_entries es))) (\<lambda>ts. Inr (''{'' @ join '','' ts @ ''}''))"
| "hashing_text JsUndefined = Inl NotJsonCompatible"
| "hashing_text JsForeign = Inl NotJsonCompatible"
| "hashing_text (JsInstance es) =
     rbind (sequence_texts (sort_entries (hashing_entries es))) (\<lambda>ts. Inr (''{'' @ join '','' ts @ ''}''))"
| "hashing_items [] = Inr []"
| "hashing_items (x # xs) = rbind (hashing_text x) (\<lambda>t. rbind (hashing_items xs) (\<lambda>ts. Inr (t # ts)))"
| "hashing_entries [] = []"
| "hashing_entries ((k, v) # es) = (k, hashing_text v) # hashing_entries es"

section \<open>The text of a value determines it\<close>

definition read_hex :: "char \<Rightarrow> nat" where
  "read_hex c = (let n = of_char c :: nat in if n < 58 then n - 48 else n - 87)"

fun read_escape :: "string \<Rightarrow> (char \<times> string) option" where
  "read_escape [] = None"
| "read_escape (c # s) =
     (if c \<noteq> backslash then Some (c, s)
      else (case s of
          [] \<Rightarrow> None
        | d # r \<Rightarrow>
            if d = CHR ''u'' then (case r of z # y # h # l # rest \<Rightarrow> Some (char_of (16 * read_hex h + read_hex l), rest) | _ \<Rightarrow> None)
            else Some (if d = CHR ''b'' then char_of (8 :: nat) else if d = CHR ''t'' then char_of (9 :: nat)
              else if d = CHR ''n'' then char_of (10 :: nat) else if d = CHR ''f'' then char_of (12 :: nat)
              else if d = CHR ''r'' then char_of (13 :: nat) else d, r)))"

lemma read_hex_digit: "n < 16 \<Longrightarrow> read_hex (hex_digit n) = n"
  by (auto simp: read_hex_def hex_digit_def Let_def)

lemma of_char_eqD: "(of_char c :: nat) = n \<Longrightarrow> c = char_of n"
  by (metis char_of_char)

lemma quoted_chars: "(of_char c :: nat) = 34 \<longleftrightarrow> c = CHR 0x22" "(of_char c :: nat) = 92 \<longleftrightarrow> c = CHR 0x5C"
proof -
  have "(of_char c :: nat) = of_char (CHR 0x22) \<longleftrightarrow> c = CHR 0x22" "(of_char c :: nat) = of_char (CHR 0x5C) \<longleftrightarrow> c = CHR 0x5C"
    by (rule of_char_eq_iff)+
  then show "(of_char c :: nat) = 34 \<longleftrightarrow> c = CHR 0x22" "(of_char c :: nat) = 92 \<longleftrightarrow> c = CHR 0x5C" by simp_all
qed

lemma read_json_escape: "read_escape (json_escape c @ r) = Some (c, r)"
proof -
  let ?n = "of_char c :: nat"
  have small: "?n div 16 < 16" "?n mod 16 < 16" if "?n < 32" using that by auto
  have recode: "char_of (16 * (?n div 16) + ?n mod 16) = c" by simp
  have plain: "c \<noteq> backslash" if "?n \<noteq> 92" using that by (auto simp: backslash_def)
  show ?thesis
  proof (cases "?n \<in> {34, 92, 8, 9, 10, 12, 13}")
    case True
    then show ?thesis
      by (auto simp: json_escape_def backslash_def quote_mark_def quoted_chars dest: of_char_eqD)
  next
    case False
    then show ?thesis
    proof (cases "?n < 32")
      case True
      then show ?thesis using False small
        by (simp add: json_escape_def Let_def read_hex_digit recode)
    qed (simp add: json_escape_def Let_def plain)
  qed
qed

lemma json_escape_nonempty: "json_escape c \<noteq> []"
  by (simp add: json_escape_def Let_def)

lemma hd_json_escape: "hd (json_escape c @ r) \<noteq> quote_mark"
  by (auto simp: json_escape_def Let_def backslash_def quote_mark_def)

lemma escaped_inj:
  "concat (map json_escape s) @ quote_mark # r = concat (map json_escape t) @ quote_mark # r' \<Longrightarrow> s = t \<and> r = r'"
proof (induction s arbitrary: t)
  case Nil
  then show ?case using hd_json_escape by (cases t) (auto, metis list.sel(1))
next
  case (Cons c s)
  obtain d t' where t: "t = d # t'"
  proof (cases t)
    case Nil
    then have "json_escape c @ concat (map json_escape s) @ quote_mark # r = quote_mark # r'" using Cons.prems by simp
    then have "hd (json_escape c @ concat (map json_escape s) @ quote_mark # r) = quote_mark" by simp
    then show ?thesis using hd_json_escape by blast
  qed
  have "read_escape (json_escape c @ concat (map json_escape s) @ quote_mark # r) =
      read_escape (json_escape d @ concat (map json_escape t') @ quote_mark # r')"
    using Cons.prems t by simp
  then have "c = d \<and> concat (map json_escape s) @ quote_mark # r = concat (map json_escape t') @ quote_mark # r'"
    by (simp only: read_json_escape option.inject prod.inject)
  then show ?case using Cons.IH [of t'] t by simp
qed

lemma json_string_inj: "json_string s @ r = json_string t @ r' \<Longrightarrow> s = t \<and> r = r'"
  using escaped_inj [of s r t r'] by (simp add: json_string_def)

text \<open>The values \<open>JSON.stringify\<close> renders without loss: finite numbers, and no undefined or foreign part.\<close>

definition number_char :: "char \<Rightarrow> bool" where
  "number_char c \<longleftrightarrow> is_digit c \<or> c \<in> {CHR ''-'', CHR ''+'', CHR ''.'', CHR ''e''}"

definition number_text :: "string \<Rightarrow> bool" where
  "number_text t \<longleftrightarrow> t \<noteq> [] \<and> (is_digit (hd t) \<or> hd t = CHR ''-'') \<and> list_all number_char t"

fun json_value :: "js_value \<Rightarrow> bool" where
  "json_value JsNull \<longleftrightarrow> True"
| "json_value (JsBool b) \<longleftrightarrow> True"
| "json_value (JsNumber n) \<longleftrightarrow> (case n of None \<Rightarrow> False | Some t \<Rightarrow> number_text t)"
| "json_value (JsText s) \<longleftrightarrow> True"
| "json_value (JsArray xs) \<longleftrightarrow> list_all json_value xs"
| "json_value (JsObject es) \<longleftrightarrow> list_all (\<lambda>e. json_value (snd e)) es"
| "json_value JsUndefined \<longleftrightarrow> False"
| "json_value JsForeign \<longleftrightarrow> False"
| "json_value (JsInstance es) \<longleftrightarrow> False"

definition ends_value :: "string \<Rightarrow> bool" where
  "ends_value r \<longleftrightarrow> r = [] \<or> hd r \<in> {CHR '','', CHR '']'', CHR ''}''}"

fun items_tail :: "js_value list \<Rightarrow> string" where
  "items_tail [] = '']''"
| "items_tail (x # xs) = '','' @ json_text x @ items_tail xs"

fun entries_tail :: "(string \<times> js_value) list \<Rightarrow> string" where
  "entries_tail [] = ''}''"
| "entries_tail (e # es) = '','' @ json_string (fst e) @ '':'' @ json_text (snd e) @ entries_tail es"

lemma join_items: "join '','' (json_items (x # xs)) @ '']'' @ r = json_text x @ items_tail xs @ r"
proof (induction xs arbitrary: x)
  case Nil
  then show ?case by simp
next
  case (Cons y ys)
  then show ?case using Cons [of y] by simp
qed

lemma join_entries:
  "join '','' (json_entries (e # es)) @ ''}'' @ r = json_string (fst e) @ '':'' @ json_text (snd e) @ entries_tail es @ r"
proof (induction es arbitrary: e)
  case Nil
  then show ?case by (cases e) simp
next
  case (Cons f fs)
  then show ?case using Cons [of f] by (cases e; cases f) simp
qed

text \<open>The first character tells the kind of a value.\<close>

fun lead :: "js_value \<Rightarrow> char \<Rightarrow> bool" where
  "lead JsNull c \<longleftrightarrow> c = CHR ''n''"
| "lead (JsBool b) c \<longleftrightarrow> c = (if b then CHR ''t'' else CHR ''f'')"
| "lead (JsNumber n) c \<longleftrightarrow> is_digit c \<or> c = CHR ''-''"
| "lead (JsText s) c \<longleftrightarrow> c = quote_mark"
| "lead (JsArray xs) c \<longleftrightarrow> c = CHR ''[''"
| "lead (JsObject es) c \<longleftrightarrow> c = CHR ''{''"
| "lead JsUndefined c \<longleftrightarrow> False"
| "lead JsForeign c \<longleftrightarrow> False"
| "lead (JsInstance es) c \<longleftrightarrow> False"

lemma json_text_lead: "json_value v \<Longrightarrow> json_text v \<noteq> [] \<and> lead v (hd (json_text v))"
  by (cases v) (auto simp: json_string_def number_text_def split: option.splits)

lemma lead_not_closing: "lead v c \<Longrightarrow> c \<noteq> CHR '']'' \<and> c \<noteq> CHR ''}'' \<and> c \<noteq> CHR '',''"
  by (cases v) (auto simp: is_digit_def quote_mark_def Let_def)

lemma number_split:
  assumes "number_text t" "number_text t'" "ends_value r" "ends_value r'" "t @ r = t' @ r'"
  shows "t = t' \<and> r = r'"
proof -
  have none: "takeWhile number_char r = []" if "ends_value r" for r
    using that by (cases r) (auto simp: ends_value_def number_char_def is_digit_def Let_def)
  have "takeWhile number_char (t @ r) = t @ takeWhile number_char r" if "number_text t" for t r
    using that by (simp add: number_text_def list_all_iff)
  then have "t = t'" using assms none by (metis append_Nil2)
  then show ?thesis using assms(5) by simp
qed

text \<open>A value is read off the front of a text that goes on with a delimiter.\<close>

definition prefix_free :: "js_value \<Rightarrow> bool" where
  "prefix_free v \<longleftrightarrow> (\<forall>w r r'. json_value w \<longrightarrow> ends_value r \<longrightarrow> ends_value r' \<longrightarrow>
     json_text v @ r = json_text w @ r' \<longrightarrow> v = w \<and> r = r')"

lemma prefix_freeD:
  "\<lbrakk>prefix_free v; json_text v @ r = json_text w @ r'; json_value w; ends_value r; ends_value r'\<rbrakk> \<Longrightarrow> v = w \<and> r = r'"
  by (simp add: prefix_free_def)

lemma ends_items_tail: "ends_value (items_tail xs @ r)" "ends_value (entries_tail es @ r)"
  by (cases xs; simp add: ends_value_def) (cases es; simp add: ends_value_def)

lemma same_lead:
  assumes "json_value v" "json_value w" "json_text v @ r = json_text w @ r'"
  obtains c where "lead v c" "lead w c"
proof -
  have "hd (json_text v @ r) = hd (json_text v)" "hd (json_text w @ r') = hd (json_text w)"
    using json_text_lead [OF assms(1)] json_text_lead [OF assms(2)] by simp_all
  then show ?thesis
    using that [of "hd (json_text v)"] assms(3) json_text_lead [OF assms(1)] json_text_lead [OF assms(2)] by simp
qed

lemma text_not_closing: "json_value y \<Longrightarrow> json_text y @ s \<noteq> CHR '']'' # s'"
  using json_text_lead [of y] lead_not_closing [of y "CHR '']''"] by (cases "json_text y") auto

lemma string_not_closing: "json_string k @ s \<noteq> CHR ''}'' # s'"
  by (simp add: json_string_def quote_mark_def)

lemma items_tail_inj:
  "\<lbrakk>list_all json_value ys; list_all prefix_free xs; items_tail xs @ r = items_tail ys @ r'\<rbrakk> \<Longrightarrow> xs = ys \<and> r = r'"
proof (induction xs arbitrary: ys)
  case Nil
  then show ?case by (cases ys) auto
next
  case (Cons x xs)
  then obtain y ys' where ys: "ys = y # ys'" by (cases ys) auto
  have "json_text x @ items_tail xs @ r = json_text y @ items_tail ys' @ r'" using Cons.prems(3) ys by simp
  moreover have "prefix_free x" "json_value y" using Cons.prems(1,2) ys by simp_all
  ultimately have "x = y \<and> items_tail xs @ r = items_tail ys' @ r'"
    using ends_items_tail(1) by (intro prefix_freeD)
  moreover have "xs = ys' \<and> r = r'" if "items_tail xs @ r = items_tail ys' @ r'"
    using that Cons.prems(1,2) ys by (intro Cons.IH) simp_all
  ultimately show ?case using ys by simp
qed

lemma entry_split:
  assumes "json_string k @ '':'' @ json_text v @ t = json_string k' @ '':'' @ json_text v' @ t'"
    and "prefix_free v" "json_value v'" "ends_value t" "ends_value t'"
  shows "k = k' \<and> v = v' \<and> t = t'"
proof -
  have "k = k' \<and> '':'' @ json_text v @ t = '':'' @ json_text v' @ t'" using assms(1) by (rule json_string_inj)
  moreover have "v = v' \<and> t = t'" if "json_text v @ t = json_text v' @ t'"
    using that assms(2-5) by (intro prefix_freeD)
  ultimately show ?thesis by simp
qed

lemma entries_tail_inj:
  "\<lbrakk>list_all (\<lambda>e. json_value (snd e)) fs; list_all (\<lambda>e. prefix_free (snd e)) es;
    entries_tail es @ r = entries_tail fs @ r'\<rbrakk> \<Longrightarrow> es = fs \<and> r = r'"
proof (induction es arbitrary: fs)
  case Nil
  then show ?case by (cases fs) auto
next
  case (Cons e es)
  then obtain f fs' where fs: "fs = f # fs'" by (cases fs) auto
  have "json_string (fst e) @ '':'' @ json_text (snd e) @ entries_tail es @ r =
      json_string (fst f) @ '':'' @ json_text (snd f) @ entries_tail fs' @ r'" using Cons.prems(3) fs by simp
  moreover have "prefix_free (snd e)" "json_value (snd f)" using Cons.prems(1,2) fs by simp_all
  ultimately have "fst e = fst f \<and> snd e = snd f \<and> entries_tail es @ r = entries_tail fs' @ r'"
    using ends_items_tail(2) by (intro entry_split)
  moreover have "es = fs' \<and> r = r'" if "entries_tail es @ r = entries_tail fs' @ r'"
    using that Cons.prems(1,2) fs by (intro Cons.IH) simp_all
  ultimately show ?case using fs by (simp add: prod_eq_iff)
qed

definition array_body :: "js_value list \<Rightarrow> string" where
  "array_body xs = (case xs of [] \<Rightarrow> '']'' | x # ys \<Rightarrow> json_text x @ items_tail ys)"

definition object_body :: "(string \<times> js_value) list \<Rightarrow> string" where
  "object_body es = (case es of [] \<Rightarrow> ''}'' | e # fs \<Rightarrow> json_string (fst e) @ '':'' @ json_text (snd e) @ entries_tail fs)"

lemma json_bodies:
  "json_text (JsArray xs) = CHR ''['' # array_body xs" "json_text (JsObject es) = CHR ''{'' # object_body es"
proof -
  show "json_text (JsArray xs) = CHR ''['' # array_body xs"
    using join_items [where r = "[]"] by (cases xs) (simp_all add: array_body_def)
  show "json_text (JsObject es) = CHR ''{'' # object_body es"
  proof (cases es)
    case (Cons e fs)
    then show ?thesis using join_entries [of e fs "[]"] by (simp add: object_body_def)
  qed (simp add: object_body_def)
qed

lemma array_body_inj:
  assumes "list_all json_value xs" "list_all json_value ys" "list_all prefix_free xs" "array_body xs @ r = array_body ys @ r'"
  shows "xs = ys \<and> r = r'"
proof (cases xs)
  case Nil
  then show ?thesis using assms(2,4) text_not_closing by (cases ys) (auto simp: array_body_def, metis)
next
  case (Cons x xs')
  have ne: "ys \<noteq> []" using assms(1,4) Cons text_not_closing by (auto simp: array_body_def)
  then have "items_tail xs @ r = items_tail ys @ r'"
    using assms(4) Cons by (cases ys) (simp_all add: array_body_def)
  then show ?thesis by (rule items_tail_inj [OF assms(2,3)])
qed

lemma object_body_inj:
  assumes "list_all (\<lambda>e. json_value (snd e)) es" "list_all (\<lambda>e. json_value (snd e)) fs"
    "list_all (\<lambda>e. prefix_free (snd e)) es" "object_body es @ r = object_body fs @ r'"
  shows "es = fs \<and> r = r'"
proof (cases es)
  case Nil
  then show ?thesis using assms(4) string_not_closing by (cases fs) (auto simp: object_body_def, metis append_Cons append_Nil)
next
  case (Cons e es')
  have ne: "fs \<noteq> []" using assms(4) Cons string_not_closing by (auto simp: object_body_def)
  then have "entries_tail es @ r = entries_tail fs @ r'"
    using assms(4) Cons by (cases fs) (simp_all add: object_body_def)
  then show ?thesis by (rule entries_tail_inj [OF assms(2,3)])
qed

lemma json_prefix_free: "json_value v \<Longrightarrow> prefix_free v"
proof (induction v)
  case (JsArray xs)
  then have xs: "list_all json_value xs" "list_all prefix_free xs" by (auto simp: list_all_iff)
  show ?case
    unfolding prefix_free_def
  proof (intro allI impI)
    fix w r r' assume w: "json_value w" and eq: "json_text (JsArray xs) @ r = json_text w @ r'"
    obtain c where "lead (JsArray xs) c" "lead w c" using same_lead [OF JsArray.prems w eq] .
    then obtain ys where ys: "w = JsArray ys" by (cases w) (auto simp: is_digit_def quote_mark_def Let_def split: if_splits)
    have "array_body xs @ r = array_body ys @ r'" using eq unfolding ys json_bodies by simp
    then show "JsArray xs = w \<and> r = r'" using array_body_inj [OF xs(1) _ xs(2)] w ys by simp
  qed
next
  case (JsObject es)
  then have es: "list_all (\<lambda>e. json_value (snd e)) es" "list_all (\<lambda>e. prefix_free (snd e)) es" by (auto simp: list_all_iff)
  show ?case
    unfolding prefix_free_def
  proof (intro allI impI)
    fix w r r' assume w: "json_value w" and eq: "json_text (JsObject es) @ r = json_text w @ r'"
    obtain c where "lead (JsObject es) c" "lead w c" using same_lead [OF JsObject.prems w eq] .
    then obtain fs where fs: "w = JsObject fs" by (cases w) (auto simp: is_digit_def quote_mark_def Let_def split: if_splits)
    have "object_body es @ r = object_body fs @ r'" using eq unfolding fs json_bodies by simp
    then show "JsObject es = w \<and> r = r'" using object_body_inj [OF es(1) _ es(2)] w fs by simp
  qed
next
  case (JsNumber n)
  then obtain t where t: "n = Some t" "number_text t" by (cases n) auto
  show ?case
    unfolding prefix_free_def
  proof (intro allI impI)
    fix w r r' assume w: "json_value w" "ends_value r" "ends_value r'" and eq: "json_text (JsNumber n) @ r = json_text w @ r'"
    obtain c where "lead (JsNumber n) c" "lead w c" using same_lead [OF JsNumber.prems w(1) eq] .
    then obtain m where m: "w = JsNumber m" by (cases w) (auto simp: is_digit_def quote_mark_def Let_def split: if_splits)
    obtain t' where t': "m = Some t'" "number_text t'" using w(1) m by (cases m) auto
    show "JsNumber n = w \<and> r = r'" using number_split [OF t(2) t'(2) w(2,3)] eq t t' m by simp
  qed
next
  case (JsText s)
  show ?case
    unfolding prefix_free_def
  proof (intro allI impI)
    fix w r r' assume w: "json_value w" and eq: "json_text (JsText s) @ r = json_text w @ r'"
    obtain c where "lead (JsText s) c" "lead w c" using same_lead [OF JsText.prems w eq] .
    then obtain u where u: "w = JsText u" by (cases w) (auto simp: is_digit_def quote_mark_def Let_def split: if_splits)
    show "JsText s = w \<and> r = r'" using json_string_inj [of s r u r'] eq u by simp
  qed
next
  case (JsBool b)
  show ?case
    unfolding prefix_free_def
  proof (intro allI impI)
    fix w r r' assume w: "json_value w" and eq: "json_text (JsBool b) @ r = json_text w @ r'"
    obtain c where "lead (JsBool b) c" "lead w c" using same_lead [OF JsBool.prems w eq] .
    then have "w = JsBool b" by (cases w) (auto simp: is_digit_def quote_mark_def Let_def split: if_splits)
    then show "JsBool b = w \<and> r = r'" using eq by simp
  qed
next
  case JsNull
  show ?case
    unfolding prefix_free_def
  proof (intro allI impI)
    fix w r r' assume w: "json_value w" and eq: "json_text JsNull @ r = json_text w @ r'"
    obtain c where "lead JsNull c" "lead w c" using same_lead [OF JsNull.prems w eq] .
    then have "w = JsNull" by (cases w) (auto simp: is_digit_def quote_mark_def Let_def split: if_splits)
    then show "JsNull = w \<and> r = r'" using eq by simp
  qed
qed simp_all

lemma json_text_inj: "\<lbrakk>json_value v; json_value w; json_text v = json_text w\<rbrakk> \<Longrightarrow> v = w"
  using prefix_freeD [OF json_prefix_free, of v "[]" w "[]"] by (simp add: ends_value_def)

section \<open>Canonical values\<close>

text \<open>A value whose keys and numbers come from a JavaScript object: no key twice, numbers in their \<open>String\<close> form.\<close>

fun proper_value :: "js_value \<Rightarrow> bool" where
  "proper_value (JsNumber n) \<longleftrightarrow> (case n of None \<Rightarrow> True | Some t \<Rightarrow> number_text t)"
| "proper_value (JsArray xs) \<longleftrightarrow> list_all proper_value xs"
| "proper_value (JsObject es) \<longleftrightarrow> distinct (map fst es) \<and> list_all (\<lambda>e. proper_value (snd e)) es"
| "proper_value v \<longleftrightarrow> True"

interpretation entry_order: sort_order "\<lambda>a b :: string \<times> 'v. fst a \<le> fst b"
  by unfold_locales auto

lemma sort_entries_cong:
  assumes "mset es = mset fs" and "distinct (map fst es)"
  shows "sort_entries es = sort_entries fs"
  unfolding sort_entries_def
proof (rule entry_order.sort_unique [OF _ assms(1)])
  show "x = y" if "x \<in> set es" "y \<in> set es" "fst x \<le> fst y" "fst y \<le> fst x" for x y
    using that assms(2) by (metis antisym eq_key_imp_eq_value prod.collapse)
qed

lemma canonical_entries_eq:
  "canonical_entries es = map (\<lambda>(k, v). (k, canonicalize v)) (filter (\<lambda>e. snd e \<noteq> JsUndefined) es)"
  by (induction es) auto

lemma canonical_items_eq:
  "canonical_items xs = rmapM (\<lambda>x. if x = JsUndefined then Inl NotJsonCompatible else canonicalize x) xs"
  by (induction xs) simp_all

lemma canonical_object_permute:
  assumes "distinct (map fst es)"
    and "mset (filter (\<lambda>e. snd e \<noteq> JsUndefined) es) = mset (filter (\<lambda>e. snd e \<noteq> JsUndefined) fs)"
  shows "canonicalize (JsObject es) = canonicalize (JsObject fs)"
proof -
  have m: "mset (canonical_entries es) = mset (canonical_entries fs)"
    unfolding canonical_entries_eq mset_map assms(2) ..
  have "map fst (canonical_entries es) = map fst (filter (\<lambda>e. snd e \<noteq> JsUndefined) es)"
    unfolding canonical_entries_eq by (simp add: case_prod_beta comp_def)
  then have "distinct (map fst (canonical_entries es))" using assms(1) by (simp add: distinct_map_filter)
  then show ?thesis using sort_entries_cong [OF m] by simp
qed

lemma sequence_entries_Inr:
  "sequence_entries rs = Inr es \<longleftrightarrow> list_all2 (\<lambda>(k, r) (k', v). k' = k \<and> r = Inr v) rs es"
  unfolding sequence_entries_def rmapM_Inr_iff
  by (rule list.rel_cong) (auto simp: rbind_Inr_iff)

lemma canonicalize_json_value:
  "\<lbrakk>proper_value v; canonicalize v = Inr c\<rbrakk> \<Longrightarrow> json_value c"
proof (induction v arbitrary: c)
  case (JsNumber n)
  then show ?case by (cases n) auto
next
  case (JsArray xs)
  then obtain ys where ys: "c = JsArray ys" "canonical_items xs = Inr ys" by (auto simp: rbind_Inr_iff)
  then have all: "list_all2 (\<lambda>x y. (if x = JsUndefined then Inl NotJsonCompatible else canonicalize x) = Inr y) xs ys"
    by (simp add: canonical_items_eq rmapM_Inr_iff)
  have "json_value y" if y: "y \<in> set ys" for y
  proof -
    obtain i where i: "i < length ys" "y = ys ! i" using y by (auto simp: in_set_conv_nth)
    then have "canonicalize (xs ! i) = Inr y" "xs ! i \<in> set xs"
      using all by (auto simp: list_all2_conv_all_nth split: if_splits)
    then show ?thesis using JsArray by (auto simp: list_all_iff)
  qed
  then show ?case using ys by (simp add: list_all_iff)
next
  case (JsObject es)
  then obtain rs where rs: "c = JsObject (object_of rs)"
    "sequence_entries (sort_entries (canonical_entries es)) = Inr rs" by (auto simp: rbind_Inr_iff)
  have "json_value (snd e)" if e: "e \<in> set rs" for e
  proof -
    obtain i where i: "i < length rs" "e = rs ! i" using e by (auto simp: in_set_conv_nth)
    let ?f = "sort_entries (canonical_entries es) ! i"
    have len: "length (sort_entries (canonical_entries es)) = length rs" and f: "snd ?f = Inr (snd e)"
      using rs(2) i by (auto simp: sequence_entries_Inr list_all2_conv_all_nth case_prod_beta)
    then have "?f \<in> set (sort_entries (canonical_entries es))" using i by simp
    then have "?f \<in> set (canonical_entries es)" by (simp add: sort_entries_def)
    then obtain k v where kv: "(k, v) \<in> set es" "?f = (k, canonicalize v)" by (auto simp: canonical_entries_eq)
    then have "proper_value v" using JsObject.prems(1) by (auto simp: list_all_iff)
    then show ?thesis using JsObject.IH [of "(k, v)" v "snd e"] kv f by (simp add: snds.simps)
  qed
  moreover have "set (object_of rs) \<subseteq> set rs" by (auto simp: object_of_def Let_def)
  ultimately show ?case using rs(1) by (auto simp: list_all_iff)
qed auto



section \<open>The three canonical texts agree\<close>

text \<open>A value without undefined or foreign parts, index-like keys and \<open>__proto__\<close>, as the callers of the three build it.\<close>

fun plain_value :: "js_value \<Rightarrow> bool" where
  "plain_value (JsNumber n) \<longleftrightarrow> (case n of None \<Rightarrow> False | Some t \<Rightarrow> number_text t)"
| "plain_value (JsArray xs) \<longleftrightarrow> list_all plain_value xs"
| "plain_value (JsObject es) \<longleftrightarrow> distinct (map fst es) \<and>
     list_all (\<lambda>e. \<not> array_index (fst e) \<and> fst e \<noteq> proto_key \<and> plain_value (snd e)) es"
| "plain_value JsUndefined \<longleftrightarrow> False"
| "plain_value JsForeign \<longleftrightarrow> False"
| "plain_value (JsInstance es) \<longleftrightarrow> False"
| "plain_value v \<longleftrightarrow> True"

lemma insert_entries_map:
  "insert_by (\<lambda>a b. fst a \<le> fst b) (k, g v) (map (\<lambda>(k, v). (k, g v)) es) =
     map (\<lambda>(k, v). (k, g v)) (insert_by (\<lambda>a b. fst a \<le> fst b) (k, v) es)"
  by (induction es) auto

lemma sort_entries_map: "sort_entries (map (\<lambda>(k, v). (k, g v)) es) = map (\<lambda>(k, v). (k, g v)) (sort_entries es)"
  unfolding sort_entries_def by (induction es) (auto simp: insert_entries_map)

lemma entries_eq:
  "identity_entries es = map (\<lambda>(k, v). (k, identity_text v)) es"
  "hashing_entries es = map (\<lambda>(k, v). (k, hashing_text v)) es"
  by (induction es) auto

lemma items_eq: "identity_items xs = rmapM identity_text xs" "hashing_items xs = rmapM hashing_text xs"
  by (induction xs) simp_all

lemma json_items_eq: "json_items xs = map json_text xs"
  by (induction xs) simp_all

lemma json_entries_eq: "json_entries es = map (\<lambda>(k, v). json_string k @ '':'' @ json_text v) es"
  by (induction es) auto

lemma rmapM_pure: "(\<And>x. x \<in> set xs \<Longrightarrow> f x = Inr (g x)) \<Longrightarrow> rmapM f xs = Inr (map g xs)"
  by (induction xs) auto

lemma rmapM_entries:
  "(\<And>k v. (k, v) \<in> set es \<Longrightarrow> f v = Inr (g v)) \<Longrightarrow>
   rmapM (\<lambda>(k, r). rbind r (\<lambda>x. Inr (h k x))) (map (\<lambda>(k, v). (k, f v)) es) = Inr (map (\<lambda>(k, v). h k (g v)) es)"
proof (induction es)
  case Nil
  then show ?case by simp
next
  case (Cons e es)
  obtain k v where e: "e = (k, v)" by fastforce
  have "f v = Inr (g v)" using Cons.prems [of k v] e by simp
  moreover have "rmapM (\<lambda>(k, r). rbind r (\<lambda>x. Inr (h k x))) (map (\<lambda>(k, v). (k, f v)) es) = Inr (map (\<lambda>(k, v). h k (g v)) es)"
  proof (rule Cons.IH)
    fix k v assume "(k, v) \<in> set es"
    then show "f v = Inr (g v)" using Cons.prems [of k v] by simp
  qed
  ultimately show ?case using e by simp
qed

lemma object_of_plain:
  assumes "list_all (\<lambda>e. \<not> array_index (fst e) \<and> fst e \<noteq> proto_key) es"
  shows "object_of es = es"
proof -
  have "filter (\<lambda>e. fst e \<noteq> proto_key) es = es" "filter (\<lambda>e. array_index (fst e)) es = []"
    "filter (\<lambda>e. \<not> array_index (fst e)) es = es"
    using assms by (auto simp: filter_id_conv filter_empty_conv list_all_iff)
  then show ?thesis by (simp add: object_of_def)
qed

definition canonical_of :: "js_value \<Rightarrow> js_value" where
  "canonical_of v = (case canonicalize v of Inr c \<Rightarrow> c | Inl e \<Rightarrow> JsNull)"

definition texts_agree :: "js_value \<Rightarrow> bool" where
  "texts_agree v \<longleftrightarrow> canonicalize v = Inr (canonical_of v) \<and> identity_text v = Inr (json_text (canonical_of v)) \<and>
     hashing_text v = Inr (json_text (canonical_of v))"

lemma texts_agreeI:
  assumes "canonicalize v = Inr c" "identity_text v = Inr (json_text c)" "hashing_text v = Inr (json_text c)"
  shows "texts_agree v"
  using assms by (simp add: texts_agree_def canonical_of_def)

lemma object_canonical:
  assumes plain: "plain_value (JsObject es)" and IH: "\<And>k v. (k, v) \<in> set es \<Longrightarrow> texts_agree v"
  shows "canonicalize (JsObject es) = Inr (JsObject (map (\<lambda>(k, v). (k, canonical_of v)) (sort_entries es)))"
proof -
  let ?s = "sort_entries es" and ?c = "map (\<lambda>(k, v). (k, canonical_of v)) (sort_entries es)"
  have mem: "(k, v) \<in> set ?s \<longleftrightarrow> (k, v) \<in> set es" for k v by (simp add: sort_entries_def)
  have "filter (\<lambda>e. snd e \<noteq> JsUndefined) es = es"
    using plain by (auto simp: filter_id_conv list_all_iff)
  then have entries: "canonical_entries es = map (\<lambda>(k, v). (k, canonicalize v)) es" by (simp add: canonical_entries_eq)
  have seq: "sequence_entries (map (\<lambda>(k, v). (k, canonicalize v)) ?s) = Inr ?c"
    unfolding sequence_entries_def using IH mem by (intro rmapM_entries) (auto simp: texts_agree_def)
  have "object_of ?c = ?c"
    using plain mem by (intro object_of_plain) (fastforce simp: list_all_iff)
  then show ?thesis
    by (simp only: canonicalize.simps entries sort_entries_map seq rbind.simps)
qed

lemma object_texts_agree:
  assumes plain: "plain_value (JsObject es)" and IH: "\<And>k v. (k, v) \<in> set es \<Longrightarrow> texts_agree v"
  shows "texts_agree (JsObject es)"
proof -
  let ?s = "sort_entries es" and ?c = "map (\<lambda>(k, v). (k, canonical_of v)) (sort_entries es)"
  have mem: "(k, v) \<in> set ?s \<longleftrightarrow> (k, v) \<in> set es" for k v by (simp add: sort_entries_def)
  have texts: "sequence_texts (map (\<lambda>(k, v). (k, f v)) ?s) = Inr (json_entries ?c)"
    if f: "\<And>k v. (k, v) \<in> set es \<Longrightarrow> f v = Inr (json_text (canonical_of v))" for f
  proof -
    have "sequence_texts (map (\<lambda>(k, v). (k, f v)) ?s) = Inr (map (\<lambda>(k, v). json_string k @ '':'' @ json_text (canonical_of v)) ?s)"
      unfolding sequence_texts_def using f mem by (intro rmapM_entries) auto
    then show ?thesis by (simp add: json_entries_eq case_prod_beta comp_def)
  qed
  have f: "identity_text v = Inr (json_text (canonical_of v))" "hashing_text v = Inr (json_text (canonical_of v))"
    if "(k, v) \<in> set es" for k v
    using IH [OF that] by (simp_all add: texts_agree_def)
  show ?thesis
  proof (rule texts_agreeI [OF object_canonical [OF plain IH]])
    show "identity_text (JsObject es) = Inr (json_text (JsObject ?c))"
      by (simp only: identity_text.simps entries_eq sort_entries_map texts [OF f(1)] rbind.simps json_text.simps)
    show "hashing_text (JsObject es) = Inr (json_text (JsObject ?c))"
      by (simp only: hashing_text.simps entries_eq sort_entries_map texts [OF f(2)] rbind.simps json_text.simps)
  qed
qed

lemma array_texts_agree:
  assumes "plain_value (JsArray xs)" and IH: "\<And>x. x \<in> set xs \<Longrightarrow> texts_agree x"
  shows "texts_agree (JsArray xs)"
proof -
  have ne: "x \<noteq> JsUndefined" if "x \<in> set xs" for x using assms(1) that by (auto simp: list_all_iff)
  have "canonical_items xs = Inr (map canonical_of xs)"
    unfolding canonical_items_eq using IH ne by (intro rmapM_pure) (simp add: texts_agree_def)
  moreover have "identity_items xs = Inr (map (json_text \<circ> canonical_of) xs)"
    "hashing_items xs = Inr (map (json_text \<circ> canonical_of) xs)"
    unfolding items_eq using IH by (auto intro!: rmapM_pure simp: texts_agree_def)
  ultimately show ?thesis
    by (intro texts_agreeI [where c = "JsArray (map canonical_of xs)"]) (simp_all add: json_items_eq)
qed

lemma plain_texts_agree: "plain_value v \<Longrightarrow> texts_agree v"
proof (induction v)
  case (JsArray xs)
  then show ?case by (intro array_texts_agree) (auto simp: list_all_iff)
next
  case (JsObject es)
  show ?case
  proof (rule object_texts_agree [OF JsObject.prems])
    fix k v assume "(k, v) \<in> set es"
    then show "texts_agree v" using JsObject.IH [of "(k, v)" v] JsObject.prems by (auto simp: list_all_iff snds.simps)
  qed
next
  case (JsNumber n)
  then show ?case by (cases n) (auto intro!: texts_agreeI)
qed (auto intro!: texts_agreeI)

lemma canonical_of_simps [simp]:
  "canonical_of JsNull = JsNull" "canonical_of (JsBool b) = JsBool b" "canonical_of (JsText s) = JsText s"
  "canonical_of (JsNumber (Some t)) = JsNumber (Some t)"
  by (simp_all add: canonical_of_def)

lemma canonical_of_texts [simp]: "canonical_of (JsArray (map JsText ss)) = JsArray (map JsText ss)"
proof -
  have "canonical_items (map JsText ss) = Inr (map JsText ss)" by (induction ss) simp_all
  then show ?thesis by (simp add: canonical_of_def)
qed

lemma canonical_of_object:
  assumes "plain_value (JsObject es)"
  shows "canonical_of (JsObject es) = JsObject (map (\<lambda>(k, v). (k, canonical_of v)) (sort_entries es))"
proof -
  have agree: "texts_agree v" if "(k, v) \<in> set es" for k v
    using assms that by (intro plain_texts_agree) (auto simp: list_all_iff)
  show ?thesis using object_canonical [OF assms agree] by (simp add: canonical_of_def)
qed

lemma map_of_sort_entries: "distinct (map fst es) \<Longrightarrow> map_of (sort_entries es) = map_of es"
  by (rule map_of_eqI) (auto simp: sort_entries_def image_iff mset_eq_imp_distinct_iff [of "map fst (sort_by (\<lambda>a b. fst a \<le> fst b) es)" "map fst es"]
      dest: map_of_SomeD)

text \<open>Equal texts of plain objects mean equal fields.\<close>

lemma equal_text_fields:
  assumes "plain_value (JsObject es)" "plain_value (JsObject fs)"
    and "canonical_of (JsObject es) = canonical_of (JsObject fs)"
  shows "map_option canonical_of (map_of es k) = map_option canonical_of (map_of fs k)"
proof -
  have look: "map_of (map (\<lambda>(k, v). (k, canonical_of v)) (sort_entries es)) k = map_option canonical_of (map_of es k)"
    if "distinct (map fst es)" for es
    using map_of_sort_entries [OF that] by (simp add: map_of_map)
  show ?thesis using assms look [of es] look [of fs] canonical_of_object by simp
qed

lemma plain_proper: "plain_value v \<Longrightarrow> proper_value v"
  by (induction v) (auto simp: list_all_iff snds.simps split: option.splits)

lemma plain_canonical_value:
  assumes "plain_value v"
  shows "json_value (canonical_of v)"
proof -
  have "canonicalize v = Inr (canonical_of v)" using plain_texts_agree [OF assms] by (simp add: texts_agree_def)
  then show ?thesis by (rule canonicalize_json_value [OF plain_proper [OF assms]])
qed

lemma equal_canonical_texts:
  assumes "plain_value v" "plain_value w"
  shows "identity_text v = identity_text w \<longleftrightarrow> canonical_of v = canonical_of w"
    and "hashing_text v = hashing_text w \<longleftrightarrow> canonical_of v = canonical_of w"
    and "canonical_json v = canonical_json w \<longleftrightarrow> canonical_of v = canonical_of w"
proof -
  have "json_value (canonical_of v)" "json_value (canonical_of w)"
    using assms by (simp_all add: plain_canonical_value)
  then have inj: "json_text (canonical_of v) = json_text (canonical_of w) \<longleftrightarrow> canonical_of v = canonical_of w"
    using json_text_inj [of "canonical_of v" "canonical_of w"] by auto
  have v: "texts_agree v" "texts_agree w" using assms by (simp_all add: plain_texts_agree)
  show "identity_text v = identity_text w \<longleftrightarrow> canonical_of v = canonical_of w"
    "hashing_text v = hashing_text w \<longleftrightarrow> canonical_of v = canonical_of w"
    "canonical_json v = canonical_json w \<longleftrightarrow> canonical_of v = canonical_of w"
    using v inj by (simp_all add: texts_agree_def canonical_json_def)
qed

text \<open>
  the three canonical JSON routines of the program agree.  On a value without undefined properties,
  index-like keys and \<open>__proto__\<close>, as their callers build it, the canonical JSON of the connector SDK (build a sorted
  object, then stringify it) and the texts that the analysis identity and the knowledge hashes
  concatenate directly are the same, so the three compute the same digest.
\<close>

theorem canonical_texts_agree:
  "plain_value v \<Longrightarrow> \<exists>t. canonical_json v = Inr t \<and> identity_text v = Inr t \<and> hashing_text v = Inr t"
  using plain_texts_agree [of v] by (simp add: texts_agree_def canonical_json_def)

theorem canonical_texts_agree_witness:
  "\<exists>t. canonical_json (JsObject [(''b'', JsNull), (''a'', JsArray [JsText ''x''])]) = Inr t \<and>
     hashing_text (JsObject [(''b'', JsNull), (''a'', JsArray [JsText ''x''])]) = Inr t"
proof -
  have "plain_value (JsObject [(''b'', JsNull), (''a'', JsArray [JsText ''x''])])"
    by (simp add: array_index_def is_digit_def proto_key_def)
  from canonical_texts_agree [OF this] show ?thesis by blast
qed

end
