(* ===== verification/Decimal.thy ===== *)
theory Decimal
  imports Complex_Main Prelude
begin

text \<open>
  Exact decimal prices, \<open>packages/ai-config/src/decimal.ts\<close>: parsing with an optional exponent,
  the canonical rendering, the storability check, and addition, multiplication by a unit count
  and comparison on \<open>DecimalString\<close> values.  \<open>bigint\<close> is \<open>int\<close>.  The lemmas relate every
  operation to the rational number a decimal string denotes (\<open>value_of\<close>).
\<close>

section \<open>The code\<close>

type_synonym decimal_string = string

record parsed_decimal =
  coefficient :: int
  scale :: int

text \<open>One constructor per message of \<open>AiPriceError\<close>.\<close>

datatype price_error =
    PriceNotFinite | PriceNotDecimal | PriceExponentInvalid | PricePrecision
  | PriceNotStorable | UsageUnitCount

text \<open>
  The argument \<open>string | number\<close>.  A number is given by the text \<open>String(value)\<close> yields, or
  \<open>None\<close> when it is not finite.
\<close>

datatype price_input = Text string | Number "string option"

text \<open>
  The pattern \<open>^([+-]?)(\d+)(?:\.(\d+))?(?:[eE]([+-]?\d+))?$\<close>, one function per group; every
  group is greedy and what follows a group never starts with one of its characters, so no
  backtracking changes the match.
\<close>

fun take_sign :: "string \<Rightarrow> bool \<times> string" where
  "take_sign [] = (False, [])"
| "take_sign (c # r) =
     (if c = CHR ''-'' then (True, r) else if c = CHR ''+'' then (False, r) else (False, c # r))"

fun match_fraction :: "string \<Rightarrow> (string \<times> string) option" where
  "match_fraction [] = Some ([], [])"
| "match_fraction (c # t) =
     (if c = CHR ''.''
      then (if takeWhile is_digit t = [] then None
            else Some (takeWhile is_digit t, dropWhile is_digit t))
      else Some ([], c # t))"

fun match_exponent :: "string \<Rightarrow> int option" where
  "match_exponent [] = Some 0"
| "match_exponent (c # t) =
     (if c = CHR ''e'' \<or> c = CHR ''E''
      then (case take_sign t of (neg, d) \<Rightarrow>
              if d \<noteq> [] \<and> list_all is_digit d
              then Some (if neg then - int (digits_value d) else int (digits_value d)) else None)
      else None)"

definition match_decimal :: "string \<Rightarrow> (bool \<times> string \<times> string \<times> int) option" where
  "match_decimal text =
     (case take_sign text of (neg, r) \<Rightarrow>
        if takeWhile is_digit r = [] then None
        else (case match_fraction (dropWhile is_digit r) of
                None \<Rightarrow> None
              | Some (f, r2) \<Rightarrow>
                  (case match_exponent r2 of
                     None \<Rightarrow> None
                   | Some e \<Rightarrow> Some (neg, takeWhile is_digit r, f, e))))"

definition parse_text :: "string \<Rightarrow> (price_error, parsed_decimal) result" where
  "parse_text t =
     (case match_decimal (trim t) of
        None \<Rightarrow> Inl PriceNotDecimal
      | Some (neg, i, f, e) \<Rightarrow>
          if \<not> safe_int e then Inl PriceExponentInvalid
          else let c = (if neg then - 1 else 1) * int (digits_value (i @ f));
                   s = int (length f) - e
               in if s < - 38 \<or> s > 100 then Inl PricePrecision
                  else Inr \<lparr>coefficient = c, scale = s\<rparr>)"

fun parse :: "price_input \<Rightarrow> (price_error, parsed_decimal) result" where
  "parse (Number None) = Inl PriceNotFinite"
| "parse (Number (Some t)) = parse_text t"
| "parse (Text t) = parse_text t"

definition scaled_coefficient :: "parsed_decimal \<Rightarrow> int \<Rightarrow> int" where
  "scaled_coefficient v target = coefficient v * 10 ^ nat (target - scale v)"

text \<open>
  \<open>rendered.replace(/(\.\d*?)0+$/, "$1").replace(/\.$/, "")\<close>, on a rendering with at most one
  point, which is followed by digits only.
\<close>

definition strip_zeros :: "string \<Rightarrow> string" where
  "strip_zeros r = rev (dropWhile (\<lambda>c. c = CHR ''0'') (rev r))"

definition normalize_rendered :: "string \<Rightarrow> string" where
  "normalize_rendered r =
     (let r1 = (if CHR ''.'' \<in> set r then strip_zeros r else r)
      in if r1 \<noteq> [] \<and> last r1 = CHR ''.'' then butlast r1 else r1)"

definition render_unsigned :: "string \<Rightarrow> int \<Rightarrow> string" where
  "render_unsigned digits s =
     (if s \<le> 0 then digits @ replicate (nat (- s)) CHR ''0''
      else if length digits \<le> nat s
      then ''0.'' @ replicate (nat s - length digits) CHR ''0'' @ digits
      else take (length digits - nat s) digits @ ''.'' @ drop (length digits - nat s) digits)"

definition format_decimal :: "int \<Rightarrow> int \<Rightarrow> decimal_string" where
  "format_decimal c s =
     (if c = 0 then ''0''
      else (if c < 0 then ''-'' else []) @
           normalize_rendered (render_unsigned (show_nat (nat \<bar>c\<bar>)) s))"

definition unsigned_part :: "string \<Rightarrow> string" where
  "unsigned_part r = (if starts_with r ''-'' then tl r else r)"

definition fraction_digits :: "string \<Rightarrow> string" where
  "fraction_digits r = (case split_on CHR ''.'' (unsigned_part r) of a # f # ws \<Rightarrow> f | _ \<Rightarrow> [])"

definition significant_digits :: "string \<Rightarrow> string" where
  "significant_digits r =
     dropWhile (\<lambda>c. c = CHR ''0'') (filter (\<lambda>c. c \<noteq> CHR ''-'' \<and> c \<noteq> CHR ''.'') r)"

definition storable_decimal :: "price_input \<Rightarrow> (price_error, decimal_string option) result" where
  "storable_decimal v =
     rbind (parse v) (\<lambda>p.
       let rendered = format_decimal (coefficient p) (scale p)
       in Inr (if length (fraction_digits rendered) > 18 \<or> length (significant_digits rendered) > 38
               then None else Some rendered))"

definition decimal :: "price_input \<Rightarrow> (price_error, decimal_string) result" where
  "decimal v = rbind (storable_decimal v)
     (\<lambda>stored. case stored of None \<Rightarrow> Inl PriceNotStorable | Some d \<Rightarrow> Inr d)"

definition decimal_is_negative :: "decimal_string \<Rightarrow> bool" where
  "decimal_is_negative d = starts_with d ''-''"

definition add_decimals :: "decimal_string \<Rightarrow> decimal_string \<Rightarrow> (price_error, decimal_string) result" where
  "add_decimals left right =
     rbind (parse (Text left)) (\<lambda>l. rbind (parse (Text right)) (\<lambda>r.
       let s = max (scale l) (scale r)
       in decimal (Text (format_decimal (scaled_coefficient l s + scaled_coefficient r s) s))))"

definition multiply_decimal_by_integer :: "decimal_string \<Rightarrow> jsnum \<Rightarrow> (price_error, decimal_string) result" where
  "multiply_decimal_by_integer d multiplier =
     (if \<not> is_safe_integer multiplier \<or> int_of multiplier < 0 then Inl UsageUnitCount
      else rbind (parse (Text d)) (\<lambda>p.
        decimal (Text (format_decimal (coefficient p * int_of multiplier) (scale p)))))"

definition compare_decimals :: "decimal_string \<Rightarrow> decimal_string \<Rightarrow> (price_error, int) result" where
  "compare_decimals left right =
     rbind (parse (Text left)) (\<lambda>l. rbind (parse (Text right)) (\<lambda>r.
       let s = max (scale l) (scale r);
           lc = scaled_coefficient l s; rc = scaled_coefficient r s
       in Inr (if lc = rc then 0 else if lc > rc then 1 else - 1)))"

section \<open>Digits\<close>

lemma digit_not_space: "is_digit c \<Longrightarrow> \<not> is_space c"
  by (auto simp: is_digit_def is_space_def Let_def)

section \<open>The number a parsed decimal denotes\<close>

definition value_of :: "parsed_decimal \<Rightarrow> rat" where
  "value_of p = of_int (coefficient p) * 10 powi (- scale p)"

text \<open>The number a string denotes, when it parses.\<close>

definition dval :: "decimal_string \<Rightarrow> rat" where
  "dval d = (case parse (Text d) of Inl _ \<Rightarrow> 0 | Inr p \<Rightarrow> value_of p)"

lemma value_of_rescale:
  assumes "scale p \<le> s"
  shows "value_of p = of_int (scaled_coefficient p s) * 10 powi (- s)"
proof -
  have "(10 :: rat) ^ nat (s - scale p) = 10 powi (s - scale p)"
    using assms by (simp add: power_int_def)
  then have "(10 :: rat) ^ nat (s - scale p) * 10 powi (- s) = 10 powi (- scale p)"
    by (simp add: power_int_add [symmetric])
  then show ?thesis by (simp add: value_of_def scaled_coefficient_def mult.assoc)
qed

lemma powi_pos: "(0 :: rat) < 10 powi k"
  by (rule zero_less_power_int) simp

lemma scaled_sign:
  assumes "scale p \<le> s" and "scale q \<le> s"
  shows "value_of p \<le> value_of q \<longleftrightarrow> scaled_coefficient p s \<le> scaled_coefficient q s"
    and "value_of p = value_of q \<longleftrightarrow> scaled_coefficient p s = scaled_coefficient q s"
  using powi_pos [of "- s"]
  by (simp_all add: value_of_rescale [OF assms(1)] value_of_rescale [OF assms(2)])


section \<open>Rendering and parsing back\<close>

lemma strip_zeros_append:
  "strip_zeros (xs @ ys) = (if strip_zeros ys = [] then strip_zeros xs else xs @ strip_zeros ys)"
  by (auto simp: strip_zeros_def dropWhile_append)

lemma strip_zeros_zeros [simp]: "strip_zeros (replicate n CHR ''0'') = []"
  by (simp add: strip_zeros_def)

lemma strip_zeros_split: "\<exists>k. f = strip_zeros f @ replicate k CHR ''0''"
proof -
  let ?P = "\<lambda>c. c = CHR ''0''"
  have "rev f = takeWhile ?P (rev f) @ dropWhile ?P (rev f)" by simp
  then have "f = rev (dropWhile ?P (rev f)) @ rev (takeWhile ?P (rev f))"
    by (metis rev_append rev_rev_ident)
  moreover have "rev (takeWhile ?P (rev f)) = replicate (length (takeWhile ?P (rev f))) CHR ''0''"
    by (rule replicate_eqI) (auto dest: set_takeWhileD)
  ultimately show ?thesis by (auto simp: strip_zeros_def)
qed

definition dotted :: "string \<Rightarrow> string" where
  "dotted f = (if f = [] then [] else CHR ''.'' # f)"

lemma digits_no_dot: "list_all is_digit r \<Longrightarrow> CHR ''.'' \<notin> set r"
  by (auto simp: list_all_iff)

lemma normalize_digits: "list_all is_digit r \<Longrightarrow> normalize_rendered r = r"
proof -
  assume r: "list_all is_digit r"
  have "r \<noteq> [] \<Longrightarrow> last r \<noteq> CHR ''.''" using digits_no_dot [OF r] last_in_set by metis
  then show ?thesis using digits_no_dot [OF r] by (auto simp: normalize_rendered_def)
qed

lemma normalize_dotted:
  assumes "list_all is_digit i" and "list_all is_digit f"
  shows "normalize_rendered (i @ dotted f) = i @ dotted (strip_zeros f)"
proof (cases "f = []")
  case True
  then show ?thesis using normalize_digits [OF assms(1)] by (simp add: dotted_def strip_zeros_def)
next
  case False
  have dot: "strip_zeros (i @ [CHR ''.'']) = i @ [CHR ''.'']" by (simp add: strip_zeros_def)
  have strip: "strip_zeros (i @ CHR ''.'' # f) =
      (if strip_zeros f = [] then i @ [CHR ''.''] else i @ CHR ''.'' # strip_zeros f)"
    using strip_zeros_append [of "i @ [CHR ''.'']" f] dot by simp
  have "list_all is_digit (strip_zeros f)"
    using assms(2) strip_zeros_split [of f] by (metis list_all_append)
  then have "strip_zeros f \<noteq> [] \<Longrightarrow> last (strip_zeros f) \<noteq> CHR ''.''"
    using digits_no_dot last_in_set by metis
  then show ?thesis using False strip
    by (auto simp: normalize_rendered_def dotted_def Let_def butlast_append)
qed

lemma trim_id:
  assumes "\<And>c. c \<in> set s \<Longrightarrow> \<not> is_space c"
  shows "trim s = s"
proof -
  have drop: "dropWhile is_space t = t" if "set t \<subseteq> set s" for t
    using that assms by (cases t) auto
  show ?thesis by (simp add: trim_def trim_start_def drop)
qed

lemma span_digits:
  assumes "list_all is_digit i" and "r = [] \<or> \<not> is_digit (hd r)"
  shows "takeWhile is_digit (i @ r) = i" and "dropWhile is_digit (i @ r) = r"
  using assms by (induction i) (cases r; auto)+

lemma match_canonical:
  assumes "list_all is_digit i" and "i \<noteq> []" and "list_all is_digit g"
  shows "match_decimal ((if neg then ''-'' else []) @ i @ dotted g) = Some (neg, i, g, 0)"
proof -
  have sign: "take_sign ((if neg then ''-'' else []) @ i @ dotted g) = (neg, i @ dotted g)"
    using assms(1,2) by (cases i) auto
  have span: "takeWhile is_digit (i @ dotted g) = i" "dropWhile is_digit (i @ dotted g) = dotted g"
    using span_digits [OF assms(1), of "dotted g"] by (simp_all add: dotted_def split: if_splits)
  have frac: "match_fraction (dotted g) = Some (g, [])"
    using assms(3) by (cases g) (auto simp: dotted_def list_all_iff)
  show ?thesis using assms(2) by (simp add: match_decimal_def sign span frac)
qed

lemma parse_canonical:
  assumes "list_all is_digit i" and "i \<noteq> []" and "list_all is_digit g" and "length g \<le> 100"
  shows "parse_text ((if neg then ''-'' else []) @ i @ dotted g) =
    Inr \<lparr>coefficient = (if neg then - 1 else 1) * int (digits_value (i @ g)), scale = int (length g)\<rparr>"
proof -
  let ?t = "(if neg then ''-'' else []) @ i @ dotted g"
  have ns: "\<not> is_space CHR ''.''" "\<not> is_space CHR ''-''" by (simp_all add: is_space_def)
  have "\<not> is_space c" if "c \<in> set ?t" for c
    using that assms(1,3) ns digit_not_space
    by (auto simp: list_all_iff dotted_def split: if_splits)
  then have "trim ?t = ?t" by (rule trim_id)
  then show ?thesis
    using match_canonical [OF assms(1-3), of neg] assms(4)
    by (simp add: parse_text_def safe_int_def max_safe_def)
qed

text \<open>The rendering before normalisation: an integer part and as many fraction digits as the scale.\<close>

lemma render_shape:
  "\<exists>i f. render_unsigned (show_nat n) s = i @ dotted f \<and> list_all is_digit i \<and> list_all is_digit f \<and>
     i \<noteq> [] \<and> int (length f) = max 0 s \<and> digits_value (i @ f) = n * 10 ^ nat (- s)"
proof -
  consider "s \<le> 0" | "s > 0" "length (show_nat n) \<le> nat s" | "s > 0" "\<not> length (show_nat n) \<le> nat s"
    by linarith
  then show ?thesis
  proof cases
    case 1
    then show ?thesis using show_nat_digits [of n]
      by (rule_tac exI [of _ "show_nat n @ replicate (nat (- s)) CHR ''0''"], rule_tac exI [of _ "[]"])
        (auto simp: render_unsigned_def dotted_def digits_value_append list_all_iff)
  next
    case 2
    note dig = show_nat_digits [of n]
    let ?z = "replicate (nat s - length (show_nat n)) CHR ''0''"
    have "digits_value (''0'' @ ?z @ show_nat n) = n"
      using digits_value_append [of "''0'' @ ?z" "show_nat n"] digits_value_zeros [of "Suc (nat s - length (show_nat n))"]
      by simp
    then show ?thesis using 2 dig
      by (rule_tac exI [of _ "''0''"], rule_tac exI [of _ "?z @ show_nat n"])
        (auto simp: render_unsigned_def dotted_def list_all_iff)
  next
    case 3
    let ?k = "length (show_nat n) - nat s"
    have "list_all is_digit (take ?k (show_nat n))" "list_all is_digit (drop ?k (show_nat n))"
      using show_nat_digits [of n] by (metis append_take_drop_id list_all_append)+
    then show ?thesis using 3
      by (rule_tac exI [of _ "take ?k (show_nat n)"], rule_tac exI [of _ "drop ?k (show_nat n)"])
        (auto simp: render_unsigned_def dotted_def)
  qed
qed

lemma format_shape:
  assumes "c \<noteq> 0"
  shows "\<exists>i f. format_decimal c s = (if c < 0 then ''-'' else []) @ i @ dotted (strip_zeros f) \<and>
     list_all is_digit i \<and> list_all is_digit f \<and> i \<noteq> [] \<and> int (length f) = max 0 s \<and>
     digits_value (i @ f) = nat \<bar>c\<bar> * 10 ^ nat (- s)"
proof -
  obtain i f where shape: "render_unsigned (show_nat (nat \<bar>c\<bar>)) s = i @ dotted f"
    and rest: "list_all is_digit i" "list_all is_digit f" "i \<noteq> []" "int (length f) = max 0 s"
      "digits_value (i @ f) = nat \<bar>c\<bar> * 10 ^ nat (- s)"
    using render_shape [of "nat \<bar>c\<bar>" s] by blast
  then show ?thesis using assms normalize_dotted [OF rest(1,2)]
    by (rule_tac exI [of _ i], rule_tac exI [of _ f]) (simp add: format_decimal_def shape)
qed

lemma powi_split: "(10 :: rat) powi (- s) = 10 ^ nat (- s) * 10 powi (- max 0 s)"
  by (cases "s \<le> 0") (simp_all add: power_int_def max_def)

lemma fraction_digits_shape:
  assumes "list_all is_digit i" and "i \<noteq> []" and "list_all is_digit g"
  shows "fraction_digits ((if neg then ''-'' else []) @ i @ dotted g) = g"
proof -
  have "unsigned_part ((if neg then ''-'' else []) @ i @ dotted g) = i @ dotted g"
    using assms(1,2) by (cases i) (auto simp: unsigned_part_def starts_with_def)
  then show ?thesis
    using split_on_append [of "CHR ''.''" i g] split_on_no_sep [of "CHR ''.''" g]
      split_on_no_sep [of "CHR ''.''" i] digits_no_dot [OF assms(1)] digits_no_dot [OF assms(3)]
    by (simp add: fraction_digits_def dotted_def)
qed

lemma digits_value_dropWhile: "digits_value (dropWhile (\<lambda>c. c = CHR ''0'') xs) = digits_value xs"
proof -
  let ?P = "\<lambda>c. c = CHR ''0''"
  have "takeWhile ?P xs = replicate (length (takeWhile ?P xs)) CHR ''0''"
    by (rule replicate_eqI) (auto dest: set_takeWhileD)
  then have "digits_value (takeWhile ?P xs) = 0" by (metis digits_value_zeros)
  then show ?thesis
    using digits_value_append [of "takeWhile ?P xs" "dropWhile ?P xs"] by simp
qed

lemma significant_digits_shape:
  assumes "list_all is_digit i" and "list_all is_digit g"
  shows "significant_digits ((if neg then ''-'' else []) @ i @ dotted g) =
    dropWhile (\<lambda>c. c = CHR ''0'') (i @ g)"
proof -
  let ?Q = "\<lambda>c. c \<noteq> CHR ''-'' \<and> c \<noteq> CHR ''.''"
  have keep: "filter ?Q r = r" if "list_all is_digit r" for r
    using that by (intro filter_True) (auto simp: list_all_iff)
  show ?thesis
    using keep [OF assms(1)] keep [OF assms(2)]
    by (auto simp: significant_digits_def dotted_def)
qed

lemma digits_value_less: "digits_value xs < 10 ^ length xs" if "list_all is_digit xs"
  using that
proof (induction xs rule: rev_induct)
  case Nil
  then show ?case by simp
next
  case (snoc x xs)
  then have "digit_value x < 10" by (auto simp: is_digit_def digit_value_def Let_def)
  then show ?case using snoc by simp
qed

text \<open>Parsing what \<open>format\<close> renders gives back the same number.\<close>

lemma parse_format:
  assumes "s \<le> 100"
  shows "\<exists>q. parse_text (format_decimal c s) = Inr q \<and> value_of q = of_int c * 10 powi (- s) \<and>
     scale q = int (length (fraction_digits (format_decimal c s))) \<and> scale q \<le> max 0 s \<and>
     nat \<bar>coefficient q\<bar> = digits_value (significant_digits (format_decimal c s))"
proof (cases "c = 0")
  case True
  have "parse_text ''0'' = Inr \<lparr>coefficient = 0, scale = 0\<rparr>" by code_simp
  moreover have "fraction_digits ''0'' = []" "significant_digits ''0'' = []" by code_simp+
  ultimately show ?thesis using True by (simp add: format_decimal_def value_of_def)
next
  case False
  obtain i f where fmt: "format_decimal c s = (if c < 0 then ''-'' else []) @ i @ dotted (strip_zeros f)"
    and i: "list_all is_digit i" and f: "list_all is_digit f" and ne: "i \<noteq> []"
    and len: "int (length f) = max 0 s" and val: "digits_value (i @ f) = nat \<bar>c\<bar> * 10 ^ nat (- s)"
    using format_shape [OF False, of s] by blast
  obtain k where k: "f = strip_zeros f @ replicate k CHR ''0''" using strip_zeros_split by blast
  let ?g = "strip_zeros f"
  have g: "list_all is_digit ?g" using f k by (metis list_all_append)
  have lenf: "length f = length ?g + k" using arg_cong [OF k, of length] by simp
  have "length ?g \<le> 100" using lenf len assms by simp
  from parse_canonical [OF i ne g this]
  have parse: "parse_text (format_decimal c s) =
      Inr \<lparr>coefficient = (if c < 0 then - 1 else 1) * int (digits_value (i @ ?g)), scale = int (length ?g)\<rparr>"
    by (simp add: fmt)
  have "digits_value (i @ f) = digits_value (i @ ?g) * 10 ^ k"
    using digits_value_append [of "i @ ?g" "replicate k CHR ''0''"] arg_cong [OF k, of "\<lambda>x. digits_value (i @ x)"]
    by simp
  then have "int (digits_value (i @ ?g)) * 10 ^ k = \<bar>c\<bar> * 10 ^ nat (- s)"
    using arg_cong [OF val, of int] by simp
  then have coeff: "rat_of_int ((if c < 0 then - 1 else 1) * int (digits_value (i @ ?g))) * 10 ^ k =
      of_int c * 10 ^ nat (- s)"
  proof -
    assume eq: "int (digits_value (i @ ?g)) * 10 ^ k = \<bar>c\<bar> * 10 ^ nat (- s)"
    have "(if c < 0 then - 1 else 1) * int (digits_value (i @ ?g)) * 10 ^ k = c * 10 ^ nat (- s)"
      using eq by (simp add: abs_if split: if_splits)
    from arg_cong [OF this, of rat_of_int] show ?thesis by simp
  qed
  have pow: "(10 :: rat) powi (- int (length ?g)) = 10 ^ k * 10 powi (- max 0 s)"
  proof -
    have "max 0 s = int (length ?g) + int k" using len lenf by simp
    then have "(10 :: rat) powi (- int (length ?g)) = 10 powi (int k + - max 0 s)" by simp
    also have "\<dots> = 10 powi int k * 10 powi (- max 0 s)" by (rule power_int_add) simp
    finally show ?thesis by simp
  qed
  have "value_of \<lparr>coefficient = (if c < 0 then - 1 else 1) * int (digits_value (i @ ?g)), scale = int (length ?g)\<rparr> =
      of_int c * 10 powi (- s)"
    using coeff by (simp only: value_of_def pow powi_split [of s] parsed_decimal.simps mult.assoc [symmetric])
  moreover have "fraction_digits (format_decimal c s) = ?g"
    and "digits_value (significant_digits (format_decimal c s)) = digits_value (i @ ?g)"
    using fraction_digits_shape [OF i ne g] significant_digits_shape [OF i g]
    by (simp_all add: fmt digits_value_dropWhile)
  ultimately show ?thesis using parse len lenf by auto
qed


section \<open>Correctness of the decimal operations\<close>

lemma parse_Text [simp]: "parse (Text t) = parse_text t"
  by simp

lemma dval_parse: "parse_text d = Inr p \<Longrightarrow> dval d = value_of p"
  by (simp add: dval_def)

lemma parse_scale_bounds: "parse v = Inr p \<Longrightarrow> - 38 \<le> scale p \<and> scale p \<le> 100"
  by (cases v rule: parse.cases)
    (auto simp: parse_text_def Let_def split: option.splits prod.splits if_splits)

lemma storable_decimalE:
  assumes "storable_decimal v = Inr (Some d)"
  obtains p where "parse v = Inr p" and "d = format_decimal (coefficient p) (scale p)"
    and "length (fraction_digits d) \<le> 18" and "length (significant_digits d) \<le> 38"
  using assms by (auto simp: storable_decimal_def result_simps Let_def split: if_splits)

lemma decimal_iff: "decimal v = Inr d \<longleftrightarrow> storable_decimal v = Inr (Some d)"
  by (auto simp: decimal_def result_simps split: option.splits)

lemma format_value: "s \<le> 100 \<Longrightarrow> dval (format_decimal c s) = of_int c * 10 powi (- s)"
  using parse_format [of s c] by (auto simp: dval_def)

lemma storable_value:
  assumes "storable_decimal v = Inr (Some d)"
  shows "\<exists>p q. parse v = Inr p \<and> parse_text d = Inr q \<and> value_of q = value_of p \<and> dval d = value_of p \<and>
    d = format_decimal (coefficient p) (scale p) \<and> scale p \<le> 100 \<and>
    scale q = int (length (fraction_digits d)) \<and> length (fraction_digits d) \<le> 18 \<and>
    nat \<bar>coefficient q\<bar> = digits_value (significant_digits d) \<and> length (significant_digits d) \<le> 38"
proof -
  from assms obtain p where p: "parse v = Inr p" and d: "d = format_decimal (coefficient p) (scale p)"
    and len: "length (fraction_digits d) \<le> 18" "length (significant_digits d) \<le> 38"
    by (rule storable_decimalE)
  have s: "scale p \<le> 100" using parse_scale_bounds [OF p] by simp
  from parse_format [OF s, of "coefficient p"] obtain q
    where q: "parse_text d = Inr q" "value_of q = value_of p" "scale q = int (length (fraction_digits d))"
      "nat \<bar>coefficient q\<bar> = digits_value (significant_digits d)"
    by (auto simp: value_of_def d)
  then show ?thesis
    using p d len s dval_parse [OF q(1)]
    by (intro exI [of _ p] exI [of _ q] conjI) simp_all
qed

text \<open>
  C35: storing a price never changes it.  When \<open>storableDecimal\<close> (hence \<open>decimal\<close>) accepts an
  input, the string it returns parses again and denotes exactly the number the input denoted: the
  value is never rounded, and it has at most 18 fraction digits.
\<close>

theorem storable_decimal_exact:
  assumes "storable_decimal v = Inr (Some d)"
  shows "\<exists>p q. parse v = Inr p \<and> parse (Text d) = Inr q \<and> value_of q = value_of p \<and>
    0 \<le> scale q \<and> scale q \<le> 18"
  using storable_value [OF assms] by auto

theorem storable_decimal_exact_witness:
  "\<exists>p q. parse (Text ''1.50e-3'') = Inr p \<and> parse (Text ''0.0015'') = Inr q \<and>
     value_of q = value_of p \<and> 0 \<le> scale q \<and> scale q \<le> 18"
proof -
  have "storable_decimal (Text ''1.50e-3'') = Inr (Some ''0.0015'')" by code_simp
  then show ?thesis by (rule storable_decimal_exact)
qed


lemma normalize_trailing_zero:
  assumes "n > 0"
  shows "normalize_rendered (render_unsigned (show_nat (10 * n)) (s + 1)) =
    normalize_rendered (render_unsigned (show_nat n) s)"
proof -
  let ?D = "show_nat n"
  have D: "show_nat (10 * n) = ?D @ [CHR ''0'']" by (rule show_nat_10 [OF assms])
  have dig: "list_all is_digit ?D" by simp
  have strip: "strip_zeros (xs @ [CHR ''0'']) = strip_zeros xs" for xs by (simp add: strip_zeros_def)
  have nonempty: "length ?D \<ge> 1" by (cases ?D) auto
  consider "s < 0" | "s = 0" | "s > 0" "length ?D \<le> nat s" | "s > 0" "\<not> length ?D \<le> nat s" by linarith
  then show ?thesis
  proof cases
    case 1
    have "nat (- s) = Suc (nat (- (s + 1)))" using 1 by simp
    then show ?thesis using 1 by (simp add: render_unsigned_def D)
  next
    case 2
    have "normalize_rendered (?D @ dotted ''0'') = ?D @ dotted (strip_zeros ''0'')"
      by (rule normalize_dotted) simp_all
    moreover have "strip_zeros ''0'' = []" by (simp add: strip_zeros_def)
    ultimately show ?thesis using 2 nonempty normalize_digits [OF dig]
      by (simp add: render_unsigned_def D dotted_def)
  next
    case 3
    let ?z = "replicate (nat s - length ?D) CHR ''0''"
    have count: "nat (s + 1) - length (?D @ [CHR ''0'']) = nat s - length ?D"
      and short: "length (?D @ [CHR ''0'']) \<le> nat (s + 1)" using 3 by simp_all
    have dz: "list_all is_digit (?z @ ?D)" using dig by (auto simp: list_all_iff)
    have "normalize_rendered (''0'' @ dotted ((?z @ ?D) @ [CHR ''0''])) = ''0'' @ dotted (strip_zeros (?z @ ?D))"
      using normalize_dotted [of "''0''" "(?z @ ?D) @ [CHR ''0'']"] dz strip [of "?z @ ?D"] by simp
    moreover have "normalize_rendered (''0'' @ dotted (?z @ ?D)) = ''0'' @ dotted (strip_zeros (?z @ ?D))"
      using normalize_dotted [of "''0''" "?z @ ?D"] dz by simp
    ultimately show ?thesis using 3 count short by (simp add: render_unsigned_def D dotted_def)
  next
    case 4
    let ?k = "length ?D - nat s"
    have k: "length (?D @ [CHR ''0'']) - nat (s + 1) = ?k" and ne: "drop ?k ?D \<noteq> []"
      using 4 by simp_all
    have dd: "list_all is_digit (take ?k ?D)" "list_all is_digit (drop ?k ?D)"
      using dig by (metis append_take_drop_id list_all_append)+
    have "normalize_rendered (take ?k ?D @ dotted (drop ?k ?D @ [CHR ''0''])) =
        take ?k ?D @ dotted (strip_zeros (drop ?k ?D))"
      using normalize_dotted [of "take ?k ?D" "drop ?k ?D @ [CHR ''0'']"] dd strip [of "drop ?k ?D"] by simp
    moreover have "normalize_rendered (take ?k ?D @ dotted (drop ?k ?D)) =
        take ?k ?D @ dotted (strip_zeros (drop ?k ?D))"
      by (rule normalize_dotted [OF dd])
    ultimately show ?thesis using 4 k ne by (auto simp: render_unsigned_def D dotted_def)
  qed
qed

lemma format_trailing_zeros: "format_decimal (c * 10 ^ k) (s + int k) = format_decimal c s"
proof (induction k)
  case 0
  then show ?case by simp
next
  case (Suc k)
  let ?c = "c * 10 ^ k"
  have "format_decimal (10 * ?c) ((s + int k) + 1) = format_decimal ?c (s + int k)"
  proof (cases "?c = 0")
    case True
    then show ?thesis by (simp add: format_decimal_def)
  next
    case False
    have "nat \<bar>10 * ?c\<bar> = 10 * nat \<bar>?c\<bar>" by (simp add: abs_mult nat_mult_distrib)
    then show ?thesis
      using False normalize_trailing_zero [of "nat \<bar>?c\<bar>" "s + int k"]
      by (simp add: format_decimal_def mult_less_0_iff)
  qed
  then show ?case using Suc by (simp add: algebra_simps)
qed

text \<open>The rendering depends on the number only.\<close>

lemma format_cong:
  assumes "value_of p = value_of q"
  shows "format_decimal (coefficient p) (scale p) = format_decimal (coefficient q) (scale q)"
proof -
  let ?s = "max (scale p) (scale q)"
  have fmt: "format_decimal (coefficient r) (scale r) = format_decimal (scaled_coefficient r ?s) ?s"
    if "scale r \<le> ?s" for r
    using format_trailing_zeros [of "coefficient r" "nat (?s - scale r)" "scale r"] that
    by (simp add: scaled_coefficient_def)
  have "scaled_coefficient p ?s = scaled_coefficient q ?s"
    using scaled_sign(2) [of p ?s q] assms by simp
  then show ?thesis using fmt [of p] fmt [of q] by simp
qed

text \<open>
  Stored prices are canonical.  Two accepted inputs are stored as the same string exactly when
  they denote the same number, and storing a stored price returns it unchanged; so equality of
  \<open>DecimalString\<close> values is equality of numbers.
\<close>

theorem storable_decimal_canonical:
  assumes "storable_decimal v = Inr (Some d)" and "storable_decimal w = Inr (Some e)"
  shows "(d = e \<longleftrightarrow> dval d = dval e) \<and> storable_decimal (Text d) = Inr (Some d)"
proof -
  obtain p q where p: "dval d = value_of p" "d = format_decimal (coefficient p) (scale p)"
      "parse_text d = Inr q" "value_of q = value_of p"
      "length (fraction_digits d) \<le> 18" "length (significant_digits d) \<le> 38"
    using storable_value [OF assms(1)] by auto
  obtain p' where p': "dval e = value_of p'" "e = format_decimal (coefficient p') (scale p')"
    using storable_value [OF assms(2)] by auto
  have "format_decimal (coefficient q) (scale q) = d" using format_cong [OF p(4)] p(2) by simp
  then have "storable_decimal (Text d) = Inr (Some d)"
    using p by (simp add: storable_decimal_def)
  then show ?thesis using p p' format_cong [of p p'] by auto
qed

theorem storable_decimal_canonical_witness:
  "(''0.5'' = ''0.5'' \<longleftrightarrow> dval ''0.5'' = dval ''0.5'') \<and> storable_decimal (Text ''0.5'') = Inr (Some ''0.5'')"
proof -
  have "storable_decimal (Text ''+5E-1'') = Inr (Some ''0.5'')" by code_simp
  moreover have "storable_decimal (Number (Some ''00.500'')) = Inr (Some ''0.5'')" by code_simp
  ultimately show ?thesis by (rule storable_decimal_canonical)
qed

lemma decimal_format_value:
  assumes "decimal (Text (format_decimal c s)) = Inr d" and "s \<le> 100"
  shows "dval d = of_int c * 10 powi (- s)"
proof -
  obtain q where q: "parse_text (format_decimal c s) = Inr q" "value_of q = of_int c * 10 powi (- s)"
    using parse_format [OF assms(2), of c] by auto
  show ?thesis using storable_value [of "Text (format_decimal c s)" d] assms(1) q
    by (auto simp: decimal_iff)
qed

lemma add_decimals_value:
  assumes "add_decimals l r = Inr d"
  shows "dval d = dval l + dval r"
proof -
  from assms obtain p q where p: "parse_text l = Inr p" and q: "parse_text r = Inr q"
    and d: "decimal (Text (format_decimal (scaled_coefficient p (max (scale p) (scale q)) +
        scaled_coefficient q (max (scale p) (scale q))) (max (scale p) (scale q)))) = Inr d"
    by (auto simp: add_decimals_def result_simps Let_def)
  let ?s = "max (scale p) (scale q)"
  have s: "?s \<le> 100" using parse_scale_bounds [of "Text l" p] parse_scale_bounds [of "Text r" q] p q by simp
  have "dval d = of_int (scaled_coefficient p ?s + scaled_coefficient q ?s) * 10 powi (- ?s)"
    by (rule decimal_format_value [OF d s])
  also have "\<dots> = value_of p + value_of q"
    using value_of_rescale [of p ?s] value_of_rescale [of q ?s] by (simp add: algebra_simps)
  finally show ?thesis using dval_parse [OF p] dval_parse [OF q] by simp
qed

lemma multiply_decimal_value:
  assumes "multiply_decimal_by_integer a n = Inr d"
  shows "dval d = dval a * of_int (int_of n) \<and> 0 \<le> int_of n"
proof -
  from assms obtain p where p: "parse_text a = Inr p" and n: "0 \<le> int_of n"
    and d: "decimal (Text (format_decimal (coefficient p * int_of n) (scale p))) = Inr d"
    by (auto simp: multiply_decimal_by_integer_def result_simps split: if_splits)
  have "scale p \<le> 100" using parse_scale_bounds [of "Text a" p] p by simp
  from decimal_format_value [OF d this] show ?thesis
    using dval_parse [OF p] n by (simp add: value_of_def)
qed

lemma compare_decimals_value:
  assumes "compare_decimals l r = Inr k"
  shows "k = (if dval l = dval r then 0 else if dval l > dval r then 1 else - 1)"
proof -
  from assms obtain p q where p: "parse_text l = Inr p" and q: "parse_text r = Inr q"
    and k: "k = (if scaled_coefficient p (max (scale p) (scale q)) = scaled_coefficient q (max (scale p) (scale q))
        then 0 else if scaled_coefficient p (max (scale p) (scale q)) > scaled_coefficient q (max (scale p) (scale q))
        then 1 else - 1)"
    by (auto simp: compare_decimals_def result_simps Let_def)
  let ?s = "max (scale p) (scale q)"
  show ?thesis
    using k dval_parse [OF p] dval_parse [OF q] scaled_sign [of p ?s q] by (auto simp: not_le [symmetric])
qed

section \<open>Evaluation on concrete decimals\<close>

lemmas format_eval = format_decimal_def show_nat.simps render_unsigned_def normalize_rendered_def
  strip_zeros_def

text \<open>
  C36: money arithmetic is exact.  Whenever they return, \<open>addDecimals\<close> returns the sum,
  \<open>multiplyDecimalByInteger\<close> the product with a non-negative unit count, and \<open>compareDecimals\<close>
  the sign of the difference of the numbers denoted; the only other outcome is an \<open>AiPriceError\<close>.
\<close>

theorem decimal_arithmetic_exact:
  "(\<forall>d. add_decimals l r = Inr d \<longrightarrow> dval d = dval l + dval r) \<and>
   (\<forall>d. multiply_decimal_by_integer l n = Inr d \<longrightarrow> dval d = dval l * of_int (int_of n) \<and> 0 \<le> int_of n) \<and>
   (\<forall>k. compare_decimals l r = Inr k \<longrightarrow>
      k = (if dval l = dval r then 0 else if dval l > dval r then 1 else - 1))"
  by (simp add: add_decimals_value multiply_decimal_value compare_decimals_value)

theorem decimal_arithmetic_exact_witness:
  "dval ''12.3'' = dval ''12.25'' + dval ''0.05'' \<and> dval ''36.75'' = dval ''12.25'' * of_int (int_of (Num 3))"
proof -
  have l: "parse (Text ''12.25'') = Inr \<lparr>coefficient = 1225, scale = 2\<rparr>"
    and r: "parse (Text ''0.05'') = Inr \<lparr>coefficient = 5, scale = 2\<rparr>" by code_simp+
  have p1: "parse (Text ''12.3'') = Inr \<lparr>coefficient = 123, scale = 1\<rparr>"
    and p2: "parse (Text ''36.75'') = Inr \<lparr>coefficient = 3675, scale = 2\<rparr>" by code_simp+
  have f1: "format_decimal 1230 2 = ''12.3''" and f2: "format_decimal 123 1 = ''12.3''"
    and f3: "format_decimal 3675 2 = ''36.75''" by (simp_all add: format_eval)
  have d1: "fraction_digits ''12.3'' = ''3''" "significant_digits ''12.3'' = ''123''"
    and d2: "fraction_digits ''36.75'' = ''75''" "significant_digits ''36.75'' = ''3675''" by code_simp+
  have sum: "decimal (Text (format_decimal 1230 2)) = Inr ''12.3''"
    and prod: "decimal (Text (format_decimal 3675 2)) = Inr ''36.75''"
    by (simp_all add: decimal_def storable_decimal_def p1 p2 f1 f2 f3 d1 d2 del: parse_Text parse.simps)
  have "add_decimals ''12.25'' ''0.05'' = Inr ''12.3''"
    by (simp add: add_decimals_def l r sum scaled_coefficient_def del: parse_Text parse.simps)
  moreover have "multiply_decimal_by_integer ''12.25'' (Num 3) = Inr ''36.75''"
    by (simp add: multiply_decimal_by_integer_def l prod safe_int_def max_safe_def del: parse_Text parse.simps)
  ultimately show ?thesis
    using decimal_arithmetic_exact [of "''12.25''" "''0.05''" "Num 3"] by blast
qed

lemma power_int_le_one: "s \<ge> 0 \<Longrightarrow> (10 :: rat) powi (- s) \<le> 1"
proof -
  have "(inverse 10 :: rat) ^ nat s \<le> 1" by (rule power_le_one) simp_all
  then show "(10 :: rat) powi (- s) \<le> 1" if "s \<ge> 0"
    using that by (cases "s = 0") (simp_all add: power_int_def)
qed

lemma significant_digits_digits: "list_all is_digit (significant_digits (format_decimal c s))"
proof (cases "c = 0")
  case True
  have "significant_digits ''0'' = []" by code_simp
  then show ?thesis using True by (simp add: format_decimal_def)
next
  case False
  obtain i f where fmt: "format_decimal c s = (if c < 0 then ''-'' else []) @ i @ dotted (strip_zeros f)"
    and i: "list_all is_digit i" and f: "list_all is_digit f"
    using format_shape [OF False, of s] by blast
  have g: "list_all is_digit (strip_zeros f)" using f strip_zeros_split [of f] by (metis list_all_append)
  have "significant_digits (format_decimal c s) = dropWhile (\<lambda>c. c = CHR ''0'') (i @ strip_zeros f)"
    unfolding fmt by (rule significant_digits_shape [OF i g])
  then have "set (significant_digits (format_decimal c s)) \<subseteq> set (i @ strip_zeros f)"
    using set_dropWhileD by (metis subsetI)
  then show ?thesis using i g by (auto simp: list_all_iff)
qed

lemma stored_bound:
  assumes "storable_decimal v = Inr (Some d)"
  shows "\<bar>dval d\<bar> < 10 ^ 38"
proof -
  obtain p q where d: "d = format_decimal (coefficient p) (scale p)"
    and eq: "value_of q = value_of p" "dval d = value_of p"
    and q2: "scale q = int (length (fraction_digits d))" "nat \<bar>coefficient q\<bar> = digits_value (significant_digits d)"
    and len: "length (significant_digits d) \<le> 38"
    using storable_value [OF assms] by blast
  have q: "dval d = value_of q" "scale q = int (length (fraction_digits d))"
      "nat \<bar>coefficient q\<bar> = digits_value (significant_digits d)"
    using eq q2 by simp_all
  have "list_all is_digit (significant_digits d)" by (simp add: d significant_digits_digits)
  then have "nat \<bar>coefficient q\<bar> < 10 ^ length (significant_digits d)"
    using digits_value_less q(3) by simp
  also have "\<dots> \<le> (10 :: nat) ^ 38" using len by (rule power_increasing) simp
  finally have "\<bar>coefficient q\<bar> < 10 ^ 38" by simp
  then have c: "\<bar>rat_of_int (coefficient q)\<bar> < 10 ^ 38"
    by (metis of_int_abs of_int_less_iff of_int_numeral of_int_power)
  have "\<bar>value_of q\<bar> \<le> \<bar>rat_of_int (coefficient q)\<bar> * 1"
    unfolding value_of_def abs_mult
    using power_int_le_one [of "scale q"] q(2) powi_pos [of "- scale q"] by (intro mult_left_mono) simp_all
  then show ?thesis using c q(1) by simp
qed

text \<open>
  C39: what \<open>storableDecimal\<close> bounds.  Every stored price is below \<open>10^38\<close> in absolute value, and
  the bound is no better than that: the price \<open>10^20\<close> is stored, although a PostgreSQL
  \<open>numeric(38,18)\<close> column (the contract the code names) holds only values below \<open>10^20\<close>.
\<close>

theorem storable_decimal_bounds:
  "(\<forall>v d. storable_decimal v = Inr (Some d) \<longrightarrow> \<bar>dval d\<bar> < 10 ^ 38) \<and>
   (\<exists>v d. storable_decimal v = Inr (Some d) \<and> dval d \<ge> 10 ^ 20)"
proof (intro conjI allI impI)
  fix v d
  assume "storable_decimal v = Inr (Some d)"
  then show "\<bar>dval d\<bar> < 10 ^ 38" by (rule stored_bound)
next
  have p: "parse_text ''1e20'' = Inr \<lparr>coefficient = 1, scale = - 20\<rparr>" by code_simp
  have f: "format_decimal 1 (- 20) = ''100000000000000000000''"
    by (simp add: format_eval eval_nat_numeral)
  have d: "fraction_digits ''100000000000000000000'' = []"
      "significant_digits ''100000000000000000000'' = ''100000000000000000000''" by code_simp+
  have "storable_decimal (Text ''1e20'') = Inr (Some ''100000000000000000000'')"
    by (simp add: storable_decimal_def p f d)
  moreover have "parse_text ''100000000000000000000'' = Inr \<lparr>coefficient = 100000000000000000000, scale = 0\<rparr>"
    by (simp add: parse_text_def trim_def trim_start_def is_space_def match_decimal_def is_digit_def
        digits_value_def digit_value_def safe_int_def max_safe_def)
  then have "dval ''100000000000000000000'' = 10 ^ 20" by (simp add: dval_def value_of_def)
  ultimately show "\<exists>v d. storable_decimal v = Inr (Some d) \<and> dval d \<ge> 10 ^ 20"
    by (metis order_refl)
qed

theorem storable_decimal_bounds_witness: "\<bar>dval ''12.25''\<bar> < 10 ^ 38"
proof -
  have p: "parse_text ''12.25'' = Inr \<lparr>coefficient = 1225, scale = 2\<rparr>" by code_simp
  have f: "format_decimal 1225 2 = ''12.25''" by (simp add: format_eval)
  have d: "fraction_digits ''12.25'' = ''25''" "significant_digits ''12.25'' = ''1225''" by code_simp+
  have "storable_decimal (Text ''12.25'') = Inr (Some ''12.25'')"
    by (simp add: storable_decimal_def p f d)
  then show ?thesis using storable_decimal_bounds by blast
qed

end
