(* ===== verification/Pricing.thy ===== *)
theory Pricing
  imports Decimal
begin

text \<open>
  Price selection and cost calculation, \<open>packages/ai-config/src/pricing.ts\<close>.  \<open>date\<close> is
  \<open>new Date(text).getTime()\<close>: \<open>None\<close> is NaN.  What a date text means is defined by the language
  only for its interchange format, so it is an argument of the definitions.  A JavaScript object is
  the list of its entries; \<open>undefined\<close> is \<open>None\<close>.
\<close>

section \<open>The data\<close>

datatype component_kind = KInput | KOutput | KCacheRead | KCacheCreation | KImage | KAudio

datatype price_unit = UToken | UImage | UAudio

datatype condition_value = CBool bool | CNumber jsnum | CString string

type_synonym price_conditions = "(string \<times> condition_value) list"

record price_component =
  pc_id :: string
  pc_kind :: component_kind
  pc_unit :: price_unit
  pc_amount :: decimal_string
  pc_currency :: string
  pc_effectiveFrom :: string
  pc_effectiveTo :: "string option"
  pc_sourceId :: string
  pc_conditions :: price_conditions

record resolution_context =
  rc_at :: string
  rc_currency :: string
  rc_providerRegion :: "string option"
  rc_serviceTier :: "string option"
  rc_batchMode :: "bool option"
  rc_contextTier :: "string option"
  rc_mediaType :: "string option"
  rc_inputTokenCount :: "jsnum option"

datatype resolution_status = Known | Unknown | Incomplete

record resolved_component =
  rp_kind :: component_kind
  rp_component :: "price_component option"
  rp_status :: resolution_status
  rp_reason :: "string option"

record price_resolution =
  pr_status :: resolution_status
  pr_components :: "resolved_component list"

record price_sources =
  ps_bindingOverrides :: "price_component list"
  ps_workspaceOverrides :: "price_component list"
  ps_installationOverrides :: "price_component list"
  ps_catalogComponents :: "price_component list"

datatype condition_match = Matches | DoesNotMatch | Undecidable

text \<open>The errors: one constructor per \<open>AiConfigurationError\<close>, and the \<open>AiPriceError\<close> of the arithmetic.\<close>

datatype pricing_error =
    ResolutionTimeInvalid | PricesTied component_kind | UsageUnitsInvalid component_kind
  | DecimalError price_error

section \<open>Selection\<close>

definition active :: "(string \<Rightarrow> int option) \<Rightarrow> price_component \<Rightarrow> int \<Rightarrow> bool" where
  "active date c now =
     (case date (pc_effectiveFrom c) of
        None \<Rightarrow> False
      | Some starts \<Rightarrow>
          (case pc_effectiveTo c of
             None \<Rightarrow> starts \<le> now
           | Some t \<Rightarrow> (case date t of None \<Rightarrow> False | Some ends \<Rightarrow> starts \<le> now \<and> now < ends)))"

text \<open>One case of the switch: \<open>None\<close> returns \<open>undecidable\<close> at once.\<close>

fun text_condition :: "condition_value \<Rightarrow> string option \<Rightarrow> bool option" where
  "text_condition (CString v) (Some r) = (if v \<noteq> [] \<and> r \<noteq> [] then Some (r = v) else None)"
| "text_condition _ _ = None"

fun flag_condition :: "condition_value \<Rightarrow> bool option \<Rightarrow> bool option" where
  "flag_condition (CBool v) (Some b) = Some (b = v)"
| "flag_condition _ _ = None"

definition non_negative_safe :: "jsnum \<Rightarrow> bool" where
  "non_negative_safe n \<longleftrightarrow> is_safe_integer n \<and> 0 \<le> int_of n"

fun threshold_condition :: "condition_value \<Rightarrow> jsnum option \<Rightarrow> bool option" where
  "threshold_condition (CNumber v) (Some n) =
     (if non_negative_safe v \<and> non_negative_safe n then Some (\<not> int_of n < int_of v) else None)"
| "threshold_condition _ _ = None"

definition condition_entry :: "resolution_context \<Rightarrow> string \<times> condition_value \<Rightarrow> bool option" where
  "condition_entry ctx e =
     (let key = fst e; v = snd e in
      if key = ''providerRegion'' then text_condition v (rc_providerRegion ctx)
      else if key = ''serviceTier'' then text_condition v (rc_serviceTier ctx)
      else if key = ''batchMode'' then flag_condition v (rc_batchMode ctx)
      else if key = ''contextTier'' then text_condition v (rc_contextTier ctx)
      else if key = ''mediaType'' then text_condition v (rc_mediaType ctx)
      else if key = ''inputTokenThreshold'' then threshold_condition v (rc_inputTokenCount ctx)
      else None)"

fun condition_loop :: "resolution_context \<Rightarrow> bool \<Rightarrow> price_conditions \<Rightarrow> condition_match" where
  "condition_loop ctx matches [] = (if matches then Matches else DoesNotMatch)"
| "condition_loop ctx matches (e # es) =
     (case condition_entry ctx e of
        None \<Rightarrow> Undecidable
      | Some holds \<Rightarrow> condition_loop ctx (matches \<and> holds) es)"

definition condition_match :: "price_conditions \<Rightarrow> resolution_context \<Rightarrow> condition_match" where
  "condition_match conditions ctx = condition_loop ctx True conditions"

text \<open>The loop over the candidates: the matching ones so far and whether one was undecidable.\<close>

fun scan_candidates ::
  "(string \<Rightarrow> int option) \<Rightarrow> component_kind \<Rightarrow> resolution_context \<Rightarrow> int \<Rightarrow>
   price_component list \<Rightarrow> price_component list \<Rightarrow> bool \<Rightarrow> price_component list \<times> bool" where
  "scan_candidates date kind ctx now [] matching undecidable = (matching, undecidable)"
| "scan_candidates date kind ctx now (c # cs) matching undecidable =
     (if pc_kind c \<noteq> kind \<or> \<not> active date c now
      then scan_candidates date kind ctx now cs matching undecidable
      else let m = condition_match (pc_conditions c) ctx in
        scan_candidates date kind ctx now cs
          (if m = Matches then matching @ [c] else matching)
          (undecidable \<or> m = Undecidable))"

text \<open>
  The comparator: more conditions first, then the later start.  It runs on active components only,
  whose start is a valid date; the default is never read there.
\<close>

definition starts_at :: "(string \<Rightarrow> int option) \<Rightarrow> price_component \<Rightarrow> int" where
  "starts_at date c = (case date (pc_effectiveFrom c) of None \<Rightarrow> 0 | Some t \<Rightarrow> t)"

definition specificity :: "price_component \<Rightarrow> nat" where
  "specificity c = length (pc_conditions c)"

definition compare_components :: "(string \<Rightarrow> int option) \<Rightarrow> price_component \<Rightarrow> price_component \<Rightarrow> int" where
  "compare_components date left right =
     (let d = int (specificity right) - int (specificity left)
      in if d \<noteq> 0 then d else starts_at date right - starts_at date left)"

definition preferred :: "(string \<Rightarrow> int option) \<Rightarrow> price_component \<Rightarrow> price_component \<Rightarrow> bool" where
  "preferred date left right \<longleftrightarrow> compare_components date left right \<le> 0"

fun tied_with :: "price_component \<Rightarrow> price_component list \<Rightarrow> bool" where
  "tied_with selected [] = False"
| "tied_with selected (r # rs) =
     (specificity selected = specificity r \<and> pc_effectiveFrom selected = pc_effectiveFrom r)"

definition select_from_scope ::
  "(string \<Rightarrow> int option) \<Rightarrow> price_component list \<Rightarrow> component_kind \<Rightarrow> resolution_context \<Rightarrow>
   (pricing_error, resolved_component option) result" where
  "select_from_scope date candidates kind ctx =
     (case date (rc_at ctx) of
        None \<Rightarrow> Inl ResolutionTimeInvalid
      | Some now \<Rightarrow>
          (case scan_candidates date kind ctx now candidates [] False of
             (matching, undecidable) \<Rightarrow>
               if undecidable
               then Inr (Some \<lparr>rp_kind = kind, rp_component = None, rp_status = Incomplete,
                               rp_reason = Some ''unsupportedCondition''\<rparr>)
               else (case sort_by (preferred date) matching of
                       [] \<Rightarrow> Inr None
                     | selected # rest \<Rightarrow>
                         if tied_with selected rest then Inl (PricesTied kind)
                         else if pc_currency selected \<noteq> rc_currency ctx
                         then Inr (Some \<lparr>rp_kind = kind, rp_component = None, rp_status = Incomplete,
                                         rp_reason = Some ''foreignCurrency''\<rparr>)
                         else Inr (Some \<lparr>rp_kind = kind, rp_component = Some selected,
                                         rp_status = Known, rp_reason = None\<rparr>))))"

definition price_scopes :: "price_sources \<Rightarrow> price_component list list" where
  "price_scopes s = [ps_bindingOverrides s, ps_workspaceOverrides s, ps_installationOverrides s,
     ps_catalogComponents s]"

fun resolve_kind ::
  "(string \<Rightarrow> int option) \<Rightarrow> resolution_context \<Rightarrow> component_kind \<Rightarrow> price_component list list \<Rightarrow>
   (pricing_error, resolved_component) result" where
  "resolve_kind date ctx kind [] =
     Inr \<lparr>rp_kind = kind, rp_component = None, rp_status = Unknown, rp_reason = None\<rparr>"
| "resolve_kind date ctx kind (scope # scopes) =
     rbind (select_from_scope date scope kind ctx) (\<lambda>selected.
       case selected of Some r \<Rightarrow> Inr r | None \<Rightarrow> resolve_kind date ctx kind scopes)"

definition resolve_prices ::
  "(string \<Rightarrow> int option) \<Rightarrow> price_sources \<Rightarrow> component_kind list \<Rightarrow> resolution_context \<Rightarrow>
   (pricing_error, price_resolution) result" where
  "resolve_prices date sources kinds ctx =
     rbind (rmapM (\<lambda>kind. resolve_kind date ctx kind (price_scopes sources)) kinds) (\<lambda>components.
       Inr \<lparr>pr_status =
              (if list_ex (\<lambda>c. rp_status c = Incomplete) components then Incomplete
               else if list_ex (\<lambda>c. rp_status c = Unknown) components then Unknown else Known),
            pr_components = components\<rparr>)"

section \<open>Cost\<close>

record usage_units =
  uu_input :: "jsnum option"
  uu_output :: "jsnum option"
  uu_cacheRead :: "jsnum option"
  uu_cacheCreation :: "jsnum option"
  uu_image :: "jsnum option"
  uu_audio :: "jsnum option"

record cost_line =
  cl_kind :: component_kind
  cl_units :: int
  cl_amount :: "decimal_string option"

record cost_calculation =
  cc_status :: resolution_status
  cc_amount :: "decimal_string option"
  cc_currency :: "string option"
  cc_components :: "cost_line list"

fun usage_field :: "component_kind \<Rightarrow> usage_units \<Rightarrow> jsnum option" where
  "usage_field KInput u = uu_input u"
| "usage_field KOutput u = uu_output u"
| "usage_field KCacheRead u = uu_cacheRead u"
| "usage_field KCacheCreation u = uu_cacheCreation u"
| "usage_field KImage u = uu_image u"
| "usage_field KAudio u = uu_audio u"

definition units_for :: "component_kind \<Rightarrow> usage_units \<Rightarrow> (pricing_error, int) result" where
  "units_for kind usage =
     (let v = (case usage_field kind usage of None \<Rightarrow> Num 0 | Some n \<Rightarrow> n)
      in if \<not> is_safe_integer v \<or> int_of v < 0 then Inl (UsageUnitsInvalid kind) else Inr (int_of v))"

fun money :: "(price_error, 'a) result \<Rightarrow> (pricing_error, 'a) result" where
  "money (Inl e) = Inl (DecimalError e)"
| "money (Inr a) = Inr a"

fun known_component :: "resolved_component \<Rightarrow> price_component option" where
  "known_component r = (if rp_status r \<noteq> Known then None else rp_component r)"

fun cost_loop ::
  "usage_units \<Rightarrow> resolved_component list \<Rightarrow> resolution_status \<Rightarrow> decimal_string \<Rightarrow> string option \<Rightarrow>
   cost_line list \<Rightarrow> (pricing_error, cost_calculation) result" where
  "cost_loop usage [] status acc currency calculated =
     Inr \<lparr>cc_status = status, cc_amount = (if status = Known then Some acc else None),
          cc_currency = (if status = Known then currency else None), cc_components = calculated\<rparr>"
| "cost_loop usage (r # rs) status acc currency calculated =
     rbind (units_for (rp_kind r) usage) (\<lambda>units.
       let line = \<lparr>cl_kind = rp_kind r, cl_units = units, cl_amount = None\<rparr> in
       if units = 0 then cost_loop usage rs status acc currency (calculated @ [line])
       else (case known_component r of
         None \<Rightarrow>
           let status1 = (if rp_status r = Incomplete then Incomplete else status);
               status2 = (if status1 \<noteq> Incomplete then Unknown else status1)
           in cost_loop usage rs status2 acc currency (calculated @ [line])
       | Some c \<Rightarrow>
           let cur = (case currency of None \<Rightarrow> pc_currency c | Some k \<Rightarrow> k) in
           if cur \<noteq> pc_currency c
           then Inr \<lparr>cc_status = Incomplete, cc_amount = None, cc_currency = None,
                     cc_components = calculated\<rparr>
           else rbind (money (multiply_decimal_by_integer (pc_amount c) (Num units))) (\<lambda>amount.
             rbind (money (add_decimals acc amount)) (\<lambda>acc'.
               cost_loop usage rs status acc' (Some cur)
                 (calculated @ [line\<lparr>cl_amount := Some amount\<rparr>])))))"

definition calculate_cost ::
  "price_resolution \<Rightarrow> usage_units \<Rightarrow> (pricing_error, cost_calculation) result" where
  "calculate_cost resolution usage =
     rbind (money (decimal (Text ''0''))) (\<lambda>acc.
       cost_loop usage (pr_components resolution) Known acc None [])"

record reservation_bounds =
  rb_maximumInputTokens :: jsnum
  rb_maximumOutputTokens :: jsnum
  rb_mayUsePromptCache :: bool
  rb_maximumImageUnits :: "jsnum option"
  rb_maximumAudioUnits :: "jsnum option"

definition conservative_reservation_usage :: "reservation_bounds \<Rightarrow> usage_units" where
  "conservative_reservation_usage b =
     (let optional_unit = (\<lambda>v. case v of None \<Rightarrow> Num 0 | Some n \<Rightarrow> n);
          cache = (if rb_mayUsePromptCache b then rb_maximumInputTokens b else Num 0)
      in \<lparr>uu_input = Some (rb_maximumInputTokens b), uu_output = Some (rb_maximumOutputTokens b),
          uu_cacheRead = Some cache, uu_cacheCreation = Some cache,
          uu_image = Some (optional_unit (rb_maximumImageUnits b)),
          uu_audio = Some (optional_unit (rb_maximumAudioUnits b))\<rparr>)"

section \<open>Conditions and candidates\<close>

lemma condition_loop_char:
  "condition_loop ctx b es =
     (if list_ex (\<lambda>e. condition_entry ctx e = None) es then Undecidable
      else if b \<and> list_all (\<lambda>e. condition_entry ctx e = Some True) es then Matches else DoesNotMatch)"
  by (induction es arbitrary: b) (auto split: option.splits)

lemma condition_match_Matches:
  "condition_match cs ctx = Matches \<longleftrightarrow> (\<forall>e \<in> set cs. condition_entry ctx e = Some True)"
  unfolding condition_match_def condition_loop_char by (auto simp: list_ex_iff list_all_iff)

lemma condition_match_Undecidable:
  "condition_match cs ctx = Undecidable \<longleftrightarrow> (\<exists>e \<in> set cs. condition_entry ctx e = None)"
  unfolding condition_match_def condition_loop_char by (auto simp: list_ex_iff list_all_iff)

text \<open>The candidates of a kind that are in force, and among them the ones whose conditions hold.\<close>

definition in_force ::
  "(string \<Rightarrow> int option) \<Rightarrow> resolution_context \<Rightarrow> component_kind \<Rightarrow> price_component \<Rightarrow> bool" where
  "in_force date ctx kind c \<longleftrightarrow>
     pc_kind c = kind \<and> (case date (rc_at ctx) of None \<Rightarrow> False | Some now \<Rightarrow> active date c now)"

definition applies ::
  "(string \<Rightarrow> int option) \<Rightarrow> resolution_context \<Rightarrow> component_kind \<Rightarrow> price_component \<Rightarrow> bool" where
  "applies date ctx kind c \<longleftrightarrow>
     in_force date ctx kind c \<and> condition_match (pc_conditions c) ctx = Matches"

lemma scan_candidates_char:
  assumes "date (rc_at ctx) = Some now"
  shows "scan_candidates date kind ctx now cs ms u =
    (ms @ filter (applies date ctx kind) cs,
     u \<or> (\<exists>c \<in> set cs. in_force date ctx kind c \<and> condition_match (pc_conditions c) ctx = Undecidable))"
  by (induction cs arbitrary: ms u) (auto simp: Let_def applies_def in_force_def assms)

text \<open>The comparator meets the contract of \<open>Array.prototype.sort\<close>.\<close>

lemma preferred_iff:
  "preferred date l r \<longleftrightarrow>
     specificity r < specificity l \<or> (specificity r = specificity l \<and> starts_at date r \<le> starts_at date l)"
  by (auto simp: preferred_def compare_components_def Let_def)

interpretation price_order: sort_order "preferred date" for date :: "string \<Rightarrow> int option"
  by unfold_locales (auto simp: preferred_iff)

lemma select_from_scope_None:
  assumes "select_from_scope date cs kind ctx = Inr None"
  shows "\<forall>c \<in> set cs. in_force date ctx kind c \<longrightarrow> condition_match (pc_conditions c) ctx = DoesNotMatch"
proof -
  obtain now where now: "date (rc_at ctx) = Some now"
    using assms by (auto simp: select_from_scope_def split: option.splits)
  have none: "\<not> (\<exists>c \<in> set cs. in_force date ctx kind c \<and> condition_match (pc_conditions c) ctx = Undecidable)"
    and sorted: "sort_by (preferred date) (filter (applies date ctx kind) cs) = []"
    using assms by (auto simp: select_from_scope_def now scan_candidates_char [where date = date and ctx = ctx, OF now]
        split: list.splits if_splits)
  have "filter (applies date ctx kind) cs = []" using sorted by simp
  then have "\<forall>c \<in> set cs. \<not> applies date ctx kind c" by (simp add: filter_empty_conv)
  then show ?thesis
    using none condition_match.exhaust by (metis applies_def)
qed

lemma select_from_scope_selected:
  assumes "select_from_scope date cs kind ctx = Inr (Some r)" and "rp_component r = Some c"
  obtains rest where
    "sort_by (preferred date) (filter (applies date ctx kind) cs) = c # rest" "\<not> tied_with c rest"
    "pc_currency c = rc_currency ctx" "rp_status r = Known" "rp_kind r = kind"
    "\<not> (\<exists>c \<in> set cs. in_force date ctx kind c \<and> condition_match (pc_conditions c) ctx = Undecidable)"
proof -
  obtain now where now: "date (rc_at ctx) = Some now"
    using assms by (auto simp: select_from_scope_def split: option.splits)
  show ?thesis
    using assms that
    by (auto simp: select_from_scope_def now scan_candidates_char [where date = date and ctx = ctx, OF now] split: list.splits if_splits)
qed

lemma resolve_kind_selected:
  assumes "resolve_kind date ctx kind scopes = Inr r" and "rp_component r = Some c"
  shows "\<exists>before scope after. scopes = before @ scope # after \<and>
    select_from_scope date scope kind ctx = Inr (Some r) \<and>
    (\<forall>s \<in> set before. select_from_scope date s kind ctx = Inr None)"
  using assms(1)
proof (induction scopes)
  case Nil
  then show ?case using assms(2) by auto
next
  case (Cons s scopes)
  show ?case
  proof (cases "select_from_scope date s kind ctx = Inr (Some r)")
    case True
    then show ?thesis
      by (rule_tac exI [of _ "[]"], rule_tac exI [of _ s], rule_tac exI [of _ scopes]) simp
  next
    case False
    then have s: "select_from_scope date s kind ctx = Inr None" and "resolve_kind date ctx kind scopes = Inr r"
      using Cons.prems by (cases "select_from_scope date s kind ctx"; auto split: option.splits)+
    then obtain before scope after where "scopes = before @ scope # after"
        "select_from_scope date scope kind ctx = Inr (Some r)"
        "\<forall>s \<in> set before. select_from_scope date s kind ctx = Inr None"
      using Cons.IH by blast
    then show ?thesis
      using s by (rule_tac exI [of _ "s # before"], rule_tac exI [of _ scope], rule_tac exI [of _ after]) simp
  qed
qed

section \<open>Selection is correct\<close>

lemma resolve_prices_component:
  assumes "resolve_prices date sources kinds ctx = Inr res" and "r \<in> set (pr_components res)"
  shows "\<exists>kind \<in> set kinds. resolve_kind date ctx kind (price_scopes sources) = Inr r"
proof -
  have "list_all2 (\<lambda>kind r. resolve_kind date ctx kind (price_scopes sources) = Inr r) kinds (pr_components res)"
    using assms(1) by (auto simp: resolve_prices_def result_simps)
  then show ?thesis using assms(2) by (auto simp: list_all2_conv_all_nth in_set_conv_nth) (metis nth_mem)
qed

text \<open>
  C5: a price that is used is the right one.  When \<open>resolvePrices\<close> attaches a component to a kind,
  the component comes from the first scope (binding, workspace, installation, catalog) that has
  any component of that kind in force whose conditions do not rule it out; it is in force at the
  instant asked for, all its conditions hold, it is in the currency asked for, and no other
  applicable component of that scope has more conditions or the same number and a later start.
\<close>

theorem resolved_price_is_right:
  assumes "resolve_prices date sources kinds ctx = Inr res"
    and "r \<in> set (pr_components res)" and "rp_component r = Some c"
  shows "\<exists>before scope after.
    price_scopes sources = before @ scope # after \<and> c \<in> set scope \<and> rp_kind r \<in> set kinds \<and>
    applies date ctx (rp_kind r) c \<and> pc_currency c = rc_currency ctx \<and> rp_status r = Known \<and>
    (\<forall>s \<in> set before. \<forall>d \<in> set s. in_force date ctx (rp_kind r) d \<longrightarrow>
       condition_match (pc_conditions d) ctx = DoesNotMatch) \<and>
    (\<forall>d \<in> set scope. in_force date ctx (rp_kind r) d \<longrightarrow>
       condition_match (pc_conditions d) ctx = DoesNotMatch \<or>
       applies date ctx (rp_kind r) d \<and> preferred date c d)"
proof -
  obtain kind where kind: "kind \<in> set kinds" and rk: "resolve_kind date ctx kind (price_scopes sources) = Inr r"
    using resolve_prices_component [OF assms(1,2)] by blast
  obtain before scope after where split: "price_scopes sources = before @ scope # after"
    and sel: "select_from_scope date scope kind ctx = Inr (Some r)"
    and none: "\<forall>s \<in> set before. select_from_scope date s kind ctx = Inr None"
    using resolve_kind_selected [OF rk assms(3)] by blast
  obtain rest where sorted: "sort_by (preferred date) (filter (applies date ctx kind) scope) = c # rest"
    and cur: "pc_currency c = rc_currency ctx" and st: "rp_status r = Known" and k: "rp_kind r = kind"
    and dec: "\<not> (\<exists>c \<in> set scope. in_force date ctx kind c \<and> condition_match (pc_conditions c) ctx = Undecidable)"
    using select_from_scope_selected [OF sel assms(3)] by metis
  have "c \<in> set (filter (applies date ctx kind) scope)"
    by (metis sorted list.set_intros(1) set_sort_by)
  then have c: "c \<in> set scope" "applies date ctx kind c" by auto
  have best: "preferred date c d" if "d \<in> set scope" "applies date ctx kind d" for d
    by (rule price_order.sort_head_least [OF sorted]) (simp add: that)
  have "in_force date ctx kind d \<Longrightarrow> condition_match (pc_conditions d) ctx = DoesNotMatch \<or>
      applies date ctx kind d \<and> preferred date c d" if "d \<in> set scope" for d
    using dec best [OF that] that condition_match.exhaust by (metis applies_def)
  then show ?thesis
    using split c cur st k kind select_from_scope_None none by blast
qed

text \<open>A concrete reading of instants: the two spellings of one instant, and a later one.\<close>

definition sample_date :: "string \<Rightarrow> int option" where
  "sample_date t =
     (if t = ''2026-01-01T00:00:00Z'' \<or> t = ''2026-01-01T00:00:00.000Z'' then Some 1767225600000
      else if t = ''2026-02-01T00:00:00Z'' then Some 1769904000000 else None)"

definition sample_component :: "string \<Rightarrow> string \<Rightarrow> decimal_string \<Rightarrow> price_component" where
  "sample_component i from amount = \<lparr>pc_id = i, pc_kind = KInput, pc_unit = UToken, pc_amount = amount,
     pc_currency = ''USD'', pc_effectiveFrom = from, pc_effectiveTo = None, pc_sourceId = ''s'',
     pc_conditions = []\<rparr>"

definition sample_context :: resolution_context where
  "sample_context = \<lparr>rc_at = ''2026-02-01T00:00:00Z'', rc_currency = ''USD'', rc_providerRegion = None,
     rc_serviceTier = None, rc_batchMode = None, rc_contextTier = None, rc_mediaType = None,
     rc_inputTokenCount = None\<rparr>"

definition sample_sources :: "price_component list \<Rightarrow> price_sources" where
  "sample_sources cs = \<lparr>ps_bindingOverrides = [], ps_workspaceOverrides = cs, ps_installationOverrides = [],
     ps_catalogComponents = []\<rparr>"

definition known_input :: "price_component \<Rightarrow> resolved_component" where
  "known_input c = \<lparr>rp_kind = KInput, rp_component = Some c, rp_status = Known, rp_reason = None\<rparr>"

lemmas sample_defs = sample_date_def sample_component_def sample_context_def sample_sources_def known_input_def
  active_def condition_match_def preferred_iff starts_at_def specificity_def price_scopes_def

lemma sample_date_eval:
  "sample_date ''2026-01-01T00:00:00Z'' = Some 1767225600000"
  "sample_date ''2026-01-01T00:00:00.000Z'' = Some 1767225600000"
  "sample_date ''2026-02-01T00:00:00Z'' = Some 1769904000000"
  by (simp_all add: sample_date_def)

lemma sample_select:
  assumes "sample_date f = Some 1767225600000" and "sample_date g = Some 1767225600000" and "f \<noteq> g"
  shows "select_from_scope sample_date [sample_component i f m, sample_component j g n] KInput sample_context =
    Inr (Some (known_input (sample_component i f m)))"
  using assms by (simp add: select_from_scope_def sample_component_def sample_context_def known_input_def
      sample_date_eval active_def condition_match_def preferred_iff starts_at_def specificity_def)

theorem resolved_price_is_right_witness:
  "applies sample_date sample_context KInput (sample_component ''a'' ''2026-01-01T00:00:00Z'' ''0.5'')"
proof -
  let ?c = "sample_component ''a'' ''2026-01-01T00:00:00Z'' ''0.5''"
  have "resolve_prices sample_date (sample_sources [?c]) [KInput] sample_context =
      Inr \<lparr>pr_status = Known, pr_components = [known_input ?c]\<rparr>"
    by (simp add: resolve_prices_def select_from_scope_def sample_defs)
  from resolved_price_is_right [OF this, of "known_input ?c" ?c] show ?thesis
    by (auto simp: known_input_def)
qed

lemma tied_with_head:
  assumes sorted: "sort_by (preferred date) ms = c # rest" and untied: "\<not> tied_with c rest"
    and canonical: "\<And>x y. x \<in> set ms \<Longrightarrow> y \<in> set ms \<Longrightarrow> starts_at date x = starts_at date y \<Longrightarrow>
      pc_effectiveFrom x = pc_effectiveFrom y"
    and d: "d \<in> set rest"
  shows "\<not> preferred date d c"
proof (cases rest)
  case Nil
  then show ?thesis using d by simp
next
  case (Cons e rest')
  have wrt: "sorted_wrt (preferred date) (c # e # rest')"
    using price_order.sort_sorted [of date ms] sorted Cons by simp
  have mem: "c \<in> set ms" "e \<in> set ms"
    using set_sort_by [of "preferred date" ms] unfolding sorted Cons by auto
  have ce: "preferred date c e" using wrt by simp
  have ed: "preferred date e d" using wrt d Cons price_order.total [of date e e] by auto
  show ?thesis
  proof
    assume "preferred date d c"
    then have "preferred date e c" using price_order.transitive [OF ed] by simp
    then have "specificity c = specificity e" "starts_at date c = starts_at date e"
      using ce unfolding preferred_iff by auto
    moreover from this(2) have "pc_effectiveFrom c = pc_effectiveFrom e" by (rule canonical [OF mem])
    ultimately have "tied_with c rest" unfolding Cons by simp
    then show False using untied by simp
  qed
qed

text \<open>
  C7: ties are rejected, as long as equal instants are written alike.  If the components of a scope
  write equal start instants the same way, a component that \<open>selectFromScope\<close> selects is strictly
  preferred to every other applicable component, so the choice does not depend on the order of the
  candidates.  The hypothesis is needed: two applicable components that start at one instant,
  written with and without milliseconds, are not reported as tied, and the first listed one wins.
\<close>

theorem price_ties_rejected:
  "((\<forall>x \<in> set cs. \<forall>y \<in> set cs. starts_at date x = starts_at date y \<longrightarrow>
        pc_effectiveFrom x = pc_effectiveFrom y) \<and>
    select_from_scope date cs kind ctx = Inr (Some r) \<and> rp_component r = Some c \<longrightarrow>
    (\<exists>others. mset (filter (applies date ctx kind) cs) = add_mset c others \<and>
      (\<forall>d \<in># others. \<not> preferred date d c))) \<and>
   (\<exists>a b. pc_amount a \<noteq> pc_amount b \<and> preferred sample_date a b \<and> preferred sample_date b a \<and>
     select_from_scope sample_date [a, b] KInput sample_context = Inr (Some (known_input a)) \<and>
     select_from_scope sample_date [b, a] KInput sample_context = Inr (Some (known_input b)))"
proof (intro conjI impI)
  assume *: "(\<forall>x \<in> set cs. \<forall>y \<in> set cs. starts_at date x = starts_at date y \<longrightarrow>
        pc_effectiveFrom x = pc_effectiveFrom y) \<and>
    select_from_scope date cs kind ctx = Inr (Some r) \<and> rp_component r = Some c"
  then obtain rest where sorted: "sort_by (preferred date) (filter (applies date ctx kind) cs) = c # rest"
    and untied: "\<not> tied_with c rest"
    using select_from_scope_selected [of date cs kind ctx r c] by metis
  have "\<not> preferred date d c" if "d \<in># mset rest" for d
    by (rule tied_with_head [OF sorted untied]) (use * that in auto)
  moreover have "mset (filter (applies date ctx kind) cs) = add_mset c (mset rest)"
    by (metis mset.simps(2) mset_sort_by sorted)
  ultimately show "\<exists>others. mset (filter (applies date ctx kind) cs) = add_mset c others \<and>
      (\<forall>d \<in># others. \<not> preferred date d c)" by blast
next
  let ?a = "sample_component ''a'' ''2026-01-01T00:00:00Z'' ''0.5''"
  let ?b = "sample_component ''b'' ''2026-01-01T00:00:00.000Z'' ''0.7''"
  have "pc_amount ?a \<noteq> pc_amount ?b" by (simp add: sample_component_def)
  moreover have "preferred sample_date ?a ?b" "preferred sample_date ?b ?a" by (simp_all add: sample_defs)
  moreover have "select_from_scope sample_date [?a, ?b] KInput sample_context = Inr (Some (known_input ?a))"
    "select_from_scope sample_date [?b, ?a] KInput sample_context = Inr (Some (known_input ?b))"
    by (rule sample_select; simp add: sample_date_eval)+
  ultimately show "\<exists>a b. pc_amount a \<noteq> pc_amount b \<and> preferred sample_date a b \<and> preferred sample_date b a \<and>
     select_from_scope sample_date [a, b] KInput sample_context = Inr (Some (known_input a)) \<and>
     select_from_scope sample_date [b, a] KInput sample_context = Inr (Some (known_input b))" by blast
qed

theorem price_ties_rejected_witness:
  "\<exists>others. mset (filter (applies sample_date sample_context KInput)
        [sample_component ''a'' ''2026-01-01T00:00:00Z'' ''0.5''])
      = add_mset (sample_component ''a'' ''2026-01-01T00:00:00Z'' ''0.5'') others \<and>
    (\<forall>d \<in># others. \<not> preferred sample_date d (sample_component ''a'' ''2026-01-01T00:00:00Z'' ''0.5''))"
proof -
  let ?c = "sample_component ''a'' ''2026-01-01T00:00:00Z'' ''0.5''"
  have "select_from_scope sample_date [?c] KInput sample_context = Inr (Some (known_input ?c))"
    by (simp add: select_from_scope_def sample_defs)
  then show ?thesis
    using price_ties_rejected [of "[?c]" sample_date KInput sample_context "known_input ?c" ?c]
    by (simp add: known_input_def)
qed

section \<open>Cost is exact\<close>

lemma money_Inr: "money r = Inr a \<longleftrightarrow> r = Inr a"
  by (cases r) auto

lemma decimal_zero: "decimal (Text ''0'') = Inr ''0''"
proof -
  have "parse (Text ''0'') = Inr \<lparr>coefficient = 0, scale = 0\<rparr>" by code_simp
  moreover have "fraction_digits ''0'' = []" "significant_digits ''0'' = []" by code_simp+
  ultimately show ?thesis by (simp add: decimal_def storable_decimal_def format_decimal_def del: parse.simps)
qed

lemma dval_zero: "dval ''0'' = 0"
proof -
  have "parse (Text ''0'') = Inr \<lparr>coefficient = 0, scale = 0\<rparr>" by code_simp
  then show ?thesis by (simp add: dval_def value_of_def del: parse.simps)
qed

text \<open>The price of the units of one component, as a number.\<close>

definition line_price :: "usage_units \<Rightarrow> resolved_component \<Rightarrow> rat" where
  "line_price usage r =
     (case units_for (rp_kind r) usage of
        Inl _ \<Rightarrow> 0
      | Inr units \<Rightarrow>
          (if units = 0 then 0
           else case known_component r of None \<Rightarrow> 0 | Some c \<Rightarrow> dval (pc_amount c) * of_int units))"

text \<open>A component whose units are counted and, if there are any, has a known price in the currency.\<close>

definition billable :: "usage_units \<Rightarrow> string option \<Rightarrow> resolved_component \<Rightarrow> bool" where
  "billable usage cur r \<longleftrightarrow>
     (case units_for (rp_kind r) usage of
        Inl _ \<Rightarrow> False
      | Inr units \<Rightarrow> units = 0 \<or> (\<exists>c. known_component r = Some c \<and> cur = Some (pc_currency c)))"

lemma cost_loop_status: "cost_loop usage rs st acc cur ls = Inr k \<Longrightarrow> cc_status k = Known \<Longrightarrow> st = Known"
proof (induction rs arbitrary: st acc cur ls)
  case Nil
  then show ?case by auto
next
  case (Cons r rs)
  then show ?case
    by (auto simp: rbind_Inr_iff money_Inr Let_def split: if_splits option.splits)
qed

lemma cost_loop_known:
  assumes "cost_loop usage rs Known acc cur ls = Inr k" and "cc_status k = Known"
  shows "\<exists>t. cc_amount k = Some t \<and> dval t = dval acc + (\<Sum>r\<leftarrow>rs. line_price usage r) \<and>
    list_all (billable usage (cc_currency k)) rs \<and> (cur = None \<or> cc_currency k = cur)"
  using assms
proof (induction rs arbitrary: acc cur ls)
  case Nil
  then show ?case by auto
next
  case (Cons r rs)
  obtain units where u: "units_for (rp_kind r) usage = Inr units"
    using Cons.prems(1) by (auto simp: rbind_Inr_iff)
  show ?case
  proof (cases "units = 0")
    case True
    then show ?thesis using Cons.IH [of acc cur] Cons.prems u
      by (auto simp: line_price_def billable_def)
  next
    case False
    have "known_component r \<noteq> None"
    proof
      assume "known_component r = None"
      then have "\<exists>st' ls'. st' \<noteq> Known \<and> cost_loop usage rs st' acc cur ls' = Inr k"
        using Cons.prems(1) u False by (auto simp: Let_def split: if_splits)
      then show False using cost_loop_status Cons.prems(2) by blast
    qed
    then obtain c where c: "known_component r = Some c" by blast
    define cur' where "cur' = (case cur of None \<Rightarrow> pc_currency c | Some k \<Rightarrow> k)"
    have same: "cur' = pc_currency c"
      using Cons.prems u False c by (auto simp: cur'_def Let_def split: if_splits)
    obtain amount acc' ls' where
        m: "multiply_decimal_by_integer (pc_amount c) (Num units) = Inr amount"
      and a: "add_decimals acc amount = Inr acc'"
      and rest: "cost_loop usage rs Known acc' (Some cur') ls' = Inr k"
      using Cons.prems u False c same
      by (auto simp: cur'_def Let_def rbind_Inr_iff money_Inr split: if_splits)
    obtain t where t: "cc_amount k = Some t" "dval t = dval acc' + (\<Sum>r\<leftarrow>rs. line_price usage r)"
        "list_all (billable usage (cc_currency k)) rs" "cc_currency k = Some cur'"
      using Cons.IH [OF rest Cons.prems(2)] by auto
    have "dval acc' = dval acc + line_price usage r"
      using add_decimals_value [OF a] multiply_decimal_value [OF m] u False c
      by (simp add: line_price_def)
    moreover have "billable usage (cc_currency k) r" using u c t(4) same by (simp add: billable_def)
    moreover have "cur = None \<or> cc_currency k = cur"
      using t(4) by (auto simp: cur'_def split: option.splits)
    ultimately show ?thesis using t by simp
  qed
qed

text \<open>
  C4: a known cost is exact.  When \<open>calculateCost\<close> returns the status known, the amount denotes
  exactly the sum over the components of the unit count times the unit price, every component with
  units has a known price, and all of those are in the one currency returned.
\<close>

theorem known_cost_is_exact:
  assumes "calculate_cost res usage = Inr k" and "cc_status k = Known"
  shows "\<exists>t. cc_amount k = Some t \<and> dval t = (\<Sum>r\<leftarrow>pr_components res. line_price usage r) \<and>
    list_all (billable usage (cc_currency k)) (pr_components res)"
proof -
  have "cost_loop usage (pr_components res) Known ''0'' None [] = Inr k"
    using assms(1) by (simp add: calculate_cost_def decimal_zero)
  from cost_loop_known [OF this assms(2)] show ?thesis by (auto simp: dval_zero)
qed

definition sample_usage :: "int \<Rightarrow> usage_units" where
  "sample_usage n = \<lparr>uu_input = Some (Num n), uu_output = None, uu_cacheRead = None, uu_cacheCreation = None,
     uu_image = None, uu_audio = None\<rparr>"

definition sample_resolution :: price_resolution where
  "sample_resolution = \<lparr>pr_status = Known,
     pr_components = [known_input (sample_component ''a'' ''2026-01-01T00:00:00Z'' ''0.5'')]\<rparr>"

lemma sample_parses:
  "parse_text ''0'' = Inr \<lparr>coefficient = 0, scale = 0\<rparr>"
  "parse_text ''0.5'' = Inr \<lparr>coefficient = 5, scale = 1\<rparr>"
  "parse_text ''1.5'' = Inr \<lparr>coefficient = 15, scale = 1\<rparr>"
  "parse_text ''2'' = Inr \<lparr>coefficient = 2, scale = 0\<rparr>"
  by code_simp+

lemma sample_stored:
  "decimal (Text ''1.5'') = Inr ''1.5''" "decimal (Text ''2'') = Inr ''2''"
proof -
  have "format_decimal 15 1 = ''1.5''" "format_decimal 2 0 = ''2''" by (simp_all add: format_eval)
  moreover have "fraction_digits ''1.5'' = ''5''" "significant_digits ''1.5'' = ''15''"
    "fraction_digits ''2'' = []" "significant_digits ''2'' = ''2''" by code_simp+
  ultimately show "decimal (Text ''1.5'') = Inr ''1.5''" "decimal (Text ''2'') = Inr ''2''"
    by (simp_all add: decimal_def storable_decimal_def sample_parses)
qed

lemma sample_amounts:
  "multiply_decimal_by_integer ''0.5'' (Num 3) = Inr ''1.5''" "add_decimals ''0'' ''1.5'' = Inr ''1.5''"
  "multiply_decimal_by_integer ''0.5'' (Num 4) = Inr ''2''" "add_decimals ''0'' ''2'' = Inr ''2''"
proof -
  have "format_decimal 15 1 = ''1.5''" "format_decimal 20 1 = ''2''" "format_decimal 2 0 = ''2''"
    by (simp_all add: format_eval)
  then show "multiply_decimal_by_integer ''0.5'' (Num 3) = Inr ''1.5''" "add_decimals ''0'' ''1.5'' = Inr ''1.5''"
    "multiply_decimal_by_integer ''0.5'' (Num 4) = Inr ''2''" "add_decimals ''0'' ''2'' = Inr ''2''"
    by (simp_all add: multiply_decimal_by_integer_def add_decimals_def sample_parses sample_stored
        safe_int_def max_safe_def scaled_coefficient_def)
qed

lemma sample_cost:
  "calculate_cost sample_resolution (sample_usage 3) = Inr \<lparr>cc_status = Known, cc_amount = Some ''1.5'',
     cc_currency = Some ''USD'', cc_components = [\<lparr>cl_kind = KInput, cl_units = 3, cl_amount = Some ''1.5''\<rparr>]\<rparr>"
  by (simp add: calculate_cost_def sample_resolution_def decimal_zero units_for_def sample_usage_def
      known_input_def sample_component_def safe_int_def max_safe_def sample_amounts)

theorem known_cost_is_exact_witness:
  "dval ''1.5'' = (\<Sum>r\<leftarrow>pr_components sample_resolution. line_price (sample_usage 3) r)"
  using known_cost_is_exact [OF sample_cost] by simp

lemma cost_loop_billable:
  assumes "cost_loop usage rs Known acc cur ls = Inr k" and "list_all (billable usage (Some K)) rs"
    and "cur \<in> {None, Some K}"
  shows "cc_status k = Known"
  using assms
proof (induction rs arbitrary: acc cur ls)
  case Nil
  then show ?case by auto
next
  case (Cons r rs)
  obtain units where u: "units_for (rp_kind r) usage = Inr units"
    using Cons.prems(1) by (auto simp: rbind_Inr_iff)
  show ?case
  proof (cases "units = 0")
    case True
    then show ?thesis using Cons u by auto
  next
    case False
    then obtain c where c: "known_component r = Some c" "pc_currency c = K"
      using Cons.prems(2) u by (auto simp: billable_def)
    have "(case cur of None \<Rightarrow> pc_currency c | Some k \<Rightarrow> k) = K" using Cons.prems(3) c by auto
    then obtain acc' ls' where "cost_loop usage rs Known acc' (Some K) ls' = Inr k"
      using Cons.prems(1) u False c by (auto simp: Let_def rbind_Inr_iff money_Inr)
    then show ?thesis using Cons.IH [of acc' "Some K" ls'] Cons.prems(2) by simp
  qed
qed

text \<open>Usage within another usage, kind by kind, as far as the resolution asks for the kinds.\<close>

definition usage_within :: "usage_units \<Rightarrow> usage_units \<Rightarrow> component_kind \<Rightarrow> bool" where
  "usage_within u v kind \<longleftrightarrow>
     (case (units_for kind u, units_for kind v) of (Inr a, Inr b) \<Rightarrow> a \<le> b | _ \<Rightarrow> False)"

lemma units_for_nonneg: "units_for kind usage = Inr u \<Longrightarrow> 0 \<le> u"
  by (auto simp: units_for_def Let_def split: if_splits)

lemma within_billable:
  assumes "billable v cur r" and "usage_within u v (rp_kind r)"
  shows "billable u cur r"
proof -
  obtain a b where ab: "units_for (rp_kind r) u = Inr a" "units_for (rp_kind r) v = Inr b" "a \<le> b"
    using assms(2) by (auto simp: usage_within_def split: sum.splits)
  have "0 \<le> a" using ab(1) by (rule units_for_nonneg)
  then show ?thesis using assms(1) ab by (auto simp: billable_def)
qed

lemma within_price:
  assumes "billable v cur r" and "usage_within u v (rp_kind r)"
    and "\<And>c. known_component r = Some c \<Longrightarrow> 0 \<le> dval (pc_amount c)"
  shows "line_price u r \<le> line_price v r"
proof -
  obtain a b where ab: "units_for (rp_kind r) u = Inr a" "units_for (rp_kind r) v = Inr b" "a \<le> b"
    using assms(2) by (auto simp: usage_within_def split: sum.splits)
  have "0 \<le> a" using ab(1) by (rule units_for_nonneg)
  show ?thesis
  proof (cases "b = 0")
    case True
    then show ?thesis using ab \<open>0 \<le> a\<close> by (simp add: line_price_def)
  next
    case False
    then obtain c where c: "known_component r = Some c" using assms(1) ab by (auto simp: billable_def)
    have "dval (pc_amount c) * of_int a \<le> dval (pc_amount c) * of_int b"
      by (rule mult_left_mono) (use ab assms(3) [OF c] in auto)
    then show ?thesis using ab c False by (auto simp: line_price_def)
  qed
qed

lemma conservative_cost:
  assumes reserved: "calculate_cost res worst_usage = Inr k" "cc_status k = Known"
    and within: "list_all (\<lambda>r. usage_within usage worst_usage (rp_kind r)) (pr_components res)"
    and prices: "list_all (\<lambda>r. \<forall>c. known_component r = Some c \<longrightarrow> 0 \<le> dval (pc_amount c)) (pr_components res)"
    and actual: "calculate_cost res usage = Inr m"
  shows "cc_status m = Known \<and>
    (\<exists>t worst. cc_amount m = Some t \<and> cc_amount k = Some worst \<and> dval t \<le> dval worst)"
proof -
  let ?v = worst_usage
  have k: "cost_loop ?v (pr_components res) Known ''0'' None [] = Inr k"
    and m: "cost_loop usage (pr_components res) Known ''0'' None [] = Inr m"
    using reserved actual by (simp_all add: calculate_cost_def decimal_zero)
  obtain worst where worst: "cc_amount k = Some worst"
      "dval worst = (\<Sum>r\<leftarrow>pr_components res. line_price ?v r)"
    and bill: "list_all (billable ?v (cc_currency k)) (pr_components res)"
    using cost_loop_known [OF k reserved(2)] by (auto simp: dval_zero)
  have "list_all (billable usage (cc_currency k)) (pr_components res)"
    using bill within within_billable by (auto simp: list_all_iff)
  then have "list_all (billable usage (Some (case cc_currency k of None \<Rightarrow> [] | Some c \<Rightarrow> c))) (pr_components res)"
    by (auto simp: list_all_iff billable_def split: sum.splits) fastforce
  then have known: "cc_status m = Known" using cost_loop_billable [OF m] by simp
  obtain t where t: "cc_amount m = Some t" "dval t = (\<Sum>r\<leftarrow>pr_components res. line_price usage r)"
    using cost_loop_known [OF m known] by (auto simp: dval_zero)
  have "(\<Sum>r\<leftarrow>pr_components res. line_price usage r) \<le> (\<Sum>r\<leftarrow>pr_components res. line_price ?v r)"
    by (rule sum_list_mono, rule within_price [of _ "cc_currency k"])
      (use bill within prices in \<open>auto simp: list_all_iff\<close>)
  then show ?thesis using known t worst by simp
qed

text \<open>
  C6: the reservation is conservative.  If the cost of a worst case (such as
  \<open>conservativeReservationUsage\<close>) is known and prices are not negative, then for every usage
  within it whose cost is computed, that cost is known too, and it is at most the worst-case amount.
\<close>

theorem reservation_is_conservative:
  assumes reserved: "calculate_cost res (conservative_reservation_usage b) = Inr k" "cc_status k = Known"
    and within: "list_all (\<lambda>r. usage_within usage (conservative_reservation_usage b) (rp_kind r)) (pr_components res)"
    and prices: "list_all (\<lambda>r. \<forall>c. known_component r = Some c \<longrightarrow> 0 \<le> dval (pc_amount c)) (pr_components res)"
    and actual: "calculate_cost res usage = Inr m"
  shows "cc_status m = Known \<and>
    (\<exists>t worst. cc_amount m = Some t \<and> cc_amount k = Some worst \<and> dval t \<le> dval worst)"
  by (rule conservative_cost [OF assms])

theorem reservation_is_conservative_witness: "dval ''1.5'' \<le> dval ''2''"
proof -
  let ?b = "\<lparr>rb_maximumInputTokens = Num 4, rb_maximumOutputTokens = Num 2, rb_mayUsePromptCache = False,
      rb_maximumImageUnits = None, rb_maximumAudioUnits = None\<rparr>"
  have reserved: "calculate_cost sample_resolution (conservative_reservation_usage ?b) =
      Inr \<lparr>cc_status = Known, cc_amount = Some ''2'', cc_currency = Some ''USD'',
        cc_components = [\<lparr>cl_kind = KInput, cl_units = 4, cl_amount = Some ''2''\<rparr>]\<rparr>"
    by (simp add: calculate_cost_def sample_resolution_def decimal_zero units_for_def
        conservative_reservation_usage_def Let_def known_input_def sample_component_def safe_int_def max_safe_def
        sample_amounts)
  have within: "list_all (\<lambda>r. usage_within (sample_usage 3) (conservative_reservation_usage ?b) (rp_kind r))
      (pr_components sample_resolution)"
    by (simp add: sample_resolution_def usage_within_def units_for_def sample_usage_def
        conservative_reservation_usage_def Let_def known_input_def safe_int_def max_safe_def)
  have prices: "list_all (\<lambda>r. \<forall>c. known_component r = Some c \<longrightarrow> 0 \<le> dval (pc_amount c))
      (pr_components sample_resolution)"
    by (simp add: sample_resolution_def known_input_def sample_component_def dval_def sample_parses value_of_def)
  show ?thesis
    using reservation_is_conservative [OF reserved _ within prices sample_cost] by simp
qed

end
