(* ===== verification/Ai_Types.thy ===== *)
theory Ai_Types
  imports Pricing
begin

text \<open>
  The vocabulary of \<open>packages/ai-sdk/src/contracts.ts\<close> and \<open>errors.ts\<close> that bindings, the catalog and
  the execution gateway share: roles, operation kinds, capabilities, provider results, errors.
  A JSON value carries, for a number, both its integral value and the text \<open>String(value)\<close> gives.
\<close>

datatype ai_role =
    RoleEmbedding | RoleVision | RoleAnalysis | RoleRepositoryAgent | RoleKeywordExtraction
  | RoleReranker | RoleChat

datatype ai_operation_kind =
    OpEmbedding | OpVision | OpGeneration | OpReranker | OpRepositoryAgent | OpRepositoryAgentTurn
  | OpRepositoryChange | OpRepositoryChangeTurn

datatype ai_capability =
    CapVision | CapStructuredOutput | CapTools | CapPromptCaching | CapReranking | CapRepositoryAgent

datatype ai_wire_api = WireEmbeddings | WireChatCompletions | WireResponses | WireCustom

datatype json =
    JNull | JBool bool | JNumber jsnum "string option" | JText string
  | JList "json list" | JObject "(string \<times> json) list"

type_synonym json_record = "(string \<times> json) list"

text \<open>
  The error classes; the string is the message.  A provider error also has its \<open>retryable\<close> flag, and
  \<open>UnexpectedError\<close> is any exception that is not an \<open>AiError\<close>.
\<close>

datatype ai_error =
    ConfigurationError string
  | CapabilityError string
  | PriceError price_error
  | HardBudgetError string
  | ProviderError bool string
  | TimeoutError jsnum
  | CancelledError
  | ReconciliationError string
  | UnexpectedError string

fun error_code :: "ai_error \<Rightarrow> string" where
  "error_code (ConfigurationError m) = ''ai.configuration''"
| "error_code (CapabilityError m) = ''ai.capability''"
| "error_code (PriceError e) = ''ai.price''"
| "error_code (HardBudgetError m) = ''ai.hardBudget''"
| "error_code (ProviderError r m) = ''ai.provider''"
| "error_code (TimeoutError t) = ''ai.timeout''"
| "error_code CancelledError = ''ai.cancelled''"
| "error_code (ReconciliationError m) = ''ai.reconciliation''"
| "error_code (UnexpectedError m) = ''ai.unexpected''"

fun error_retryable :: "ai_error \<Rightarrow> bool" where
  "error_retryable (ProviderError r m) = r"
| "error_retryable (TimeoutError t) = True"
| "error_retryable _ = False"

text \<open>The errors of price resolution and cost are configuration errors, those of the arithmetic price errors.\<close>

fun pricing_ai_error :: "pricing_error \<Rightarrow> ai_error" where
  "pricing_ai_error ResolutionTimeInvalid = ConfigurationError ''Price resolution time must be an ISO instant.''"
| "pricing_ai_error (PricesTied k) =
     ConfigurationError ''Overlapping price components are tied at the same precedence.''"
| "pricing_ai_error (UsageUnitsInvalid k) = ConfigurationError ''Usage units must be non-negative integers.''"
| "pricing_ai_error (DecimalError e) = PriceError e"

fun with_pricing :: "(pricing_error, 'a) result \<Rightarrow> (ai_error, 'a) result" where
  "with_pricing (Inl e) = Inl (pricing_ai_error e)"
| "with_pricing (Inr a) = Inr a"

fun with_price :: "(price_error, 'a) result \<Rightarrow> (ai_error, 'a) result" where
  "with_price (Inl e) = Inl (PriceError e)"
| "with_price (Inr a) = Inr a"

lemma with_pricing_Inr [simp]: "with_pricing r = Inr a \<longleftrightarrow> r = Inr a"
  by (cases r) auto

lemma with_price_Inr [simp]: "with_price r = Inr a \<longleftrightarrow> r = Inr a"
  by (cases r) auto

record normalized_usage =
  nu_inputTokens :: "jsnum option"
  nu_outputTokens :: "jsnum option"
  nu_cacheReadInputTokens :: "jsnum option"
  nu_cacheCreationInputTokens :: "jsnum option"
  nu_reasoningTokens :: "jsnum option"
  nu_imageUnits :: "jsnum option"
  nu_audioUnits :: "jsnum option"

record provider_reported_cost =
  prc_amount :: string
  prc_currency :: string

record provider_response_metadata =
  pm_providerRequestId :: "string option"
  pm_effectiveModel :: "string option"
  pm_latencyMs :: "jsnum option"
  pm_retryCount :: int
  pm_rawRedacted :: "json_record option"

end
