(* ===== verification/Bindings.thy ===== *)
theory Bindings
  imports Ai_Types
begin

text \<open>
  Immutable model bindings and their resolution, \<open>packages/ai-config/src/bindings.ts\<close>.
  \<open>Object.freeze\<close> has no effect on values; a \<open>ReadonlySet\<close> is a \<open>set\<close>.  The locale
  \<open>binding_resolver\<close> is the contract of \<open>AiBindingResolver\<close> the gateway relies on; the in-memory
  resolver of the repository is shown to meet it.
\<close>

section \<open>The data\<close>

record catalog_model =
  cm_id :: string
  cm_snapshotId :: string
  cm_canonicalModel :: string
  cm_provider :: string
  cm_supportedRoles :: "ai_role set"
  cm_capabilities :: "ai_capability set"
  cm_maximumInputTokens :: "jsnum option"
  cm_maximumOutputTokens :: "jsnum option"
  cm_priceComponents :: "price_component list"
  cm_rawEntry :: json_record

record partial_pricing =
  pp_catalogComponents :: "price_component list option"
  pp_installationOverrides :: "price_component list option"
  pp_workspaceOverrides :: "price_component list option"
  pp_bindingOverrides :: "price_component list option"

record immutable_binding =
  ib_workspaceId :: string
  ib_bindingId :: string
  ib_bindingVersionId :: string
  ib_version :: jsnum
  ib_role :: ai_role
  ib_providerInstanceVersionId :: string
  ib_providerType :: string
  ib_endpoint :: string
  ib_canonicalModel :: string
  ib_wireApi :: ai_wire_api
  ib_parameters :: json_record
  ib_capabilities :: "ai_capability set"
  ib_secretReference :: string
  ib_catalogSnapshotId :: string
  ib_maximumInputTokens :: "jsnum option"
  ib_maximumOutputTokens :: "jsnum option"
  ib_pricing :: price_sources

record create_binding_input =
  cb_workspaceId :: string
  cb_bindingId :: string
  cb_version :: jsnum
  cb_role :: ai_role
  cb_providerInstanceVersionId :: string
  cb_providerType :: string
  cb_endpoint :: string
  cb_canonicalModel :: string
  cb_wireApi :: ai_wire_api
  cb_parameters :: "json_record option"
  cb_secretReference :: string
  cb_catalogModel :: catalog_model
  cb_requiredCapabilities :: "ai_capability list option"
  cb_maximumInputTokens :: "jsnum option"
  cb_maximumOutputTokens :: "jsnum option"
  cb_pricing :: "partial_pricing option"

section \<open>Creating a binding\<close>

definition positive_limit :: "jsnum option \<Rightarrow> string \<Rightarrow> (ai_error, unit) result" where
  "positive_limit value name =
     (case value of
        None \<Rightarrow> Inr ()
      | Some n \<Rightarrow> rassert (is_safe_integer n \<and> 1 \<le> int_of n)
                   (ConfigurationError (name @ '' must be a positive integer.'')))"

definition freeze_pricing :: "partial_pricing \<Rightarrow> price_sources" where
  "freeze_pricing p =
     (let get = (\<lambda>c. case c of None \<Rightarrow> [] | Some cs \<Rightarrow> cs)
      in \<lparr>ps_bindingOverrides = get (pp_bindingOverrides p), ps_workspaceOverrides = get (pp_workspaceOverrides p),
          ps_installationOverrides = get (pp_installationOverrides p),
          ps_catalogComponents = get (pp_catalogComponents p)\<rparr>)"

text \<open>\<open>{ catalogComponents, ...pricing }\<close>: a component list the input gives replaces the catalog's.\<close>

definition spread_pricing :: "price_component list \<Rightarrow> partial_pricing option \<Rightarrow> partial_pricing" where
  "spread_pricing catalog p =
     (case p of
        None \<Rightarrow> \<lparr>pp_catalogComponents = Some catalog, pp_installationOverrides = None,
                 pp_workspaceOverrides = None, pp_bindingOverrides = None\<rparr>
      | Some q \<Rightarrow> q\<lparr>pp_catalogComponents :=
                    (case pp_catalogComponents q of None \<Rightarrow> Some catalog | Some cs \<Rightarrow> Some cs)\<rparr>)"

text \<open>\<open>a !== undefined && b !== undefined && a > b\<close>.\<close>

definition exceeds :: "jsnum option \<Rightarrow> jsnum option \<Rightarrow> bool" where
  "exceeds a b = (case (a, b) of (Some (Num x), Some (Num y)) \<Rightarrow> x > y | _ \<Rightarrow> False)"

text \<open>The template literal on a number that has passed the version check.\<close>

definition show_int :: "int \<Rightarrow> string" where
  "show_int i = (if i < 0 then CHR ''-'' # show_nat (nat (- i)) else show_nat (nat i))"

definition create_immutable_binding ::
  "create_binding_input \<Rightarrow> (ai_error, immutable_binding) result" where
  "create_immutable_binding i =
     rbind (rassert (cb_workspaceId i \<noteq> [] \<and> cb_bindingId i \<noteq> [] \<and> cb_providerInstanceVersionId i \<noteq> [] \<and>
                     cb_endpoint i \<noteq> [] \<and> cb_secretReference i \<noteq> [])
             (ConfigurationError ''Binding identity fields are required.'')) (\<lambda>_.
     rbind (rassert (is_safe_integer (cb_version i) \<and> 1 \<le> int_of (cb_version i))
             (ConfigurationError ''Binding version must be a positive integer.'')) (\<lambda>_.
     rbind (positive_limit (cb_maximumInputTokens i) ''Maximum input tokens'') (\<lambda>_.
     rbind (positive_limit (cb_maximumOutputTokens i) ''Maximum output tokens'') (\<lambda>_.
     rbind (rassert (cb_role i \<in> cm_supportedRoles (cb_catalogModel i))
             (CapabilityError ''Catalog model does not support the binding role.'')) (\<lambda>_.
     rbind (rall (\<lambda>c. rassert (c \<in> cm_capabilities (cb_catalogModel i))
                    (CapabilityError ''Catalog model does not support a required binding capability.''))
             (case cb_requiredCapabilities i of None \<Rightarrow> [] | Some cs \<Rightarrow> cs)) (\<lambda>_.
     rbind (rassert (\<not> exceeds (cb_maximumInputTokens i) (cm_maximumInputTokens (cb_catalogModel i)))
             (CapabilityError ''Binding input limit exceeds the catalog model limit.'')) (\<lambda>_.
     rbind (rassert (\<not> exceeds (cb_maximumOutputTokens i) (cm_maximumOutputTokens (cb_catalogModel i)))
             (CapabilityError ''Binding output limit exceeds the catalog model limit.'')) (\<lambda>_.
     Inr \<lparr>ib_workspaceId = cb_workspaceId i, ib_bindingId = cb_bindingId i,
          ib_bindingVersionId = cb_bindingId i @ '':'' @ show_int (int_of (cb_version i)),
          ib_version = cb_version i, ib_role = cb_role i,
          ib_providerInstanceVersionId = cb_providerInstanceVersionId i, ib_providerType = cb_providerType i,
          ib_endpoint = cb_endpoint i, ib_canonicalModel = cb_canonicalModel i, ib_wireApi = cb_wireApi i,
          ib_parameters = (case cb_parameters i of None \<Rightarrow> [] | Some p \<Rightarrow> p),
          ib_capabilities = cm_capabilities (cb_catalogModel i), ib_secretReference = cb_secretReference i,
          ib_catalogSnapshotId = cm_snapshotId (cb_catalogModel i),
          ib_maximumInputTokens = cb_maximumInputTokens i, ib_maximumOutputTokens = cb_maximumOutputTokens i,
          ib_pricing = freeze_pricing (spread_pricing (cm_priceComponents (cb_catalogModel i)) (cb_pricing i))\<rparr>))))))))"

section \<open>Resolving a binding\<close>

record resolution_request =
  rr_workspaceId :: string
  rr_role :: ai_role
  rr_bindingVersionId :: "string option"
  rr_requiredCapabilities :: "ai_capability list option"
  rr_inputTokens :: "jsnum option"
  rr_outputTokens :: "jsnum option"

record default_binding =
  db_workspaceId :: string
  db_role :: ai_role
  db_bindingVersionId :: string

record resolver_state =
  rs_bindings :: "(string \<times> immutable_binding) list"
  rs_defaults :: "(string \<times> string) list"

fun role_name :: "ai_role \<Rightarrow> string" where
  "role_name RoleEmbedding = ''embedding''"
| "role_name RoleVision = ''vision''"
| "role_name RoleAnalysis = ''analysis''"
| "role_name RoleRepositoryAgent = ''repositoryAgent''"
| "role_name RoleKeywordExtraction = ''keywordExtraction''"
| "role_name RoleReranker = ''reranker''"
| "role_name RoleChat = ''chat''"

definition default_key :: "string \<Rightarrow> ai_role \<Rightarrow> string" where
  "default_key workspace role = workspace @ '':'' @ role_name role"

definition new_resolver :: "immutable_binding list \<Rightarrow> default_binding list \<Rightarrow> resolver_state" where
  "new_resolver bindings defaults =
     \<lparr>rs_bindings = foldl (\<lambda>m b. assoc_set (ib_bindingVersionId b) b m) [] bindings,
      rs_defaults = foldl (\<lambda>m d. assoc_set (default_key (db_workspaceId d) (db_role d)) (db_bindingVersionId d) m)
        [] defaults\<rparr>"

definition resolve_binding ::
  "resolver_state \<Rightarrow> resolution_request \<Rightarrow> (ai_error, immutable_binding) result" where
  "resolve_binding st r =
     (case (case rr_bindingVersionId r of
              Some i \<Rightarrow> Some i
            | None \<Rightarrow> map_of (rs_defaults st) (default_key (rr_workspaceId r) (rr_role r))) of
        None \<Rightarrow> Inl (ConfigurationError ''No default binding is configured for this role.'')
      | Some i \<Rightarrow>
          (case map_of (rs_bindings st) i of
             None \<Rightarrow> Inl (ConfigurationError ''The requested binding is not available.'')
           | Some b \<Rightarrow>
               rbind (rassert (ib_workspaceId b = rr_workspaceId r)
                       (ConfigurationError ''The requested binding is not available.'')) (\<lambda>_.
               rbind (rassert (ib_role b = rr_role r)
                       (CapabilityError ''The requested binding has a different role.'')) (\<lambda>_.
               rbind (rall (\<lambda>c. rassert (c \<in> ib_capabilities b)
                              (CapabilityError ''The binding lacks a required capability.''))
                       (case rr_requiredCapabilities r of None \<Rightarrow> [] | Some cs \<Rightarrow> cs)) (\<lambda>_.
               rbind (rassert (\<not> exceeds (rr_inputTokens r) (ib_maximumInputTokens b))
                       (CapabilityError ''The request exceeds the binding input limit.'')) (\<lambda>_.
               rbind (rassert (\<not> exceeds (rr_outputTokens r) (ib_maximumOutputTokens b))
                       (CapabilityError ''The request exceeds the binding output limit.'')) (\<lambda>_.
               Inr b)))))))"

text \<open>
  What a resolver promises its clients: the binding it returns belongs to the workspace and role
  asked for, has the capabilities asked for, and the request is within its limits.
\<close>

locale binding_resolver =
  fixes resolve :: "resolution_request \<Rightarrow> (ai_error, immutable_binding) result"
  assumes resolve_scope: "resolve r = Inr b \<Longrightarrow> ib_workspaceId b = rr_workspaceId r \<and> ib_role b = rr_role r"
    and resolve_capable: "resolve r = Inr b \<Longrightarrow> rr_requiredCapabilities r = Some cs \<Longrightarrow> set cs \<subseteq> ib_capabilities b"
    and resolve_limits: "resolve r = Inr b \<Longrightarrow>
      \<not> exceeds (rr_inputTokens r) (ib_maximumInputTokens b) \<and> \<not> exceeds (rr_outputTokens r) (ib_maximumOutputTokens b)"
begin

lemma other_workspace_refused:
  "resolve r = Inr b \<Longrightarrow> ib_workspaceId b \<noteq> w \<Longrightarrow> rr_workspaceId r \<noteq> w"
  using resolve_scope by blast

end

lemma resolve_binding_facts:
  assumes "resolve_binding st r = Inr b"
  shows "ib_workspaceId b = rr_workspaceId r" and "ib_role b = rr_role r"
    and "rr_requiredCapabilities r = Some cs \<Longrightarrow> set cs \<subseteq> ib_capabilities b"
    and "\<not> exceeds (rr_inputTokens r) (ib_maximumInputTokens b)"
    and "\<not> exceeds (rr_outputTokens r) (ib_maximumOutputTokens b)"
    and "\<exists>i. map_of (rs_bindings st) i = Some b \<and> (rr_bindingVersionId r = Some i \<or>
      (rr_bindingVersionId r = None \<and> map_of (rs_defaults st) (default_key (rr_workspaceId r) (rr_role r)) = Some i))"
  using assms by (auto simp: resolve_binding_def result_simps split: option.splits)

interpretation memory_resolver: binding_resolver "resolve_binding st" for st
  by unfold_locales (auto simp: resolve_binding_facts)

section \<open>Properties\<close>

lemma show_nat_no_colon: "CHR '':'' \<notin> set (show_nat n)"
proof
  assume "CHR '':'' \<in> set (show_nat n)"
  then have "is_digit CHR '':''" using show_nat_digits [of n] by (simp add: list_all_iff del: show_nat_digits)
  then show False by (simp add: is_digit_def)
qed

lemma show_nat_inj: "show_nat m = show_nat n \<Longrightarrow> m = n"
  by (metis show_nat_value)

lemma role_name_no_colon: "CHR '':'' \<notin> set (role_name r)"
  by (cases r) auto

lemma role_name_inj: "role_name r = role_name s \<Longrightarrow> r = s"
  by (cases r; cases s) auto

lemma colon_suffix:
  assumes "a @ '':'' @ u = b @ '':'' @ v" and "CHR '':'' \<notin> set u" and "CHR '':'' \<notin> set v"
  shows "a = b \<and> u = v"
proof -
  have "takeWhile (\<lambda>c. c \<noteq> CHR '':'') (rev (a @ '':'' @ u)) = rev u"
    and "takeWhile (\<lambda>c. c \<noteq> CHR '':'') (rev (b @ '':'' @ v)) = rev v"
    using assms(2,3) by (auto simp: takeWhile_append)
  then have "u = v" using assms(1) by (metis rev_rev_ident)
  then show ?thesis using assms(1) by simp
qed

lemma created_binding:
  assumes "create_immutable_binding i = Inr b"
  shows "\<exists>v. cb_version i = Num v \<and> 1 \<le> v \<and>
      ib_bindingVersionId b = cb_bindingId i @ '':'' @ show_nat (nat v) \<and>
      ib_bindingId b = cb_bindingId i \<and> ib_version b = cb_version i"
  using assms by (cases "cb_version i") (auto simp: create_immutable_binding_def result_simps show_int_def)

lemma default_key_inj: "default_key w r = default_key v s \<Longrightarrow> w = v \<and> r = s"
  using colon_suffix [of w "role_name r" v "role_name s"] role_name_no_colon role_name_inj
  by (auto simp: default_key_def)

text \<open>
  binding identities do not clash.  Two bindings the code creates have the same version id only if
  binding id and version agree (binding ids may contain colons), and the key under which a default is
  kept determines workspace and role.
\<close>

theorem binding_keys_injective:
  assumes "create_immutable_binding i = Inr b" and "create_immutable_binding j = Inr c"
  shows "(ib_bindingVersionId b = ib_bindingVersionId c \<longleftrightarrow>
      ib_bindingId b = ib_bindingId c \<and> ib_version b = ib_version c) \<and>
    (default_key (ib_workspaceId b) (ib_role b) = default_key (ib_workspaceId c) (ib_role c) \<longleftrightarrow>
      ib_workspaceId b = ib_workspaceId c \<and> ib_role b = ib_role c)"
proof -
  obtain v w where v: "cb_version i = Num v" "1 \<le> v"
      "ib_bindingVersionId b = cb_bindingId i @ '':'' @ show_nat (nat v)"
      "ib_bindingId b = cb_bindingId i" "ib_version b = cb_version i"
    and w: "cb_version j = Num w" "1 \<le> w"
      "ib_bindingVersionId c = cb_bindingId j @ '':'' @ show_nat (nat w)"
      "ib_bindingId c = cb_bindingId j" "ib_version c = cb_version j"
    using created_binding [OF assms(1)] created_binding [OF assms(2)] by blast
  have "ib_bindingVersionId b = ib_bindingVersionId c \<longleftrightarrow> cb_bindingId i = cb_bindingId j \<and> v = w"
  proof
    assume "ib_bindingVersionId b = ib_bindingVersionId c"
    then have "cb_bindingId i @ '':'' @ show_nat (nat v) = cb_bindingId j @ '':'' @ show_nat (nat w)"
      unfolding v(3) w(3) .
    from colon_suffix [OF this show_nat_no_colon show_nat_no_colon]
    have "cb_bindingId i = cb_bindingId j" "nat v = nat w" using show_nat_inj by blast+
    then show "cb_bindingId i = cb_bindingId j \<and> v = w" using v(2) w(2) by linarith
  next
    assume "cb_bindingId i = cb_bindingId j \<and> v = w"
    then show "ib_bindingVersionId b = ib_bindingVersionId c" unfolding v(3) w(3) by simp
  qed
  then have "ib_bindingVersionId b = ib_bindingVersionId c \<longleftrightarrow>
      ib_bindingId b = ib_bindingId c \<and> ib_version b = ib_version c"
    unfolding v(4,5) w(4,5) v(1) w(1) jsnum.inject .
  show ?thesis
    by (rule conjI, fact, rule iffI, erule default_key_inj, simp)
qed

lemma foldl_assoc_set:
  "map_of (foldl (\<lambda>m x. assoc_set (key x) (val x) m) m0 xs) k =
     (case find (\<lambda>x. key x = k) (rev xs) of Some x \<Rightarrow> Some (val x) | None \<Rightarrow> map_of m0 k)"
proof (induction xs rule: rev_induct)
  case Nil
  then show ?case by simp
next
  case (snoc x xs)
  then show ?case by (simp add: map_of_assoc_set)
qed

lemma resolver_lookup:
  "map_of (rs_bindings (new_resolver bs ds)) i = Some b \<Longrightarrow> b \<in> set bs \<and> ib_bindingVersionId b = i"
  by (auto simp: new_resolver_def foldl_assoc_set find_Some_iff split: option.splits)
     (metis nth_mem length_rev set_rev)


section \<open>Witnesses\<close>

definition sample_model :: catalog_model where
  "sample_model = \<lparr>cm_id = ''m'', cm_snapshotId = ''s'', cm_canonicalModel = ''gpt'', cm_provider = ''p'',
     cm_supportedRoles = {RoleAnalysis}, cm_capabilities = {CapTools}, cm_maximumInputTokens = Some (Num 100),
     cm_maximumOutputTokens = None, cm_priceComponents = [], cm_rawEntry = []\<rparr>"

definition sample_input :: "string \<Rightarrow> int \<Rightarrow> create_binding_input" where
  "sample_input i v = \<lparr>cb_workspaceId = ''w'', cb_bindingId = i, cb_version = Num v, cb_role = RoleAnalysis,
     cb_providerInstanceVersionId = ''p1'', cb_providerType = ''openai'', cb_endpoint = ''e'',
     cb_canonicalModel = ''gpt'', cb_wireApi = WireResponses, cb_parameters = None, cb_secretReference = ''k'',
     cb_catalogModel = sample_model, cb_requiredCapabilities = Some [CapTools],
     cb_maximumInputTokens = Some (Num 50), cb_maximumOutputTokens = None, cb_pricing = None\<rparr>"

definition sample_binding :: "string \<Rightarrow> int \<Rightarrow> immutable_binding" where
  "sample_binding i v = \<lparr>ib_workspaceId = ''w'', ib_bindingId = i, ib_bindingVersionId = i @ '':'' @ show_int v,
     ib_version = Num v, ib_role = RoleAnalysis, ib_providerInstanceVersionId = ''p1'',
     ib_providerType = ''openai'', ib_endpoint = ''e'', ib_canonicalModel = ''gpt'', ib_wireApi = WireResponses,
     ib_parameters = [], ib_capabilities = {CapTools}, ib_secretReference = ''k'', ib_catalogSnapshotId = ''s'',
     ib_maximumInputTokens = Some (Num 50), ib_maximumOutputTokens = None,
     ib_pricing = \<lparr>ps_bindingOverrides = [], ps_workspaceOverrides = [], ps_installationOverrides = [],
       ps_catalogComponents = []\<rparr>\<rparr>"

lemma sample_binding_created:
  "i \<noteq> [] \<Longrightarrow> v \<in> {1, 2} \<Longrightarrow> create_immutable_binding (sample_input i v) = Inr (sample_binding i v)"
  by (auto simp: create_immutable_binding_def sample_input_def sample_binding_def sample_model_def
      positive_limit_def rassert_def exceeds_def safe_int_def max_safe_def freeze_pricing_def spread_pricing_def)

theorem binding_keys_injective_witness:
  "ib_bindingVersionId (sample_binding ''b:1'' 2) \<noteq> ib_bindingVersionId (sample_binding ''b'' 1)"
  using binding_keys_injective [OF sample_binding_created sample_binding_created, of "''b:1''" 2 "''b''" 1]
  by (simp add: sample_binding_def)

definition sample_request :: resolution_request where
  "sample_request = \<lparr>rr_workspaceId = ''w'', rr_role = RoleAnalysis, rr_bindingVersionId = Some ''b:1'',
     rr_requiredCapabilities = Some [CapTools], rr_inputTokens = Some (Num 40), rr_outputTokens = None\<rparr>"

lemma sample_resolved:
  "resolve_binding (new_resolver [sample_binding ''b'' 1] []) sample_request = Inr (sample_binding ''b'' 1)"
proof -
  have "ib_bindingVersionId (sample_binding ''b'' 1) = ''b:1''"
    by (simp add: sample_binding_def show_int_def show_nat.simps)
  then show ?thesis
    by (simp add: resolve_binding_def new_resolver_def sample_request_def rassert_def exceeds_def)
      (simp add: sample_binding_def)
qed


end
