(* ===== verification/Instants.thy ===== *)
theory Instants
  imports Prelude
begin

text \<open>
  Instants as the code uses \<open>Date\<close>: a number of milliseconds since the epoch within the range of the
  language, the proleptic Gregorian calendar of the language standard (\<open>Day\<close>, \<open>DayFromYear\<close>,
  \<open>YearFromTime\<close>, ...), and \<open>toISOString\<close>.  What \<open>new Date(text)\<close> reads is fixed by the language
  only for its own output format; components take it as an argument, under the contract
  \<open>instant_reader\<close>, which \<open>parse_iso\<close> below meets.
\<close>

section \<open>Calendar\<close>

definition ms_per_day :: int where
  "ms_per_day = 86400000"

definition time_clip :: "int \<Rightarrow> bool" where
  "time_clip t \<longleftrightarrow> - 8640000000000000 \<le> t \<and> t \<le> 8640000000000000"

definition leap_year :: "int \<Rightarrow> bool" where
  "leap_year y \<longleftrightarrow> y mod 4 = 0 \<and> (y mod 100 \<noteq> 0 \<or> y mod 400 = 0)"

definition day_from_year :: "int \<Rightarrow> int" where
  "day_from_year y = 365 * (y - 1970) + (y - 1969) div 4 - (y - 1901) div 100 + (y - 1601) div 400"

definition year_from_day :: "int \<Rightarrow> int" where
  "year_from_day d =
     (let g = 1970 + (400 * d) div 146097
      in if day_from_year (g + 1) \<le> d then g + 1 else if day_from_year g \<le> d then g else g - 1)"

text \<open>Days of the year before a month (0 to 11), and the month of a day of the year.\<close>

definition month_start :: "bool \<Rightarrow> int \<Rightarrow> int" where
  "month_start lp m =
     (let l = (if lp then 1 else 0) in
      if m = 0 then 0 else if m = 1 then 31 else if m = 2 then 59 + l else if m = 3 then 90 + l
      else if m = 4 then 120 + l else if m = 5 then 151 + l else if m = 6 then 181 + l
      else if m = 7 then 212 + l else if m = 8 then 243 + l else if m = 9 then 273 + l
      else if m = 10 then 304 + l else 334 + l)"

definition month_of :: "bool \<Rightarrow> int \<Rightarrow> int" where
  "month_of lp n =
     (let l = (if lp then 1 else 0) in
      if n < 31 then 0 else if n < 59 + l then 1 else if n < 90 + l then 2 else if n < 120 + l then 3
      else if n < 151 + l then 4 else if n < 181 + l then 5 else if n < 212 + l then 6
      else if n < 243 + l then 7 else if n < 273 + l then 8 else if n < 304 + l then 9
      else if n < 334 + l then 10 else 11)"

record utc_fields =
  utc_year :: int
  utc_month :: int
  utc_day :: int
  utc_hour :: int
  utc_minute :: int
  utc_second :: int
  utc_ms :: int

definition utc_of :: "int \<Rightarrow> utc_fields" where
  "utc_of t =
     (let d = t div ms_per_day; r = t mod ms_per_day; y = year_from_day d;
          n = d - day_from_year y; m = month_of (leap_year y) n
      in \<lparr>utc_year = y, utc_month = m + 1, utc_day = n - month_start (leap_year y) m + 1,
          utc_hour = r div 3600000, utc_minute = r div 60000 mod 60,
          utc_second = r div 1000 mod 60, utc_ms = r mod 1000\<rparr>)"

definition day_of_civil :: "int \<Rightarrow> int \<Rightarrow> int \<Rightarrow> int" where
  "day_of_civil y m d = day_from_year y + month_start (leap_year y) (m - 1) + d - 1"

definition ms_of_fields :: "utc_fields \<Rightarrow> int" where
  "ms_of_fields f = day_of_civil (utc_year f) (utc_month f) (utc_day f) * ms_per_day +
     utc_hour f * 3600000 + utc_minute f * 60000 + utc_second f * 1000 + utc_ms f"

text \<open>\<open>new Date(Date.UTC(y, m - 1, d)).getUTCDay()\<close>; years 0 to 99 mean 1900 to 1999.\<close>

definition utc_weekday :: "int \<Rightarrow> int \<Rightarrow> int \<Rightarrow> int" where
  "utc_weekday y m d = (day_of_civil (if 0 \<le> y \<and> y \<le> 99 then 1900 + y else y) m d + 4) mod 7"

lemma div_next:
  fixes x k :: int
  assumes "0 < k"
  shows "(x + 1) div k = x div k + (if (x + 1) mod k = 0 then 1 else 0)"
proof -
  have x: "x = k * (x div k) + x mod k" by simp
  have m: "0 \<le> x mod k" "x mod k < k" using assms by simp_all
  show ?thesis
  proof (cases "x mod k + 1 = k")
    case True
    have "x + 1 = k * (x div k) + k" using x True by linarith
    then have eq: "x + 1 = k * (x div k + 1) + 0" by (simp add: algebra_simps)
    have "(x + 1) div k = x div k + 1" "(x + 1) mod k = 0"
      by (rule int_div_pos_eq [OF eq], use assms in simp_all) (rule int_mod_pos_eq [OF eq], use assms in simp_all)
    then show ?thesis by simp
  next
    case False
    have eq: "x + 1 = k * (x div k) + (x mod k + 1)" using x by linarith
    have "(x + 1) div k = x div k" "(x + 1) mod k = x mod k + 1"
      by (rule int_div_pos_eq [OF eq], use m False in simp_all)
        (rule int_mod_pos_eq [OF eq], use m False in simp_all)
    then show ?thesis using m by simp
  qed
qed

lemma mod_shift:
  fixes y k :: int
  shows "(y - c * k) mod k = y mod k"
proof -
  have "y mod k = ((y - c * k) + c * k) mod k" by simp
  then show ?thesis by (simp only: mod_mult_self1)
qed

lemma day_from_year_step:
  "day_from_year (y + 1) = day_from_year y + (if leap_year y then 366 else 365)"
proof -
  have q: "(y - 1968) div 4 = (y - 1969) div 4 + (if y mod 4 = 0 then 1 else 0)"
    using div_next [of 4 "y - 1969"] mod_shift [of y 492 4] by simp
  have c: "(y - 1900) div 100 = (y - 1901) div 100 + (if y mod 100 = 0 then 1 else 0)"
    using div_next [of 100 "y - 1901"] mod_shift [of y 19 100] by simp
  have f: "(y - 1600) div 400 = (y - 1601) div 400 + (if y mod 400 = 0 then 1 else 0)"
    using div_next [of 400 "y - 1601"] mod_shift [of y 4 400] by simp
  have h: "y mod 400 = 0 \<Longrightarrow> y mod 100 = 0" "y mod 100 = 0 \<Longrightarrow> y mod 4 = 0"
    by (auto simp: mod_eq_0_iff_dvd elim: dvd_trans [rotated])
  have arg: "y + 1 - 1969 = y - 1968" "y + 1 - 1901 = y - 1900" "y + 1 - 1601 = y - 1600" by simp_all
  show ?thesis
    unfolding day_from_year_def arg q c f leap_year_def
    using h by (cases "y mod 4 = 0"; cases "y mod 100 = 0"; cases "y mod 400 = 0") simp_all
qed

text \<open>The guess is off by at most one: 400 years have 146097 days, and the calendar deviates by less than two days.\<close>

lemma div_bounds:
  fixes x k :: int
  assumes "0 < k"
  shows "k * (x div k) \<le> x" "x \<le> k * (x div k) + (k - 1)"
proof -
  have "x = k * (x div k) + x mod k" "0 \<le> x mod k" "x mod k < k" using assms by simp_all
  then show "k * (x div k) \<le> x" "x \<le> k * (x div k) + (k - 1)" by linarith+
qed

lemma day_from_year_bounds:
  "146097 * (y - 1970) - 800 \<le> 400 * day_from_year y \<and> 400 * day_from_year y \<le> 146097 * (y - 1970) + 800"
proof -
  define a b c where "a = (y - 1969) div 4" and "b = (y - 1901) div 100" and "c = (y - 1601) div 400"
  have "4 * a \<le> y - 1969" "y - 1969 \<le> 4 * a + 3" "100 * b \<le> y - 1901" "y - 1901 \<le> 100 * b + 99"
    "400 * c \<le> y - 1601" "y - 1601 \<le> 400 * c + 399"
    using div_bounds [of 4 "y - 1969"] div_bounds [of 100 "y - 1901"] div_bounds [of 400 "y - 1601"]
    unfolding a_def b_def c_def by simp_all
  then show ?thesis
    unfolding day_from_year_def a_def [symmetric] b_def [symmetric] c_def [symmetric] by (simp add: algebra_simps)
qed

lemma year_from_day:
  "day_from_year (year_from_day d) \<le> d" "d < day_from_year (year_from_day d + 1)"
proof -
  define g where "g = 1970 + (400 * d) div 146097"
  have g: "146097 * (g - 1970) \<le> 400 * d" "400 * d < 146097 * (g - 1970) + 146097"
    using div_bounds [of 146097 "400 * d"] unfolding g_def by simp_all
  have low: "day_from_year (g - 1) \<le> d" using day_from_year_bounds [of "g - 1"] g by (simp add: algebra_simps)
  have high: "d < day_from_year (g + 2)" using day_from_year_bounds [of "g + 2"] g by (simp add: algebra_simps)
  have y: "year_from_day d =
      (if day_from_year (g + 1) \<le> d then g + 1 else if day_from_year g \<le> d then g else g - 1)"
    by (simp add: year_from_day_def g_def Let_def)
  show "day_from_year (year_from_day d) \<le> d" using low by (simp add: y)
  show "d < day_from_year (year_from_day d + 1)"
    using high by (auto simp: y add.commute)
qed

lemma month_of_bounds:
  assumes "0 \<le> n" and "n < (if lp then 366 else 365)"
  shows "0 \<le> month_of lp n \<and> month_of lp n \<le> 11 \<and> month_start lp (month_of lp n) \<le> n \<and>
    n - month_start lp (month_of lp n) < 31"
  using assms by (auto simp: month_of_def month_start_def Let_def)

lemma day_of_year_bounds:
  "0 \<le> d - day_from_year (year_from_day d)"
  "d - day_from_year (year_from_day d) < (if leap_year (year_from_day d) then 366 else 365)"
  using year_from_day [of d] day_from_year_step [of "year_from_day d"] by auto

text \<open>The fields of an instant are in range and give the instant back.\<close>

lemma utc_of_range:
  "1 \<le> utc_month (utc_of t) \<and> utc_month (utc_of t) \<le> 12 \<and> 1 \<le> utc_day (utc_of t) \<and> utc_day (utc_of t) \<le> 31"
  using month_of_bounds [OF day_of_year_bounds, of "t div ms_per_day"]
  by (simp add: utc_of_def Let_def)

lemma utc_of_time_range:
  "0 \<le> utc_hour (utc_of t) \<and> utc_hour (utc_of t) < 24 \<and> 0 \<le> utc_minute (utc_of t) \<and> utc_minute (utc_of t) < 60 \<and>
   0 \<le> utc_second (utc_of t) \<and> utc_second (utc_of t) < 60 \<and> 0 \<le> utc_ms (utc_of t) \<and> utc_ms (utc_of t) < 1000"
proof -
  have r: "0 \<le> t mod ms_per_day" "t mod ms_per_day < 86400000" by (simp_all add: ms_per_day_def)
  then have "0 \<le> t mod ms_per_day div 3600000" "t mod ms_per_day div 3600000 < 24"
    by (simp_all add: pos_imp_zdiv_nonneg_iff div_less_iff_less_mult)
  then show ?thesis by (simp add: utc_of_def Let_def)
qed

lemma mixed_radix:
  fixes r :: int
  assumes "r = 1000 * s + u" and "s = 60 * m + v" and "m = 60 * h + w"
  shows "h * 3600000 + w * 60000 + v * 1000 + u = r"
  using assms by simp

lemma time_parts:
  fixes r :: int
  shows "r div 3600000 * 3600000 + r div 60000 mod 60 * 60000 + r div 1000 mod 60 * 1000 + r mod 1000 = r"
proof (rule mixed_radix)
  show "r = 1000 * (r div 1000) + r mod 1000" by simp
  have "r div 60000 = r div 1000 div 60" using zdiv_zmult2_eq [of 60 r 1000] by simp
  then show "r div 1000 = 60 * (r div 60000) + r div 1000 mod 60" by simp
  have "r div 3600000 = r div 60000 div 60" using zdiv_zmult2_eq [of 60 r 60000] by simp
  then show "r div 60000 = 60 * (r div 3600000) + r div 60000 mod 60" by simp
qed

lemma ms_of_utc: "ms_of_fields (utc_of t) = t"
proof -
  define d r where "d = t div ms_per_day" and "r = t mod ms_per_day"
  have t: "t = d * ms_per_day + r" by (simp add: d_def r_def)
  have flds: "utc_hour (utc_of t) = r div 3600000" "utc_minute (utc_of t) = r div 60000 mod 60"
    "utc_second (utc_of t) = r div 1000 mod 60" "utc_ms (utc_of t) = r mod 1000"
    "day_of_civil (utc_year (utc_of t)) (utc_month (utc_of t)) (utc_day (utc_of t)) = d"
    by (simp_all only: utc_of_def day_of_civil_def Let_def d_def r_def utc_fields.simps) simp
  have "ms_of_fields (utc_of t) = d * ms_per_day +
      (r div 3600000 * 3600000 + r div 60000 mod 60 * 60000 + r div 1000 mod 60 * 1000 + r mod 1000)"
    unfolding ms_of_fields_def flds by linarith
  then show ?thesis unfolding time_parts t [symmetric] .
qed

section \<open>toISOString and reading it back\<close>

fun pad :: "nat \<Rightarrow> nat \<Rightarrow> string" where
  "pad 0 n = []"
| "pad (Suc w) n = pad w (n div 10) @ [digit_char (n mod 10)]"

definition iso_year :: "int \<Rightarrow> string" where
  "iso_year y =
     (if 0 \<le> y \<and> y \<le> 9999 then pad 4 (nat y)
      else (if y < 0 then CHR ''-'' else CHR ''+'') # pad 6 (nat \<bar>y\<bar>))"

definition iso_string :: "int \<Rightarrow> string" where
  "iso_string t =
     (let f = utc_of t; two = (\<lambda>n. pad 2 (nat n)) in
      iso_year (utc_year f) @ ''-'' @ two (utc_month f) @ ''-'' @ two (utc_day f) @ ''T'' @
      two (utc_hour f) @ '':'' @ two (utc_minute f) @ '':'' @ two (utc_second f) @ ''.'' @
      pad 3 (nat (utc_ms f)) @ ''Z'')"

definition read_year :: "string \<Rightarrow> (int \<times> string)" where
  "read_year s =
     (if s \<noteq> [] \<and> hd s = CHR ''-'' then (- int (digits_value (take 6 (tl s))), drop 6 (tl s))
      else if s \<noteq> [] \<and> hd s = CHR ''+'' then (int (digits_value (take 6 (tl s))), drop 6 (tl s))
      else (int (digits_value (take 4 s)), drop 4 s))"

definition parse_iso :: "string \<Rightarrow> int option" where
  "parse_iso s =
     (case read_year s of (y, r) \<Rightarrow>
        let at = (\<lambda>i n. int (digits_value (take n (drop i r))));
            t = ms_of_fields \<lparr>utc_year = y, utc_month = at 1 2, utc_day = at 4 2, utc_hour = at 7 2,
                  utc_minute = at 10 2, utc_second = at 13 2, utc_ms = at 16 3\<rparr>
        in if iso_string t = s \<and> time_clip t then Some t else None)"

lemma length_pad [simp]: "length (pad w n) = w"
  by (induction w arbitrary: n) auto

lemma pad_value: "n < 10 ^ w \<Longrightarrow> digits_value (pad w n) = n"
  by (induction w arbitrary: n) (auto simp: less_mult_imp_div_less mult.commute)

lemma pad_digits: "list_all is_digit (pad w n)"
  by (induction w arbitrary: n) auto

lemma year_range:
  assumes "time_clip t"
  shows "\<bar>utc_year (utc_of t)\<bar> < 1000000"
proof -
  define d where "d = t div ms_per_day"
  have d: "- 100000001 \<le> d" "d \<le> 100000000"
    using assms div_bounds [of 86400000 t] unfolding d_def time_clip_def ms_per_day_def by simp_all
  have y: "utc_year (utc_of t) = year_from_day d" by (simp add: utc_of_def Let_def d_def)
  have "day_from_year (year_from_day d) \<le> d" "d < day_from_year (year_from_day d + 1)"
    by (rule year_from_day)+
  then show ?thesis
    using day_from_year_bounds [of "year_from_day d"] day_from_year_bounds [of "year_from_day d + 1"] d
    unfolding y by (simp add: algebra_simps abs_less_iff)
qed

lemma read_year_iso:
  assumes "\<bar>y\<bar> < 1000000"
  shows "read_year (iso_year y @ s) = (y, s)"
proof (cases "0 \<le> y \<and> y \<le> 9999")
  case True
  have "pad 4 (nat y) \<noteq> []" using length_pad [of 4 "nat y"] by (metis length_0_conv zero_neq_numeral)
  then have "is_digit (hd (pad 4 (nat y) @ s))"
    using pad_digits [of 4 "nat y"] by (cases "pad 4 (nat y)") auto
  then have "hd (pad 4 (nat y) @ s) \<noteq> CHR ''-''" "hd (pad 4 (nat y) @ s) \<noteq> CHR ''+''" by auto
  moreover have "nat y < 10000" using True by linarith
  then have "digits_value (pad 4 (nat y)) = nat y" using pad_value [of "nat y" 4] by simp
  ultimately show ?thesis using True by (simp add: iso_year_def read_year_def)
next
  case False
  then show ?thesis using assms by (simp add: iso_year_def read_year_def pad_value)
qed

lemma take_drop_pad:
  "take w (drop (Suc n) (a # xs)) = take w (drop n xs)" "take w (pad w n @ xs) = pad w n"
  "drop w (pad w n @ xs) = xs"
  by simp_all

theorem parse_iso_string:
  assumes "time_clip t"
  shows "parse_iso (iso_string t) = Some t"
proof -
  let ?f = "utc_of t"
  have ry: "read_year (iso_string t) = (utc_year ?f, ''-'' @ pad 2 (nat (utc_month ?f)) @ ''-'' @
      pad 2 (nat (utc_day ?f)) @ ''T'' @ pad 2 (nat (utc_hour ?f)) @ '':'' @ pad 2 (nat (utc_minute ?f)) @ '':'' @
      pad 2 (nat (utc_second ?f)) @ ''.'' @ pad 3 (nat (utc_ms ?f)) @ ''Z'')"
    unfolding iso_string_def Let_def by (rule read_year_iso [OF year_range [OF assms]])
  have v: "int (digits_value (pad 2 (nat k))) = k" if "0 \<le> k" "k < 100" for k
    using that by (simp add: pad_value)
  have v3: "int (digits_value (pad 3 (nat k))) = k" if "0 \<le> k" "k < 1000" for k
    using that by (simp add: pad_value)
  have "\<lparr>utc_year = utc_year ?f, utc_month = utc_month ?f, utc_day = utc_day ?f, utc_hour = utc_hour ?f,
      utc_minute = utc_minute ?f, utc_second = utc_second ?f, utc_ms = utc_ms ?f\<rparr> = ?f" by simp
  then have rec: "ms_of_fields \<lparr>utc_year = utc_year ?f, utc_month = utc_month ?f, utc_day = utc_day ?f,
      utc_hour = utc_hour ?f, utc_minute = utc_minute ?f, utc_second = utc_second ?f, utc_ms = utc_ms ?f\<rparr> = t"
    using ms_of_utc by metis
  then show ?thesis
    using utc_of_range [of t] utc_of_time_range [of t] assms
    by (simp add: parse_iso_def ry drop_Cons' v v3 rec Let_def)
qed

text \<open>The contract of reading a date text: the output format of \<open>toISOString\<close> is read back.\<close>

locale instant_reader =
  fixes date :: "string \<Rightarrow> int option"
  assumes reads_iso: "time_clip t \<Longrightarrow> date (iso_string t) = Some t"
begin

lemma iso_inj: "time_clip t \<Longrightarrow> time_clip u \<Longrightarrow> iso_string t = iso_string u \<Longrightarrow> t = u"
  using reads_iso by (metis option.inject)

end

interpretation iso_reader: instant_reader parse_iso
  by unfold_locales (rule parse_iso_string)

lemmas iso_string_inj = iso_reader.iso_inj

end
