(* ===== verification/Identities.thy ===== *)
theory Identities
  imports Canonical_Json Bindings Instants
begin

text \<open>
  Identifiers and identities: \<open>packages/domain/src/ids.ts\<close>, \<open>packages/publication/src/identity.ts\<close>,
  the hashes of \<open>packages/knowledge/src/hashing.ts\<close>, the request identity of
  \<open>packages/analysis/src/identity.ts\<close> and the idempotency checks of \<open>packages/connector-sdk/src/hash.ts\<close>.
  SHA-256 (hexadecimal) is an argument.
\<close>

section \<open>Identifiers\<close>

definition is_letter :: "char \<Rightarrow> bool" where
  "is_letter c \<longleftrightarrow> (let n = of_char c :: nat in (65 \<le> n \<and> n \<le> 90) \<or> (97 \<le> n \<and> n \<le> 122))"

datatype domain_id_error = IdentifierInvalid string | SecretReferenceInvalid | DigestInvalid | UtcOffsetMissing | UtcInstantInvalid

definition identifier_text :: "string \<Rightarrow> bool" where
  "identifier_text s \<longleftrightarrow>
     (case s of
        [] \<Rightarrow> False
      | c # r \<Rightarrow> (is_letter c \<or> is_digit c) \<and> length r \<le> 199 \<and>
          list_all (\<lambda>d. is_letter d \<or> is_digit d \<or> d \<in> {CHR ''.'', CHR ''_'', CHR '':'', CHR ''-''}) r)"

definition opaque_id :: "string \<Rightarrow> string \<Rightarrow> (domain_id_error, string) result" where
  "opaque_id value kind = (if identifier_text value then Inr value else Inl (IdentifierInvalid kind))"

definition secret_reference :: "string \<Rightarrow> (domain_id_error, string) result" where
  "secret_reference value =
     (if value = [] \<or> length value > 512 \<or> list_ex is_space value \<or> CHR '':'' \<notin> set value
      then Inl SecretReferenceInvalid else Inr value)"

definition hex_char :: "char \<Rightarrow> bool" where
  "hex_char c \<longleftrightarrow> (let n = of_char c :: nat in is_digit c \<or> (65 \<le> n \<and> n \<le> 70) \<or> (97 \<le> n \<and> n \<le> 102))"

definition sha256_digest :: "string \<Rightarrow> (domain_id_error, string) result" where
  "sha256_digest value =
     (if length value = 64 \<and> list_all hex_char value then Inr (to_lower value) else Inl DigestInvalid)"

definition utc_instant :: "(string \<Rightarrow> int option) \<Rightarrow> string \<Rightarrow> (domain_id_error, string) result" where
  "utc_instant date value =
     (if \<not> ends_with value ''Z'' then Inl UtcOffsetMissing
      else (case date value of None \<Rightarrow> Inl UtcInstantInvalid | Some t \<Rightarrow> Inr (iso_string t)))"

section \<open>References and opaque values\<close>

record external_reference =
  er_connectorInstanceId :: string
  er_resourceType :: string
  er_externalId :: string

record opaque_value =
  ov_version :: string
  ov_value :: string

definition same_opaque_value :: "opaque_value option \<Rightarrow> opaque_value option \<Rightarrow> bool" where
  "same_opaque_value left right =
     (case left of
        None \<Rightarrow> False
      | Some l \<Rightarrow> (case right of None \<Rightarrow> False | Some r \<Rightarrow> ov_version l = ov_version r \<and> ov_value l = ov_value r))"

definition same_reference :: "external_reference \<Rightarrow> external_reference \<Rightarrow> bool" where
  "same_reference l r \<longleftrightarrow>
     er_connectorInstanceId l = er_connectorInstanceId r \<and> er_resourceType l = er_resourceType r \<and>
     er_externalId l = er_externalId r"

definition reference_value :: "external_reference \<Rightarrow> js_value" where
  "reference_value r = JsObject
     [(''connectorInstanceId'', JsText (er_connectorInstanceId r)), (''resourceType'', JsText (er_resourceType r)),
      (''externalId'', JsText (er_externalId r))]"

text \<open>\<open>z.string().min(1).max(n)\<close>.\<close>

definition bounded_text :: "nat \<Rightarrow> string \<Rightarrow> bool" where
  "bounded_text n s \<longleftrightarrow> 1 \<le> length s \<and> length s \<le> n"

definition valid_reference :: "external_reference \<Rightarrow> bool" where
  "valid_reference r \<longleftrightarrow> bounded_text 200 (er_connectorInstanceId r) \<and> bounded_text 100 (er_resourceType r) \<and>
     bounded_text 1024 (er_externalId r)"

section \<open>Publication identity\<close>

datatype identity_error = SchemaRejected | DigestRejected domain_id_error | CanonicalRejected canonical_error

fun with_digest :: "(domain_id_error, 'a) result \<Rightarrow> (identity_error, 'a) result" where
  "with_digest (Inl e) = Inl (DigestRejected e)"
| "with_digest (Inr a) = Inr a"

fun with_canonical :: "(canonical_error, 'a) result \<Rightarrow> (identity_error, 'a) result" where
  "with_canonical (Inl e) = Inl (CanonicalRejected e)"
| "with_canonical (Inr a) = Inr a"

definition sha256_value :: "(string \<Rightarrow> string) \<Rightarrow> js_value \<Rightarrow> (identity_error, string) result" where
  "sha256_value sha256 v =
     rbind (with_canonical (sha256_canonical_json sha256 v)) (\<lambda>h. with_digest (sha256_digest h))"

record publication_identity_input =
  pn_workspaceId :: string
  pn_analysisResultId :: string
  pn_publicationProfileId :: string
  pn_publicationProfileVersion :: string
  pn_destinationConnectorInstanceId :: string
  pn_destinationConnectorConfigurationVersionId :: string
  pn_target :: external_reference

record publication_identity =
  pi_identityHash :: string
  pi_marker :: string
  pi_idempotencyKey :: string
  pi_requestHash :: string

definition valid_identity_input :: "publication_identity_input \<Rightarrow> bool" where
  "valid_identity_input i \<longleftrightarrow>
     list_all (bounded_text 200) [pn_workspaceId i, pn_analysisResultId i, pn_publicationProfileId i,
       pn_publicationProfileVersion i, pn_destinationConnectorInstanceId i,
       pn_destinationConnectorConfigurationVersionId i] \<and> valid_reference (pn_target i)"

definition publication_identity_value :: "publication_identity_input \<Rightarrow> js_value" where
  "publication_identity_value i = JsObject
     [(''operation'', JsText ''publication.identity.v1''), (''workspaceId'', JsText (pn_workspaceId i)),
      (''analysisResultId'', JsText (pn_analysisResultId i)),
      (''publicationProfileId'', JsText (pn_publicationProfileId i)),
      (''publicationProfileVersion'', JsText (pn_publicationProfileVersion i)),
      (''destinationConnectorInstanceId'', JsText (pn_destinationConnectorInstanceId i)),
      (''destinationConnectorConfigurationVersionId'', JsText (pn_destinationConnectorConfigurationVersionId i)),
      (''target'', reference_value (pn_target i))]"

definition publication_delivery_identity ::
  "(string \<Rightarrow> string) \<Rightarrow> string \<Rightarrow> (identity_error, publication_identity) result" where
  "publication_delivery_identity sha256 identityHash =
     rbind (with_digest (sha256_digest identityHash)) (\<lambda>digest.
     rbind (sha256_value sha256 (JsObject
       [(''operation'', JsText ''publication.publish.v1''), (''identityHash'', JsText digest)])) (\<lambda>requestHash.
     Inr \<lparr>pi_identityHash = identityHash, pi_marker = ''caseweaver.publication.v1.'' @ digest,
          pi_idempotencyKey = ''publication.v1.'' @ digest, pi_requestHash = requestHash\<rparr>))"

definition create_publication_identity ::
  "(string \<Rightarrow> string) \<Rightarrow> publication_identity_input \<Rightarrow> (identity_error, publication_identity) result" where
  "create_publication_identity sha256 i =
     (if \<not> valid_identity_input i then Inl SchemaRejected
      else rbind (sha256_value sha256 (publication_identity_value i)) (publication_delivery_identity sha256))"

section \<open>Idempotent requests\<close>

record idempotency_request =
  ir_key :: string
  ir_requestHash :: string

definition same_idempotency_request :: "idempotency_request \<Rightarrow> idempotency_request \<Rightarrow> bool" where
  "same_idempotency_request existing incoming \<longleftrightarrow>
     ir_key existing = ir_key incoming \<and> ir_requestHash existing = ir_requestHash incoming"

datatype idempotency_error = IdempotencyConflict string

definition assert_idempotency_request ::
  "string \<Rightarrow> idempotency_request \<Rightarrow> idempotency_request \<Rightarrow> (idempotency_error, unit) result" where
  "assert_idempotency_request operation existing incoming =
     (if ir_key existing = ir_key incoming \<and> ir_requestHash existing \<noteq> ir_requestHash incoming
      then Inl (IdempotencyConflict operation) else Inr ())"

section \<open>Knowledge hashes\<close>

definition canonical_sha256 :: "(string \<Rightarrow> string) \<Rightarrow> js_value \<Rightarrow> (canonical_error, string) result" where
  "canonical_sha256 sha256 v = rbind (hashing_text v) (\<lambda>t. Inr (sha256 t))"

definition number_value :: "int \<Rightarrow> js_value" where
  "number_value n = JsNumber (Some (show_int n))"

definition content_value :: "string \<Rightarrow> string \<Rightarrow> string option \<Rightarrow> js_value" where
  "content_value normalizationProfileVersion normalizedText attachmentIdentity = JsObject
     [(''normalizationProfileVersion'', JsText normalizationProfileVersion), (''normalizedText'', JsText normalizedText),
      (''attachmentIdentity'', case attachmentIdentity of None \<Rightarrow> JsNull | Some a \<Rightarrow> JsText a)]"

definition normalized_content_hash ::
  "(string \<Rightarrow> string) \<Rightarrow> string \<Rightarrow> string \<Rightarrow> string option \<Rightarrow> (canonical_error, string) result" where
  "normalized_content_hash sha256 version normalizedText attachmentIdentity =
     canonical_sha256 sha256 (content_value version normalizedText attachmentIdentity)"

definition chunk_value :: "string \<Rightarrow> string \<Rightarrow> int \<Rightarrow> js_value" where
  "chunk_value revisionId chunkingProfileVersion position = JsObject
     [(''kind'', JsText ''knowledge.chunk.v1''), (''revisionId'', JsText revisionId),
      (''chunkingProfileVersion'', JsText chunkingProfileVersion), (''position'', number_value position)]"

definition deterministic_chunk_id ::
  "(string \<Rightarrow> string) \<Rightarrow> string \<Rightarrow> string \<Rightarrow> int \<Rightarrow> (canonical_error, string) result" where
  "deterministic_chunk_id sha256 revisionId chunkingProfileVersion position =
     canonical_sha256 sha256 (chunk_value revisionId chunkingProfileVersion position)"

record embedding_cache_identity =
  ec_chunkHash :: string
  ec_embeddingBindingVersionId :: string
  ec_embeddingProfileVersion :: string
  ec_dimensions :: int
  ec_normalizationProfileVersion :: string

definition cache_value :: "embedding_cache_identity \<Rightarrow> js_value" where
  "cache_value i = JsObject
     [(''kind'', JsText ''knowledge.embedding-cache.v1''), (''chunkHash'', JsText (ec_chunkHash i)),
      (''embeddingBindingVersionId'', JsText (ec_embeddingBindingVersionId i)),
      (''embeddingProfileVersion'', JsText (ec_embeddingProfileVersion i)),
      (''dimensions'', number_value (ec_dimensions i)),
      (''normalizationProfileVersion'', JsText (ec_normalizationProfileVersion i))]"

definition embedding_cache_identity_key ::
  "(string \<Rightarrow> string) \<Rightarrow> embedding_cache_identity \<Rightarrow> (canonical_error, string) result" where
  "embedding_cache_identity_key sha256 i = canonical_sha256 sha256 (cache_value i)"

section \<open>Analysis request identity\<close>

record analysis_identity_input =
  ai_caseSnapshotId :: string
  ai_caseRevision :: string
  ai_analysisProfileVersion :: string
  ai_analysisBindingVersionId :: string
  ai_retrievalProfileVersion :: string
  ai_collectionIds :: "string list"
  ai_promptTemplateVersion :: string
  ai_outputSchemaVersion :: string
  ai_preparedAttachmentEvidenceHash :: "string option"
  ai_repositoryCommit :: "string option"
  ai_repositoryAgentBindingVersionId :: "string option"
  ai_repositoryVersionId :: "string option"
  ai_repositoryRuntimePinId :: "string option"
  ai_repositoryExecutionPolicyVersionId :: "string option"

definition optional_entry :: "string \<Rightarrow> string option \<Rightarrow> (string \<times> js_value) list" where
  "optional_entry k v = (case v of None \<Rightarrow> [] | Some s \<Rightarrow> [(k, JsText s)])"

definition analysis_identity_value :: "analysis_identity_input \<Rightarrow> js_value" where
  "analysis_identity_value i = JsObject
     ([(''caseSnapshotId'', JsText (ai_caseSnapshotId i)), (''caseRevision'', JsText (ai_caseRevision i)),
       (''analysisProfileVersion'', JsText (ai_analysisProfileVersion i)),
       (''analysisBindingVersionId'', JsText (ai_analysisBindingVersionId i)),
       (''retrievalProfileVersion'', JsText (ai_retrievalProfileVersion i)),
       (''collectionIds'', JsArray (map JsText (sort_by (\<le>) (remdups (ai_collectionIds i))))),
       (''promptTemplateVersion'', JsText (ai_promptTemplateVersion i)),
       (''outputSchemaVersion'', JsText (ai_outputSchemaVersion i))] @
      optional_entry ''preparedAttachmentEvidenceHash'' (ai_preparedAttachmentEvidenceHash i) @
      optional_entry ''repositoryCommit'' (ai_repositoryCommit i) @
      optional_entry ''repositoryAgentBindingVersionId'' (ai_repositoryAgentBindingVersionId i) @
      optional_entry ''repositoryVersionId'' (ai_repositoryVersionId i) @
      optional_entry ''repositoryRuntimePinId'' (ai_repositoryRuntimePinId i) @
      optional_entry ''repositoryExecutionPolicyVersionId'' (ai_repositoryExecutionPolicyVersionId i))"

definition create_analysis_request_identity ::
  "(string \<Rightarrow> string) \<Rightarrow> analysis_identity_input \<Rightarrow> (canonical_error, string \<times> string) result" where
  "create_analysis_request_identity sha256 i =
     rbind (identity_text (analysis_identity_value i)) (\<lambda>t. let identityHash = sha256 t in
     rbind (identity_text (JsObject [(''operation'', JsText ''analysis.request.v1''), (''identityHash'', JsText identityHash)]))
       (\<lambda>u. Inr (identityHash, sha256 u)))"

section \<open>What an identity identifies\<close>

lemma key_not_index: "\<lbrakk>k \<noteq> []; \<not> is_digit (hd k)\<rbrakk> \<Longrightarrow> \<not> array_index k"
  by (cases k) (simp_all add: array_index_def)

lemma number_value_plain: "plain_value (number_value n)"
proof -
  have digits: "number_text (show_nat k)" for k
    using show_nat_digits [of k] show_nat_nonempty [of k]
    by (cases "show_nat k") (auto simp: number_text_def number_char_def list_all_iff)
  then have "number_text (CHR ''-'' # show_nat k)" for k
    using digits [of k] by (auto simp: number_text_def number_char_def)
  then show ?thesis using digits by (simp add: number_value_def show_int_def)
qed

lemma canonical_number [simp]: "canonical_of (number_value n) = number_value n"
  by (simp add: number_value_def)

lemma number_value_inj [simp]: "number_value m = number_value n \<longleftrightarrow> m = n"
proof -
  have no_minus: "show_nat k \<noteq> CHR ''-'' # s" for k s using show_nat_digits [of k] by (cases "show_nat k") auto
  have inj: "show_nat a = show_nat b \<Longrightarrow> a = b" for a b using show_nat_value by metis
  have "show_int m = show_int n \<Longrightarrow> m = n"
    using no_minus no_minus [symmetric] inj by (auto simp: show_int_def split: if_splits dest!: inj)
  then show ?thesis by (auto simp: number_value_def)
qed

lemmas plain_key_simps = array_index_def is_digit_def proto_key_def

lemma reference_value_plain: "plain_value (reference_value r)"
  by (simp add: reference_value_def plain_key_simps)

lemma publication_value_plain: "plain_value (publication_identity_value i)"
  by (simp add: publication_identity_value_def reference_value_plain plain_key_simps)

lemma knowledge_values_plain:
  "plain_value (content_value v t a)" "plain_value (chunk_value r v p)" "plain_value (cache_value c)"
  by (simp_all add: content_value_def chunk_value_def cache_value_def number_value_plain plain_key_simps split: option.splits)

lemma optional_entry_facts [simp]:
  "map_of (optional_entry k v) k' = (if k' = k then map_option JsText v else None)"
  "distinct (map fst (optional_entry k v))"
  "k' \<in> fst ` set (optional_entry k v) \<longleftrightarrow> k' = k \<and> v \<noteq> None"
  "fst ` set (optional_entry k v) \<inter> A = {} \<longleftrightarrow> v = None \<or> k \<notin> A"
  "list_all P (optional_entry k v) \<longleftrightarrow> (\<forall>s. v = Some s \<longrightarrow> P (k, JsText s))"
  by (auto simp: optional_entry_def split: option.splits)

lemma lookup_optional:
  "k' \<noteq> k \<Longrightarrow> map_of (optional_entry k v @ es) k' = map_of es k'"
  "map_of es k = None \<Longrightarrow> map_of (optional_entry k v @ es) k = map_option JsText v"
  by (auto simp: map_add_def optional_entry_def split: option.splits)

lemma analysis_value_plain: "plain_value (analysis_identity_value i)"
proof -
  have "list_all plain_value (map JsText ss)" for ss by (induction ss) simp_all
  then show ?thesis
    by (simp add: analysis_identity_value_def plain_key_simps image_Un)
qed

lemma reference_value_inj [simp]: "canonical_of (reference_value r) = canonical_of (reference_value s) \<longleftrightarrow> r = s"
proof
  assume eq: "canonical_of (reference_value r) = canonical_of (reference_value s)"
  note f = equal_text_fields [OF reference_value_plain [of r, unfolded reference_value_def]
    reference_value_plain [of s, unfolded reference_value_def] eq [unfolded reference_value_def]]
  show "r = s"
    using f [of "''connectorInstanceId''"] f [of "''resourceType''"] f [of "''externalId''"] by (simp add: external_reference.equality)
qed simp

lemma publication_value_inj:
  assumes "canonical_of (publication_identity_value a) = canonical_of (publication_identity_value b)"
  shows "a = b"
proof -
  note f = equal_text_fields [OF publication_value_plain [of a, unfolded publication_identity_value_def]
    publication_value_plain [of b, unfolded publication_identity_value_def] assms [unfolded publication_identity_value_def]]
  show ?thesis
    using f [of "''workspaceId''"] f [of "''analysisResultId''"] f [of "''publicationProfileId''"]
      f [of "''publicationProfileVersion''"] f [of "''destinationConnectorInstanceId''"]
      f [of "''destinationConnectorConfigurationVersionId''"] f [of "''target''"]
    by (simp add: publication_identity_input.equality)
qed

lemma chunk_value_inj:
  assumes "canonical_of (chunk_value r v p) = canonical_of (chunk_value r' v' p')"
  shows "r = r' \<and> v = v' \<and> p = p'"
proof -
  note f = equal_text_fields [OF knowledge_values_plain(2) [of r v p, unfolded chunk_value_def]
    knowledge_values_plain(2) [of r' v' p', unfolded chunk_value_def] assms [unfolded chunk_value_def]]
  show ?thesis
    using f [of "''revisionId''"] f [of "''chunkingProfileVersion''"] f [of "''position''"] by simp
qed

lemma cache_value_inj:
  assumes "canonical_of (cache_value c) = canonical_of (cache_value d)"
  shows "c = d"
proof -
  note f = equal_text_fields [OF knowledge_values_plain(3) [of c, unfolded cache_value_def]
    knowledge_values_plain(3) [of d, unfolded cache_value_def] assms [unfolded cache_value_def]]
  show ?thesis
    using f [of "''chunkHash''"] f [of "''embeddingBindingVersionId''"] f [of "''embeddingProfileVersion''"]
      f [of "''dimensions''"] f [of "''normalizationProfileVersion''"] by (simp add: embedding_cache_identity.equality)
qed

lemma content_value_inj:
  assumes "canonical_of (content_value v t a) = canonical_of (content_value v' t' a')"
  shows "v = v' \<and> t = t' \<and> a = a'"
proof -
  note f = equal_text_fields [OF knowledge_values_plain(1) [of v t a, unfolded content_value_def]
    knowledge_values_plain(1) [of v' t' a', unfolded content_value_def] assms [unfolded content_value_def]]
  have "canonical_of (case x of None \<Rightarrow> JsNull | Some s \<Rightarrow> JsText s) = (case x of None \<Rightarrow> JsNull | Some s \<Rightarrow> JsText s)" for x
    by (simp split: option.splits)
  then show ?thesis
    using f [of "''normalizationProfileVersion''"] f [of "''normalizedText''"] f [of "''attachmentIdentity''"]
    by (simp split: option.splits)
qed

text \<open>The collection ids enter the request identity as a set.\<close>

interpretation text_order: sort_order "(\<le>) :: string \<Rightarrow> string \<Rightarrow> bool"
  by unfold_locales auto

lemma sorted_ids_set: "sort_by (\<le>) (remdups xs) = sort_by (\<le>) (remdups ys) \<longleftrightarrow> set xs = set (ys :: string list)"
proof
  assume "sort_by (\<le>) (remdups xs) = sort_by (\<le>) (remdups ys)"
  then have "set (sort_by (\<le>) (remdups xs)) = set (sort_by (\<le>) (remdups ys))" by simp
  then show "set xs = set ys" by simp
next
  assume "set xs = set ys"
  then have "mset (remdups xs) = mset (remdups ys)"
    by (intro set_eq_iff_mset_eq_distinct [THEN iffD1]) simp_all
  then show "sort_by (\<le>) (remdups xs) = sort_by (\<le>) (remdups ys)"
    by (intro text_order.sort_unique) auto
qed

lemma map_JsText_inj: "map JsText xs = map JsText ys \<longleftrightarrow> xs = ys"
  by (rule inj_map_eq_map) (simp add: inj_def)

lemma analysis_value_inj:
  assumes "canonical_of (analysis_identity_value x) = canonical_of (analysis_identity_value y)"
  shows "x\<lparr>ai_collectionIds := []\<rparr> = y\<lparr>ai_collectionIds := []\<rparr> \<and> set (ai_collectionIds x) = set (ai_collectionIds y)"
proof -
  note f = equal_text_fields [OF analysis_value_plain [of x, unfolded analysis_identity_value_def]
    analysis_value_plain [of y, unfolded analysis_identity_value_def] assms [unfolded analysis_identity_value_def]]
  have opt: "map_option canonical_of (map_option JsText a) = map_option canonical_of (map_option JsText b) \<Longrightarrow> a = b" for a b
    by (cases a; cases b) simp_all
  have "ai_preparedAttachmentEvidenceHash x = ai_preparedAttachmentEvidenceHash y"
    using f [of "''preparedAttachmentEvidenceHash''"] by (intro opt) (simp add: lookup_optional del: map_of_append)
  moreover have "ai_repositoryCommit x = ai_repositoryCommit y"
    using f [of "''repositoryCommit''"] by (intro opt) (simp add: lookup_optional del: map_of_append)
  moreover have "ai_repositoryAgentBindingVersionId x = ai_repositoryAgentBindingVersionId y"
    using f [of "''repositoryAgentBindingVersionId''"] by (intro opt) (simp add: lookup_optional del: map_of_append)
  moreover have "ai_repositoryVersionId x = ai_repositoryVersionId y"
    using f [of "''repositoryVersionId''"] by (intro opt) (simp add: lookup_optional del: map_of_append)
  moreover have "ai_repositoryRuntimePinId x = ai_repositoryRuntimePinId y"
    using f [of "''repositoryRuntimePinId''"] by (intro opt) (simp add: lookup_optional del: map_of_append)
  moreover have "ai_repositoryExecutionPolicyVersionId x = ai_repositoryExecutionPolicyVersionId y"
    using f [of "''repositoryExecutionPolicyVersionId''"] by (intro opt) (simp add: lookup_optional del: map_of_append)
  moreover have "set (ai_collectionIds x) = set (ai_collectionIds y)"
    using f [of "''collectionIds''"] by (simp add: map_JsText_inj sorted_ids_set)
  ultimately show ?thesis
    using f [of "''caseSnapshotId''"] f [of "''caseRevision''"] f [of "''analysisProfileVersion''"]
      f [of "''analysisBindingVersionId''"] f [of "''retrievalProfileVersion''"] f [of "''promptTemplateVersion''"]
      f [of "''outputSchemaVersion''"]
    by (intro conjI analysis_identity_input.equality) simp_all
qed

lemma analysis_value_set:
  assumes "x\<lparr>ai_collectionIds := []\<rparr> = y\<lparr>ai_collectionIds := []\<rparr>" "set (ai_collectionIds x) = set (ai_collectionIds y)"
  shows "analysis_identity_value x = analysis_identity_value y"
proof -
  have "sort_by (\<le>) (remdups (ai_collectionIds x)) = sort_by (\<le>) (remdups (ai_collectionIds y))"
    using assms(2) sorted_ids_set by blast
  then show ?thesis using assms(1) by (cases x; cases y) (simp add: analysis_identity_value_def)
qed

text \<open>
  C30: what a hash identifies.  The text hashed for a publication, for a knowledge chunk, for a cached
  embedding, for a normalized document and for an analysis request determines every field it was built
  from, the collection ids of a request as a set: two inputs share an identity only if they agree or their
  texts collide in SHA-256.
\<close>

theorem identity_inputs_determined:
  "(canonical_json (publication_identity_value a) = canonical_json (publication_identity_value b) \<longleftrightarrow> a = b) \<and>
   (hashing_text (chunk_value r v p) = hashing_text (chunk_value r' v' p') \<longleftrightarrow> r = r' \<and> v = v' \<and> p = p') \<and>
   (hashing_text (cache_value c) = hashing_text (cache_value d) \<longleftrightarrow> c = d) \<and>
   (hashing_text (content_value n t m) = hashing_text (content_value n' t' m') \<longleftrightarrow> n = n' \<and> t = t' \<and> m = m') \<and>
   (identity_text (analysis_identity_value x) = identity_text (analysis_identity_value y) \<longleftrightarrow>
      x\<lparr>ai_collectionIds := []\<rparr> = y\<lparr>ai_collectionIds := []\<rparr> \<and> set (ai_collectionIds x) = set (ai_collectionIds y))"
proof (intro conjI)
  show "canonical_json (publication_identity_value a) = canonical_json (publication_identity_value b) \<longleftrightarrow> a = b"
    unfolding equal_canonical_texts(3) [OF publication_value_plain publication_value_plain] using publication_value_inj by auto
  show "hashing_text (chunk_value r v p) = hashing_text (chunk_value r' v' p') \<longleftrightarrow> r = r' \<and> v = v' \<and> p = p'"
    unfolding equal_canonical_texts(2) [OF knowledge_values_plain(2) knowledge_values_plain(2)] using chunk_value_inj by auto
  show "hashing_text (cache_value c) = hashing_text (cache_value d) \<longleftrightarrow> c = d"
    unfolding equal_canonical_texts(2) [OF knowledge_values_plain(3) knowledge_values_plain(3)] using cache_value_inj by auto
  show "hashing_text (content_value n t m) = hashing_text (content_value n' t' m') \<longleftrightarrow> n = n' \<and> t = t' \<and> m = m'"
    unfolding equal_canonical_texts(2) [OF knowledge_values_plain(1) knowledge_values_plain(1)] using content_value_inj by auto
  show "identity_text (analysis_identity_value x) = identity_text (analysis_identity_value y) \<longleftrightarrow>
      x\<lparr>ai_collectionIds := []\<rparr> = y\<lparr>ai_collectionIds := []\<rparr> \<and> set (ai_collectionIds x) = set (ai_collectionIds y)"
    unfolding equal_canonical_texts(1) [OF analysis_value_plain analysis_value_plain]
    by (rule iffI, erule analysis_value_inj, erule conjE, rule arg_cong [of _ _ canonical_of], erule (1) analysis_value_set)
qed

end
