(* ===== verification/Envelopes.thy ===== *)
theory Envelopes
  imports Identities
begin

text \<open>
  The envelopes of commands and events: \<open>packages/domain/src/envelopes.ts\<close>.  An envelope is read from any value,
  by \<open>createEnvelope\<close> when a producer makes it and by \<open>deserializeEnvelope\<close> when a consumer takes it from a queue.
  Reading a date text (\<open>new Date\<close>) is an argument; the locale \<open>date_parser\<close> states what the code relies on.
\<close>

section \<open>Types and payloads\<close>

datatype envelope_type =
    AnalysisExecuteV1 | AnalysisDiscoverV1 | AnalysisTriggerV1 | AnalysisTriggerV2 | PublicationExecuteV1
  | PublicationReconcileV1 | AnalysisCompletedV1 | RepositoryChangeExecuteV1 | KnowledgeSynchronizeV1
  | KnowledgeFullRescanV1 | KnowledgeSynchronizeV2 | KnowledgeFullRescanV2 | RetentionReapV1 | RetentionPurgeV1
  | DiagnosticsExportGenerateV1

definition envelope_types :: "envelope_type list" where
  "envelope_types = [AnalysisExecuteV1, AnalysisDiscoverV1, AnalysisTriggerV1, AnalysisTriggerV2, PublicationExecuteV1,
     PublicationReconcileV1, AnalysisCompletedV1, RepositoryChangeExecuteV1, KnowledgeSynchronizeV1,
     KnowledgeFullRescanV1, KnowledgeSynchronizeV2, KnowledgeFullRescanV2, RetentionReapV1, RetentionPurgeV1,
     DiagnosticsExportGenerateV1]"

fun type_name :: "envelope_type \<Rightarrow> string" where
  "type_name AnalysisExecuteV1 = ''analysis.execute.v1''"
| "type_name AnalysisDiscoverV1 = ''analysis.discover.v1''"
| "type_name AnalysisTriggerV1 = ''analysis.trigger.v1''"
| "type_name AnalysisTriggerV2 = ''analysis.trigger.v2''"
| "type_name PublicationExecuteV1 = ''publication.execute.v1''"
| "type_name PublicationReconcileV1 = ''publication.reconcile.v1''"
| "type_name AnalysisCompletedV1 = ''analysis.completed.v1''"
| "type_name RepositoryChangeExecuteV1 = ''repository-change.execute.v1''"
| "type_name KnowledgeSynchronizeV1 = ''knowledge.synchronize.v1''"
| "type_name KnowledgeFullRescanV1 = ''knowledge.full-rescan.v1''"
| "type_name KnowledgeSynchronizeV2 = ''knowledge.synchronize.v2''"
| "type_name KnowledgeFullRescanV2 = ''knowledge.full-rescan.v2''"
| "type_name RetentionReapV1 = ''retention.reap.v1''"
| "type_name RetentionPurgeV1 = ''retention.purge.v1''"
| "type_name DiagnosticsExportGenerateV1 = ''diagnostics.export.generate.v1''"

definition type_of_name :: "string \<Rightarrow> envelope_type option" where
  "type_of_name s = List.find (\<lambda>t. type_name t = s) envelope_types"

datatype trigger_source = ManualSource | ScheduleSource | WebhookSource

fun source_name :: "trigger_source \<Rightarrow> string" where
  "source_name ManualSource = ''manual''"
| "source_name ScheduleSource = ''schedule''"
| "source_name WebhookSource = ''webhook''"

datatype knowledge_trigger = ManualKnowledge | ScheduleKnowledge

fun knowledge_trigger_name :: "knowledge_trigger \<Rightarrow> string" where
  "knowledge_trigger_name ManualKnowledge = ''manual''"
| "knowledge_trigger_name ScheduleKnowledge = ''schedule''"

datatype reap_reason = ScheduledReap | OperatorReap

fun reap_reason_name :: "reap_reason \<Rightarrow> string" where
  "reap_reason_name ScheduledReap = ''scheduled''"
| "reap_reason_name OperatorReap = ''operator''"

record discover_payload =
  dp_scheduleId :: string
  dp_scheduleConfigurationVersionId :: string
  dp_triggerId :: string
  dp_triggerVersionId :: string
  dp_connectorRegistrationId :: string
  dp_connectorConfigurationVersionId :: string
  dp_occurrenceKey :: string

record legacy_trigger_payload =
  lt_triggerId :: string
  lt_source :: trigger_source
  lt_occurrenceKey :: "string option"
  lt_target :: "external_reference option"

record trigger_payload =
  tp_triggerRequestId :: string
  tp_triggerId :: string
  tp_triggerVersionId :: string
  tp_connectorRegistrationId :: string
  tp_connectorConfigurationVersionId :: string
  tp_source :: trigger_source
  tp_occurrenceKey :: "string option"
  tp_target :: external_reference

record legacy_knowledge_payload =
  lk_sourceId :: string
  lk_configurationVersion :: string
  lk_trigger :: knowledge_trigger

record knowledge_payload_v2 =
  kp_sourceId :: string
  kp_sourceConfigurationVersionId :: string
  kp_connectorConfigurationVersionId :: string
  kp_trigger :: knowledge_trigger

datatype envelope_payload =
    AnalysisExecute string string
  | AnalysisDiscover discover_payload
  | LegacyAnalysisTrigger legacy_trigger_payload
  | AnalysisTrigger trigger_payload
  | PublicationExecute string
  | PublicationReconcile string
  | AnalysisCompleted string string
  | RepositoryChangeExecute string
  | LegacyKnowledgeSynchronize legacy_knowledge_payload
  | LegacyKnowledgeFullRescan legacy_knowledge_payload
  | KnowledgeSynchronize knowledge_payload_v2
  | KnowledgeFullRescan knowledge_payload_v2
  | RetentionReap reap_reason "int option"
  | RetentionPurge string
  | DiagnosticsExportGenerate string

fun payload_type :: "envelope_payload \<Rightarrow> envelope_type" where
  "payload_type (AnalysisExecute _ _) = AnalysisExecuteV1"
| "payload_type (AnalysisDiscover _) = AnalysisDiscoverV1"
| "payload_type (LegacyAnalysisTrigger _) = AnalysisTriggerV1"
| "payload_type (AnalysisTrigger _) = AnalysisTriggerV2"
| "payload_type (PublicationExecute _) = PublicationExecuteV1"
| "payload_type (PublicationReconcile _) = PublicationReconcileV1"
| "payload_type (AnalysisCompleted _ _) = AnalysisCompletedV1"
| "payload_type (RepositoryChangeExecute _) = RepositoryChangeExecuteV1"
| "payload_type (LegacyKnowledgeSynchronize _) = KnowledgeSynchronizeV1"
| "payload_type (LegacyKnowledgeFullRescan _) = KnowledgeFullRescanV1"
| "payload_type (KnowledgeSynchronize _) = KnowledgeSynchronizeV2"
| "payload_type (KnowledgeFullRescan _) = KnowledgeFullRescanV2"
| "payload_type (RetentionReap _ _) = RetentionReapV1"
| "payload_type (RetentionPurge _) = RetentionPurgeV1"
| "payload_type (DiagnosticsExportGenerate _) = DiagnosticsExportGenerateV1"

datatype envelope_kind = CommandKind | DomainEventKind

record trace_context =
  tc_traceparent :: string
  tc_tracestate :: "string option"

record envelope =
  en_id :: string
  en_workspaceId :: string
  en_occurredAt :: string
  en_correlationId :: string
  en_causationId :: string
  en_traceContext :: "trace_context option"
  en_payload :: envelope_payload

text \<open>The type and the kind of an envelope follow from its payload.\<close>

definition required_kind :: "envelope_type \<Rightarrow> envelope_kind" where
  "required_kind t = (if t = AnalysisCompletedV1 then DomainEventKind else CommandKind)"

fun kind_name :: "envelope_kind \<Rightarrow> string" where
  "kind_name CommandKind = ''command''"
| "kind_name DomainEventKind = ''domainEvent''"

section \<open>Reading\<close>

datatype envelope_error =
    FieldInvalid string | PayloadInvalid "string option" | TraceContextInvalid | TypeUnsupported
  | LegacyTriggerNotEmitted | LegacyKnowledgeNotEmitted | MetadataInvalid | NotAnEnvelope | DomainIdRejected domain_id_error

text \<open>\<open>isRecord\<close>, and a property of an object, an absent one as undefined.\<close>

fun record_of :: "js_value \<Rightarrow> (string \<times> js_value) list option" where
  "record_of (JsObject es) = Some es"
| "record_of (JsInstance es) = Some es"
| "record_of _ = None"

definition property :: "(string \<times> js_value) list \<Rightarrow> string \<Rightarrow> js_value" where
  "property es k = (case map_of es k of None \<Rightarrow> JsUndefined | Some v \<Rightarrow> v)"

definition require_string :: "js_value \<Rightarrow> string \<Rightarrow> (envelope_error, string) result" where
  "require_string v name = (case v of JsText s \<Rightarrow> Inr s | _ \<Rightarrow> Inl (FieldInvalid name))"

definition require_non_empty :: "js_value \<Rightarrow> string \<Rightarrow> (envelope_error, string) result" where
  "require_non_empty v name =
     rbind (require_string v name) (\<lambda>s. if s = [] then Inl (FieldInvalid name) else Inr s)"

fun with_domain_error :: "(domain_id_error, 'a) result \<Rightarrow> (envelope_error, 'a) result" where
  "with_domain_error (Inl e) = Inl (DomainIdRejected e)"
| "with_domain_error (Inr a) = Inr a"

text \<open>\<open>analysisJobId(requireString(...))\<close> and the like; the kinds are those of \<open>ids.ts\<close>.\<close>

definition read_id :: "string \<Rightarrow> (string \<times> js_value) list \<Rightarrow> string \<Rightarrow> (envelope_error, string) result" where
  "read_id kind es name =
     rbind (require_string (property es name) name) (\<lambda>s. with_domain_error (opaque_id s kind))"

definition read_non_empty_id :: "string \<Rightarrow> (string \<times> js_value) list \<Rightarrow> string \<Rightarrow> (envelope_error, string) result" where
  "read_non_empty_id kind es name =
     rbind (require_non_empty (property es name) name) (\<lambda>s. with_domain_error (opaque_id s kind))"

definition read_text :: "(string \<times> js_value) list \<Rightarrow> string \<Rightarrow> (envelope_error, string) result" where
  "read_text es name = require_non_empty (property es name) name"

definition read_optional_text :: "(string \<times> js_value) list \<Rightarrow> string \<Rightarrow> (envelope_error, string option) result" where
  "read_optional_text es name =
     (if property es name = JsUndefined then Inr None else rbind (read_text es name) (\<lambda>s. Inr (Some s)))"

definition one_of :: "('a \<Rightarrow> string) \<Rightarrow> 'a list \<Rightarrow> (string \<times> js_value) list \<Rightarrow> string \<Rightarrow> (envelope_error, 'a) result" where
  "one_of name_of allowed es name =
     rbind (require_string (property es name) name) (\<lambda>s. case List.find (\<lambda>a. name_of a = s) allowed of
        None \<Rightarrow> Inl (PayloadInvalid (Some name)) | Some a \<Rightarrow> Inr a)"

abbreviation read_source :: "(string \<times> js_value) list \<Rightarrow> (envelope_error, trigger_source) result" where
  "read_source es \<equiv> one_of source_name [ManualSource, ScheduleSource, WebhookSource] es ''source''"

abbreviation read_knowledge_trigger :: "(string \<times> js_value) list \<Rightarrow> (envelope_error, knowledge_trigger) result" where
  "read_knowledge_trigger es \<equiv> one_of knowledge_trigger_name [ManualKnowledge, ScheduleKnowledge] es ''trigger''"

definition read_target :: "(string \<times> js_value) list \<Rightarrow> (envelope_error, external_reference) result" where
  "read_target es =
     rbind (require_non_empty (property es ''connectorInstanceId'') ''target.connectorInstanceId'') (\<lambda>c.
     rbind (require_non_empty (property es ''resourceType'') ''target.resourceType'') (\<lambda>r.
     rbind (require_non_empty (property es ''externalId'') ''target.externalId'') (\<lambda>e.
       Inr \<lparr>er_connectorInstanceId = c, er_resourceType = r, er_externalId = e\<rparr>)))"

text \<open>An integer of 1 to 1000, from the text of a number.\<close>

definition read_limit :: "js_value \<Rightarrow> (envelope_error, int option) result" where
  "read_limit v = (case v of
      JsUndefined \<Rightarrow> Inr None
    | JsNumber (Some t) \<Rightarrow>
        (let n = digits_value t in
         if t = show_nat n \<and> 1 \<le> n \<and> n \<le> 1000 then Inr (Some (int n)) else Inl (PayloadInvalid (Some ''limit'')))
    | _ \<Rightarrow> Inl (PayloadInvalid (Some ''limit'')))"

definition read_legacy_knowledge :: "(string \<times> js_value) list \<Rightarrow> (envelope_error, legacy_knowledge_payload) result" where
  "read_legacy_knowledge es =
     rbind (read_knowledge_trigger es) (\<lambda>t.
     rbind (read_text es ''sourceId'') (\<lambda>s.
     rbind (read_text es ''configurationVersion'') (\<lambda>c.
       Inr \<lparr>lk_sourceId = s, lk_configurationVersion = c, lk_trigger = t\<rparr>)))"

definition read_knowledge :: "(string \<times> js_value) list \<Rightarrow> (envelope_error, knowledge_payload_v2) result" where
  "read_knowledge es =
     rbind (read_knowledge_trigger es) (\<lambda>t.
     rbind (read_text es ''sourceId'') (\<lambda>s.
     rbind (read_text es ''sourceConfigurationVersionId'') (\<lambda>c.
     rbind (read_text es ''connectorConfigurationVersionId'') (\<lambda>d.
       Inr \<lparr>kp_sourceId = s, kp_sourceConfigurationVersionId = c, kp_connectorConfigurationVersionId = d, kp_trigger = t\<rparr>))))"

definition read_discover :: "(string \<times> js_value) list \<Rightarrow> (envelope_error, discover_payload) result" where
  "read_discover es =
     rbind (read_text es ''scheduleId'') (\<lambda>a.
     rbind (read_text es ''scheduleConfigurationVersionId'') (\<lambda>b.
     rbind (read_non_empty_id ''analysisTrigger'' es ''triggerId'') (\<lambda>c.
     rbind (read_non_empty_id ''analysisTriggerVersion'' es ''triggerVersionId'') (\<lambda>d.
     rbind (read_text es ''connectorRegistrationId'') (\<lambda>e.
     rbind (read_text es ''connectorConfigurationVersionId'') (\<lambda>f.
     rbind (read_text es ''occurrenceKey'') (\<lambda>g.
       Inr \<lparr>dp_scheduleId = a, dp_scheduleConfigurationVersionId = b, dp_triggerId = c, dp_triggerVersionId = d,
             dp_connectorRegistrationId = e, dp_connectorConfigurationVersionId = f, dp_occurrenceKey = g\<rparr>)))))))"

definition read_legacy_trigger :: "(string \<times> js_value) list \<Rightarrow> (envelope_error, legacy_trigger_payload) result" where
  "read_legacy_trigger es =
     rbind (read_source es) (\<lambda>source.
     if property es ''target'' \<noteq> JsUndefined \<and> record_of (property es ''target'') = None
     then Inl (PayloadInvalid (Some ''target''))
     else rbind (read_text es ''triggerId'') (\<lambda>i.
     rbind (read_optional_text es ''occurrenceKey'') (\<lambda>k.
     rbind (case record_of (property es ''target'') of None \<Rightarrow> Inr None
            | Some ts \<Rightarrow> rbind (read_target ts) (\<lambda>t. Inr (Some t))) (\<lambda>t.
       Inr \<lparr>lt_triggerId = i, lt_source = source, lt_occurrenceKey = k, lt_target = t\<rparr>))))"

definition read_trigger :: "(string \<times> js_value) list \<Rightarrow> (envelope_error, trigger_payload) result" where
  "read_trigger es =
     rbind (read_source es) (\<lambda>source.
     (case record_of (property es ''target'') of
        None \<Rightarrow> Inl (PayloadInvalid (Some ''target''))
      | Some ts \<Rightarrow>
     rbind (read_non_empty_id ''analysisTriggerRequest'' es ''triggerRequestId'') (\<lambda>r.
     rbind (read_non_empty_id ''analysisTrigger'' es ''triggerId'') (\<lambda>i.
     rbind (read_non_empty_id ''analysisTriggerVersion'' es ''triggerVersionId'') (\<lambda>v.
     rbind (read_text es ''connectorRegistrationId'') (\<lambda>c.
     rbind (read_text es ''connectorConfigurationVersionId'') (\<lambda>d.
     rbind (read_optional_text es ''occurrenceKey'') (\<lambda>k.
     rbind (read_target ts) (\<lambda>t.
       Inr \<lparr>tp_triggerRequestId = r, tp_triggerId = i, tp_triggerVersionId = v, tp_connectorRegistrationId = c,
             tp_connectorConfigurationVersionId = d, tp_source = source, tp_occurrenceKey = k, tp_target = t\<rparr>)))))))))"

definition parse_payload :: "envelope_type \<Rightarrow> js_value \<Rightarrow> (envelope_error, envelope_payload) result" where
  "parse_payload t v = (case record_of v of
      None \<Rightarrow> Inl (PayloadInvalid None)
    | Some es \<Rightarrow> (case t of
        AnalysisExecuteV1 \<Rightarrow>
          rbind (read_id ''analysisJob'' es ''analysisJobId'') (\<lambda>j.
          rbind (read_id ''analysisIdentity'' es ''analysisIdentityId'') (\<lambda>i. Inr (AnalysisExecute j i)))
      | AnalysisDiscoverV1 \<Rightarrow> rbind (read_discover es) (\<lambda>p. Inr (AnalysisDiscover p))
      | AnalysisTriggerV1 \<Rightarrow> rbind (read_legacy_trigger es) (\<lambda>p. Inr (LegacyAnalysisTrigger p))
      | AnalysisTriggerV2 \<Rightarrow> rbind (read_trigger es) (\<lambda>p. Inr (AnalysisTrigger p))
      | PublicationExecuteV1 \<Rightarrow>
          rbind (read_id ''publicationIntent'' es ''publicationIntentId'') (\<lambda>i. Inr (PublicationExecute i))
      | PublicationReconcileV1 \<Rightarrow>
          rbind (read_id ''publicationIntent'' es ''publicationIntentId'') (\<lambda>i. Inr (PublicationReconcile i))
      | AnalysisCompletedV1 \<Rightarrow>
          rbind (read_id ''analysisJob'' es ''analysisJobId'') (\<lambda>j.
          rbind (read_id ''analysisResult'' es ''analysisResultId'') (\<lambda>r. Inr (AnalysisCompleted j r)))
      | RepositoryChangeExecuteV1 \<Rightarrow>
          rbind (read_non_empty_id ''repositoryChangeRequest'' es ''repositoryChangeRequestId'') (\<lambda>r. Inr (RepositoryChangeExecute r))
      | KnowledgeSynchronizeV1 \<Rightarrow> rbind (read_legacy_knowledge es) (\<lambda>p. Inr (LegacyKnowledgeSynchronize p))
      | KnowledgeFullRescanV1 \<Rightarrow> rbind (read_legacy_knowledge es) (\<lambda>p. Inr (LegacyKnowledgeFullRescan p))
      | KnowledgeSynchronizeV2 \<Rightarrow> rbind (read_knowledge es) (\<lambda>p. Inr (KnowledgeSynchronize p))
      | KnowledgeFullRescanV2 \<Rightarrow> rbind (read_knowledge es) (\<lambda>p. Inr (KnowledgeFullRescan p))
      | RetentionReapV1 \<Rightarrow>
          rbind (one_of reap_reason_name [ScheduledReap, OperatorReap] es ''reason'') (\<lambda>r.
          rbind (read_limit (property es ''limit'')) (\<lambda>n. Inr (RetentionReap r n)))
      | RetentionPurgeV1 \<Rightarrow> rbind (read_text es ''workItemId'') (\<lambda>i. Inr (RetentionPurge i))
      | DiagnosticsExportGenerateV1 \<Rightarrow> rbind (read_text es ''exportId'') (\<lambda>i. Inr (DiagnosticsExportGenerate i))))"

text \<open>\<open>/^00-[0-9a-f]{32}-[0-9a-f]{16}-0[01]$/iu\<close>.\<close>

definition traceparent_text :: "string \<Rightarrow> bool" where
  "traceparent_text s \<longleftrightarrow> length s = 55 \<and> take 3 s = ''00-'' \<and> list_all hex_char (take 32 (drop 3 s)) \<and>
     s ! 35 = CHR ''-'' \<and> list_all hex_char (take 16 (drop 36 s)) \<and> s ! 52 = CHR ''-'' \<and> s ! 53 = CHR ''0'' \<and>
     (s ! 54 = CHR ''0'' \<or> s ! 54 = CHR ''1'')"

definition parse_trace_context :: "js_value \<Rightarrow> (envelope_error, trace_context option) result" where
  "parse_trace_context v =
     (if v = JsUndefined then Inr None
      else (case record_of v of
          None \<Rightarrow> Inl TraceContextInvalid
        | Some es \<Rightarrow>
            rbind (require_string (property es ''traceparent'') ''traceContext.traceparent'') (\<lambda>p.
            if \<not> traceparent_text p then Inl TraceContextInvalid
            else rbind (if property es ''tracestate'' = JsUndefined then Inr None
                        else rbind (require_string (property es ''tracestate'') ''traceContext.tracestate'') (\<lambda>s. Inr (Some s))) (\<lambda>st.
            (case st of
               None \<Rightarrow> Inr (Some \<lparr>tc_traceparent = to_lower p, tc_tracestate = None\<rparr>)
             | Some s \<Rightarrow> if s = [] \<or> 512 < length s then Inl TraceContextInvalid
                          else Inr (Some \<lparr>tc_traceparent = to_lower p, tc_tracestate = Some s\<rparr>))))))"

definition legacy_type :: "envelope_type \<Rightarrow> bool" where
  "legacy_type t \<longleftrightarrow> t = KnowledgeSynchronizeV1 \<or> t = KnowledgeFullRescanV1 \<or> t = AnalysisTriggerV1"

text \<open>The object \<open>parseEnvelope\<close> builds once the metadata has been checked, in the order of its literal.\<close>

definition envelope_fields ::
  "(string \<Rightarrow> int option) \<Rightarrow> (string \<times> js_value) list \<Rightarrow> envelope_type \<Rightarrow> (envelope_error, envelope) result" where
  "envelope_fields date es t =
     rbind (parse_trace_context (property es ''traceContext'')) (\<lambda>trace.
     rbind (read_id ''outboxEnvelope'' es ''id'') (\<lambda>i.
     rbind (read_id ''workspace'' es ''workspaceId'') (\<lambda>w.
     rbind (rbind (require_string (property es ''occurredAt'') ''occurredAt'')
              (\<lambda>s. with_domain_error (utc_instant date s))) (\<lambda>at_time.
     rbind (read_id ''correlation'' es ''correlationId'') (\<lambda>c.
     rbind (read_id ''causation'' es ''causationId'') (\<lambda>d.
     rbind (parse_payload t (property es ''payload'')) (\<lambda>p.
       Inr \<lparr>en_id = i, en_workspaceId = w, en_occurredAt = at_time, en_correlationId = c, en_causationId = d,
            en_traceContext = trace, en_payload = p\<rparr>)))))))"

definition parse_envelope :: "(string \<Rightarrow> int option) \<Rightarrow> js_value \<Rightarrow> bool \<Rightarrow> (envelope_error, envelope) result" where
  "parse_envelope date v allowLegacy = (case record_of v of
      None \<Rightarrow> Inl NotAnEnvelope
    | Some es \<Rightarrow>
        rbind (require_string (property es ''type'') ''type'') (\<lambda>type.
        rbind (require_string (property es ''kind'') ''kind'') (\<lambda>kind.
        (case type_of_name type of
           None \<Rightarrow> Inl TypeUnsupported
         | Some t \<Rightarrow>
             if \<not> allowLegacy \<and> legacy_type t
             then Inl (if t = AnalysisTriggerV1 then LegacyTriggerNotEmitted else LegacyKnowledgeNotEmitted)
             else if kind \<noteq> kind_name (required_kind t) \<or> property es ''schemaVersion'' \<noteq> JsNumber (Some ''1'')
             then Inl MetadataInvalid
             else envelope_fields date es t))))"

definition create_envelope :: "(string \<Rightarrow> int option) \<Rightarrow> js_value \<Rightarrow> (envelope_error, envelope) result" where
  "create_envelope date v = parse_envelope date v False"

definition deserialize_envelope :: "(string \<Rightarrow> int option) \<Rightarrow> js_value \<Rightarrow> (envelope_error, envelope) result" where
  "deserialize_envelope date v = parse_envelope date v True"

section \<open>The object of an envelope\<close>

definition optional_property :: "string \<Rightarrow> ('a \<Rightarrow> js_value) \<Rightarrow> 'a option \<Rightarrow> (string \<times> js_value) list" where
  "optional_property k f a = (case a of None \<Rightarrow> [] | Some x \<Rightarrow> [(k, f x)])"

definition legacy_knowledge_value :: "legacy_knowledge_payload \<Rightarrow> js_value" where
  "legacy_knowledge_value p = JsObject [(''sourceId'', JsText (lk_sourceId p)),
     (''configurationVersion'', JsText (lk_configurationVersion p)),
     (''trigger'', JsText (knowledge_trigger_name (lk_trigger p))), (''legacy'', JsBool True)]"

definition knowledge_value :: "knowledge_payload_v2 \<Rightarrow> js_value" where
  "knowledge_value p = JsObject [(''sourceId'', JsText (kp_sourceId p)),
     (''sourceConfigurationVersionId'', JsText (kp_sourceConfigurationVersionId p)),
     (''connectorConfigurationVersionId'', JsText (kp_connectorConfigurationVersionId p)),
     (''trigger'', JsText (knowledge_trigger_name (kp_trigger p)))]"

fun payload_value :: "envelope_payload \<Rightarrow> js_value" where
  "payload_value (AnalysisExecute j i) = JsObject [(''analysisJobId'', JsText j), (''analysisIdentityId'', JsText i)]"
| "payload_value (AnalysisDiscover p) = JsObject [(''scheduleId'', JsText (dp_scheduleId p)),
     (''scheduleConfigurationVersionId'', JsText (dp_scheduleConfigurationVersionId p)),
     (''triggerId'', JsText (dp_triggerId p)), (''triggerVersionId'', JsText (dp_triggerVersionId p)),
     (''connectorRegistrationId'', JsText (dp_connectorRegistrationId p)),
     (''connectorConfigurationVersionId'', JsText (dp_connectorConfigurationVersionId p)),
     (''occurrenceKey'', JsText (dp_occurrenceKey p))]"
| "payload_value (LegacyAnalysisTrigger p) = JsObject ([(''triggerId'', JsText (lt_triggerId p)),
     (''source'', JsText (source_name (lt_source p)))] @
     optional_property ''occurrenceKey'' JsText (lt_occurrenceKey p) @
     optional_property ''target'' reference_value (lt_target p) @ [(''legacy'', JsBool True)])"
| "payload_value (AnalysisTrigger p) = JsObject ([(''triggerRequestId'', JsText (tp_triggerRequestId p)),
     (''triggerId'', JsText (tp_triggerId p)), (''triggerVersionId'', JsText (tp_triggerVersionId p)),
     (''connectorRegistrationId'', JsText (tp_connectorRegistrationId p)),
     (''connectorConfigurationVersionId'', JsText (tp_connectorConfigurationVersionId p)),
     (''source'', JsText (source_name (tp_source p)))] @
     optional_property ''occurrenceKey'' JsText (tp_occurrenceKey p) @ [(''target'', reference_value (tp_target p))])"
| "payload_value (PublicationExecute i) = JsObject [(''publicationIntentId'', JsText i)]"
| "payload_value (PublicationReconcile i) = JsObject [(''publicationIntentId'', JsText i)]"
| "payload_value (AnalysisCompleted j r) = JsObject [(''analysisJobId'', JsText j), (''analysisResultId'', JsText r)]"
| "payload_value (RepositoryChangeExecute r) = JsObject [(''repositoryChangeRequestId'', JsText r)]"
| "payload_value (LegacyKnowledgeSynchronize p) = legacy_knowledge_value p"
| "payload_value (LegacyKnowledgeFullRescan p) = legacy_knowledge_value p"
| "payload_value (KnowledgeSynchronize p) = knowledge_value p"
| "payload_value (KnowledgeFullRescan p) = knowledge_value p"
| "payload_value (RetentionReap r n) = JsObject ([(''reason'', JsText (reap_reason_name r))] @
     optional_property ''limit'' number_value n)"
| "payload_value (RetentionPurge i) = JsObject [(''workItemId'', JsText i)]"
| "payload_value (DiagnosticsExportGenerate i) = JsObject [(''exportId'', JsText i)]"

definition trace_value :: "trace_context \<Rightarrow> js_value" where
  "trace_value t = JsObject ([(''traceparent'', JsText (tc_traceparent t))] @
     optional_property ''tracestate'' JsText (tc_tracestate t))"

definition envelope_value :: "envelope \<Rightarrow> js_value" where
  "envelope_value e = (let t = payload_type (en_payload e) in JsObject
     ([(''id'', JsText (en_id e)), (''kind'', JsText (kind_name (required_kind t))), (''type'', JsText (type_name t)),
       (''schemaVersion'', JsNumber (Some ''1'')), (''workspaceId'', JsText (en_workspaceId e)),
       (''occurredAt'', JsText (en_occurredAt e)), (''correlationId'', JsText (en_correlationId e)),
       (''causationId'', JsText (en_causationId e))] @
      optional_property ''traceContext'' trace_value (en_traceContext e) @
      [(''payload'', payload_value (en_payload e))]))"

section \<open>Well-formed envelopes\<close>

definition some_text :: "string \<Rightarrow> bool" where
  "some_text s \<longleftrightarrow> s \<noteq> []"

definition wf_target :: "external_reference \<Rightarrow> bool" where
  "wf_target t \<longleftrightarrow> some_text (er_connectorInstanceId t) \<and> some_text (er_resourceType t) \<and> some_text (er_externalId t)"

definition wf_legacy_knowledge :: "legacy_knowledge_payload \<Rightarrow> bool" where
  "wf_legacy_knowledge p \<longleftrightarrow> some_text (lk_sourceId p) \<and> some_text (lk_configurationVersion p)"

definition wf_knowledge :: "knowledge_payload_v2 \<Rightarrow> bool" where
  "wf_knowledge p \<longleftrightarrow> some_text (kp_sourceId p) \<and> some_text (kp_sourceConfigurationVersionId p) \<and>
     some_text (kp_connectorConfigurationVersionId p)"

definition optional_text :: "string option \<Rightarrow> bool" where
  "optional_text s \<longleftrightarrow> (case s of None \<Rightarrow> True | Some t \<Rightarrow> some_text t)"

fun wf_payload :: "envelope_payload \<Rightarrow> bool" where
  "wf_payload (AnalysisExecute j i) \<longleftrightarrow> identifier_text j \<and> identifier_text i"
| "wf_payload (AnalysisDiscover p) \<longleftrightarrow> some_text (dp_scheduleId p) \<and> some_text (dp_scheduleConfigurationVersionId p) \<and>
     identifier_text (dp_triggerId p) \<and> identifier_text (dp_triggerVersionId p) \<and>
     some_text (dp_connectorRegistrationId p) \<and> some_text (dp_connectorConfigurationVersionId p) \<and> some_text (dp_occurrenceKey p)"
| "wf_payload (LegacyAnalysisTrigger p) \<longleftrightarrow> some_text (lt_triggerId p) \<and> optional_text (lt_occurrenceKey p) \<and>
     (case lt_target p of None \<Rightarrow> True | Some t \<Rightarrow> wf_target t)"
| "wf_payload (AnalysisTrigger p) \<longleftrightarrow> identifier_text (tp_triggerRequestId p) \<and> identifier_text (tp_triggerId p) \<and>
     identifier_text (tp_triggerVersionId p) \<and> some_text (tp_connectorRegistrationId p) \<and>
     some_text (tp_connectorConfigurationVersionId p) \<and> optional_text (tp_occurrenceKey p) \<and> wf_target (tp_target p)"
| "wf_payload (PublicationExecute i) \<longleftrightarrow> identifier_text i"
| "wf_payload (PublicationReconcile i) \<longleftrightarrow> identifier_text i"
| "wf_payload (AnalysisCompleted j r) \<longleftrightarrow> identifier_text j \<and> identifier_text r"
| "wf_payload (RepositoryChangeExecute r) \<longleftrightarrow> identifier_text r"
| "wf_payload (LegacyKnowledgeSynchronize p) \<longleftrightarrow> wf_legacy_knowledge p"
| "wf_payload (LegacyKnowledgeFullRescan p) \<longleftrightarrow> wf_legacy_knowledge p"
| "wf_payload (KnowledgeSynchronize p) \<longleftrightarrow> wf_knowledge p"
| "wf_payload (KnowledgeFullRescan p) \<longleftrightarrow> wf_knowledge p"
| "wf_payload (RetentionReap r n) \<longleftrightarrow> (case n of None \<Rightarrow> True | Some k \<Rightarrow> 1 \<le> k \<and> k \<le> 1000)"
| "wf_payload (RetentionPurge i) \<longleftrightarrow> some_text i"
| "wf_payload (DiagnosticsExportGenerate i) \<longleftrightarrow> some_text i"

definition wf_trace :: "trace_context \<Rightarrow> bool" where
  "wf_trace t \<longleftrightarrow> traceparent_text (tc_traceparent t) \<and> to_lower (tc_traceparent t) = tc_traceparent t \<and>
     (case tc_tracestate t of None \<Rightarrow> True | Some s \<Rightarrow> some_text s \<and> length s \<le> 512)"

definition wf_envelope :: "envelope \<Rightarrow> bool" where
  "wf_envelope e \<longleftrightarrow> identifier_text (en_id e) \<and> identifier_text (en_workspaceId e) \<and>
     (\<exists>t. time_clip t \<and> en_occurredAt e = iso_string t) \<and> identifier_text (en_correlationId e) \<and>
     identifier_text (en_causationId e) \<and> (case en_traceContext e of None \<Rightarrow> True | Some t \<Rightarrow> wf_trace t) \<and>
     wf_payload (en_payload e)"

section \<open>What reading guarantees\<close>

text \<open>What the code relies on in \<open>new Date(text)\<close>: it reads what \<open>toISOString\<close> writes, and yields times in range.\<close>

locale date_parser = instant_reader +
  assumes in_range: "date s = Some t \<Longrightarrow> time_clip t"
begin

lemma utc_instant_normal: "utc_instant date s = Inr u \<Longrightarrow> \<exists>t. time_clip t \<and> u = iso_string t"
  using in_range by (auto simp: utc_instant_def split: if_splits option.splits)

lemma utc_instant_fixed: "time_clip t \<Longrightarrow> utc_instant date (iso_string t) = Inr (iso_string t)"
proof -
  assume "time_clip t"
  moreover have "ends_with (iso_string t) ''Z''"
    by (simp add: iso_string_def ends_with_def Let_def)
  ultimately show ?thesis using reads_iso by (simp add: utc_instant_def)
qed

end

interpretation iso_dates: date_parser parse_iso
  by unfold_locales (auto simp: parse_iso_def Let_def split: if_splits prod.splits)

lemma opaque_id_iff [result_simps]: "opaque_id s k = Inr u \<longleftrightarrow> u = s \<and> identifier_text s"
  by (auto simp: opaque_id_def)

lemma with_domain_error_iff [result_simps]: "with_domain_error r = Inr a \<longleftrightarrow> r = Inr a"
  by (cases r) simp_all

lemma require_string_iff [result_simps]: "require_string v n = Inr s \<longleftrightarrow> v = JsText s"
  by (cases v) (simp_all add: require_string_def)

lemma require_non_empty_iff [result_simps]: "require_non_empty v n = Inr s \<longleftrightarrow> v = JsText s \<and> some_text s"
  by (auto simp: require_non_empty_def some_text_def result_simps split: if_splits)

lemma read_id_iff [result_simps]: "read_id k es n = Inr s \<longleftrightarrow> property es n = JsText s \<and> identifier_text s"
  by (auto simp: read_id_def result_simps)

lemma identifier_some_text: "identifier_text s \<Longrightarrow> some_text s"
  by (cases s) (simp_all add: identifier_text_def some_text_def)

lemma read_non_empty_id_iff [result_simps]:
  "read_non_empty_id k es n = Inr s \<longleftrightarrow> property es n = JsText s \<and> identifier_text s"
  using identifier_some_text by (auto simp: read_non_empty_id_def result_simps)

lemma read_text_iff [result_simps]: "read_text es n = Inr s \<longleftrightarrow> property es n = JsText s \<and> some_text s"
  by (simp add: read_text_def result_simps)

lemma read_optional_text_iff [result_simps]:
  "read_optional_text es n = Inr s \<longleftrightarrow>
     property es n = (case s of None \<Rightarrow> JsUndefined | Some t \<Rightarrow> JsText t) \<and> optional_text s"
  by (auto simp: read_optional_text_def result_simps optional_text_def split: option.splits if_splits)

lemma find_name: "List.find (\<lambda>a. f a = s) xs = Some a \<Longrightarrow> f a = s \<and> a \<in> set xs"
  by (auto simp: find_Some_iff)

lemma find_name_distinct: "a \<in> set xs \<Longrightarrow> distinct (map f xs) \<Longrightarrow> List.find (\<lambda>b. f b = f a) xs = Some a"
  by (induction xs) (auto simp: image_iff)

lemma one_of_iff [result_simps]:
  "distinct (map f allowed) \<Longrightarrow>
   one_of f allowed es n = Inr a \<longleftrightarrow> property es n = JsText (f a) \<and> a \<in> set allowed"
proof
  assume "distinct (map f allowed)"
  then show "property es n = JsText (f a) \<and> a \<in> set allowed \<Longrightarrow> one_of f allowed es n = Inr a"
    by (simp add: one_of_def require_string_def find_name_distinct)
qed (auto simp: one_of_def result_simps split: option.splits dest: find_name)

lemma type_of_name_iff: "type_of_name s = Some t \<longleftrightarrow> type_name t = s"
proof
  show "type_of_name s = Some t \<Longrightarrow> type_name t = s" by (auto simp: type_of_name_def dest: find_name)
  have "t \<in> set envelope_types" by (cases t) (simp_all add: envelope_types_def)
  moreover have "distinct (map type_name envelope_types)" by (simp add: envelope_types_def)
  ultimately show "type_name t = s \<Longrightarrow> type_of_name s = Some t"
    by (auto simp: type_of_name_def find_name_distinct)
qed

lemma read_target_iff [result_simps]:
  "read_target es = Inr t \<longleftrightarrow> property es ''connectorInstanceId'' = JsText (er_connectorInstanceId t) \<and>
     property es ''resourceType'' = JsText (er_resourceType t) \<and> property es ''externalId'' = JsText (er_externalId t) \<and> wf_target t"
  by (cases t) (auto simp: read_target_def result_simps wf_target_def)

lemma read_limit_iff [result_simps]:
  "read_limit v = Inr n \<longleftrightarrow> (case n of None \<Rightarrow> v = JsUndefined
     | Some k \<Rightarrow> 1 \<le> k \<and> k \<le> 1000 \<and> v = JsNumber (Some (show_nat (nat k))))"
proof (cases v)
  case (JsNumber t)
  show ?thesis
  proof (cases t)
    case None
    then show ?thesis using JsNumber by (simp add: read_limit_def split: option.splits)
  next
    case (Some w)
    have "w = show_nat (digits_value w) \<longleftrightarrow> (\<exists>k. w = show_nat k)" by (metis show_nat_value)
    then show ?thesis using JsNumber Some by (cases n) (auto simp: read_limit_def Let_def dest: show_nat_inj)
  qed
qed (auto simp: read_limit_def split: option.splits)

lemma read_legacy_knowledge_iff [result_simps]:
  "read_legacy_knowledge es = Inr p \<longleftrightarrow> property es ''sourceId'' = JsText (lk_sourceId p) \<and>
     property es ''configurationVersion'' = JsText (lk_configurationVersion p) \<and>
     property es ''trigger'' = JsText (knowledge_trigger_name (lk_trigger p)) \<and> wf_legacy_knowledge p"
  by (cases p; cases "lk_trigger p") (auto simp: read_legacy_knowledge_def result_simps wf_legacy_knowledge_def)

lemma read_knowledge_iff [result_simps]:
  "read_knowledge es = Inr p \<longleftrightarrow> property es ''sourceId'' = JsText (kp_sourceId p) \<and>
     property es ''sourceConfigurationVersionId'' = JsText (kp_sourceConfigurationVersionId p) \<and>
     property es ''connectorConfigurationVersionId'' = JsText (kp_connectorConfigurationVersionId p) \<and>
     property es ''trigger'' = JsText (knowledge_trigger_name (kp_trigger p)) \<and> wf_knowledge p"
  by (cases p; cases "kp_trigger p") (auto simp: read_knowledge_def result_simps wf_knowledge_def)

lemma property_Cons [simp]: "property ((k, v) # es) n = (if k = n then v else property es n)"
  by (simp add: property_def)

lemma property_Nil [simp]: "property [] n = JsUndefined"
  by (simp add: property_def)

lemma property_optional [simp]:
  "property (optional_property k f a @ es) n = (case a of None \<Rightarrow> property es n | Some x \<Rightarrow> if k = n then f x else property es n)"
  "property (optional_property k f a) n = (case a of None \<Rightarrow> JsUndefined | Some x \<Rightarrow> if k = n then f x else JsUndefined)"
  by (simp_all add: optional_property_def split: option.split)

lemma read_discover_wf: "read_discover es = Inr p \<Longrightarrow> wf_payload (AnalysisDiscover p)"
  unfolding read_discover_def by (clarsimp simp: rbind_Inr_iff read_text_iff read_non_empty_id_iff)

lemma read_legacy_trigger_wf: "read_legacy_trigger es = Inr p \<Longrightarrow> wf_payload (LegacyAnalysisTrigger p)"
  unfolding read_legacy_trigger_def
  by (clarsimp simp: rbind_Inr_iff read_text_iff read_optional_text_iff read_target_iff split: if_splits)
    (cases "record_of (property es ''target'')"; clarsimp simp: rbind_Inr_iff read_target_iff)

lemma read_trigger_wf: "read_trigger es = Inr p \<Longrightarrow> wf_payload (AnalysisTrigger p)"
  unfolding read_trigger_def
  by (cases "record_of (property es ''target'')";
      clarsimp simp: rbind_Inr_iff read_text_iff read_non_empty_id_iff read_optional_text_iff read_target_iff)

lemma parse_payload_wf: "parse_payload t v = Inr p \<Longrightarrow> payload_type p = t \<and> wf_payload p"
proof (cases "record_of v")
  case (Some es)
  then show "parse_payload t v = Inr p \<Longrightarrow> ?thesis"
    unfolding parse_payload_def
    by (cases t; clarsimp simp: rbind_Inr_iff read_text_iff read_id_iff read_non_empty_id_iff read_legacy_knowledge_iff
        read_knowledge_iff simp del: wf_payload.simps(2,3,4))
      (auto dest: read_discover_wf read_legacy_trigger_wf read_trigger_wf simp: read_limit_iff split: option.splits)
qed (simp add: parse_payload_def)

lemma read_discover_back:
  "wf_payload (AnalysisDiscover p) \<Longrightarrow> parse_payload AnalysisDiscoverV1 (payload_value (AnalysisDiscover p)) = Inr (AnalysisDiscover p)"
  by (cases p) (simp add: parse_payload_def read_discover_def result_simps)

lemma record_of_reference [simp]: "record_of (reference_value t) = Some
   [(''connectorInstanceId'', JsText (er_connectorInstanceId t)), (''resourceType'', JsText (er_resourceType t)),
    (''externalId'', JsText (er_externalId t))]" "reference_value t \<noteq> JsUndefined"
  by (simp_all add: reference_value_def)

lemma read_legacy_trigger_back:
  "wf_payload (LegacyAnalysisTrigger p) \<Longrightarrow>
   parse_payload AnalysisTriggerV1 (payload_value (LegacyAnalysisTrigger p)) = Inr (LegacyAnalysisTrigger p)"
  by (cases p; cases "lt_source p"; cases "lt_target p"; cases "lt_occurrenceKey p")
    (simp_all add: parse_payload_def read_legacy_trigger_def result_simps)

lemma read_trigger_back:
  "wf_payload (AnalysisTrigger p) \<Longrightarrow> parse_payload AnalysisTriggerV2 (payload_value (AnalysisTrigger p)) = Inr (AnalysisTrigger p)"
  by (cases p; cases "tp_source p"; cases "tp_occurrenceKey p")
    (simp_all add: parse_payload_def read_trigger_def result_simps)

lemma parse_payload_back: "wf_payload p \<Longrightarrow> parse_payload (payload_type p) (payload_value p) = Inr p"
proof (cases p)
  case (RetentionReap r n)
  then show "wf_payload p \<Longrightarrow> ?thesis"
    by (cases r; cases n) (simp_all add: parse_payload_def result_simps number_value_def show_int_def)
qed (simp_all add: parse_payload_def result_simps legacy_knowledge_value_def knowledge_value_def
      read_discover_back [unfolded parse_payload_def] read_legacy_trigger_back [unfolded parse_payload_def]
      read_trigger_back [unfolded parse_payload_def] del: payload_value.simps(2,3,4) wf_payload.simps(2,3,4))

lemma hex_lower: "hex_char c \<Longrightarrow> hex_char (lower_char c)"
  by (auto simp: hex_char_def lower_char_def is_digit_def Let_def split: if_splits)

lemma lower_char_idem: "lower_char (lower_char c) = lower_char c"
  by (auto simp: lower_char_def Let_def)

lemma lower_fixed: "lower_char CHR ''-'' = CHR ''-''" "lower_char CHR ''0'' = CHR ''0''" "lower_char CHR ''1'' = CHR ''1''"
  by (simp_all add: lower_char_def)

lemma traceparent_lower: "traceparent_text s \<Longrightarrow> traceparent_text (to_lower s)"
  by (auto simp: traceparent_text_def to_lower_def take_map drop_map list_all_iff hex_lower lower_fixed)

lemma parse_trace_absent [simp]: "parse_trace_context JsUndefined = Inr None"
  by (simp add: parse_trace_context_def)

lemma parse_trace_wf: "parse_trace_context v = Inr (Some t) \<Longrightarrow> wf_trace t"
proof (cases "record_of v")
  case (Some es)
  have lower: "to_lower (to_lower s) = to_lower s" for s by (simp add: to_lower_def lower_char_idem)
  show "parse_trace_context v = Inr (Some t) \<Longrightarrow> ?thesis"
    using Some by (cases "property es ''traceparent''"; cases "property es ''tracestate''")
      (auto simp: parse_trace_context_def require_string_def wf_trace_def traceparent_lower lower some_text_def split: if_splits)
qed (simp add: parse_trace_context_def split: if_splits)

lemma parse_trace_back: "wf_trace t \<Longrightarrow> parse_trace_context (trace_value t) = Inr (Some t)"
  by (cases t; cases "tc_tracestate t")
    (simp_all add: parse_trace_context_def trace_value_def wf_trace_def require_string_def some_text_def)

lemma trace_value_object [simp]: "trace_value t \<noteq> JsUndefined"
  by (simp add: trace_value_def)

lemma option_result_iff: "(case x of None \<Rightarrow> Inl a | Some y \<Rightarrow> f y) = Inr b \<longleftrightarrow> (\<exists>y. x = Some y \<and> f y = Inr b)"
  by (cases x) simp_all

lemma guard_result_iff: "(if c then Inl a else r) = Inr b \<longleftrightarrow> \<not> c \<and> r = Inr b"
  by simp

lemma parse_envelope_iff:
  "parse_envelope date v legacy = Inr e \<longleftrightarrow>
   (\<exists>es t. record_of v = Some es \<and> property es ''type'' = JsText (type_name t) \<and>
      property es ''kind'' = JsText (kind_name (required_kind t)) \<and> (legacy \<or> \<not> legacy_type t) \<and>
      property es ''schemaVersion'' = JsNumber (Some ''1'') \<and> envelope_fields date es t = Inr e)"
  unfolding parse_envelope_def option_result_iff rbind_Inr_iff guard_result_iff require_string_iff type_of_name_iff
  by auto

lemma envelope_fields_payload: "envelope_fields date es t = Inr e \<Longrightarrow> payload_type (en_payload e) = t \<and> wf_payload (en_payload e)"
  unfolding envelope_fields_def by (clarsimp simp: rbind_Inr_iff dest!: parse_payload_wf)

lemma envelope_fields_parts: "envelope_fields date es t = Inr e \<Longrightarrow>
   property es ''workspaceId'' = JsText (en_workspaceId e) \<and> parse_payload t (property es ''payload'') = Inr (en_payload e)"
  unfolding envelope_fields_def by (clarsimp simp: rbind_Inr_iff read_id_iff)

lemma parse_envelope_legacy:
  "parse_envelope date v False = Inr e \<longleftrightarrow>
   parse_envelope date v True = Inr e \<and> \<not> legacy_type (payload_type (en_payload e))"
  unfolding parse_envelope_iff by (auto dest: envelope_fields_payload)

lemma type_name_inj: "type_name s = type_name t \<longleftrightarrow> s = t"
  by (metis type_of_name_iff option.inject)

lemma issued_payload_type:
  "create_envelope date (envelope_value e) = Inr e' \<Longrightarrow> payload_type (en_payload e') = payload_type (en_payload e)"
  by (auto simp: create_envelope_def parse_envelope_iff envelope_value_def Let_def type_name_inj dest: envelope_fields_payload)

context date_parser
begin

lemma parse_envelope_wf: "parse_envelope date v legacy = Inr e \<Longrightarrow> wf_envelope e"
proof -
  assume "parse_envelope date v legacy = Inr e"
  then obtain es t where e: "envelope_fields date es t = Inr e" unfolding parse_envelope_iff by blast
  then show "wf_envelope e"
    using envelope_fields_payload [OF e] unfolding envelope_fields_def
    by (clarsimp simp: rbind_Inr_iff read_id_iff require_string_iff with_domain_error_iff wf_envelope_def
        dest!: utc_instant_normal) (auto split: option.split intro: parse_trace_wf)
qed

lemma parse_envelope_back: "wf_envelope e \<Longrightarrow> parse_envelope date (envelope_value e) True = Inr e"
  by (cases e; cases "en_traceContext e")
    (auto simp: parse_envelope_def envelope_fields_def envelope_value_def Let_def wf_envelope_def require_string_def
      read_id_def opaque_id_def type_of_name_iff [THEN iffD2, OF refl] parse_trace_back utc_instant_fixed parse_payload_back)

end

section \<open>Claims\<close>

lemmas envelope_reading = date_parser.parse_envelope_wf date_parser.parse_envelope_back

text \<open>
  C32: Well-formed envelopes.  Whatever value a consumer takes from a queue, what \<open>deserializeEnvelope\<close> returns
  is well formed: every identifier of the form of \<open>ids.ts\<close>, the instant in the format of \<open>toISOString\<close>, the trace
  context in lower case, the payload of the type it announces with no empty text.  Every well-formed envelope is read
  back from its own object as itself, and \<open>createEnvelope\<close> differs only in refusing the three legacy types.
\<close>

theorem envelopes_well_formed:
  assumes "date_parser date"
  shows "(deserialize_envelope date v = Inr e \<longrightarrow> wf_envelope e) \<and>
     (wf_envelope e \<longrightarrow> deserialize_envelope date (envelope_value e) = Inr e) \<and>
     (create_envelope date v = Inr e \<longleftrightarrow>
        deserialize_envelope date v = Inr e \<and> \<not> legacy_type (payload_type (en_payload e)))"
  unfolding deserialize_envelope_def create_envelope_def
  using envelope_reading [OF assms] parse_envelope_legacy by blast

definition sample_envelope :: envelope where
  "sample_envelope = \<lparr>en_id = ''envelope-1'', en_workspaceId = ''workspace'', en_occurredAt = iso_string 0,
     en_correlationId = ''c'', en_causationId = ''d'', en_traceContext = None,
     en_payload = RetentionReap OperatorReap (Some 12)\<rparr>"

theorem envelopes_well_formed_witness:
  "wf_envelope sample_envelope \<and> create_envelope parse_iso (envelope_value sample_envelope) = Inr sample_envelope"
proof -
  have wf: "wf_envelope sample_envelope"
    by (auto simp: wf_envelope_def sample_envelope_def identifier_text_def is_letter_def is_digit_def time_clip_def
        intro: exI [of _ 0])
  then show ?thesis
    using envelopes_well_formed [OF iso_dates.date_parser_axioms, of "envelope_value sample_envelope" sample_envelope]
    by (simp add: sample_envelope_def legacy_type_def)
qed

end
