(* ===== verification/Effects.thy ===== *)
theory Effects
  imports Prelude
begin

text \<open>
  Effects: an asynchronous operation of the code as a function from a state to its result, a value or what it throws,
  and the state after it.  \<open>await\<close> in sequence is \<open>abind\<close>, \<open>try/finally\<close> is \<open>ensuring\<close>, \<open>try/catch\<close> is \<open>catching\<close>.
  \<open>wp m Q s\<close> says that \<open>m\<close>, run in \<open>s\<close>, ends with a result and a state for which \<open>Q\<close> holds; its rules compute it
  construct by construct.
\<close>

type_synonym ('s, 'e, 'a) effect = "'s \<Rightarrow> ('e, 'a) result \<times> 's"

definition ret :: "'a \<Rightarrow> ('s, 'e, 'a) effect" where
  "ret a s = (Inr a, s)"

definition throw :: "'e \<Rightarrow> ('s, 'e, 'a) effect" where
  "throw e s = (Inl e, s)"

definition abind :: "('s, 'e, 'a) effect \<Rightarrow> ('a \<Rightarrow> ('s, 'e, 'b) effect) \<Rightarrow> ('s, 'e, 'b) effect" where
  "abind m f s = (case m s of (Inl e, s') \<Rightarrow> (Inl e, s') | (Inr a, s') \<Rightarrow> f a s')"

definition lift_result :: "('e \<Rightarrow> 'f) \<Rightarrow> ('e, 'a) result \<Rightarrow> ('s, 'f, 'a) effect" where
  "lift_result h r s = (case r of Inl e \<Rightarrow> (Inl (h e), s) | Inr a \<Rightarrow> (Inr a, s))"

definition reading :: "('s \<Rightarrow> 'a) \<Rightarrow> ('s, 'e, 'a) effect" where
  "reading f s = (Inr (f s), s)"

definition updating :: "('s \<Rightarrow> 's) \<Rightarrow> ('s, 'e, unit) effect" where
  "updating f s = (Inr (), f s)"

text \<open>\<open>if (condition) throw error\<close>.\<close>

definition throw_when :: "('s \<Rightarrow> bool) \<Rightarrow> 'e \<Rightarrow> ('s, 'e, unit) effect" where
  "throw_when c e s = (if c s then Inl e else Inr (), s)"

text \<open>\<open>finally\<close>: the last action runs after a result and after an error; its own error prevails.\<close>

definition ensuring :: "('s, 'e, unit) effect \<Rightarrow> ('s, 'e, 'a) effect \<Rightarrow> ('s, 'e, 'a) effect" where
  "ensuring final body s = (case body s of (r, s') \<Rightarrow>
      (case final s' of (Inl e, s'') \<Rightarrow> (Inl e, s'') | (Inr _, s'') \<Rightarrow> (r, s'')))"

text \<open>\<open>catch\<close>: the handler runs in the state in which the body threw.\<close>

definition catching :: "('s, 'e, 'a) effect \<Rightarrow> ('e \<Rightarrow> ('s, 'f, 'a) effect) \<Rightarrow> ('s, 'f, 'a) effect" where
  "catching body handler s = (case body s of (Inl e, s') \<Rightarrow> handler e s' | (Inr a, s') \<Rightarrow> (Inr a, s'))"

text \<open>A \<open>for\<close> loop over an array.\<close>

fun each_do :: "('x \<Rightarrow> ('s, 'e, unit) effect) \<Rightarrow> 'x list \<Rightarrow> ('s, 'e, unit) effect" where
  "each_do f [] = ret ()"
| "each_do f (x # xs) = abind (f x) (\<lambda>_. each_do f xs)"

section \<open>Weakest preconditions\<close>

named_theorems wp_rules \<open>the weakest precondition of each construct\<close>

definition wp :: "('s, 'e, 'a) effect \<Rightarrow> (('e, 'a) result \<Rightarrow> 's \<Rightarrow> bool) \<Rightarrow> 's \<Rightarrow> bool" where
  "wp m Q s \<longleftrightarrow> Q (fst (m s)) (snd (m s))"

lemma wpD: "wp m Q s \<Longrightarrow> m s = (r, t) \<Longrightarrow> Q r t"
  by (simp add: wp_def)

lemma wpI: "(\<And>r t. m s = (r, t) \<Longrightarrow> Q r t) \<Longrightarrow> wp m Q s"
  by (simp add: wp_def)

lemma wp_mono: "wp m P s \<Longrightarrow> (\<And>r t. P r t \<Longrightarrow> Q r t) \<Longrightarrow> wp m Q s"
  by (simp add: wp_def)

lemma wp_conj: "wp m P s \<Longrightarrow> wp m Q s \<Longrightarrow> wp m (\<lambda>r t. P r t \<and> Q r t) s"
  by (simp add: wp_def)

lemma wp_ret [wp_rules]: "wp (ret a) Q s \<longleftrightarrow> Q (Inr a) s"
  by (simp add: wp_def ret_def)

lemma wp_throw [wp_rules]: "wp (throw e) Q s \<longleftrightarrow> Q (Inl e) s"
  by (simp add: wp_def throw_def)

lemma wp_lift [wp_rules]:
  "wp (lift_result h x) Q s \<longleftrightarrow> (\<forall>e. x = Inl e \<longrightarrow> Q (Inl (h e)) s) \<and> (\<forall>a. x = Inr a \<longrightarrow> Q (Inr a) s)"
  by (cases x) (simp_all add: wp_def lift_result_def)

lemma wp_reading [wp_rules]: "wp (reading f) Q s \<longleftrightarrow> Q (Inr (f s)) s"
  by (simp add: wp_def reading_def)

lemma wp_updating [wp_rules]: "wp (updating f) Q s \<longleftrightarrow> Q (Inr ()) (f s)"
  by (simp add: wp_def updating_def)

lemma wp_throw_when [wp_rules]: "wp (throw_when c e) Q s \<longleftrightarrow> (if c s then Q (Inl e) s else Q (Inr ()) s)"
  by (simp add: wp_def throw_when_def)

text \<open>After \<open>abind\<close>: an error is passed on, a value goes to the rest.\<close>

definition after :: "('a \<Rightarrow> ('s, 'e, 'b) effect) \<Rightarrow> (('e, 'b) result \<Rightarrow> 's \<Rightarrow> bool) \<Rightarrow> ('e, 'a) result \<Rightarrow> 's \<Rightarrow> bool" where
  "after f Q r t = (case r of Inl e \<Rightarrow> Q (Inl e) t | Inr a \<Rightarrow> wp (f a) Q t)"

lemma after_simps [simp]: "after f Q (Inl e) t = Q (Inl e) t" "after f Q (Inr a) t = wp (f a) Q t"
  by (simp_all add: after_def)

lemma wp_bind [wp_rules]: "wp (abind m f) Q s \<longleftrightarrow> wp m (after f Q) s"
  by (auto simp: wp_def abind_def after_def split: prod.splits sum.splits)

lemma wp_bindI:
  assumes "wp m P s" and "\<And>e t. P (Inl e) t \<Longrightarrow> Q (Inl e) t" and "\<And>a t. P (Inr a) t \<Longrightarrow> wp (f a) Q t"
  shows "wp (abind m f) Q s"
  unfolding wp_bind
proof (rule wp_mono [OF assms(1)])
  show "after f Q r t" if "P r t" for r t using that assms(2,3) by (cases r) simp_all
qed

lemma wp_catching:
  "wp (catching m h) Q s \<longleftrightarrow> wp m (\<lambda>r t. case r of Inl e \<Rightarrow> wp (h e) Q t | Inr a \<Rightarrow> Q (Inr a) t) s"
  by (auto simp: wp_def catching_def split: prod.splits sum.splits)

lemma wp_catchingI:
  assumes "wp m P s" and "\<And>a t. P (Inr a) t \<Longrightarrow> Q (Inr a) t" and "\<And>e t. P (Inl e) t \<Longrightarrow> wp (h e) Q t"
  shows "wp (catching m h) Q s"
  unfolding wp_catching
proof (rule wp_mono [OF assms(1)])
  show "case r of Inl e \<Rightarrow> wp (h e) Q t | Inr a \<Rightarrow> Q (Inr a) t" if "P r t" for r t
    using that assms(2,3) by (cases r) simp_all
qed

lemma wp_each:
  assumes "I s" and "\<And>x t. x \<in> set xs \<Longrightarrow> I t \<Longrightarrow> wp (f x) (\<lambda>r u. case r of Inl e \<Rightarrow> E e u | Inr _ \<Rightarrow> I u) t"
  shows "wp (each_do f xs) (\<lambda>r u. case r of Inl e \<Rightarrow> E e u | Inr _ \<Rightarrow> I u) s"
  using assms
proof (induction xs arbitrary: s)
  case Nil
  then show ?case by (simp add: wp_rules)
next
  case (Cons x xs)
  have "wp (f x) (\<lambda>r u. case r of Inl e \<Rightarrow> E e u | Inr _ \<Rightarrow> I u) s" using Cons.prems by simp
  then show ?case unfolding each_do.simps
    by (rule wp_bindI) (use Cons in \<open>auto split: sum.splits\<close>)
qed

end
