(* ===== verification/Analysis_Contracts.thy ===== *)
theory Analysis_Contracts
  imports Prompts Envelopes Effects
begin

text \<open>
  The data of an analysis run and its schemas: \<open>packages/analysis/src/contracts.ts\<close>.  A record has the fields of the code's
  object, and a predicate \<open>valid_...\<close> holds when the schema parses it.  What the schema library accepts as an ISO instant
  with an offset and as a URL is a parameter (\<open>text_formats\<close>).
\<close>

record text_formats =
  tf_datetime :: "string \<Rightarrow> bool"
  tf_url :: "string \<Rightarrow> bool"

section \<open>Evidence\<close>

definition repository_commit :: "string \<Rightarrow> bool" where
  "repository_commit s \<longleftrightarrow> (length s = 40 \<or> length s = 64) \<and> list_all hex_char s"

record repository_location =
  rl_repositoryId :: string
  rl_commit :: string
  rl_path :: string
  rl_startLine :: jsnum
  rl_endLine :: jsnum
  rl_excerptHash :: string

datatype evidence_origin =
    OfSnapshot string string
  | OfMessage string string
  | OfAttachment string string string
  | OfKnowledge string string string string
  | OfRepository repository_location

record analysis_evidence =
  ev_id :: string
  ev_content :: string
  ev_contentHash :: string
  ev_origin :: evidence_origin

fun origin_kind :: "evidence_origin \<Rightarrow> evidence_kind" where
  "origin_kind (OfSnapshot _ _) = CaseSnapshotEvidence"
| "origin_kind (OfMessage _ _) = CaseMessageEvidence"
| "origin_kind (OfAttachment _ _ _) = AttachmentEvidence"
| "origin_kind (OfKnowledge _ _ _ _) = KnowledgeEvidence"
| "origin_kind (OfRepository _) = RepositoryEvidence"

text \<open>\<open>path.split(/[\\/]/u)\<close> separates at both slashes.\<close>

definition path_parts :: "string \<Rightarrow> string list" where
  "path_parts p = split_on CHR ''/'' (map (\<lambda>c. if c = backslash then CHR ''/'' else c) p)"

definition drive_prefix :: "string \<Rightarrow> bool" where
  "drive_prefix p = (case p of c # d # _ \<Rightarrow> is_letter c \<and> d = CHR '':'' | _ \<Rightarrow> False)"

definition repository_path :: "string \<Rightarrow> bool" where
  "repository_path p \<longleftrightarrow> bounded_text 1024 p \<and> \<not> starts_with p ''/'' \<and> \<not> starts_with p [backslash] \<and>
     \<not> drive_prefix p \<and> \<not> list_ex (\<lambda>part. part = ''..'' \<or> part = []) (path_parts p)"

definition valid_location :: "repository_location \<Rightarrow> bool" where
  "valid_location l \<longleftrightarrow> bounded_text 200 (rl_repositoryId l) \<and> repository_commit (rl_commit l) \<and> repository_path (rl_path l) \<and>
     positive_int (rl_startLine l) \<and> positive_int (rl_endLine l) \<and> digest_text (rl_excerptHash l) \<and>
     int_of (rl_startLine l) \<le> int_of (rl_endLine l)"

fun valid_origin :: "text_formats \<Rightarrow> evidence_origin \<Rightarrow> bool" where
  "valid_origin F (OfSnapshot snapshot revision) \<longleftrightarrow> bounded_text 200 snapshot \<and> bounded_text 200 revision"
| "valid_origin F (OfMessage snapshot message) \<longleftrightarrow> bounded_text 200 snapshot \<and> bounded_text 200 message"
| "valid_origin F (OfAttachment attachment derivative processor) \<longleftrightarrow>
     bounded_text 200 attachment \<and> bounded_text 200 derivative \<and> bounded_text 200 processor"
| "valid_origin F (OfKnowledge item revision chunk url) \<longleftrightarrow>
     bounded_text 200 item \<and> bounded_text 200 revision \<and> bounded_text 200 chunk \<and> tf_url F url"
| "valid_origin F (OfRepository l) \<longleftrightarrow> valid_location l"

definition valid_evidence :: "text_formats \<Rightarrow> analysis_evidence \<Rightarrow> bool" where
  "valid_evidence F e \<longleftrightarrow> bounded_text 200 (ev_id e) \<and> bounded_text 1000000 (ev_content e) \<and>
     digest_text (ev_contentHash e) \<and> valid_origin F (ev_origin e)"

section \<open>Attachments prepared before the request\<close>

datatype preparation_outcome = ReadyOutcome | SkippedOutcome | FailedOutcome

fun outcome_name :: "preparation_outcome \<Rightarrow> string" where
  "outcome_name ReadyOutcome = ''ready''"
| "outcome_name SkippedOutcome = ''skipped''"
| "outcome_name FailedOutcome = ''failed''"

record prepared_attachment =
  pa_occurrenceIdentity :: "string option"
  pa_attachmentId :: string
  pa_derivativeId :: "string option"
  pa_outputContentHash :: "string option"
  pa_outcome :: preparation_outcome
  pa_required :: bool
  pa_warningCode :: "string option"

record prepared_attachments =
  ps_identityHash :: string
  ps_evidence :: "prepared_attachment list"

record attachment_reference =
  ar_occurrenceIdentity :: "string option"
  ar_attachmentId :: string
  ar_derivativeId :: string
  ar_processorVersion :: string
  ar_outputContentHash :: string

definition prepared_key :: "prepared_attachment \<Rightarrow> string" where
  "prepared_key a = (case pa_occurrenceIdentity a of Some i \<Rightarrow> i | None \<Rightarrow> pa_attachmentId a)"

definition reference_key :: "attachment_reference \<Rightarrow> string" where
  "reference_key r = (case ar_occurrenceIdentity r of Some i \<Rightarrow> i | None \<Rightarrow> ar_attachmentId r)"

definition valid_attachment_reference :: "attachment_reference \<Rightarrow> bool" where
  "valid_attachment_reference r \<longleftrightarrow> optional_valid (bounded_text 200) (ar_occurrenceIdentity r) \<and>
     list_all (bounded_text 200) [ar_attachmentId r, ar_derivativeId r, ar_processorVersion r] \<and>
     digest_text (ar_outputContentHash r)"

definition retains_derivative :: "prepared_attachment \<Rightarrow> bool" where
  "retains_derivative a \<longleftrightarrow> pa_derivativeId a \<noteq> None \<and> pa_outputContentHash a \<noteq> None"

definition valid_prepared :: "prepared_attachment \<Rightarrow> bool" where
  "valid_prepared a \<longleftrightarrow> optional_valid (bounded_text 200) (pa_occurrenceIdentity a) \<and> bounded_text 200 (pa_attachmentId a) \<and>
     optional_valid (bounded_text 200) (pa_derivativeId a) \<and> optional_valid digest_text (pa_outputContentHash a) \<and>
     optional_valid (bounded_text 200) (pa_warningCode a) \<and>
     (pa_outcome a = ReadyOutcome \<longleftrightarrow> retains_derivative a) \<and> (pa_outcome a = ReadyOutcome \<longleftrightarrow> pa_warningCode a = None)"

definition valid_prepared_set :: "prepared_attachments \<Rightarrow> bool" where
  "valid_prepared_set s \<longleftrightarrow> digest_text (ps_identityHash s) \<and> list_all valid_prepared (ps_evidence s) \<and>
     length (ps_evidence s) \<le> 10000 \<and> distinct (map prepared_key (ps_evidence s)) \<and>
     list_all (\<lambda>a. pa_required a \<longrightarrow> pa_outcome a = ReadyOutcome) (ps_evidence s)"

section \<open>Snapshots, repository material and profiles\<close>

record snapshot_message =
  sm_id :: string
  sm_content :: string
  sm_contentHash :: string

record snapshot_tombstone =
  tb_actorPrincipalId :: string
  tb_tombstonedAt :: string
  tb_reason :: string

record case_snapshot =
  cs_id :: string
  cs_revision :: string
  cs_capturedAt :: string
  cs_title :: string
  cs_summary :: string
  cs_contentHash :: string
  cs_messages :: "snapshot_message list"
  cs_tombstone :: "snapshot_tombstone option"

definition valid_tombstone :: "text_formats \<Rightarrow> snapshot_tombstone \<Rightarrow> bool" where
  "valid_tombstone F t \<longleftrightarrow> bounded_text 200 (tb_actorPrincipalId t) \<and> tf_datetime F (tb_tombstonedAt t) \<and>
     bounded_text 4000 (tb_reason t)"

definition valid_message :: "snapshot_message \<Rightarrow> bool" where
  "valid_message m \<longleftrightarrow> bounded_text 200 (sm_id m) \<and> bounded_text 1000000 (sm_content m) \<and> digest_text (sm_contentHash m)"

definition valid_snapshot :: "text_formats \<Rightarrow> case_snapshot \<Rightarrow> bool" where
  "valid_snapshot F s \<longleftrightarrow> bounded_text 200 (cs_id s) \<and> bounded_text 200 (cs_revision s) \<and> tf_datetime F (cs_capturedAt s) \<and>
     bounded_text 16000 (cs_title s) \<and> bounded_text 64000 (cs_summary s) \<and> digest_text (cs_contentHash s) \<and>
     list_all valid_message (cs_messages s) \<and> length (cs_messages s) \<le> 1000 \<and>
     optional_valid (valid_tombstone F) (cs_tombstone s)"

record repository_pin =
  rp_repositoryId :: string
  rp_repositoryVersionId :: string
  rp_runtimePinId :: string
  rp_executionPolicyId :: string
  rp_executionPolicyVersionId :: string
  rp_repositoryAgentBindingVersionId :: string
  rp_pinnedCommit :: string
  rp_resolvedAt :: string

definition valid_pin :: "text_formats \<Rightarrow> repository_pin \<Rightarrow> bool" where
  "valid_pin F p \<longleftrightarrow> list_all (bounded_text 200) [rp_repositoryId p, rp_repositoryVersionId p, rp_runtimePinId p,
       rp_executionPolicyId p, rp_executionPolicyVersionId p, rp_repositoryAgentBindingVersionId p] \<and>
     repository_commit (rp_pinnedCommit p) \<and> tf_datetime F (rp_resolvedAt p)"

record repository_finding =
  rf_id :: string
  rf_summary :: string
  rf_evidenceIds :: "string list"

definition valid_finding :: "repository_finding \<Rightarrow> bool" where
  "valid_finding f \<longleftrightarrow> bounded_text 200 (rf_id f) \<and> bounded_text 16000 (rf_summary f) \<and>
     list_all (bounded_text 200) (rf_evidenceIds f) \<and> 1 \<le> length (rf_evidenceIds f) \<and> length (rf_evidenceIds f) \<le> 100 \<and>
     distinct (rf_evidenceIds f)"

definition maximum_repository_findings :: nat where
  "maximum_repository_findings = 100"

definition valid_findings :: "repository_finding list \<Rightarrow> bool" where
  "valid_findings fs \<longleftrightarrow> list_all valid_finding fs \<and> length fs \<le> maximum_repository_findings"

datatype stage_policy = RequiredPolicy | OptionalPolicy | DisabledPolicy

record retrieval_settings =
  rt_policy :: stage_policy
  rt_profileId :: string
  rt_profileVersion :: string
  rt_collectionIds :: "string list"
  rt_maximumQueryCharacters :: jsnum

record repository_settings =
  ry_policy :: stage_policy
  ry_repositoryId :: "string option"
  ry_repositoryVersionId :: "string option"
  ry_executionPolicyId :: "string option"
  ry_executionPolicyVersionId :: "string option"
  ry_repositoryAgentBindingVersionId :: "string option"
  ry_maximumContextCharacters :: jsnum
  ry_maximumEvidenceCharacters :: jsnum

record generation_settings =
  gs_maximumInputTokens :: jsnum
  gs_maximumOutputTokens :: jsnum
  gs_timeoutMs :: "jsnum option"
  gs_currency :: string
  gs_hard :: bool
  gs_allowUnknownPricing :: "bool option"

record analysis_profile =
  an_id :: string
  an_version :: string
  an_analysisBindingVersionId :: string
  an_template :: prompt_template
  an_schemaVersion :: string
  an_budgets :: "prompt_section \<Rightarrow> prompt_budget"
  an_retrieval :: retrieval_settings
  an_attachments :: stage_policy
  an_repository :: repository_settings
  an_generation :: generation_settings
  an_repairAttempts :: jsnum
  an_repairCharacters :: jsnum

definition int_between :: "int \<Rightarrow> int \<Rightarrow> jsnum \<Rightarrow> bool" where
  "int_between lo hi n \<longleftrightarrow> is_safe_integer n \<and> lo \<le> int_of n \<and> int_of n \<le> hi"

definition valid_retrieval :: "retrieval_settings \<Rightarrow> bool" where
  "valid_retrieval r \<longleftrightarrow> bounded_text 200 (rt_profileId r) \<and> bounded_text 200 (rt_profileVersion r) \<and>
     list_all (bounded_text 200) (rt_collectionIds r) \<and> 1 \<le> length (rt_collectionIds r) \<and> length (rt_collectionIds r) \<le> 100 \<and>
     int_between 1 64000 (rt_maximumQueryCharacters r)"

definition pinned_versions :: "repository_settings \<Rightarrow> string option list" where
  "pinned_versions r = [ry_repositoryId r, ry_repositoryVersionId r, ry_executionPolicyId r, ry_executionPolicyVersionId r,
     ry_repositoryAgentBindingVersionId r]"

definition valid_repository :: "repository_settings \<Rightarrow> bool" where
  "valid_repository r \<longleftrightarrow> list_all (optional_valid (bounded_text 200)) (pinned_versions r) \<and>
     int_between 1 64000 (ry_maximumContextCharacters r) \<and> int_between 1 64000 (ry_maximumEvidenceCharacters r) \<and>
     (ry_policy r = DisabledPolicy \<or> None \<notin> set (pinned_versions r))"

definition valid_generation :: "generation_settings \<Rightarrow> bool" where
  "valid_generation g \<longleftrightarrow> positive_int (gs_maximumInputTokens g) \<and> positive_int (gs_maximumOutputTokens g) \<and>
     optional_valid positive_int (gs_timeoutMs g) \<and> bounded_text 16 (gs_currency g)"

definition valid_profile :: "analysis_profile \<Rightarrow> bool" where
  "valid_profile p \<longleftrightarrow> list_all (bounded_text 200) [an_id p, an_version p, an_analysisBindingVersionId p] \<and>
     valid_template (an_template p) \<and> an_schemaVersion p = schema_version \<and>
     list_all (\<lambda>n. valid_budget (an_budgets p n)) section_names \<and> valid_retrieval (an_retrieval p) \<and>
     valid_repository (an_repository p) \<and> valid_generation (an_generation p) \<and>
     int_between 0 3 (an_repairAttempts p) \<and> int_between 1 64000 (an_repairCharacters p)"

section \<open>Executions, stages and results\<close>

record analysis_execution =
  ex_workspaceId :: string
  ex_analysisJobId :: string
  ex_analysisIdentityId :: string
  ex_analysisAttemptId :: string
  ex_snapshot :: case_snapshot
  ex_profile :: analysis_profile
  ex_preparedAttachments :: "prepared_attachments option"
  ex_repositoryRun :: "repository_pin option"

datatype stage_name = AttachmentsStage | RetrievalStage | RepositoryStage | PromptStage | GenerationStage | ValidationStage

datatype stage_outcome = StageCompleted | StageSkipped | StageFailed

record stage_status =
  ss_stage :: stage_name
  ss_outcome :: stage_outcome
  ss_policy :: "stage_policy option"
  ss_error :: "(string \<times> bool) option"

record stage_result =
  sr_evidence :: "analysis_evidence list"
  sr_operationIds :: "string list"

record investigation_result =
  iv_evidence :: "analysis_evidence list"
  iv_findings :: "repository_finding list"
  iv_operationIds :: "string list"

record prompt_exchange =
  xc_systemPrompt :: string
  xc_userPrompt :: string
  xc_promptContentHash :: string
  xc_modelOutput :: string
  xc_modelOutputHash :: string

record analysis_result =
  re_id :: string
  re_workspaceId :: string
  re_analysisJobId :: string
  re_analysisIdentityId :: string
  re_analysisAttemptId :: string
  re_caseSnapshotId :: string
  re_caseRevision :: string
  re_analysisProfileId :: string
  re_analysisProfileVersion :: string
  re_analysisBindingVersionId :: string
  re_promptTemplate :: prompt_template
  re_promptHash :: string
  re_outputSchemaVersion :: string
  re_selectedEvidenceHashes :: "string list"
  re_evidence :: "analysis_evidence list"
  re_investigation :: "(repository_pin \<times> repository_finding list) option"
  re_exchanges :: "prompt_exchange list"
  re_output :: case_analysis
  re_stages :: "stage_status list"
  re_operationIds :: "string list"
  re_createdAt :: string

datatype attempt_outcome = AttemptFailed | AttemptCancelled

datatype claim_outcome = Claimed analysis_execution | ClaimCompleted string | ClaimRunning | ClaimNotFound

text \<open>
  What is thrown: the orchestrator's error, an error of the prompt contract, any other value with a textual \<open>code\<close> and a
  boolean \<open>retryable\<close>, and everything else (schema and type errors among them).
\<close>

datatype analysis_error =
    OrchestrationError string bool
  | PromptContractError prompt_error
  | CodedError string bool
  | OtherError

end
