(* ===== verification/Analysis_Requests.thy ===== *)
theory Analysis_Requests
  imports Analysis_Contracts
begin

text \<open>
  What is fixed before an analysis runs: the identity of prepared attachments, the input of the request identity and the
  captured request (\<open>packages/analysis/src/identity.ts\<close>), and the port that reads the captured attachments back
  (\<open>attachment-evidence.ts\<close>).  SHA-256 and the collation of \<open>localeCompare\<close> are parameters.
\<close>

section \<open>Prepared attachments\<close>

datatype request_error =
    PreparationRequired | PreparationNotReady | PreparationIncomplete | PreparationUnhashable | PreparationMismatch
  | RepositoryPinRequired | RepositoryPinMismatch | RepositoryResolverRequired | RequestSchemaRejected | PortThrew string

record request_tools =
  rq_formats :: text_formats
  rq_sha256 :: "string \<Rightarrow> string"
  rq_collate :: "string \<Rightarrow> string \<Rightarrow> bool"

definition prepared_value :: "prepared_attachment \<Rightarrow> js_value" where
  "prepared_value a = JsObject
     (optional_entry ''occurrenceIdentity'' (pa_occurrenceIdentity a) @
      [(''attachmentId'', JsText (pa_attachmentId a)), (''outcome'', JsText (outcome_name (pa_outcome a))),
       (''required'', JsBool (pa_required a))] @
      optional_entry ''derivativeId'' (pa_derivativeId a) @
      optional_entry ''outputContentHash'' (pa_outputContentHash a) @
      optional_entry ''warningCode'' (pa_warningCode a))"

definition prepared_identity :: "request_tools \<Rightarrow> prepared_attachment list \<Rightarrow> (canonical_error, string) result" where
  "prepared_identity T items =
     rbind (identity_text (JsObject [(''evidence'', JsArray (map prepared_value
         (sort_by (\<lambda>a b. rq_collate T (prepared_key a) (prepared_key b)) items)))]))
       (\<lambda>t. Inr (rq_sha256 T t))"

definition unready :: "prepared_attachment \<Rightarrow> bool" where
  "unready a \<longleftrightarrow> pa_required a \<and> pa_outcome a \<noteq> ReadyOutcome"

definition validate_prepared ::
  "request_tools \<Rightarrow> prepared_attachments option \<Rightarrow> (request_error, prepared_attachments) result" where
  "validate_prepared T prepared = (case prepared of
      None \<Rightarrow> Inl PreparationRequired
    | Some s \<Rightarrow>
        if list_ex unready (ps_evidence s) then Inl PreparationNotReady
        else if \<not> valid_prepared_set s then Inl PreparationIncomplete
        else (case prepared_identity T (ps_evidence s) of
            Inl e \<Rightarrow> Inl PreparationUnhashable
          | Inr expected \<Rightarrow> if to_lower (ps_identityHash s) \<noteq> expected then Inl PreparationMismatch
                            else Inr (s\<lparr>ps_identityHash := to_lower (ps_identityHash s)\<rparr>)))"

section \<open>The request identity\<close>

definition pin_matches :: "repository_settings \<Rightarrow> repository_pin \<Rightarrow> bool" where
  "pin_matches r p \<longleftrightarrow> pinned_versions r = map Some [rp_repositoryId p, rp_repositoryVersionId p, rp_executionPolicyId p,
     rp_executionPolicyVersionId p, rp_repositoryAgentBindingVersionId p]"

definition validate_repository_run ::
  "request_tools \<Rightarrow> analysis_profile \<Rightarrow> repository_pin option \<Rightarrow> (request_error, repository_pin) result" where
  "validate_repository_run T profile run = (case run of
      None \<Rightarrow> Inl RepositoryPinRequired
    | Some p \<Rightarrow> if \<not> valid_pin (rq_formats T) p then Inl RequestSchemaRejected
                else if \<not> pin_matches (an_repository profile) p then Inl RepositoryPinMismatch else Inr p)"

definition unless_disabled :: "stage_policy \<Rightarrow> ('e, 'a) result \<Rightarrow> ('e, 'a option) result" where
  "unless_disabled policy r = (if policy = DisabledPolicy then Inr None else rbind r (\<lambda>a. Inr (Some a)))"

definition identity_input_for ::
  "request_tools \<Rightarrow> string \<Rightarrow> string \<Rightarrow> analysis_profile \<Rightarrow> repository_pin option \<Rightarrow> prepared_attachments option \<Rightarrow>
    (request_error, analysis_identity_input) result" where
  "identity_input_for T snapshotId revision profile repositoryRun preparedAttachments =
     (if \<not> valid_profile profile then Inl RequestSchemaRejected
      else rbind (unless_disabled (ry_policy (an_repository profile)) (validate_repository_run T profile repositoryRun)) (\<lambda>run.
        rbind (unless_disabled (an_attachments profile) (validate_prepared T preparedAttachments)) (\<lambda>prepared.
          Inr \<lparr>ai_caseSnapshotId = snapshotId, ai_caseRevision = revision, ai_analysisProfileVersion = an_version profile,
            ai_analysisBindingVersionId = an_analysisBindingVersionId profile,
            ai_retrievalProfileVersion = rt_profileVersion (an_retrieval profile),
            ai_collectionIds = rt_collectionIds (an_retrieval profile),
            ai_promptTemplateVersion = pt_version (an_template profile), ai_outputSchemaVersion = an_schemaVersion profile,
            ai_preparedAttachmentEvidenceHash = map_option ps_identityHash prepared,
            ai_repositoryCommit = map_option rp_pinnedCommit run,
            ai_repositoryAgentBindingVersionId = map_option rp_repositoryAgentBindingVersionId run,
            ai_repositoryVersionId = map_option rp_repositoryVersionId run,
            ai_repositoryRuntimePinId = map_option rp_runtimePinId run,
            ai_repositoryExecutionPolicyVersionId = map_option rp_executionPolicyVersionId run\<rparr>)))"

section \<open>Capturing a request\<close>

record 'w capture_ports =
  cp_capture :: "string \<Rightarrow> string \<Rightarrow> ('w, request_error, case_snapshot) effect"
  cp_repositories :: "(string \<Rightarrow> analysis_profile \<Rightarrow> ('w, request_error, repository_pin) effect) option"
  cp_attachments :: "(string \<Rightarrow> case_snapshot \<Rightarrow> analysis_profile \<Rightarrow> ('w, request_error, prepared_attachments) effect) option"

record captured_request =
  cr_snapshot :: case_snapshot
  cr_identity :: analysis_identity_input
  cr_repositoryRun :: "repository_pin option"
  cr_preparedAttachments :: "prepared_attachments option"

definition checked :: "('e, 'a) result \<Rightarrow> ('w, 'e, 'a) effect" where
  "checked r = lift_result (\<lambda>e. e) r"

definition resolve_repository_run ::
  "request_tools \<Rightarrow> 'w capture_ports \<Rightarrow> string \<Rightarrow> analysis_profile \<Rightarrow> ('w, request_error, repository_pin) effect" where
  "resolve_repository_run T P ws profile = (case cp_repositories P of
      None \<Rightarrow> throw RepositoryResolverRequired
    | Some f \<Rightarrow> abind (f ws profile) (\<lambda>pin. checked (validate_repository_run T profile (Some pin))))"

definition resolve_prepared_attachments ::
  "request_tools \<Rightarrow> 'w capture_ports \<Rightarrow> string \<Rightarrow> case_snapshot \<Rightarrow> analysis_profile \<Rightarrow>
    ('w, request_error, prepared_attachments) effect" where
  "resolve_prepared_attachments T P ws snapshot profile = (case cp_attachments P of
      None \<Rightarrow> throw PreparationRequired
    | Some f \<Rightarrow> abind (f ws snapshot profile) (\<lambda>prepared. checked (validate_prepared T (Some prepared))))"

definition skipping :: "stage_policy \<Rightarrow> ('w, 'e, 'a) effect \<Rightarrow> ('w, 'e, 'a option) effect" where
  "skipping policy m = (if policy = DisabledPolicy then ret None else abind m (\<lambda>a. ret (Some a)))"

definition capture_analysis_request ::
  "request_tools \<Rightarrow> 'w capture_ports \<Rightarrow> string \<Rightarrow> string \<Rightarrow> analysis_profile \<Rightarrow> ('w, request_error, captured_request) effect" where
  "capture_analysis_request T P ws caseReference profile =
     abind (cp_capture P ws caseReference) (\<lambda>snapshot.
     abind (throw_when (\<lambda>_. \<not> valid_snapshot (rq_formats T) snapshot \<or> \<not> valid_profile profile) RequestSchemaRejected) (\<lambda>_.
     abind (skipping (ry_policy (an_repository profile)) (resolve_repository_run T P ws profile)) (\<lambda>run.
     abind (skipping (an_attachments profile) (resolve_prepared_attachments T P ws snapshot profile)) (\<lambda>prepared.
     abind (checked (identity_input_for T (cs_id snapshot) (cs_revision snapshot) profile run prepared)) (\<lambda>input.
       ret \<lparr>cr_snapshot = snapshot, cr_identity = input, cr_repositoryRun = run, cr_preparedAttachments = prepared\<rparr>)))))"

section \<open>Reading the captured attachments\<close>

text \<open>A port throws the error class of this file, or a foreign value that may carry \<open>retryable: true\<close>.\<close>

datatype port_failure = OwnFailure string bool | ForeignFailure bool

record 'w attachment_ports =
  at_aborted :: "'w \<Rightarrow> bool"
  at_references :: "string \<Rightarrow> string \<Rightarrow> ('w, port_failure, attachment_reference list) effect"
  at_content :: "string \<Rightarrow> string \<Rightarrow> string \<Rightarrow> ('w, port_failure, string \<times> string) effect"
  at_maximumCharacters :: jsnum

definition evidence_cancelled :: analysis_error where
  "evidence_cancelled = CodedError ''analysis.cancelled'' False"

definition evidence_integrity :: analysis_error where
  "evidence_integrity = CodedError ''analysis.attachmentEvidenceIntegrity'' False"

definition assert_active :: "'w attachment_ports \<Rightarrow> ('w, analysis_error, unit) effect" where
  "assert_active P = throw_when (at_aborted P) evidence_cancelled"

definition reading_failed :: "'w attachment_ports \<Rightarrow> port_failure \<Rightarrow> ('w, analysis_error, 'a) effect" where
  "reading_failed P f = (case f of
      OwnFailure code r \<Rightarrow> throw (CodedError code r)
    | ForeignFailure r \<Rightarrow> abind (assert_active P) (\<lambda>_. throw (CodedError ''analysis.attachmentEvidenceUnavailable'' r)))"

definition attachment_evidence_id :: "request_tools \<Rightarrow> analysis_execution \<Rightarrow> attachment_reference \<Rightarrow> string" where
  "attachment_evidence_id T ex r = ''attachment-'' @ rq_sha256 T
     (join '':'' [ex_workspaceId ex, cs_id (ex_snapshot ex), reference_key r, ar_derivativeId r])"

definition attachment_evidence :: "request_tools \<Rightarrow> analysis_execution \<Rightarrow> attachment_reference \<Rightarrow> string \<Rightarrow> analysis_evidence" where
  "attachment_evidence T ex r content = \<lparr>ev_id = attachment_evidence_id T ex r, ev_content = content,
     ev_contentHash = rq_sha256 T content, ev_origin = OfAttachment (ar_attachmentId r) (ar_derivativeId r) (ar_processorVersion r)\<rparr>"

text \<open>The map from occurrence to prepared item; a later entry replaces an earlier one.\<close>

definition ready_map :: "prepared_attachments \<Rightarrow> (string \<times> prepared_attachment) list" where
  "ready_map s = rev (map (\<lambda>a. (prepared_key a, a)) (filter (\<lambda>a. pa_outcome a = ReadyOutcome) (ps_evidence s)))"

definition matches_prepared :: "prepared_attachment option \<Rightarrow> attachment_reference \<Rightarrow> bool" where
  "matches_prepared a r = (case a of None \<Rightarrow> False
    | Some p \<Rightarrow> pa_derivativeId p = Some (ar_derivativeId r) \<and>
        map_option to_lower (pa_outputContentHash p) = Some (to_lower (ar_outputContentHash r)))"

definition read_attachment ::
  "request_tools \<Rightarrow> 'w attachment_ports \<Rightarrow> analysis_execution \<Rightarrow> prepared_attachments \<Rightarrow> string list \<Rightarrow> attachment_reference \<Rightarrow>
    ('w, analysis_error, analysis_evidence) effect" where
  "read_attachment T P ex prepared seen r =
     abind (assert_active P) (\<lambda>_.
     abind (throw_when (\<lambda>_. \<not> valid_attachment_reference r) OtherError) (\<lambda>_.
     abind (throw_when (\<lambda>_. reference_key r \<in> set seen \<or>
         \<not> matches_prepared (map_of (ready_map prepared) (reference_key r)) r) evidence_integrity) (\<lambda>_.
     abind (catching (at_content P (ex_workspaceId ex) (ar_attachmentId r) (ar_derivativeId r)) (reading_failed P)) (\<lambda>(content, contentHash).
     abind (assert_active P) (\<lambda>_.
     let actual = rq_sha256 T content; e = attachment_evidence T ex r content in
     abind (throw_when (\<lambda>_. to_lower contentHash \<noteq> actual \<or> to_lower (ar_outputContentHash r) \<noteq> actual) evidence_integrity) (\<lambda>_.
     abind (throw_when (\<lambda>_. int_of (at_maximumCharacters P) < int (length content))
         (CodedError ''analysis.attachmentEvidenceTooLarge'' False)) (\<lambda>_.
     abind (throw_when (\<lambda>_. \<not> valid_evidence (rq_formats T) e) evidence_integrity) (\<lambda>_. ret e))))))))"

fun read_attachments ::
  "request_tools \<Rightarrow> 'w attachment_ports \<Rightarrow> analysis_execution \<Rightarrow> prepared_attachments \<Rightarrow> string list \<Rightarrow> analysis_evidence list \<Rightarrow>
    attachment_reference list \<Rightarrow> ('w, analysis_error, string list \<times> analysis_evidence list) effect" where
  "read_attachments T P ex prepared seen evidence [] = ret (seen, evidence)"
| "read_attachments T P ex prepared seen evidence (r # rs) =
     abind (read_attachment T P ex prepared seen r) (\<lambda>e.
       read_attachments T P ex prepared (seen @ [reference_key r]) (evidence @ [e]) rs)"

definition resolve_attachments ::
  "request_tools \<Rightarrow> 'w attachment_ports \<Rightarrow> analysis_execution \<Rightarrow> ('w, analysis_error, stage_result) effect" where
  "resolve_attachments T P ex =
     abind (assert_active P) (\<lambda>_.
     abind (lift_result (\<lambda>_. evidence_integrity) (validate_prepared T (ex_preparedAttachments ex))) (\<lambda>prepared.
     abind (catching (at_references P (ex_workspaceId ex) (cs_id (ex_snapshot ex))) (reading_failed P)) (\<lambda>references.
     abind (read_attachments T P ex prepared [] [] references) (\<lambda>(seen, evidence).
     abind (throw_when (\<lambda>_. length seen \<noteq> card (fst ` set (ready_map prepared))) evidence_integrity) (\<lambda>_.
       ret \<lparr>sr_evidence = evidence, sr_operationIds = []\<rparr>)))))"

text \<open>The constructor refuses a ceiling that is not between 1 and a million.\<close>

definition valid_maximum :: "jsnum \<Rightarrow> bool" where
  "valid_maximum n \<longleftrightarrow> int_between 1 1000000 n"

end
