(* ===== verification/Domain_States.thy ===== *)
theory Domain_States
  imports Prelude
begin

text \<open>
  The lifecycles of the domain: analysis jobs and their attempts
  (\<open>packages/domain/src/analysis.ts\<close>) and publication intents
  (\<open>packages/domain/src/publication.ts\<close>).  Each transition function returns the updated
  aggregate or the error the code throws; the reachable histories are an inductive relation
  whose steps are exactly those functions.
\<close>

section \<open>Analysis jobs\<close>

datatype job_state = JQueued | JRunning | JCompleted | JFailed | JCancelled

datatype attempt_state = TRunning | TSucceeded | TFailed | TCancelled | TLeaseExpired

record analysis_job =
  job_id :: string
  job_workspace :: string
  job_identity :: string
  runOrdinal :: int
  job_state :: job_state
  job_createdAt :: string
  job_updatedAt :: string

record analysis_attempt =
  attempt_id :: string
  attempt_workspace :: string
  attempt_jobId :: string
  attemptOrdinal :: int
  attempt_state :: attempt_state
  startedAt :: string
  finishedAt :: "string option"

text \<open>\<open>StateTransitionError\<close> names the two states, \<open>DomainValidationError\<close> the check that failed.\<close>

datatype domain_error =
    JobTransition job_state job_state
  | AttemptTransition attempt_state attempt_state
  | DifferentJob
  | AttemptNotTerminal

definition is_terminal_job :: "job_state \<Rightarrow> bool" where
  "is_terminal_job s \<longleftrightarrow> s \<in> set [JCompleted, JFailed, JCancelled]"

definition is_terminal_attempt :: "attempt_state \<Rightarrow> bool" where
  "is_terminal_attempt s \<longleftrightarrow> s \<in> set [TSucceeded, TFailed, TCancelled, TLeaseExpired]"

definition transition_job ::
  "analysis_job \<Rightarrow> job_state \<Rightarrow> string \<Rightarrow> (domain_error, analysis_job) result" where
  "transition_job j s at =
     (let is_allowed =
        (job_state j = JQueued \<and> (s = JRunning \<or> s = JCancelled)) \<or>
        (job_state j = JRunning \<and> (s = JCompleted \<or> s = JFailed \<or> s = JCancelled))
      in if \<not> is_allowed then Inl (JobTransition (job_state j) s)
         else Inr (j\<lparr>job_state := s, job_updatedAt := at\<rparr>))"

text \<open>The code's type excludes \<open>running\<close> as a target of \<open>finishAnalysisAttempt\<close>.\<close>

definition finish_attempt ::
  "analysis_attempt \<Rightarrow> attempt_state \<Rightarrow> string \<Rightarrow> (domain_error, analysis_attempt) result" where
  "finish_attempt a s at =
     (if attempt_state a \<noteq> TRunning then Inl (AttemptTransition (attempt_state a) s)
      else Inr (a\<lparr>attempt_state := s, finishedAt := Some at\<rparr>))"

definition recover_job ::
  "analysis_job \<Rightarrow> analysis_attempt \<Rightarrow> string \<Rightarrow> (domain_error, analysis_job) result" where
  "recover_job j a at =
     (if job_state j \<noteq> JRunning then Inl (JobTransition (job_state j) JQueued)
      else if attempt_jobId a \<noteq> job_id j then Inl DifferentJob
      else if \<not> is_terminal_attempt (attempt_state a) then Inl AttemptNotTerminal
      else Inr (j\<lparr>job_state := JQueued, job_updatedAt := at\<rparr>))"

lemmas job_defs = transition_job_def finish_attempt_def recover_job_def
  is_terminal_job_def is_terminal_attempt_def

text \<open>
  A job together with its attempts, as the worker drives them: a queued job is started with a
  fresh running attempt, the attempt is finished, and then either the job is closed or it is
  recovered into the queue.
\<close>

record job_world =
  the_job :: analysis_job
  attempts :: "analysis_attempt list"

inductive job_step :: "job_world \<Rightarrow> job_world \<Rightarrow> bool" where
  change: "transition_job (the_job w) s at = Inr j \<Longrightarrow> job_step w (w\<lparr>the_job := j\<rparr>)"
| start_attempt: "job_state (the_job w) = JRunning \<Longrightarrow> attempt_jobId a = job_id (the_job w) \<Longrightarrow>
     attempt_state a = TRunning \<Longrightarrow> job_step w (w\<lparr>attempts := a # attempts w\<rparr>)"
| finish: "i < length (attempts w) \<Longrightarrow> s \<noteq> TRunning \<Longrightarrow>
     finish_attempt (attempts w ! i) s at = Inr a \<Longrightarrow>
     job_step w (w\<lparr>attempts := (attempts w)[i := a]\<rparr>)"
| recover: "a \<in> set (attempts w) \<Longrightarrow> recover_job (the_job w) a at = Inr j \<Longrightarrow>
     job_step w (w\<lparr>the_job := j\<rparr>)"

inductive job_steps :: "job_world \<Rightarrow> job_world \<Rightarrow> bool" where
  refl: "job_steps w w"
| step: "job_steps w v \<Longrightarrow> job_step v u \<Longrightarrow> job_steps w u"

lemma transition_job_terminal:
  "is_terminal_job (job_state j) \<Longrightarrow> transition_job j s at = Inl (JobTransition (job_state j) s)"
  by (auto simp: job_defs)

lemma recover_job_terminal:
  "is_terminal_job (job_state j) \<Longrightarrow> recover_job j a at = Inl (JobTransition (job_state j) JQueued)"
  by (auto simp: job_defs)

lemma job_step_terminal:
  "job_step w v \<Longrightarrow> is_terminal_job (job_state (the_job w)) \<Longrightarrow> the_job v = the_job w"
  by (induction rule: job_step.induct)
    (auto simp: transition_job_terminal recover_job_terminal)

text \<open>
  C33: a terminal analysis job is final.  Whatever sequence of transitions, attempts and
  recoveries follows, a completed, failed or cancelled job keeps its state and every other field.
\<close>

theorem terminal_job_is_final:
  assumes "job_steps w v" and "is_terminal_job (job_state (the_job w))"
  shows "the_job v = the_job w"
  using assms by (induction rule: job_steps.induct) (auto dest: job_step_terminal)

definition sample_job :: analysis_job where
  "sample_job = \<lparr>job_id = ''j1'', job_workspace = ''w'', job_identity = ''i'', runOrdinal = 1,
     job_state = JCompleted, job_createdAt = ''t0'', job_updatedAt = ''t1''\<rparr>"

definition sample_attempt :: analysis_attempt where
  "sample_attempt = \<lparr>attempt_id = ''a1'', attempt_workspace = ''w'', attempt_jobId = ''j1'',
     attemptOrdinal = 1, attempt_state = TRunning, startedAt = ''t0'', finishedAt = None\<rparr>"

theorem terminal_job_is_final_witness:
  "the_job (\<lparr>the_job = sample_job,
      attempts = [sample_attempt\<lparr>attempt_state := TSucceeded, finishedAt := Some ''t2''\<rparr>]\<rparr>) = sample_job"
proof -
  let ?w = "\<lparr>the_job = sample_job, attempts = [sample_attempt]\<rparr>"
  let ?v = "?w\<lparr>attempts := (attempts ?w)[0 := sample_attempt\<lparr>attempt_state := TSucceeded, finishedAt := Some ''t2''\<rparr>]\<rparr>"
  have "job_step ?w ?v"
    by (rule job_step.finish [where s = TSucceeded and at = "''t2''"])
      (simp_all add: sample_attempt_def job_defs)
  then have "job_steps ?w ?v" by (rule job_steps.step [OF job_steps.refl])
  from terminal_job_is_final [OF this] show ?thesis
    by (simp add: sample_job_def job_defs)
qed

text \<open>What no step changes: the identity of the job and the run it belongs to.\<close>

lemma job_step_frame:
  "job_step w v \<Longrightarrow>
     job_id (the_job v) = job_id (the_job w) \<and> job_workspace (the_job v) = job_workspace (the_job w) \<and>
     runOrdinal (the_job v) = runOrdinal (the_job w) \<and> job_createdAt (the_job v) = job_createdAt (the_job w)"
  by (induction rule: job_step.induct) (auto simp: job_defs Let_def split: if_splits)

text \<open>
  recovery puts a job back into the queue only behind a finished attempt.  \<open>recoverAnalysisJob\<close>
  succeeds exactly for a running job and a terminal attempt of the same job, and then changes
  the state to queued and the update time, nothing else.
\<close>

theorem recover_job_exact:
  "recover_job j a at = Inr j' \<longleftrightarrow>
     job_state j = JRunning \<and> attempt_jobId a = job_id j \<and> attempt_state a \<noteq> TRunning \<and>
     j' = j\<lparr>job_state := JQueued, job_updatedAt := at\<rparr>"
  by (cases "attempt_state a") (auto simp: job_defs)

section \<open>Publication intents\<close>

datatype intent_state =
  IPending | IAwaitingApproval | IPublishing | IPublished | IOutcomeUnknown | IFailed | ISkipped

record publication_intent =
  intent_id :: string
  intent_workspace :: string
  intent_jobId :: string
  intent_state :: intent_state
  intent_createdAt :: string
  intent_updatedAt :: string

datatype intent_error = IntentTransition intent_state intent_state

fun publication_transitions :: "intent_state \<Rightarrow> intent_state list" where
  "publication_transitions IPending = [IAwaitingApproval, IPublishing, ISkipped]"
| "publication_transitions IAwaitingApproval = [IPending, IPublishing, ISkipped]"
| "publication_transitions IPublishing = [IPublished, IOutcomeUnknown, IFailed]"
| "publication_transitions IPublished = []"
| "publication_transitions IOutcomeUnknown = [IPublished, IPublishing, IFailed]"
| "publication_transitions IFailed = [IPublishing, ISkipped]"
| "publication_transitions ISkipped = []"

definition transition_intent ::
  "publication_intent \<Rightarrow> intent_state \<Rightarrow> string \<Rightarrow> (intent_error, publication_intent) result" where
  "transition_intent i s at =
     (if s \<notin> set (publication_transitions (intent_state i))
      then Inl (IntentTransition (intent_state i) s)
      else Inr (i\<lparr>intent_state := s, intent_updatedAt := at\<rparr>))"

text \<open>
  A history: the states an intent has been in, latest first, starting in one of the two states
  an intent is created in and following \<open>transitionPublicationIntent\<close>.
\<close>

inductive intent_history :: "publication_intent \<Rightarrow> intent_state list \<Rightarrow> bool" where
  created: "intent_state i = IPending \<or> intent_state i = IAwaitingApproval \<Longrightarrow>
     intent_history i [intent_state i]"
| moved: "intent_history i h \<Longrightarrow> transition_intent i s at = Inr i' \<Longrightarrow> intent_history i' (s # h)"

lemma transition_intent_Inr:
  "transition_intent i s at = Inr i' \<longleftrightarrow>
     s \<in> set (publication_transitions (intent_state i)) \<and>
     i' = i\<lparr>intent_state := s, intent_updatedAt := at\<rparr>"
  by (auto simp: transition_intent_def)

lemma history_head: "intent_history i h \<Longrightarrow> \<exists>t. h = intent_state i # t"
  by (induction rule: intent_history.induct) (auto simp: transition_intent_Inr)

text \<open>
  The invariant behind the publication guarantees: once an intent is beyond pending, awaiting
  approval and skipped it has been publishing, and published or skipped states are last.
\<close>

definition attempted_states :: "intent_state set" where
  "attempted_states = {IPublishing, IPublished, IOutcomeUnknown, IFailed}"

definition history_ok :: "intent_state list \<Rightarrow> bool" where
  "history_ok h \<longleftrightarrow> (hd h \<in> attempted_states \<longrightarrow> IPublishing \<in> set h) \<and>
     IPublished \<notin> set (tl h) \<and> ISkipped \<notin> set (tl h)"

lemma intent_history_ok: "intent_history i h \<Longrightarrow> history_ok h"
proof (induction rule: intent_history.induct)
  case (created i)
  then show ?case by (auto simp: history_ok_def attempted_states_def)
next
  case (moved i h s at i')
  obtain t where h: "h = intent_state i # t" using history_head [OF moved.hyps(1)] by blast
  have s: "s \<in> set (publication_transitions (intent_state i))"
    using moved.hyps(2) by (simp add: transition_intent_Inr)
  show ?case
    using moved.IH s h
    by (cases "intent_state i") (auto simp: history_ok_def attempted_states_def)
qed


definition sample_intent :: publication_intent where
  "sample_intent = \<lparr>intent_id = ''p1'', intent_workspace = ''w'', intent_jobId = ''j1'',
     intent_state = IPending, intent_createdAt = ''t0'', intent_updatedAt = ''t0''\<rparr>"


end
