(* ===== verification/Analysis_Store.thy ===== *)
theory Analysis_Store
  imports Analysis Domain_States Instants
begin

text \<open>
  The store of analysis runs in PostgreSQL: \<open>PostgresAnalysisExecutionStore\<close>
  (\<open>infrastructure/postgres/src/analysis/index.ts\<close>) and what \<open>PostgresOperationsStore\<close>
  (\<open>infrastructure/postgres/src/operations/index.ts\<close>) does to jobs and attempts.  A table is the list of its rows with the
  constraints of the schema; the JSON columns hold the values themselves.  The immutable material of a job (joins over
  profiles, recipes and snapshots), the clock and the commit are functions of the outside world.
\<close>

section \<open>Tables\<close>

record attempt_row = analysis_attempt +
  aw_leaseExpiresAt :: int
  aw_fencingToken :: int
  aw_error :: "(string \<times> bool) option"
  aw_stages :: "stage_status list"

record evidence_row =
  vw_id :: string
  vw_workspaceId :: string
  vw_resultId :: string
  vw_evidence :: analysis_evidence

record analysis_tables =
  db_jobs :: "analysis_job list"
  db_attempts :: "attempt_row list"
  db_results :: "analysis_result list"
  db_evidence :: "evidence_row list"
  db_outbox :: "envelope list"

record 'o analysis_world =
  aw_tables :: analysis_tables
  aw_outside :: 'o

text \<open>A commit may be refused, or be carried out although its answer is lost.\<close>

datatype commit_answer = CommitKept | CommitUndone | CommitLost

record 'o analysis_environment =
  en_aborted :: "'o \<Rightarrow> bool"
  en_commit :: "'o \<Rightarrow> commit_answer \<times> 'o"
  en_clock :: "'o \<Rightarrow> int"
  en_sha256 :: "string \<Rightarrow> string"
  en_joined :: "analysis_job \<Rightarrow> 'o \<Rightarrow> bool"
  en_material :: "analysis_job \<Rightarrow> 'o \<Rightarrow>
    (analysis_error, analysis_profile \<times> repository_pin option \<times> prepared_attachments option) result"
  en_snapshot :: "analysis_job \<Rightarrow> 'o \<Rightarrow> (analysis_error, case_snapshot) result"

type_synonym ('o, 'a) query = "('o analysis_world, analysis_error, 'a) effect"

definition set_tables :: "analysis_tables \<Rightarrow> 'o analysis_world \<Rightarrow> 'o analysis_world" where
  "set_tables d w = w\<lparr>aw_tables := d\<rparr>"

text \<open>\<open>unitOfWork.transaction\<close>: what the body throws rolls back; an error of the database has no \<open>retryable\<close> of its own.\<close>

definition transaction :: "'o analysis_environment \<Rightarrow> ('o, 'a) query \<Rightarrow> ('o, 'a) query" where
  "transaction E body w = (case body w of
      (Inl e, w') \<Rightarrow> (Inl e, set_tables (aw_tables w) w')
    | (Inr a, w') \<Rightarrow> (case en_commit E (aw_outside w') of
          (CommitKept, o') \<Rightarrow> (Inr a, w'\<lparr>aw_outside := o'\<rparr>)
        | (CommitUndone, o') \<Rightarrow> (Inl OtherError, w'\<lparr>aw_tables := aw_tables w, aw_outside := o'\<rparr>)
        | (CommitLost, o') \<Rightarrow> (Inl OtherError, w'\<lparr>aw_outside := o'\<rparr>)))"

definition on_tables :: "(analysis_tables \<Rightarrow> analysis_tables) \<Rightarrow> ('o, unit) query" where
  "on_tables f = updating (\<lambda>w. set_tables (f (aw_tables w)) w)"

definition conflict :: analysis_error where
  "conflict = CodedError ''analysis.executionConflict'' False"

definition invalid_completion :: analysis_error where
  "invalid_completion = CodedError ''analysis.invalidCompletion'' False"

definition assert_not_aborted :: "'o analysis_environment \<Rightarrow> ('o, unit) query" where
  "assert_not_aborted E = throw_when (\<lambda>w. en_aborted E (aw_outside w)) (CodedError ''analysis.cancelled'' False)"

section \<open>Claiming\<close>

definition attempt_of_job :: "analysis_job \<Rightarrow> ('a) analysis_attempt_scheme \<Rightarrow> bool" where
  "attempt_of_job j a \<longleftrightarrow> attempt_workspace a = job_workspace j \<and> attempt_jobId a = job_id j"

definition result_of_job :: "analysis_job \<Rightarrow> analysis_result \<Rightarrow> bool" where
  "result_of_job j r \<longleftrightarrow> re_workspaceId r = job_workspace j \<and> re_analysisJobId r = job_id j"

definition set_job_state :: "job_state \<Rightarrow> string \<Rightarrow> analysis_job \<Rightarrow> analysis_job" where
  "set_job_state s now j = j\<lparr>job_state := s, job_updatedAt := now\<rparr>"

text \<open>\<open>UPDATE analysis_jobs\<close> of one job in one of the given states.\<close>

definition update_job :: "string \<Rightarrow> string \<Rightarrow> job_state list \<Rightarrow> job_state \<Rightarrow> string \<Rightarrow> analysis_tables \<Rightarrow> analysis_tables" where
  "update_job ws i from s now d = d\<lparr>db_jobs := map (\<lambda>j. if job_id j = i \<and> job_workspace j = ws \<and> job_state j \<in> set from
     then set_job_state s now j else j) (db_jobs d)\<rparr>"

definition attempt_identifier :: "'o analysis_environment \<Rightarrow> string \<Rightarrow> int \<Rightarrow> string" where
  "attempt_identifier E job n = ''analysis-attempt-'' @ en_sha256 E (job @ '':'' @ show_int n)"

definition next_ordinal :: "analysis_job \<Rightarrow> attempt_row list \<Rightarrow> int" where
  "next_ordinal j rows = List.fold max (map attemptOrdinal (filter (attempt_of_job j) rows)) (-1) + 1"

definition new_attempt :: "'o analysis_environment \<Rightarrow> int \<Rightarrow> analysis_job \<Rightarrow> int \<Rightarrow> attempt_row" where
  "new_attempt E now j n = \<lparr>attempt_id = attempt_identifier E (job_id j) n, attempt_workspace = job_workspace j,
     attempt_jobId = job_id j, attemptOrdinal = n, attempt_state = TRunning, startedAt = iso_string now, finishedAt = None,
     aw_leaseExpiresAt = now + 15 * 60 * 1000, aw_fencingToken = 0, aw_error = None, aw_stages = []\<rparr>"

text \<open>The primary key, and the ordinal that is unique in its job.\<close>

definition attempt_clash :: "attempt_row \<Rightarrow> attempt_row \<Rightarrow> bool" where
  "attempt_clash a b \<longleftrightarrow> attempt_id a = attempt_id b \<or> attempt_jobId a = attempt_jobId b \<and> attemptOrdinal a = attemptOrdinal b"

definition start_attempt_row :: "'o analysis_environment \<Rightarrow> analysis_job \<Rightarrow> ('o, string) query" where
  "start_attempt_row E j w = (let now = en_clock E (aw_outside w); d = aw_tables w;
       a = new_attempt E now j (next_ordinal j (db_attempts d));
       d' = update_job (job_workspace j) (job_id j) [JQueued] JRunning (iso_string now) d in
     if list_ex (attempt_clash a) (db_attempts d) then (Inl OtherError, w)
     else (Inr (attempt_id a), set_tables (d'\<lparr>db_attempts := db_attempts d' @ [a]\<rparr>) w))"

definition claimed_job :: "envelope \<Rightarrow> analysis_job \<Rightarrow> bool" where
  "claimed_job command j \<longleftrightarrow> job_workspace j = en_workspaceId command \<and>
     en_payload command = AnalysisExecute (job_id j) (job_identity j)"

definition claim_row :: "'o analysis_environment \<Rightarrow> analysis_job \<Rightarrow> ('o, claim_outcome) query" where
  "claim_row E j =
     abind (\<lambda>w. (en_material E j (aw_outside w), w)) (\<lambda>(profile, run, prepared).
     abind (reading (\<lambda>w. find (result_of_job j) (db_results (aw_tables w)))) (\<lambda>completed.
     case completed of
       Some r \<Rightarrow> ret (ClaimCompleted (re_id r))
     | None \<Rightarrow>
         if job_state j = JRunning then ret ClaimRunning
         else if job_state j \<noteq> JQueued then ret ClaimNotFound
         else abind (start_attempt_row E j) (\<lambda>attempt.
           abind (assert_not_aborted E) (\<lambda>_.
           abind (\<lambda>w. (en_snapshot E j (aw_outside w), w)) (\<lambda>snapshot.
             ret (Claimed \<lparr>ex_workspaceId = job_workspace j, ex_analysisJobId = job_id j, ex_analysisIdentityId = job_identity j,
               ex_analysisAttemptId = attempt, ex_snapshot = snapshot, ex_profile = profile,
               ex_preparedAttachments = prepared, ex_repositoryRun = run\<rparr>))))))"

definition store_claim :: "'o analysis_environment \<Rightarrow> envelope \<Rightarrow> ('o, claim_outcome) query" where
  "store_claim E command = abind (assert_not_aborted E) (\<lambda>_. transaction E
     (abind (reading (\<lambda>w. find (\<lambda>j. claimed_job command j \<and> en_joined E j (aw_outside w)) (db_jobs (aw_tables w)))) (\<lambda>row.
        case row of None \<Rightarrow> ret ClaimNotFound | Some j \<Rightarrow> claim_row E j)))"

section \<open>Completing\<close>

definition completes :: "analysis_execution \<Rightarrow> analysis_result \<Rightarrow> envelope \<Rightarrow> bool" where
  "completes ex r e \<longleftrightarrow> re_workspaceId r = ex_workspaceId ex \<and> re_analysisJobId r = ex_analysisJobId ex \<and>
     re_analysisIdentityId r = ex_analysisIdentityId ex \<and> re_analysisAttemptId r = ex_analysisAttemptId ex \<and>
     en_workspaceId e = ex_workspaceId ex \<and> en_payload e = AnalysisCompleted (ex_analysisJobId ex) (re_id r)"

definition execution_job :: "analysis_execution \<Rightarrow> analysis_job \<Rightarrow> bool" where
  "execution_job ex j \<longleftrightarrow> job_id j = ex_analysisJobId ex \<and> job_workspace j = ex_workspaceId ex"

definition evidence_rows :: "'o analysis_environment \<Rightarrow> analysis_result \<Rightarrow> evidence_row list" where
  "evidence_rows E r = map (\<lambda>(n, e). \<lparr>vw_id = ''evidence-'' @ en_sha256 E (re_id r @ '':'' @ show_nat n @ '':'' @ ev_id e),
     vw_workspaceId = re_workspaceId r, vw_resultId = re_id r, vw_evidence = e\<rparr>) (enumerate 0 (re_evidence r))"

text \<open>The running attempt of an execution, and the same row when it ends.\<close>

definition running_attempt :: "analysis_execution \<Rightarrow> attempt_row \<Rightarrow> bool" where
  "running_attempt ex a \<longleftrightarrow> attempt_id a = ex_analysisAttemptId ex \<and> attempt_workspace a = ex_workspaceId ex \<and>
     attempt_jobId a = ex_analysisJobId ex \<and> attempt_state a = TRunning"

definition end_attempt :: "attempt_state \<Rightarrow> string \<Rightarrow> (string \<times> bool) option \<Rightarrow> stage_status list \<Rightarrow> attempt_row \<Rightarrow> attempt_row" where
  "end_attempt s now err stages a = a\<lparr>attempt_state := s, finishedAt := Some now,
     aw_error := (case err of None \<Rightarrow> aw_error a | Some _ \<Rightarrow> err), aw_stages := stages\<rparr>"

definition update_attempts :: "(attempt_row \<Rightarrow> bool) \<Rightarrow> (attempt_row \<Rightarrow> attempt_row) \<Rightarrow> analysis_tables \<Rightarrow> analysis_tables" where
  "update_attempts hit f d = d\<lparr>db_attempts := map (\<lambda>a. if hit a then f a else a) (db_attempts d)\<rparr>"

definition complete_row :: "'o analysis_environment \<Rightarrow> analysis_execution \<Rightarrow> analysis_result \<Rightarrow> envelope \<Rightarrow> ('o, unit) query" where
  "complete_row E ex r e w = (let d = aw_tables w; now = iso_string (en_clock E (aw_outside w)); rows = evidence_rows E r in
     (case find (execution_job ex) (db_jobs d) of
        None \<Rightarrow> (Inl conflict, w)
      | Some j \<Rightarrow>
          if job_identity j \<noteq> ex_analysisIdentityId ex then (Inl conflict, w)
          else (case find (result_of_job j) (db_results d) of
              Some x \<Rightarrow> if re_id x = re_id r then (Inr (), w) else (Inl conflict, w)
            | None \<Rightarrow>
                if job_state j \<noteq> JRunning then (Inl conflict, w)
                else if list_ex (\<lambda>x. re_id x = re_id r) (db_results d) \<or> \<not> distinct (map vw_id (db_evidence d @ rows))
                then (Inl OtherError, w)
                else if length (filter (running_attempt ex) (db_attempts d)) \<noteq> 1 then (Inl conflict, w)
                else if list_ex (\<lambda>x. en_id x = en_id e) (db_outbox d) then (Inl OtherError, w)
                else let d1 = d\<lparr>db_results := db_results d @ [r], db_evidence := db_evidence d @ rows\<rparr>;
                         d2 = update_attempts (running_attempt ex) (end_attempt TSucceeded now None (re_stages r)) d1;
                         d3 = update_job (ex_workspaceId ex) (ex_analysisJobId ex) [JRunning] JCompleted now d2 in
                  (Inr (), set_tables (d3\<lparr>db_outbox := db_outbox d3 @ [e]\<rparr>) w))))"

text \<open>The signal of \<open>complete\<close> and \<open>fail\<close> is one the orchestrator creates for the call and never aborts.\<close>

definition store_complete :: "'o analysis_environment \<Rightarrow> analysis_execution \<Rightarrow> analysis_result \<Rightarrow> envelope \<Rightarrow> ('o, unit) query" where
  "store_complete E ex r e = abind (throw_when (\<lambda>_. \<not> completes ex r e) invalid_completion) (\<lambda>_.
     transaction E (complete_row E ex r e))"

section \<open>Failing\<close>

fun outcome_attempt :: "attempt_outcome \<Rightarrow> attempt_state" where
  "outcome_attempt AttemptFailed = TFailed"
| "outcome_attempt AttemptCancelled = TCancelled"

fun outcome_job :: "attempt_outcome \<Rightarrow> job_state" where
  "outcome_job AttemptFailed = JFailed"
| "outcome_job AttemptCancelled = JCancelled"

definition fail_row ::
  "'o analysis_environment \<Rightarrow> analysis_execution \<Rightarrow> attempt_outcome \<Rightarrow> stage_status list \<Rightarrow> string \<times> bool \<Rightarrow> ('o, unit) query" where
  "fail_row E ex result stages err w = (let d = aw_tables w; now = iso_string (en_clock E (aw_outside w)) in
     (case find (execution_job ex) (db_jobs d) of
        None \<Rightarrow> (Inr (), w)
      | Some j \<Rightarrow>
          if job_identity j \<noteq> ex_analysisIdentityId ex then (Inr (), w)
          else let outcome = (if job_state j = JCancelled then AttemptCancelled else result);
                   d1 = update_attempts (running_attempt ex) (end_attempt (outcome_attempt outcome) now (Some err) stages) d in
            if length (filter (running_attempt ex) (db_attempts d)) \<noteq> 1 \<or> job_state j \<noteq> JRunning
            then (Inr (), set_tables d1 w)
            else (Inr (), set_tables (update_job (ex_workspaceId ex) (ex_analysisJobId ex) [JRunning] (outcome_job outcome) now d1) w)))"

definition store_fail ::
  "'o analysis_environment \<Rightarrow> analysis_execution \<Rightarrow> attempt_outcome \<Rightarrow> stage_status list \<Rightarrow> string \<times> bool \<Rightarrow> ('o, unit) query" where
  "store_fail E ex result stages err = transaction E (fail_row E ex result stages err)"

section \<open>What operators do to jobs\<close>

definition running_of :: "string \<Rightarrow> string \<Rightarrow> attempt_row \<Rightarrow> bool" where
  "running_of ws i a \<longleftrightarrow> attempt_workspace a = ws \<and> attempt_jobId a = i \<and> attempt_state a = TRunning"

text \<open>\<open>cancelJob\<close>: the job is returned when it was queued or running.\<close>

definition cancel_job :: "string \<Rightarrow> string \<Rightarrow> string \<Rightarrow> analysis_tables \<Rightarrow> analysis_job option \<times> analysis_tables" where
  "cancel_job ws i now d =
     (case find (\<lambda>j. job_workspace j = ws \<and> job_id j = i \<and> job_state j \<in> set [JQueued, JRunning]) (db_jobs d) of
        None \<Rightarrow> (None, d)
      | Some j \<Rightarrow> (Some (set_job_state JCancelled now j),
          update_job ws i [JQueued, JRunning] JCancelled now (update_attempts (running_of ws i)
            (\<lambda>a. a\<lparr>attempt_state := TCancelled, finishedAt := Some now, aw_error := Some (''operations.cancelled'', False)\<rparr>) d)))"

text \<open>\<open>recoverExpiredJob\<close>: attempts whose lease has expired fail, and a running job that had one is queued again.\<close>

definition expired_attempt :: "string \<Rightarrow> string \<Rightarrow> int \<Rightarrow> int \<Rightarrow> attempt_row \<Rightarrow> bool" where
  "expired_attempt ws i token clock a \<longleftrightarrow> running_of ws i a \<and> aw_leaseExpiresAt a \<le> clock \<and> aw_fencingToken a < token"

definition recover_expired_job ::
  "string \<Rightarrow> string \<Rightarrow> int \<Rightarrow> int \<Rightarrow> string \<Rightarrow> analysis_tables \<Rightarrow> analysis_job option \<times> analysis_tables" where
  "recover_expired_job ws i token clock now d =
     (let hit = expired_attempt ws i token clock;
          d1 = update_attempts hit (\<lambda>a. a\<lparr>attempt_state := TFailed, finishedAt := Some now,
                 aw_error := Some (''operations.leaseExpired'', True), aw_fencingToken := token\<rparr>) d in
      if \<not> list_ex hit (db_attempts d) then (None, d)
      else (map_option (set_job_state JQueued now)
              (find (\<lambda>j. job_workspace j = ws \<and> job_id j = i \<and> job_state j = JRunning) (db_jobs d)),
            update_job ws i [JRunning] JQueued now d1))"

text \<open>\<open>retryDeadLetter\<close>: a new job of the same identity; the failed one stays as it is.\<close>

definition next_run :: "string \<Rightarrow> string \<Rightarrow> analysis_job list \<Rightarrow> int" where
  "next_run ws identity jobs = List.fold max (map runOrdinal (filter (\<lambda>j. job_workspace j = ws \<and> job_identity j = identity) jobs)) (-1) + 1"

definition retry_dead_letter ::
  "string \<Rightarrow> string \<Rightarrow> string \<Rightarrow> string \<Rightarrow> analysis_tables \<Rightarrow> (analysis_error, analysis_job option) result \<times> analysis_tables" where
  "retry_dead_letter ws failedJob replacement now d =
     (case find (\<lambda>j. job_workspace j = ws \<and> job_id j = failedJob \<and> job_state j = JFailed) (db_jobs d) of
        None \<Rightarrow> (Inr None, d)
      | Some j \<Rightarrow>
          if \<not> list_ex (\<lambda>a. attempt_workspace a = ws \<and> attempt_jobId a = failedJob \<and> attempt_state a = TFailed) (db_attempts d)
          then (Inr None, d)
          else let k = \<lparr>job_id = replacement, job_workspace = ws, job_identity = job_identity j,
                 runOrdinal = next_run ws (job_identity j) (db_jobs d), job_state = JQueued, job_createdAt = now, job_updatedAt = now\<rparr> in
            if list_ex (\<lambda>x. job_id x = replacement) (db_jobs d) then (Inl OtherError, d)
            else (Inr (Some k), d\<lparr>db_jobs := db_jobs d @ [k]\<rparr>))"

section \<open>The ports of a worker\<close>

text \<open>The other dependencies of the orchestrator act on the outside world; they have no access to these tables.\<close>

definition outside :: "('o, analysis_error, 'a) effect \<Rightarrow> ('o, 'a) query" where
  "outside m w = (case m (aw_outside w) of (r, o') \<Rightarrow> (r, w\<lparr>aw_outside := o'\<rparr>))"

definition store_ports :: "'o analysis_environment \<Rightarrow> 'o analysis_ports \<Rightarrow> 'o analysis_world analysis_ports" where
  "store_ports E P = \<lparr>ao_aborted = (\<lambda>w. en_aborted E (aw_outside w)), ao_claim = store_claim E,
     ao_complete = store_complete E, ao_fail = store_fail E,
     ao_attachments = (\<lambda>ex. outside (ao_attachments P ex)), ao_retrieve = (\<lambda>ex c. outside (ao_retrieve P ex c)),
     ao_investigate = (\<lambda>ex c. outside (ao_investigate P ex c)), ao_counter = (\<lambda>ex. outside (ao_counter P ex)),
     ao_generate = (\<lambda>c. outside (ao_generate P c)), ao_next = (\<lambda>k. outside (ao_next P k)), ao_now = outside (ao_now P),
     ao_tools = ao_tools P, ao_date = ao_date P, ao_parse = ao_parse P\<rparr>"

end
