(* ===== verification/Analysis_History.thy ===== *)
theory Analysis_History
  imports Analysis_Store
begin

text \<open>
  What the tables of analysis runs promise: whatever workers and operators do, in whatever order, a job has one running
  attempt at most, and it is completed exactly when one result of one of its attempts is stored together with one event.
\<close>

section \<open>Histories\<close>

inductive store_step :: "'o analysis_environment \<Rightarrow> 'o analysis_world \<Rightarrow> 'o analysis_world \<Rightarrow> bool" for E where
  requested: "job_state j = JQueued \<Longrightarrow> job_id j \<notin> job_id ` set (db_jobs (aw_tables w)) \<Longrightarrow>
    store_step E w (set_tables ((aw_tables w)\<lparr>db_jobs := db_jobs (aw_tables w) @ [j]\<rparr>) w)"
| claimed: "store_claim E command w = (r, w') \<Longrightarrow> store_step E w w'"
| completed: "store_complete E ex result event w = (r, w') \<Longrightarrow> store_step E w w'"
| failed: "store_fail E ex outcome stages err w = (r, w') \<Longrightarrow> store_step E w w'"
| cancelled: "store_step E w (set_tables (snd (cancel_job ws i now (aw_tables w))) w)"
| cancel_requested: "find (\<lambda>j. job_workspace j = ws \<and> job_id j = i) (db_jobs (aw_tables w)) = Some j \<Longrightarrow>
    transition_job j JCancelled now = Inr j' \<Longrightarrow>
    store_step E w (set_tables (update_job ws i [JQueued, JRunning] JCancelled now (aw_tables w)) w)"
| recovered: "store_step E w (set_tables (snd (recover_expired_job ws i token clock now (aw_tables w))) w)"
| retried: "store_step E w (set_tables (snd (retry_dead_letter ws i replacement now (aw_tables w))) w)"
| appended: "(\<And>i r. en_payload e \<noteq> AnalysisCompleted i r) \<Longrightarrow>
    store_step E w (set_tables ((aw_tables w)\<lparr>db_outbox := db_outbox (aw_tables w) @ [e]\<rparr>) w)"
| elsewhere: "store_step E w (w\<lparr>aw_outside := o'\<rparr>)"

inductive store_steps :: "'o analysis_environment \<Rightarrow> 'o analysis_world \<Rightarrow> 'o analysis_world \<Rightarrow> bool" for E where
  here: "store_steps E w w"
| onward: "store_steps E u v \<Longrightarrow> store_step E v w \<Longrightarrow> store_steps E u w"

definition empty_tables :: analysis_tables where
  "empty_tables = \<lparr>db_jobs = [], db_attempts = [], db_results = [], db_evidence = [], db_outbox = []\<rparr>"

section \<open>The invariant\<close>

definition attempts_of :: "analysis_tables \<Rightarrow> analysis_job \<Rightarrow> attempt_row list" where
  "attempts_of d j = filter (attempt_of_job j) (db_attempts d)"

definition attempts_in :: "attempt_state \<Rightarrow> analysis_tables \<Rightarrow> analysis_job \<Rightarrow> attempt_row list" where
  "attempts_in s d j = filter (\<lambda>a. attempt_state a = s) (attempts_of d j)"

definition results_of :: "analysis_tables \<Rightarrow> analysis_job \<Rightarrow> analysis_result list" where
  "results_of d j = filter (result_of_job j) (db_results d)"

fun event_of_job :: "analysis_job \<Rightarrow> envelope \<Rightarrow> bool" where
  "event_of_job j e \<longleftrightarrow> en_workspaceId e = job_workspace j \<and> (\<exists>r. en_payload e = AnalysisCompleted (job_id j) r)"

definition events_of :: "analysis_tables \<Rightarrow> analysis_job \<Rightarrow> envelope list" where
  "events_of d j = filter (event_of_job j) (db_outbox d)"

definition recorded :: "analysis_tables \<Rightarrow> analysis_job \<Rightarrow> bool" where
  "recorded d j \<longleftrightarrow> (\<exists>a r e. attempts_in TSucceeded d j = [a] \<and> results_of d j = [r] \<and> events_of d j = [e] \<and>
     re_analysisAttemptId r = attempt_id a \<and> en_payload e = AnalysisCompleted (job_id j) (re_id r))"

definition unrecorded :: "analysis_tables \<Rightarrow> analysis_job \<Rightarrow> bool" where
  "unrecorded d j \<longleftrightarrow> attempts_in TSucceeded d j = [] \<and> results_of d j = [] \<and> events_of d j = []"

definition job_consistent :: "analysis_tables \<Rightarrow> analysis_job \<Rightarrow> bool" where
  "job_consistent d j \<longleftrightarrow> (if job_state j = JCompleted then recorded d j else unrecorded d j) \<and>
     (let n = length (attempts_in TRunning d j) in
      (case job_state j of JRunning \<Rightarrow> n = 1 | JCancelled \<Rightarrow> n \<le> 1 | _ \<Rightarrow> n = 0))"

definition job_key :: "analysis_job \<Rightarrow> string \<times> string" where
  "job_key j = (job_workspace j, job_id j)"

definition attempt_key :: "attempt_row \<Rightarrow> string \<times> string" where
  "attempt_key a = (attempt_workspace a, attempt_jobId a)"

definition rows_have_jobs :: "analysis_tables \<Rightarrow> bool" where
  "rows_have_jobs d \<longleftrightarrow> attempt_key ` set (db_attempts d) \<subseteq> job_key ` set (db_jobs d) \<and>
     (\<forall>r \<in> set (db_results d). re_analysisJobId r \<in> job_id ` set (db_jobs d)) \<and>
     (\<forall>e \<in> set (db_outbox d). \<forall>i r. en_payload e = AnalysisCompleted i r \<longrightarrow> i \<in> job_id ` set (db_jobs d))"

definition tables_consistent :: "analysis_tables \<Rightarrow> bool" where
  "tables_consistent d \<longleftrightarrow> distinct (map job_id (db_jobs d)) \<and> distinct (map attempt_id (db_attempts d)) \<and>
     rows_have_jobs d \<and> (\<forall>j \<in> set (db_jobs d). job_consistent d j)"

section \<open>Rows of one job\<close>

lemma found_in: "find P xs = Some x \<Longrightarrow> x \<in> set xs \<and> P x"
  by (induction xs) (auto split: if_splits)

text \<open>The parts of the tables that the predicate of a job reads: two tables that agree on them agree on the job.\<close>

definition same_rows :: "analysis_job \<Rightarrow> analysis_tables \<Rightarrow> analysis_tables \<Rightarrow> bool" where
  "same_rows j d d' \<longleftrightarrow> attempts_of d' j = attempts_of d j \<and>
     results_of d' j = results_of d j \<and> events_of d' j = events_of d j"

lemma job_consistent_cong:
  assumes "job_state k = job_state j" "job_id k = job_id j" "results_of d' k = results_of d j" "events_of d' k = events_of d j"
    and "\<And>s. attempts_in s d' k = attempts_in s d j"
  shows "job_consistent d' k = job_consistent d j"
  unfolding job_consistent_def recorded_def unrecorded_def by (simp only: assms)

lemma same_rows_consistent: "same_rows j d d' \<Longrightarrow> job_consistent d j \<Longrightarrow> job_consistent d' j"
  by (subst job_consistent_cong [of j j d' d]) (simp_all add: same_rows_def attempts_in_def)

lemma same_identity_rows:
  assumes "job_id k = job_id j" "job_workspace k = job_workspace j"
  shows "attempts_in s d k = attempts_in s d j" "results_of d k = results_of d j" "events_of d k = events_of d j"
proof -
  have "attempt_of_job k = (attempt_of_job j :: attempt_row \<Rightarrow> bool)" "result_of_job k = result_of_job j" "event_of_job k = event_of_job j"
    using assms by (auto simp: fun_eq_iff attempt_of_job_def result_of_job_def)
  then show "attempts_in s d k = attempts_in s d j" "results_of d k = results_of d j" "events_of d k = events_of d j"
    by (simp_all add: attempts_in_def attempts_of_def results_of_def events_of_def)
qed

lemma filter_update:
  "(\<And>x. x \<in> set xs \<Longrightarrow> hit x \<Longrightarrow> P (f x) = P x) \<Longrightarrow>
     filter P (map (\<lambda>x. if hit x then f x else x) xs) = map (\<lambda>x. if hit x then f x else x) (filter P xs)"
  by (induction xs) auto

lemma filter_update_other:
  "(\<And>x. x \<in> set xs \<Longrightarrow> hit x \<Longrightarrow> \<not> P x \<and> \<not> P (f x)) \<Longrightarrow> filter P (map (\<lambda>x. if hit x then f x else x) xs) = filter P xs"
  by (induction xs) auto

lemma in_updated_jobs:
  "j \<in> set (db_jobs (update_job ws i was s now d)) \<longleftrightarrow>
     (\<exists>k \<in> set (db_jobs d). j = (if job_id k = i \<and> job_workspace k = ws \<and> job_state k \<in> set was then set_job_state s now k else k))"
proof -
  have "db_jobs (update_job ws i was s now d) = map (\<lambda>k. if job_id k = i \<and> job_workspace k = ws \<and> job_state k \<in> set was
     then set_job_state s now k else k) (db_jobs d)" by (simp add: update_job_def)
  then show ?thesis by (simp only: set_map image_iff)
qed

lemma set_job_state_parts [simp]:
  "job_id (set_job_state s now k) = job_id k" "job_workspace (set_job_state s now k) = job_workspace k"
  "job_state (set_job_state s now k) = s" "job_identity (set_job_state s now k) = job_identity k"
  by (simp_all add: set_job_state_def)

lemma update_job_none [simp]: "update_job ws i [] s now d = d"
  by (simp add: update_job_def)

lemma update_job_parts [simp]:
  "db_attempts (update_job ws i was s now d) = db_attempts d" "db_results (update_job ws i was s now d) = db_results d"
  "db_outbox (update_job ws i was s now d) = db_outbox d" "db_evidence (update_job ws i was s now d) = db_evidence d"
  "map job_id (db_jobs (update_job ws i was s now d)) = map job_id (db_jobs d)"
  by (auto simp: update_job_def)

lemma job_ids_updated [simp]: "job_id ` set (db_jobs (update_job ws i was s now d)) = job_id ` set (db_jobs d)"
  using arg_cong [OF update_job_parts(5), of set] by (simp only: set_map)

lemma job_keys_updated [simp]: "job_key ` set (db_jobs (update_job ws i was s now d)) = job_key ` set (db_jobs d)"
proof -
  have "map job_key (db_jobs (update_job ws i was s now d)) = map job_key (db_jobs d)" by (simp add: update_job_def job_key_def)
  then have "set (map job_key (db_jobs (update_job ws i was s now d))) = set (map job_key (db_jobs d))" by (rule arg_cong)
  then show ?thesis by (simp only: set_map)
qed

lemma update_attempts_parts [simp]:
  "db_jobs (update_attempts hit f d) = db_jobs d" "db_results (update_attempts hit f d) = db_results d"
  "db_outbox (update_attempts hit f d) = db_outbox d" "db_evidence (update_attempts hit f d) = db_evidence d"
  "db_attempts (update_attempts hit f d) = map (\<lambda>a. if hit a then f a else a) (db_attempts d)"
  by (simp_all add: update_attempts_def)

text \<open>
  The frame of every operation: only the job \<open>i\<close> of the workspace \<open>ws\<close> changes, rows of other jobs stay, the rows that
  are there refer to jobs, and the new job is consistent.
\<close>

lemma consistent_step:
  assumes ok: "tables_consistent d"
    and ids: "map job_id (db_jobs d') = map job_id (db_jobs d)" and attempts: "distinct (map attempt_id (db_attempts d'))"
    and rows: "rows_have_jobs d'"
    and old: "\<And>k. k \<in> set (db_jobs d') \<Longrightarrow> k \<in> set (db_jobs d) \<and> same_rows k d d' \<or> job_consistent d' k"
  shows "tables_consistent d'"
  unfolding tables_consistent_def
proof (intro conjI ballI)
  show "distinct (map job_id (db_jobs d'))" using ok ids by (simp add: tables_consistent_def)
  show "job_consistent d' k" if "k \<in> set (db_jobs d')" for k
    using old [OF that] ok same_rows_consistent by (auto simp: tables_consistent_def)
qed (rule attempts, rule rows)

lemma jobs_unique:
  assumes "tables_consistent d" "j \<in> set (db_jobs d)" "k \<in> set (db_jobs d)" "job_id j = job_id k"
  shows "j = k"
  using assms by (auto simp: tables_consistent_def distinct_map inj_on_def)

text \<open>The state of one job changes, and only rows of this job do.\<close>

lemma consistent_job:
  assumes ok: "tables_consistent d" and j: "j \<in> set (db_jobs d)" "job_id j = i" "job_workspace j = ws"
    and jobs: "db_jobs d' = db_jobs (update_job ws i was s now d)"
    and attempts: "distinct (map attempt_id (db_attempts d'))" and rows: "rows_have_jobs d'"
    and others: "\<And>k. job_id k \<noteq> i \<Longrightarrow> same_rows k d d'"
    and new: "\<And>k. job_id k = i \<Longrightarrow> job_workspace k = ws \<Longrightarrow> job_state k = (if job_state j \<in> set was then s else job_state j) \<Longrightarrow>
      job_consistent d' k"
  shows "tables_consistent d'"
proof (rule consistent_step [OF ok _ attempts rows])
  show "map job_id (db_jobs d') = map job_id (db_jobs d)" using jobs by simp
  fix k assume "k \<in> set (db_jobs d')"
  then obtain k0 where k0: "k0 \<in> set (db_jobs d)"
    "k = (if job_id k0 = i \<and> job_workspace k0 = ws \<and> job_state k0 \<in> set was then set_job_state s now k0 else k0)"
    unfolding jobs in_updated_jobs by blast
  show "k \<in> set (db_jobs d) \<and> same_rows k d d' \<or> job_consistent d' k"
  proof (cases "job_id k0 = i")
    case True
    then have "k0 = j" using jobs_unique [OF ok k0(1) j(1)] j(2) by simp
    then show ?thesis using k0 j by (intro disjI2 new) simp_all
  next
    case False
    then show ?thesis using k0 others by simp
  qed
qed

lemma transaction_tables:
  assumes "transaction E body w = (r, w')"
  shows "aw_tables w' = aw_tables w \<or> (\<exists>a w1. body w = (Inr a, w1) \<and> aw_tables w' = aw_tables w1)"
  using assms by (auto simp: transaction_def set_tables_def split: prod.splits sum.splits commit_answer.splits)

lemma set_tables_simps [simp]:
  "aw_tables (set_tables d w) = d" "aw_outside (set_tables d w) = aw_outside w"
  by (simp_all add: set_tables_def)

section \<open>Each operation\<close>

lemma same_rows_attempts:
  assumes "\<And>a. a \<in> set (db_attempts d) \<Longrightarrow> hit a \<Longrightarrow> attempt_jobId a = i \<and> attempt_jobId (f a) = i" and "job_id k \<noteq> i"
  shows "filter (attempt_of_job k) (map (\<lambda>a. if hit a then f a else a) (db_attempts d)) = filter (attempt_of_job k) (db_attempts d)"
  by (rule filter_update_other) (use assms in \<open>auto simp: attempt_of_job_def\<close>)

lemma claim_tables:
  assumes "store_claim E command w = (r, w')"
  shows "aw_tables w' = aw_tables w \<or> (\<exists>j id w1. j \<in> set (db_jobs (aw_tables w)) \<and> job_state j = JQueued \<and>
    start_attempt_row E j w = (Inr id, w1) \<and> aw_tables w' = aw_tables w1)"
proof (cases "en_aborted E (aw_outside w)")
  case True
  then show ?thesis using assms by (auto simp: store_claim_def assert_not_aborted_def abind_def throw_when_def)
next
  case False
  define body where "body = abind (reading (\<lambda>w. find (\<lambda>j. claimed_job command j \<and> en_joined E j (aw_outside w)) (db_jobs (aw_tables w))))
    (\<lambda>row. case row of None \<Rightarrow> ret ClaimNotFound | Some j \<Rightarrow> claim_row E j)"
  have run: "transaction E body w = (r, w')"
    using assms False by (simp add: store_claim_def assert_not_aborted_def abind_def throw_when_def body_def)
  have row: "aw_tables w1 = aw_tables w \<or> (\<exists>id w2. job_state j = JQueued \<and> start_attempt_row E j w = (Inr id, w2) \<and> aw_tables w1 = aw_tables w2)"
    if "claim_row E j w = (Inr a, w1)" for j a w1
    using that
    by (auto simp: claim_row_def abind_def reading_def ret_def assert_not_aborted_def throw_when_def
      split: prod.splits sum.splits option.splits if_splits)
  from transaction_tables [OF run] show ?thesis
  proof
    assume "\<exists>a w1. body w = (Inr a, w1) \<and> aw_tables w' = aw_tables w1"
    then obtain a w1 where b: "body w = (Inr a, w1)" "aw_tables w' = aw_tables w1" by blast
    show ?thesis
    proof (cases "find (\<lambda>j. claimed_job command j \<and> en_joined E j (aw_outside w)) (db_jobs (aw_tables w))")
      case None
      then show ?thesis using b by (simp add: body_def abind_def reading_def ret_def)
    next
      case (Some j)
      have "claim_row E j w = (Inr a, w1)" using b Some by (simp add: body_def abind_def reading_def)
      moreover have "j \<in> set (db_jobs (aw_tables w))" using found_in [OF Some] by simp
      ultimately show ?thesis using row b(2) by metis
    qed
  qed blast
qed

lemma claim_consistent:
  assumes ok: "tables_consistent (aw_tables w)" and run: "store_claim E command w = (r, w')"
  shows "tables_consistent (aw_tables w')"
  using claim_tables [OF run]
proof
  assume "\<exists>j id w1. j \<in> set (db_jobs (aw_tables w)) \<and> job_state j = JQueued \<and>
    start_attempt_row E j w = (Inr id, w1) \<and> aw_tables w' = aw_tables w1"
  then obtain j id w1 where j: "j \<in> set (db_jobs (aw_tables w))" "job_state j = JQueued"
    and start: "start_attempt_row E j w = (Inr id, w1)" "aw_tables w' = aw_tables w1" by blast
  define d a where "d = aw_tables w" and "a = new_attempt E (en_clock E (aw_outside w)) j (next_ordinal j (db_attempts d))"
  define d' where "d' = aw_tables w'"
  have fresh: "\<not> list_ex (attempt_clash a) (db_attempts d)"
    and d': "d' = (update_job (job_workspace j) (job_id j) [JQueued] JRunning (iso_string (en_clock E (aw_outside w))) d)
       \<lparr>db_attempts := db_attempts d @ [a]\<rparr>"
    using start by (auto simp: start_attempt_row_def Let_def d_def a_def d'_def split: if_splits)
  have a: "attempt_jobId a = job_id j" "attempt_workspace a = job_workspace j" "attempt_state a = TRunning"
    by (simp_all add: a_def new_attempt_def)
  have "tables_consistent d'"
  proof (rule consistent_job)
    show "tables_consistent d" "j \<in> set (db_jobs d)" using ok j(1) by (simp_all add: d_def)
    show "distinct (map attempt_id (db_attempts d'))"
      using ok fresh by (auto simp: d' d_def tables_consistent_def attempt_clash_def list_ex_iff)
    have "rows_have_jobs d" using ok by (simp add: tables_consistent_def d_def)
    moreover have "attempt_key a = job_key j" using a by (simp add: attempt_key_def job_key_def)
    ultimately show "rows_have_jobs d'" using j(1) by (simp add: rows_have_jobs_def d' d_def)
    show "db_jobs d' = db_jobs (update_job (job_workspace j) (job_id j) [JQueued] JRunning (iso_string (en_clock E (aw_outside w))) d)"
      by (simp add: d')
    show "same_rows k d d'" if "job_id k \<noteq> job_id j" for k
      using that a by (simp add: same_rows_def attempts_of_def results_of_def events_of_def attempt_of_job_def d')
    show "job_consistent d' k"
      if k: "job_id k = job_id j" "job_workspace k = job_workspace j"
        "job_state k = (if job_state j \<in> set [JQueued] then JRunning else job_state j)" for k
    proof -
      have "job_consistent d j" using ok j(1) by (simp add: tables_consistent_def d_def)
      then have "attempts_in TRunning d j = []" "unrecorded d j" using j(2) by (simp_all add: job_consistent_def)
      moreover have "attempts_in s d' j = attempts_in s d j @ (if s = TRunning then [a] else [])" for s
        using a by (simp add: attempts_in_def attempts_of_def attempt_of_job_def d')
      ultimately show ?thesis
        using k j(2) same_identity_rows [OF k(1,2), where d = d']
        by (simp add: job_consistent_def unrecorded_def results_of_def events_of_def d')
    qed
  qed simp_all
  then show ?thesis by (simp add: d'_def)
qed (simp add: ok)

lemma one_hit:
  assumes "distinct (map key xs)" "x \<in> set xs" "P x" "\<And>y. P y \<Longrightarrow> key y = key x"
  shows "filter P xs = [x]"
proof -
  have "set (filter P xs) = {x}" using assms by (auto simp: distinct_map inj_on_def)
  moreover have "distinct (filter P xs)" using assms(1) by (simp add: distinct_map)
  ultimately show ?thesis by (metis distinct_card card.empty card_insert_disjoint empty_iff finite.emptyI length_0_conv length_Suc_conv
    list.set(1) list.set_intros(1) singletonD One_nat_def)
qed

text \<open>The attempts of a job after some of them have ended.\<close>

lemma attempts_updated:
  assumes "\<And>a. a \<in> set (db_attempts d) \<Longrightarrow> hit a \<Longrightarrow> attempt_of_job j (f a) = attempt_of_job j a"
  shows "attempts_of (update_attempts hit f d) j = map (\<lambda>a. if hit a then f a else a) (attempts_of d j)"
  unfolding attempts_of_def update_attempts_parts by (rule filter_update) (rule assms)

lemma filter_ended:
  assumes "\<And>a. hit a \<Longrightarrow> attempt_state a = TRunning \<and> attempt_state (f a) = t" and "t \<noteq> TRunning"
  shows "filter (\<lambda>a. attempt_state a = s) (map (\<lambda>a. if hit a then f a else a) xs) =
    (if s = t then map (\<lambda>a. if hit a then f a else a) (filter (\<lambda>a. attempt_state a = s \<or> hit a) xs)
     else filter (\<lambda>a. attempt_state a = s \<and> \<not> hit a) xs)"
  using assms by (induction xs) auto

lemma end_attempt_parts [simp]:
  "attempt_id (end_attempt s now e st a) = attempt_id a" "attempt_jobId (end_attempt s now e st a) = attempt_jobId a"
  "attempt_workspace (end_attempt s now e st a) = attempt_workspace a" "attempt_state (end_attempt s now e st a) = s"
  by (simp_all add: end_attempt_def)

lemma ids_updated:
  "(\<And>a. attempt_id (f a) = attempt_id a) \<Longrightarrow> map attempt_id (map (\<lambda>a. if hit a then f a else a) xs) = map attempt_id xs"
  by (induction xs) auto

lemma keys_updated:
  "(\<And>a. attempt_key (f a) = attempt_key a) \<Longrightarrow> attempt_key ` set (map (\<lambda>a. if hit a then f a else a) xs) = attempt_key ` set xs"
  by (induction xs) auto

text \<open>Attempts of a job that was running end, and the job takes another state.\<close>

lemma ended_consistent:
  assumes ok: "tables_consistent d" and j: "j \<in> set (db_jobs d)" "job_id j = i" "job_workspace j = ws"
    and hit: "\<And>a. hit a \<Longrightarrow> attempt_jobId a = i \<and> attempt_workspace a = ws \<and> attempt_state a = TRunning"
    and f: "\<And>a. attempt_id (f a) = attempt_id a \<and> attempt_jobId (f a) = attempt_jobId a \<and>
      attempt_workspace (f a) = attempt_workspace a \<and> attempt_state (f a) = t"
    and t: "t \<noteq> TRunning" "t \<noteq> TSucceeded"
    and state: "s' = (if job_state j \<in> set was then s else job_state j)" "s' = JCompleted \<longleftrightarrow> job_state j = JCompleted"
    and count: "case s' of JRunning \<Rightarrow> length (filter (\<lambda>a. \<not> hit a) (attempts_in TRunning d j)) = 1
      | JCancelled \<Rightarrow> True | _ \<Rightarrow> filter (\<lambda>a. \<not> hit a) (attempts_in TRunning d j) = []"
  shows "tables_consistent (update_job ws i was s now (update_attempts hit f d))"
proof (rule consistent_job [OF ok j])
  let ?d = "update_attempts hit f d"
  let ?d' = "update_job ws i was s now ?d"
  have "map attempt_id (db_attempts ?d') = map attempt_id (db_attempts d)" using f by (simp add: ids_updated del: map_map)
  then show "distinct (map attempt_id (db_attempts ?d'))" using ok by (simp add: tables_consistent_def del: map_map)
  have "attempt_key ` set (db_attempts ?d') = attempt_key ` set (db_attempts d)"
    using keys_updated [of f hit "db_attempts d"] f by (simp add: attempt_key_def del: set_map)
  then show "rows_have_jobs ?d'" using ok by (simp add: tables_consistent_def rows_have_jobs_def del: update_attempts_parts(5))
  show "db_jobs ?d' = db_jobs (update_job ws i was s now d)" by (simp add: update_job_def)
  show "same_rows k d ?d'" if "job_id k \<noteq> i" for k
  proof -
    have "attempts_of ?d' k = attempts_of d k"
      using same_rows_attempts [of d hit i f k] that hit f by (simp add: attempts_of_def)
    then show ?thesis by (simp add: same_rows_def results_of_def events_of_def)
  qed
  show "job_consistent ?d' k"
    if k: "job_id k = i" "job_workspace k = ws" "job_state k = (if job_state j \<in> set was then s else job_state j)" for k
  proof -
    have before: "job_consistent d j" using ok j(1) by (simp add: tables_consistent_def)
    have kj: "job_id k = job_id j" "job_workspace k = job_workspace j" using k j by simp_all
    have "attempts_of ?d' j = map (\<lambda>a. if hit a then f a else a) (attempts_of d j)"
      using attempts_updated [of d hit j f] f by (simp add: attempts_of_def attempt_of_job_def)
    then have at: "attempts_in q ?d' j = (if q = t then map (\<lambda>a. if hit a then f a else a) (filter (\<lambda>a. attempt_state a = q \<or> hit a) (attempts_of d j))
        else filter (\<lambda>a. \<not> hit a) (attempts_in q d j))" for q
      using filter_ended [of hit f t q "attempts_of d j"] hit f t by (simp add: attempts_in_def)
    have succeeded: "attempts_in TSucceeded ?d' j = attempts_in TSucceeded d j"
    proof -
      have "\<not> hit a" if "a \<in> set (attempts_in TSucceeded d j)" for a using that hit by (auto simp: attempts_in_def)
      then show ?thesis using at t by (simp add: filter_id_conv)
    qed
    have running: "attempts_in TRunning ?d' j = filter (\<lambda>a. \<not> hit a) (attempts_in TRunning d j)" using at t by simp
    have rest: "results_of ?d' j = results_of d j" "events_of ?d' j = events_of d j" by (simp_all add: results_of_def events_of_def)
    have "length (attempts_in TRunning d j) \<le> 1"
      using before by (auto simp: job_consistent_def Let_def split: job_state.splits)
    then have "length (filter (\<lambda>a. \<not> hit a) (attempts_in TRunning d j)) \<le> 1" by (rule le_trans [OF length_filter_le])
    moreover have "job_state k = s'" using k(3) state(1) by simp
    ultimately show ?thesis
      using before count state(2) same_identity_rows [OF kj, where d = "?d'"] kj running succeeded rest
      by (auto simp: job_consistent_def recorded_def unrecorded_def Let_def split: job_state.splits)
  qed
qed

lemma fail_consistent:
  assumes ok: "tables_consistent (aw_tables w)" and run: "store_fail E ex outcome stages err w = (r, w')"
  shows "tables_consistent (aw_tables w')"
proof -
  define d where "d = aw_tables w"
  have "tables_consistent (aw_tables w1)" if body: "fail_row E ex outcome stages err w = (Inr u, w1)" for u w1
  proof (cases "\<exists>j. find (execution_job ex) (db_jobs d) = Some j \<and> job_identity j = ex_analysisIdentityId ex")
    case False
    then show ?thesis using body ok by (auto simp: fail_row_def Let_def d_def split: option.splits if_splits)
  next
    case True
    then obtain j where found: "find (execution_job ex) (db_jobs d) = Some j" "job_identity j = ex_analysisIdentityId ex" by blast
    then have j: "j \<in> set (db_jobs d)" "job_id j = ex_analysisJobId ex" "job_workspace j = ex_workspaceId ex"
      using found_in [OF found(1)] by (simp_all add: execution_job_def)
    define t where "t = (if job_state j = JCancelled then AttemptCancelled else outcome)"
    define now where "now = iso_string (en_clock E (aw_outside w))"
    define end_one where "end_one = end_attempt (outcome_attempt t) now (Some err) stages"
    define was where "was = (if length (filter (running_attempt ex) (db_attempts d)) \<noteq> 1 \<or> job_state j \<noteq> JRunning then [] else [JRunning])"
    have d1: "aw_tables w1 = update_job (ex_workspaceId ex) (ex_analysisJobId ex) was (outcome_job t) now
        (update_attempts (running_attempt ex) end_one d)"
      using body found
      by (auto simp: fail_row_def Let_def d_def t_def now_def end_one_def was_def split: if_splits)
    have before: "job_consistent d j" using ok j(1) by (simp add: tables_consistent_def d_def)
    have t: "outcome_attempt t \<noteq> TRunning" "outcome_attempt t \<noteq> TSucceeded" "outcome_job t \<noteq> JCompleted" "outcome_job t \<noteq> JRunning"
      by (cases t; simp)+
    have hits: "a \<in> set (attempts_in TRunning d j)" if "running_attempt ex a" "a \<in> set (db_attempts d)" for a
      using that j by (simp add: attempts_in_def attempts_of_def attempt_of_job_def running_attempt_def)
    have count: "case (if job_state j \<in> set was then outcome_job t else job_state j) of
        JRunning \<Rightarrow> length (filter (\<lambda>a. \<not> running_attempt ex a) (attempts_in TRunning d j)) = 1
      | JCancelled \<Rightarrow> True | _ \<Rightarrow> filter (\<lambda>a. \<not> running_attempt ex a) (attempts_in TRunning d j) = []"
    proof (cases "job_state j = JRunning")
      case False
      then show ?thesis using before by (auto simp: was_def job_consistent_def Let_def split: job_state.splits)
    next
      case True
      then obtain a where a: "attempts_in TRunning d j = [a]"
        using before by (auto simp: job_consistent_def length_Suc_conv)
      show ?thesis
      proof (cases "length (filter (running_attempt ex) (db_attempts d)) = 1")
        case single: True
        then obtain b where "filter (running_attempt ex) (db_attempts d) = [b]" by (auto simp: length_Suc_conv)
        then have "b \<in> set (filter (running_attempt ex) (db_attempts d))" by simp
        then have "running_attempt ex a" using hits [of b] a by auto
        then show ?thesis using a single True by (cases t) (simp_all add: was_def)
      next
        case none: False
        have "\<not> running_attempt ex a"
        proof
          assume "running_attempt ex a"
          moreover have "a \<in> set (db_attempts d)"
          proof -
            have "a \<in> set (attempts_in TRunning d j)" using a by simp
            then show ?thesis by (simp add: attempts_in_def attempts_of_def)
          qed
          ultimately have "filter (running_attempt ex) (db_attempts d) = [a]"
            using ok by (intro one_hit [where key = attempt_id]) (auto simp: tables_consistent_def d_def running_attempt_def)
          then show False using none by simp
        qed
        then show ?thesis using a none True by (simp add: was_def)
      qed
    qed
    show ?thesis unfolding d1
      by (rule ended_consistent [OF _ j _ _ t(1,2) HOL.refl _ count])
        (use ok t in \<open>auto simp: d_def running_attempt_def end_one_def was_def\<close>)
  qed
  then show ?thesis using transaction_tables [of E "fail_row E ex outcome stages err" w r w'] run ok
    by (auto simp: store_fail_def)
qed

lemma cancel_consistent:
  assumes ok: "tables_consistent d"
  shows "tables_consistent (snd (cancel_job ws i now d))"
proof (cases "find (\<lambda>j. job_workspace j = ws \<and> job_id j = i \<and> job_state j \<in> set [JQueued, JRunning]) (db_jobs d)")
  case (Some j)
  then show ?thesis using found_in [OF Some]
    by (simp add: cancel_job_def) (rule ended_consistent [OF ok, where j = j and t = TCancelled and s' = JCancelled],
      auto simp: running_of_def)
qed (simp add: cancel_job_def ok)

lemma cancel_request_consistent:
  assumes ok: "tables_consistent d" and found: "find (\<lambda>j. job_workspace j = ws \<and> job_id j = i) (db_jobs d) = Some j"
    and cancelled: "transition_job j JCancelled t = Inr j'"
  shows "tables_consistent (update_job ws i [JQueued, JRunning] JCancelled now d)"
proof -
  have "tables_consistent (update_job ws i [JQueued, JRunning] JCancelled now (update_attempts (\<lambda>_. False) (end_attempt TCancelled now None []) d))"
    using found_in [OF found] cancelled
    by (intro ended_consistent [OF ok, where j = j and t = TCancelled and s' = JCancelled])
      (auto simp: transition_job_def Let_def split: if_splits)
  then show ?thesis by (simp add: update_attempts_def)
qed

lemma recover_consistent:
  assumes ok: "tables_consistent d"
  shows "tables_consistent (snd (recover_expired_job ws i token clock now d))"
proof (cases "list_ex (expired_attempt ws i token clock) (db_attempts d)")
  case False
  then show ?thesis by (simp add: recover_expired_job_def Let_def ok)
next
  case True
  then obtain a where a: "a \<in> set (db_attempts d)" "expired_attempt ws i token clock a" by (auto simp: list_ex_iff)
  then have ai: "attempt_jobId a = i" "attempt_workspace a = ws" "attempt_state a = TRunning"
    by (simp_all add: expired_attempt_def running_of_def)
  have hit: "expired_attempt ws i token clock b \<Longrightarrow> attempt_jobId b = i \<and> attempt_workspace b = ws \<and> attempt_state b = TRunning" for b
    by (simp add: expired_attempt_def running_of_def)
  let ?f = "\<lambda>a. a\<lparr>attempt_state := TFailed, finishedAt := Some now, aw_error := Some (''operations.leaseExpired'', True), aw_fencingToken := token\<rparr>"
  have d': "snd (recover_expired_job ws i token clock now d) =
      update_job ws i [JRunning] JQueued now (update_attempts (expired_attempt ws i token clock) ?f d)"
    using True by (simp add: recover_expired_job_def Let_def)
  have "attempt_key a \<in> job_key ` set (db_jobs d)" using ok a(1) by (auto simp: tables_consistent_def rows_have_jobs_def)
  then obtain j where j: "j \<in> set (db_jobs d)" "job_id j = i" "job_workspace j = ws"
    using ai by (auto simp: attempt_key_def job_key_def)
  have "a \<in> set (attempts_in TRunning d j)" using a(1) ai j by (simp add: attempts_in_def attempts_of_def attempt_of_job_def)
  moreover have "job_consistent d j" using ok j(1) by (simp add: tables_consistent_def)
  ultimately have states: "job_state j = JRunning \<and> attempts_in TRunning d j = [a] \<or> job_state j = JCancelled"
    by (auto simp: job_consistent_def Let_def length_Suc_conv split: job_state.splits if_splits)
  show ?thesis unfolding d'
  proof (rule ended_consistent [OF ok j hit, where t = TFailed and s' = "if job_state j = JRunning then JQueued else JCancelled"])
    show "case if job_state j = JRunning then JQueued else JCancelled of
        JRunning \<Rightarrow> length (filter (\<lambda>a. \<not> expired_attempt ws i token clock a) (attempts_in TRunning d j)) = 1
      | JCancelled \<Rightarrow> True | _ \<Rightarrow> filter (\<lambda>a. \<not> expired_attempt ws i token clock a) (attempts_in TRunning d j) = []"
      using states a(2) by auto
  qed (use states in auto)
qed

lemma find_none_all: "find P xs = None \<longleftrightarrow> filter P xs = []"
  by (induction xs) auto

text \<open>What a completion writes, when it writes.\<close>

lemma complete_row_writes:
  assumes "complete_row E ex r e w = (Inr u, w1)" and "aw_tables w1 \<noteq> aw_tables w"
  shows "\<exists>j a now. j \<in> set (db_jobs (aw_tables w)) \<and> job_id j = ex_analysisJobId ex \<and> job_workspace j = ex_workspaceId ex \<and>
    job_state j = JRunning \<and> results_of (aw_tables w) j = [] \<and> filter (running_attempt ex) (db_attempts (aw_tables w)) = [a] \<and>
    aw_tables w1 = update_job (ex_workspaceId ex) (ex_analysisJobId ex) [JRunning] JCompleted now
      (update_attempts (running_attempt ex) (end_attempt TSucceeded now None (re_stages r)) (aw_tables w)
         \<lparr>db_results := db_results (aw_tables w) @ [r], db_evidence := db_evidence (aw_tables w) @ evidence_rows E r,
          db_outbox := db_outbox (aw_tables w) @ [e]\<rparr>)"
proof -
  define d where "d = aw_tables w"
  obtain j where found: "find (execution_job ex) (db_jobs d) = Some j"
    using assms(1) by (auto simp: complete_row_def Let_def d_def split: option.splits)
  then have j: "j \<in> set (db_jobs d)" "job_id j = ex_analysisJobId ex" "job_workspace j = ex_workspaceId ex"
    using found_in [OF found] by (simp_all add: execution_job_def)
  have none: "find (result_of_job j) (db_results d) = None"
    using assms found by (auto simp: complete_row_def Let_def d_def split: option.splits if_splits)
  then have "job_state j = JRunning" "length (filter (running_attempt ex) (db_attempts d)) = 1"
    and w1: "aw_tables w1 = update_job (ex_workspaceId ex) (ex_analysisJobId ex) [JRunning] JCompleted (iso_string (en_clock E (aw_outside w)))
      (update_attempts (running_attempt ex) (end_attempt TSucceeded (iso_string (en_clock E (aw_outside w))) None (re_stages r)) d
         \<lparr>db_results := db_results d @ [r], db_evidence := db_evidence d @ evidence_rows E r, db_outbox := db_outbox d @ [e]\<rparr>)"
    using assms found by (auto simp: complete_row_def Let_def d_def update_job_def update_attempts_def split: if_splits)
  then show ?thesis using j none by (auto simp: d_def results_of_def find_none_all length_Suc_conv)
qed

lemma complete_consistent:
  assumes ok: "tables_consistent (aw_tables w)" and run: "store_complete E ex r e w = (res, w')"
  shows "tables_consistent (aw_tables w')"
proof (cases "completes ex r e")
  case False
  then show ?thesis using run ok by (simp add: store_complete_def abind_def throw_when_def)
next
  case match: True
  have "tables_consistent (aw_tables w1)" if body: "complete_row E ex r e w = (Inr u, w1)" for u w1
  proof (cases "aw_tables w1 = aw_tables w")
    case False
    define d where "d = aw_tables w"
    define d' where "d' = aw_tables w1"
    obtain j a now where j: "j \<in> set (db_jobs d)" "job_id j = ex_analysisJobId ex" "job_workspace j = ex_workspaceId ex"
      and state: "job_state j = JRunning" "results_of d j = []" and hit: "filter (running_attempt ex) (db_attempts d) = [a]"
      and d': "d' = update_job (ex_workspaceId ex) (ex_analysisJobId ex) [JRunning] JCompleted now
        (update_attempts (running_attempt ex) (end_attempt TSucceeded now None (re_stages r)) d
           \<lparr>db_results := db_results d @ [r], db_evidence := db_evidence d @ evidence_rows E r, db_outbox := db_outbox d @ [e]\<rparr>)"
      using complete_row_writes [OF body False] unfolding d_def d'_def by blast
    have okd: "tables_consistent d" using ok by (simp add: d_def)
    let ?f = "end_attempt TSucceeded now None (re_stages r)"
    have attempts: "db_attempts d' = map (\<lambda>a. if running_attempt ex a then ?f a else a) (db_attempts d)" by (simp add: d')
    have e: "en_payload e = AnalysisCompleted (job_id j) (re_id r)" "en_workspaceId e = job_workspace j"
      "re_workspaceId r = job_workspace j" "re_analysisJobId r = job_id j" "re_analysisAttemptId r = ex_analysisAttemptId ex"
      using match j by (simp_all add: completes_def)
    have "tables_consistent d'"
    proof (rule consistent_job [OF okd j])
      have "map attempt_id (db_attempts d') = map attempt_id (db_attempts d)" unfolding attempts by (rule ids_updated) simp
      then show "distinct (map attempt_id (db_attempts d'))" using okd by (simp add: tables_consistent_def)
      have "attempt_key ` set (db_attempts d') = attempt_key ` set (db_attempts d)"
        unfolding attempts by (rule keys_updated) (simp add: attempt_key_def)
      moreover have "job_key ` set (db_jobs d') = job_key ` set (db_jobs d)" "job_id ` set (db_jobs d') = job_id ` set (db_jobs d)"
        "db_results d' = db_results d @ [r]" "db_outbox d' = db_outbox d @ [e]" by (simp_all add: d')
      ultimately show "rows_have_jobs d'" using okd j(1) e by (simp add: tables_consistent_def rows_have_jobs_def)
      show "db_jobs d' = db_jobs (update_job (ex_workspaceId ex) (ex_analysisJobId ex) [JRunning] JCompleted now d)"
        by (simp add: d' update_job_def)
      show "same_rows k d d'" if "job_id k \<noteq> ex_analysisJobId ex" for k
      proof -
        have "filter (attempt_of_job k) (db_attempts d') = filter (attempt_of_job k) (db_attempts d)"
          unfolding attempts using that by (intro same_rows_attempts [where i = "ex_analysisJobId ex"]) (simp_all add: running_attempt_def)
        then show ?thesis using that e j
          by (simp add: same_rows_def attempts_of_def results_of_def events_of_def result_of_job_def d')
      qed
      show "job_consistent d' k"
        if k: "job_id k = ex_analysisJobId ex" "job_workspace k = ex_workspaceId ex"
          "job_state k = (if job_state j \<in> set [JRunning] then JCompleted else job_state j)" for k
      proof -
        have before: "attempts_in TSucceeded d j = []" "events_of d j = []" "length (attempts_in TRunning d j) = 1"
          using okd j(1) state by (auto simp: tables_consistent_def job_consistent_def unrecorded_def)
        have a: "a \<in> set (db_attempts d)" "running_attempt ex a" using arg_cong [OF hit, of set] by auto
        then have "a \<in> set (attempts_in TRunning d j)" using j
          by (simp add: attempts_in_def attempts_of_def attempt_of_job_def running_attempt_def)
        then have running: "attempts_in TRunning d j = [a]" using before(3) by (auto simp: length_Suc_conv)
        have "attempts_of d' j = map (\<lambda>a. if running_attempt ex a then ?f a else a) (attempts_of d j)"
          unfolding attempts_of_def attempts by (rule filter_update) (simp add: attempt_of_job_def)
        then have at: "attempts_in q d' j = (if q = TSucceeded
            then map (\<lambda>a. if running_attempt ex a then ?f a else a) (filter (\<lambda>a. attempt_state a = q \<or> running_attempt ex a) (attempts_of d j))
            else filter (\<lambda>a. \<not> running_attempt ex a) (attempts_in q d j))" for q
          using filter_ended [of "running_attempt ex" ?f TSucceeded q "attempts_of d j"] by (simp add: attempts_in_def running_attempt_def)
        have "filter (running_attempt ex) (attempts_of d j) = [a]"
        proof (rule one_hit [where key = attempt_id])
          show "distinct (map attempt_id (attempts_of d j))"
            using okd by (simp add: tables_consistent_def attempts_of_def distinct_map_filter)
          show "a \<in> set (attempts_of d j)" using a j by (simp add: attempts_of_def attempt_of_job_def running_attempt_def)
        qed (use a in \<open>simp_all add: running_attempt_def\<close>)
        moreover have "filter (\<lambda>a. attempt_state a = TSucceeded \<or> running_attempt ex a) (attempts_of d j) =
            filter (running_attempt ex) (attempts_of d j)"
          using before(1) by (intro filter_cong) (auto simp: attempts_in_def filter_empty_conv)
        ultimately have "filter (\<lambda>a. attempt_state a = TSucceeded \<or> running_attempt ex a) (attempts_of d j) = [a]" by simp
        then have succeeded: "attempts_in TSucceeded d' j = [?f a]" using at a by simp
        have none: "attempts_in TRunning d' j = []" using at running a by simp
        have rest: "results_of d' j = [r]" "events_of d' j = [e]"
          using state(2) before(2) e by (simp_all add: results_of_def events_of_def result_of_job_def d')
        show ?thesis
          using k state(1) same_identity_rows [where k = k and j = j and d = d'] j succeeded none rest e a
          by (simp add: job_consistent_def recorded_def running_attempt_def)
      qed
    qed
    then show ?thesis by (simp add: d'_def)
  qed (simp add: ok)
  then show ?thesis using transaction_tables [of E "complete_row E ex r e" w res w'] run ok match
    by (auto simp: store_complete_def abind_def throw_when_def)
qed

lemma new_job_consistent:
  assumes ok: "tables_consistent d" and fresh: "job_id k \<notin> job_id ` set (db_jobs d)" and queued: "job_state k = JQueued"
  shows "tables_consistent (d\<lparr>db_jobs := db_jobs d @ [k]\<rparr>)"
proof -
  let ?d = "d\<lparr>db_jobs := db_jobs d @ [k]\<rparr>"
  have same: "same_rows j d ?d" for j by (simp add: same_rows_def attempts_of_def results_of_def events_of_def)
  have rows: "rows_have_jobs d" using ok by (simp add: tables_consistent_def)
  have "attempt_key a \<noteq> job_key k" if "a \<in> set (db_attempts d)" for a
  proof
    assume "attempt_key a = job_key k"
    then have "job_key k \<in> job_key ` set (db_jobs d)" using rows that by (metis rows_have_jobs_def image_subset_iff)
    then show False using fresh by (auto simp: job_key_def)
  qed
  then have "attempts_of d k = []" by (auto simp: attempts_of_def filter_empty_conv attempt_of_job_def attempt_key_def job_key_def)
  moreover have "re_analysisJobId r \<noteq> job_id k" if "r \<in> set (db_results d)" for r
    using rows fresh that by (metis rows_have_jobs_def)
  then have "results_of d k = []" by (simp add: results_of_def filter_empty_conv result_of_job_def)
  moreover have "\<not> event_of_job k e" if "e \<in> set (db_outbox d)" for e
    using rows fresh that by (auto simp: rows_have_jobs_def)
  then have "events_of d k = []" by (simp add: events_of_def filter_empty_conv)
  ultimately have "job_consistent ?d k"
    using queued same [of k] by (simp add: job_consistent_def unrecorded_def attempts_in_def same_rows_def)
  then show ?thesis using ok fresh same_rows_consistent [OF same] rows
    by (auto simp: tables_consistent_def rows_have_jobs_def)
qed

lemma retry_consistent:
  assumes "tables_consistent d"
  shows "tables_consistent (snd (retry_dead_letter ws i replacement now d))"
proof (cases "snd (retry_dead_letter ws i replacement now d) = d")
  case False
  then obtain j where found: "find (\<lambda>j. job_workspace j = ws \<and> job_id j = i \<and> job_state j = JFailed) (db_jobs d) = Some j"
    by (auto simp: retry_dead_letter_def split: option.splits)
  define k where "k = \<lparr>job_id = replacement, job_workspace = ws, job_identity = job_identity j,
    runOrdinal = next_run ws (job_identity j) (db_jobs d), job_state = JQueued, job_createdAt = now, job_updatedAt = now\<rparr>"
  have "\<not> list_ex (\<lambda>x. job_id x = replacement) (db_jobs d)" "snd (retry_dead_letter ws i replacement now d) = d\<lparr>db_jobs := db_jobs d @ [k]\<rparr>"
    using False found by (auto simp: retry_dead_letter_def Let_def k_def split: if_splits)
  then show ?thesis using new_job_consistent [OF assms, of k] by (auto simp: list_ex_iff k_def)
qed (simp add: assms)

lemma step_consistent:
  assumes "store_step E w w'" and "tables_consistent (aw_tables w)"
  shows "tables_consistent (aw_tables w')"
  using assms
proof cases
  case (requested j)
  then show ?thesis using new_job_consistent assms(2) by simp
next
  case (appended e)
  let ?d = "(aw_tables w)\<lparr>db_outbox := db_outbox (aw_tables w) @ [e]\<rparr>"
  have "same_rows j (aw_tables w) ?d" for j using appended(2) by (simp add: same_rows_def attempts_of_def results_of_def events_of_def)
  then have "job_consistent ?d j" if "j \<in> set (db_jobs (aw_tables w))" for j
    using that assms(2) same_rows_consistent by (metis tables_consistent_def)
  then show ?thesis using appended assms(2) by (auto simp: tables_consistent_def rows_have_jobs_def)
next
  case (claimed command r)
  then show ?thesis using claim_consistent [OF assms(2)] by blast
next
  case (completed ex result event r)
  then show ?thesis using complete_consistent [OF assms(2)] by blast
next
  case (failed ex outcome stages err r)
  then show ?thesis using fail_consistent [OF assms(2)] by blast
next
  case (cancel_requested ws i j now j')
  then show ?thesis using cancel_request_consistent [OF assms(2)] by simp
qed (use assms(2) in \<open>simp_all add: cancel_consistent recover_consistent retry_consistent\<close>)

lemma steps_consistent: "store_steps E u w \<Longrightarrow> tables_consistent (aw_tables u) \<Longrightarrow> tables_consistent (aw_tables w)"
  by (induction rule: store_steps.induct) (auto intro: step_consistent)

lemma empty_consistent: "tables_consistent empty_tables"
  by (simp add: tables_consistent_def rows_have_jobs_def empty_tables_def)

section \<open>Completed jobs are final\<close>

text \<open>What is kept: results, and the jobs that are completed.\<close>

definition keeps :: "analysis_tables \<Rightarrow> analysis_tables \<Rightarrow> bool" where
  "keeps d d' \<longleftrightarrow> set (db_results d) \<subseteq> set (db_results d') \<and>
     (\<forall>j \<in> set (db_jobs d). job_state j = JCompleted \<longrightarrow> j \<in> set (db_jobs d'))"

lemma keeps_refl: "keeps d d" by (simp add: keeps_def)

lemma keeps_trans: "keeps d d' \<Longrightarrow> keeps d' d'' \<Longrightarrow> keeps d d''"
  by (auto simp: keeps_def)

lemma keeps_updated:
  assumes "JCompleted \<notin> set was" and "set (db_results d) \<subseteq> set (db_results d')"
    and "db_jobs d' = db_jobs (update_job ws i was s now d)"
  shows "keeps d d'"
  unfolding keeps_def
proof (intro conjI ballI impI)
  show "j \<in> set (db_jobs d')" if "j \<in> set (db_jobs d)" "job_state j = JCompleted" for j
    unfolding assms(3) in_updated_jobs using that assms(1) by (intro bexI [of _ j]) auto
qed (rule assms(2))

lemma keeps_update: "JCompleted \<notin> set was \<Longrightarrow> keeps d (update_job ws i was s now (update_attempts hit f d))"
  by (rule keeps_updated [where was = was and s = s and now = now and ws = ws and i = i]) (simp_all add: update_job_def)

lemma keeps_attempts: "keeps d (update_attempts hit f d)"
  by (simp add: keeps_def)

lemma fail_row_keeps: "fail_row E ex outcome stages err w = (r, w1) \<Longrightarrow> keeps (aw_tables w) (aw_tables w1)"
  unfolding fail_row_def Let_def by (auto simp: keeps_refl keeps_attempts keeps_update split: option.splits if_splits)

lemma keeps_append: "keeps d (d\<lparr>db_jobs := db_jobs d @ [k]\<rparr>)" "keeps d (d\<lparr>db_outbox := db_outbox d @ [e]\<rparr>)"
  by (simp_all add: keeps_def)

lemma store_step_keeps:
  assumes "store_step E w w'"
  shows "keeps (aw_tables w) (aw_tables w')"
  using assms
proof cases
  case (claimed command r)
  from claim_tables [OF claimed] show ?thesis
  proof
    assume "\<exists>j id w1. j \<in> set (db_jobs (aw_tables w)) \<and> job_state j = JQueued \<and>
      start_attempt_row E j w = (Inr id, w1) \<and> aw_tables w' = aw_tables w1"
    then obtain j id w1 where "start_attempt_row E j w = (Inr id, w1)" "aw_tables w' = aw_tables w1" by blast
    then show ?thesis
      by (intro keeps_updated [where was = "[JQueued]" and s = JRunning and ws = "job_workspace j" and i = "job_id j"
            and now = "iso_string (en_clock E (aw_outside w))"])
        (auto simp: start_attempt_row_def Let_def split: if_splits)
  qed (simp add: keeps_refl)
next
  case (completed ex result event r)
  have "keeps (aw_tables w) (aw_tables w1)" if row: "complete_row E ex result event w = (Inr u, w1)" for u w1
  proof (cases "aw_tables w1 = aw_tables w")
    case False
    then obtain now where "aw_tables w1 = update_job (ex_workspaceId ex) (ex_analysisJobId ex) [JRunning] JCompleted now
      (update_attempts (running_attempt ex) (end_attempt TSucceeded now None (re_stages result)) (aw_tables w)
         \<lparr>db_results := db_results (aw_tables w) @ [result], db_evidence := db_evidence (aw_tables w) @ evidence_rows E result,
          db_outbox := db_outbox (aw_tables w) @ [event]\<rparr>)"
      using complete_row_writes [OF row] by blast
    then show ?thesis
      by (intro keeps_updated [where was = "[JRunning]" and s = JCompleted and ws = "ex_workspaceId ex" and i = "ex_analysisJobId ex"
            and now = now]) (auto simp: update_job_def)
  qed (simp add: keeps_refl)
  then show ?thesis using completed transaction_tables [of E "complete_row E ex result event" w r w'] keeps_refl
    by (auto simp: store_complete_def abind_def throw_when_def split: if_splits)
next
  case (failed ex outcome stages err r)
  then show ?thesis using transaction_tables [of E "fail_row E ex outcome stages err" w r w'] keeps_refl
      fail_row_keeps [of E ex outcome stages err w]
    by (auto simp: store_fail_def)
next
  case (cancelled ws i now)
  then show ?thesis by (simp add: cancel_job_def keeps_refl keeps_update split: option.splits)
next
  case (cancel_requested ws i j now j')
  then show ?thesis by (simp add: keeps_updated [where was = "[JQueued, JRunning]" and s = JCancelled and ws = ws and i = i and now = now])
next
  case (recovered ws i token clock now)
  then show ?thesis by (simp add: recover_expired_job_def Let_def keeps_refl keeps_update)
next
  case (retried ws i replacement now)
  then show ?thesis by (simp add: retry_dead_letter_def Let_def keeps_refl keeps_append split: option.splits)
qed (simp_all add: keeps_refl keeps_append)

lemma steps_keep: "store_steps E u w \<Longrightarrow> keeps (aw_tables u) (aw_tables w)"
  by (induction rule: store_steps.induct) (auto intro: keeps_refl keeps_trans store_step_keeps)

end
