(* ===== verification/Analysis_Properties.thy ===== *)
theory Analysis_Properties
  imports Analysis_History
begin

text \<open>
  What a run of the orchestrator leaves behind: the contract of its store (a locale over a view of the claimed attempt),
  the stages it records, the result it stores, and the same for the PostgreSQL store, which provides the contract.
\<close>

section \<open>Steps of a run\<close>

lemma wp_on_world [wp_rules]: "wp (on_world m) Q s \<longleftrightarrow> wp m (\<lambda>r w. Q r (s\<lparr>ru_world := w\<rparr>)) (ru_world s)"
  by (auto simp: wp_def on_world_def split: prod.splits)

lemma wp_push_stage [wp_rules]: "wp (push_stage st) Q s \<longleftrightarrow> Q (Inr ()) (s\<lparr>ru_stages := ru_stages s @ [st]\<rparr>)"
  by (simp add: push_stage_def wp_rules)

lemma wp_push_operations [wp_rules]: "wp (push_operations ops) Q s \<longleftrightarrow> Q (Inr ()) (s\<lparr>ru_operations := ru_operations s @ ops\<rparr>)"
  by (simp add: push_operations_def wp_rules)

lemma wp_checked [wp_rules]: "wp (checked x) Q s \<longleftrightarrow> (\<forall>e. x = Inl e \<longrightarrow> Q (Inl e) s) \<and> (\<forall>a. x = Inr a \<longrightarrow> Q (Inr a) s)"
  by (simp add: checked_def wp_rules)

lemma wp_throw_if_aborted [wp_rules]:
  "wp (throw_if_aborted P) Q s \<longleftrightarrow> (if ao_aborted P (ru_world s) then Q (Inl cancelled_error) s else Q (Inr ()) s)"
  by (simp add: throw_if_aborted_def wp_rules)

section \<open>Evidence\<close>

lemma parse_evidence_ok [simp]: "parse_evidence F e = Inr e' \<longleftrightarrow> e' = e \<and> valid_evidence F e"
  by (auto simp: parse_evidence_def)

lemma validate_evidence_from:
  "rfold (add_evidence F) parsed evidence = Inr out \<longleftrightarrow> out = parsed @ evidence \<and> list_all (valid_evidence F) evidence \<and>
     distinct (map ev_id evidence) \<and> set (map ev_id parsed) \<inter> set (map ev_id evidence) = {}"
proof (induction evidence arbitrary: parsed)
  case (Cons e es)
  then show ?case by (auto simp: add_evidence_def result_simps)
qed auto

lemma validate_evidence_iff:
  "validate_evidence F evidence = Inr out \<longleftrightarrow> out = evidence \<and> list_all (valid_evidence F) evidence \<and> distinct (map ev_id evidence)"
  by (simp add: validate_evidence_def validate_evidence_from)

text \<open>A result that has been stored is sound.\<close>

definition stage_policy_of :: "analysis_profile \<Rightarrow> stage_name \<Rightarrow> stage_policy option" where
  "stage_policy_of p stage = (case stage of
      AttachmentsStage \<Rightarrow> Some (an_attachments p) | RetrievalStage \<Rightarrow> Some (rt_policy (an_retrieval p))
    | RepositoryStage \<Rightarrow> Some (ry_policy (an_repository p)) | _ \<Rightarrow> None)"

definition stage_met :: "stage_name \<Rightarrow> stage_policy option \<Rightarrow> stage_status \<Rightarrow> bool" where
  "stage_met stage policy st \<longleftrightarrow> ss_stage st = stage \<and> ss_policy st = policy \<and>
     (ss_error st = None \<longleftrightarrow> ss_outcome st \<noteq> StageFailed) \<and>
     (ss_outcome st = StageSkipped \<longleftrightarrow> policy = Some DisabledPolicy) \<and>
     (ss_outcome st = StageFailed \<longrightarrow> policy = Some OptionalPolicy)"

definition all_stages :: "stage_name list" where
  "all_stages = [AttachmentsStage, RetrievalStage, RepositoryStage, PromptStage, GenerationStage, ValidationStage]"

definition stages_met :: "analysis_profile \<Rightarrow> stage_name list \<Rightarrow> stage_status list \<Rightarrow> bool" where
  "stages_met p names stages \<longleftrightarrow> list_all2 (\<lambda>n st. stage_met n (stage_policy_of p n) st) names stages"

definition exchanges_ok :: "'w analysis_ports \<Rightarrow> analysis_execution \<Rightarrow> prompt_exchange list \<Rightarrow> bool" where
  "exchanges_ok P ex xs \<longleftrightarrow> xs \<noteq> [] \<and> int (length xs) \<le> int_of (an_repairAttempts (ex_profile ex)) + 1 \<and> length xs \<le> 4 \<and>
     (\<forall>x \<in> set xs. xc_modelOutputHash x = ao_sha256 P (xc_modelOutput x))"

definition sound_result :: "'w analysis_ports \<Rightarrow> analysis_execution \<Rightarrow> analysis_result \<Rightarrow> bool" where
  "sound_result P ex r \<longleftrightarrow> stages_met (ex_profile ex) all_stages (re_stages r) \<and>
     list_all (valid_evidence (ao_formats P)) (re_evidence r) \<and> distinct (map ev_id (re_evidence r)) \<and>
     set (re_selectedEvidenceHashes r) = to_lower ` ev_contentHash ` set (re_evidence r) \<and>
     valid_analysis (re_output r) \<and>
     set (map er_id (co_evidence (re_output r))) \<union> set (claim_references (re_output r)) \<subseteq> set (map ev_id (re_evidence r)) \<and>
     exchanges_ok P ex (re_exchanges r) \<and>
     parse_case_analysis_output (ao_parse P) (JsText (xc_modelOutput (last (re_exchanges r)))) = Inr (re_output r)"

text \<open>The event of a completion names the job of the command and the result.\<close>

lemma created_event:
  assumes "create_envelope date (envelope_value (completed_event command i t rid)) = Inr e"
  shows "en_workspaceId e = en_workspaceId command \<and> en_payload e = AnalysisCompleted (commanded_job (en_payload command)) rid"
proof -
  let ?c = "completed_event command i t rid"
  let ?es = "[(''id'', JsText i), (''kind'', JsText ''domainEvent''), (''type'', JsText (type_name AnalysisCompletedV1)),
       (''schemaVersion'', JsNumber (Some ''1'')), (''workspaceId'', JsText (en_workspaceId command)), (''occurredAt'', JsText t),
       (''correlationId'', JsText (en_correlationId command)), (''causationId'', JsText (en_id command)),
       (''payload'', JsObject [(''analysisJobId'', JsText (commanded_job (en_payload command))), (''analysisResultId'', JsText rid)])]"
  obtain t' where t': "type_name t' = type_name AnalysisCompletedV1" "envelope_fields date ?es t' = Inr e"
    using assms by (auto simp: create_envelope_def parse_envelope_iff envelope_value_def completed_event_def Let_def required_kind_def
      optional_property_def)
  have "t' = AnalysisCompletedV1" using t'(1) by (simp add: type_name_inj del: type_name.simps)
  then show ?thesis using t'(2)
    by (auto simp: envelope_fields_def rbind_Inr_iff read_id_iff parse_payload_def property_def)
qed

section \<open>The contract of the store\<close>

text \<open>What can be seen of a claimed attempt.\<close>

datatype attempt_view =
    AttemptOpen
  | AttemptSucceeded analysis_result envelope
  | AttemptEnded attempt_outcome "stage_status list" "string \<times> bool"
  | AttemptGone

definition for_command :: "envelope \<Rightarrow> analysis_execution \<Rightarrow> bool" where
  "for_command command ex \<longleftrightarrow> en_workspaceId command = ex_workspaceId ex \<and> commanded_job (en_payload command) = ex_analysisJobId ex"

text \<open>What a run leaves behind: a stored sound result, or a recorded failure unless the store itself failed.\<close>

definition run_recorded ::
  "'w analysis_ports \<Rightarrow> analysis_execution \<Rightarrow> analysis_error \<Rightarrow> (analysis_error, execution_outcome) result \<Rightarrow> attempt_view \<Rightarrow> bool" where
  "run_recorded P ex fault r v \<longleftrightarrow> (case r of
      Inr outcome \<Rightarrow> \<exists>res e. v = AttemptSucceeded res e \<and> outcome = RunCompleted (re_id res) \<and> sound_result P ex res
    | Inl err \<Rightarrow> (v = AttemptOpen \<and> err = fault) \<or>
        (\<exists>out st d. v = AttemptEnded out st d \<and> (d = error_details err \<or> err = fault) \<and>
           (fst d = ''analysis.cancelled'' \<longrightarrow> out = AttemptCancelled)) \<or>
        (\<exists>res e. v = AttemptSucceeded res e \<and> sound_result P ex res))"

locale analysis_store =
  fixes P :: "'w analysis_ports" and view :: "analysis_execution \<Rightarrow> 'w \<Rightarrow> attempt_view" and fault :: analysis_error
  assumes attachments_quiet: "view x (snd (ao_attachments P ex w)) = view x w"
    and retrieve_quiet: "view x (snd (ao_retrieve P ex c w)) = view x w"
    and investigate_quiet: "view x (snd (ao_investigate P ex i w)) = view x w"
    and counter_quiet: "view x (snd (ao_counter P ex w)) = view x w"
    and generate_quiet: "view x (snd (ao_generate P g w)) = view x w"
    and next_quiet: "view x (snd (ao_next P k w)) = view x w"
    and now_quiet: "view x (snd (ao_now P w)) = view x w"
    and complete_open: "view ex w = AttemptOpen \<Longrightarrow> completes ex r e \<Longrightarrow> ao_complete P ex r e w = (res, w') \<Longrightarrow>
      view ex w' = AttemptSucceeded r e \<or> is_ok res = False \<and> view ex w' = AttemptOpen"
    and fail_open: "view ex w = AttemptOpen \<Longrightarrow> ao_fail P ex out st err w = (res, w') \<Longrightarrow>
      (res = Inr () \<or> res = Inl fault) \<and> (view ex w' = AttemptEnded out st err \<or> res = Inl fault \<and> view ex w' = AttemptOpen)"
    and fail_succeeded: "view ex w = AttemptSucceeded r e \<Longrightarrow> ao_fail P ex out st err w = (res, w') \<Longrightarrow>
      view ex w' = AttemptSucceeded r e"
begin

lemmas ports_quiet = attachments_quiet retrieve_quiet investigate_quiet counter_quiet generate_quiet next_quiet now_quiet

text \<open>A port other than those of the store.\<close>

definition quiet :: "('w, analysis_error, 'a) effect \<Rightarrow> bool" where
  "quiet m \<longleftrightarrow> (\<forall>x w. view x (snd (m w)) = view x w)"

lemma quiet_ports:
  "quiet (ao_attachments P ex)" "quiet (ao_retrieve P ex c)" "quiet (ao_investigate P ex i)" "quiet (ao_counter P ex)"
  "quiet (ao_generate P g)" "quiet (ao_next P k)" "quiet (ao_now P)"
  by (simp_all add: quiet_def ports_quiet)

lemma wp_quiet: "quiet m \<Longrightarrow> (\<And>r w'. view x w' = view x w \<Longrightarrow> Q r w') \<Longrightarrow> wp m Q w"
  by (simp add: wp_def quiet_def)

text \<open>The attempt looks as before, and so do the recorded stages.\<close>

definition same :: "analysis_execution \<Rightarrow> 'w run_state \<Rightarrow> 'w run_state \<Rightarrow> bool" where
  "same x s t \<longleftrightarrow> view x (ru_world t) = view x (ru_world s) \<and> ru_stages t = ru_stages s"

lemma wp_quiet_port:
  assumes "quiet m" and "\<And>r t. same x s t \<Longrightarrow> ru_operations t = ru_operations s \<Longrightarrow> Q r t"
  shows "wp (on_world m) Q s"
  unfolding wp_on_world by (rule wp_quiet [OF assms(1), where x = x]) (rule assms(2), simp_all add: same_def)

lemma same_refl [simp]: "same x s s"
  by (simp add: same_def)

lemma same_trans: "same x s t \<Longrightarrow> same x t u \<Longrightarrow> same x s u"
  by (simp add: same_def)

text \<open>A step that leaves attempt and stages alone, with a property of its value.\<close>

definition calm :: "('w, 'a) run \<Rightarrow> ('a \<Rightarrow> bool) \<Rightarrow> bool" where
  "calm m G \<longleftrightarrow> (\<forall>x s. wp m (\<lambda>r t. same x s t \<and> (\<forall>a. r = Inr a \<longrightarrow> G a)) s)"

lemma calm_bind:
  assumes "calm m F" and "\<And>a. F a \<Longrightarrow> calm (f a) G"
  shows "calm (abind m f) G"
  unfolding calm_def
proof (intro allI)
  fix x s
  have "wp m (\<lambda>r t. same x s t \<and> (\<forall>a. r = Inr a \<longrightarrow> F a)) s" using assms(1) by (simp add: calm_def)
  then show "wp (abind m f) (\<lambda>r t. same x s t \<and> (\<forall>a. r = Inr a \<longrightarrow> G a)) s"
  proof (rule wp_bindI)
    fix a t assume "same x s t \<and> (\<forall>b. Inr a = Inr b \<longrightarrow> F b)"
    then have "same x s t" "wp (f a) (\<lambda>r u. same x t u \<and> (\<forall>a. r = Inr a \<longrightarrow> G a)) t"
      using assms(2) by (simp_all add: calm_def)
    then show "wp (f a) (\<lambda>r t. same x s t \<and> (\<forall>a. r = Inr a \<longrightarrow> G a)) t"
      using same_trans by (elim wp_mono) blast
  qed simp
qed

lemma calm_weaken: "calm m F \<Longrightarrow> (\<And>a. F a \<Longrightarrow> G a) \<Longrightarrow> calm m G"
  unfolding calm_def by (blast intro: wp_mono)

lemma calm_steps:
  "G a \<Longrightarrow> calm (ret a) G" "calm (throw e) G" "calm (throw_if_aborted P) (\<lambda>_. True)"
  "calm (checked x) (\<lambda>a. x = Inr a)" "calm (lift_result h y) (\<lambda>a. y = Inr a)" "calm (throw_when c e) (\<lambda>_. True)"
  "calm (push_operations ops) (\<lambda>_. True)" "calm (reading f) (\<lambda>_. True)"
  by (simp_all add: calm_def wp_rules same_def)

lemma calm_throw_when: "calm (throw_when (\<lambda>_. b) e) (\<lambda>_. \<not> b)"
  by (simp add: calm_def wp_rules)

lemma calm_port: "quiet m \<Longrightarrow> calm (on_world m) (\<lambda>_. True)"
  unfolding calm_def by (blast intro: wp_quiet_port)

section \<open>Stages\<close>

text \<open>Some steps of a run: the attempt looks as before, the stages grow by the given ones, the value has a property.\<close>

definition grows :: "('w, 'a) run \<Rightarrow> analysis_profile \<Rightarrow> stage_name list \<Rightarrow> ('a \<Rightarrow> bool) \<Rightarrow> bool" where
  "grows m p names G \<longleftrightarrow> (\<forall>x s. wp m (\<lambda>r t. view x (ru_world t) = view x (ru_world s) \<and>
     (\<forall>a. r = Inr a \<longrightarrow> G a \<and> (\<exists>sts. ru_stages t = ru_stages s @ sts \<and> stages_met p names sts))) s)"

lemma grows_bind:
  assumes "grows m p names F" and "\<And>a. F a \<Longrightarrow> grows (f a) p names' G"
  shows "grows (abind m f) p (names @ names') G"
  unfolding grows_def
proof (intro allI)
  fix x and s :: "'w run_state"
  have "wp m (\<lambda>r t. view x (ru_world t) = view x (ru_world s) \<and>
     (\<forall>a. r = Inr a \<longrightarrow> F a \<and> (\<exists>sts. ru_stages t = ru_stages s @ sts \<and> stages_met p names sts))) s"
    using assms(1) by (simp add: grows_def)
  then show "wp (abind m f) (\<lambda>r t. view x (ru_world t) = view x (ru_world s) \<and>
     (\<forall>a. r = Inr a \<longrightarrow> G a \<and> (\<exists>sts. ru_stages t = ru_stages s @ sts \<and> stages_met p (names @ names') sts))) s"
  proof (rule wp_bindI)
    fix a and t :: "'w run_state" assume "view x (ru_world t) = view x (ru_world s) \<and>
      (\<forall>b. Inr a = Inr b \<longrightarrow> F b \<and> (\<exists>sts. ru_stages t = ru_stages s @ sts \<and> stages_met p names sts))"
    then obtain sts where t: "view x (ru_world t) = view x (ru_world s)" "ru_stages t = ru_stages s @ sts"
      "stages_met p names sts" and a: "F a" by auto
    have "wp (f a) (\<lambda>r u. view x (ru_world u) = view x (ru_world t) \<and>
      (\<forall>b. r = Inr b \<longrightarrow> G b \<and> (\<exists>sts. ru_stages u = ru_stages t @ sts \<and> stages_met p names' sts))) t"
      using assms(2) [OF a] by (simp add: grows_def)
    then show "wp (f a) (\<lambda>r u. view x (ru_world u) = view x (ru_world s) \<and>
      (\<forall>b. r = Inr b \<longrightarrow> G b \<and> (\<exists>sts. ru_stages u = ru_stages s @ sts \<and> stages_met p (names @ names') sts))) t"
      by (rule wp_mono) (use t in \<open>fastforce simp: stages_met_def intro: list_all2_appendI\<close>)
  qed simp
qed

lemma calm_grows: "calm m G \<Longrightarrow> grows m p [] G"
  unfolding calm_def grows_def same_def by (fastforce intro: wp_mono simp: stages_met_def)

lemma grows_after: "calm m F \<Longrightarrow> (\<And>a. F a \<Longrightarrow> grows (f a) p names G) \<Longrightarrow> grows (abind m f) p names G"
  using grows_bind [OF calm_grows, of m F f p names G] by simp

lemma grows_weaken: "grows m p names F \<Longrightarrow> (\<And>a. F a \<Longrightarrow> G a) \<Longrightarrow> grows m p names G"
  unfolding grows_def by (blast intro: wp_mono)

lemma grows_ret: "G a \<Longrightarrow> grows (ret a) p [] G"
  by (rule calm_grows) (rule calm_steps)

lemma grows_push: "stage_met n (stage_policy_of p n) st \<Longrightarrow> grows (push_stage st) p [n] (\<lambda>_. True)"
  by (simp add: grows_def wp_rules stages_met_def)

lemma grows_entry:
  assumes "stage_policy_of p n = None"
  shows "grows (push_stage (stage_entry n StageCompleted None None)) p [n] (\<lambda>_. True)"
  by (rule grows_push) (simp add: stage_met_def stage_entry_def assms)

lemma run_stage_grows:
  assumes body: "calm body G" and G: "G nothing" and policy: "stage_policy_of p stage = Some policy"
  shows "grows (run_stage stage policy nothing body) p [stage] G"
  unfolding grows_def
proof (intro allI)
  fix x and s :: "'w run_state"
  let ?Q = "\<lambda>r (t :: 'w run_state). view x (ru_world t) = view x (ru_world s) \<and>
    (\<forall>a. r = Inr a \<longrightarrow> G a \<and> (\<exists>sts. ru_stages t = ru_stages s @ sts \<and> stages_met p [stage] sts))"
  show "wp (run_stage stage policy nothing body) ?Q s"
  proof (cases "policy = DisabledPolicy")
    case True
    then show ?thesis using G policy
      by (simp add: run_stage_def wp_rules stages_met_def stage_met_def stage_entry_def)
  next
    case False
    let ?done = "\<lambda>r. abind (push_stage (stage_entry stage StageCompleted (Some policy) None)) (\<lambda>_. ret r)"
    have "wp (abind body ?done) (\<lambda>r t. case r of Inr a \<Rightarrow> ?Q (Inr a) t | Inl e \<Rightarrow> same x s t) s"
    proof (rule wp_bindI)
      show "wp body (\<lambda>r t. same x s t \<and> (\<forall>a. r = Inr a \<longrightarrow> G a)) s" using body by (simp add: calm_def)
      show "wp (?done a) (\<lambda>r t. case r of Inr a \<Rightarrow> ?Q (Inr a) t | Inl e \<Rightarrow> same x s t) t"
        if "same x s t \<and> (\<forall>b. Inr a = Inr b \<longrightarrow> G b)" for a and t :: "'w run_state"
        using that policy False by (simp add: wp_rules same_def stages_met_def stage_met_def stage_entry_def)
    qed simp
    then have "wp (run_stage stage policy nothing body) ?Q s" if "policy \<noteq> DisabledPolicy"
      unfolding run_stage_def if_not_P [OF that]
    proof (rule wp_catchingI)
      fix e :: analysis_error and t :: "'w run_state" assume "case Inl e of Inr a \<Rightarrow> ?Q (Inr a) t | Inl e \<Rightarrow> same x s t"
      then have t: "same x s t" by simp
      show "wp (let failure = contextual_error e in abind
          (push_stage (stage_entry stage StageFailed (Some policy) (Some (error_details failure))))
          (\<lambda>_. if policy = RequiredPolicy then throw failure else ret nothing)) ?Q t"
      proof (cases "policy = RequiredPolicy")
        case True
        then show ?thesis using t by (simp add: Let_def wp_rules same_def)
      next
        case False
        then have "policy = OptionalPolicy" using that by (cases policy) simp_all
        then show ?thesis using t G policy
          by (simp add: Let_def wp_rules same_def stages_met_def stage_met_def stage_entry_def)
      qed
    qed simp
    then show ?thesis using False .
  qed
qed

lemma optional_stage_grows:
  assumes "quiet operation" and "stage_policy_of p stage = Some policy"
  shows "grows (run_optional_stage P stage policy operation) p [stage] (\<lambda>_. True)"
  unfolding run_optional_stage_def
  by (rule run_stage_grows [OF _ _ assms(2)])
    (rule calm_bind [OF calm_steps(3)] calm_bind [OF calm_port [OF assms(1)]] calm_weaken [OF calm_steps(4)] TrueI)+

lemma repository_stage_grows:
  "grows (run_repository_stage P ex p snapshot evidence) p [RepositoryStage] (\<lambda>_. True)"
  unfolding run_repository_stage_def Let_def
  by (rule run_stage_grows)
    (rule calm_bind [OF calm_steps(3)] calm_bind [OF calm_steps(4)] calm_bind [OF calm_port] quiet_ports
      calm_weaken [OF calm_steps(4)] TrueI | simp add: stage_policy_of_def)+

definition gathered :: "analysis_execution \<Rightarrow> analysis_evidence list \<Rightarrow> bool" where
  "gathered ex evidence \<longleftrightarrow> valid_profile (ex_profile ex) \<and> list_all (valid_evidence (ao_formats P)) evidence \<and>
     distinct (map ev_id evidence)"

lemma gather_grows:
  "grows (gather_evidence P ex) (ex_profile ex) [AttachmentsStage, RetrievalStage, RepositoryStage] (\<lambda>(evidence, _). gathered ex evidence)"
proof -
  let ?p = "ex_profile ex" and ?F = "ao_formats P" and ?G = "\<lambda>(evidence, _). gathered ex evidence"
  have last_steps: "grows (abind (checked (validate_evidence ?F all)) (\<lambda>evidence.
      abind (push_operations (ro_operationIds repository)) (\<lambda>_. ret (evidence, repository)))) ?p [] ?G"
    if "valid_profile ?p" for all and repository :: repository_outcome
    by (rule grows_after [OF calm_steps(4)], rule grows_after [OF calm_steps(7)], rule grows_ret)
      (use that in \<open>simp add: gathered_def validate_evidence_iff\<close>)
  have repository: "grows (abind (run_repository_stage P ex ?p (ex_snapshot ex) pre) (\<lambda>repository.
      abind (checked (validate_evidence ?F (pre @ ro_evidence repository))) (\<lambda>evidence.
      abind (push_operations (ro_operationIds repository)) (\<lambda>_. ret (evidence, repository))))) ?p [RepositoryStage] ?G"
    if "valid_profile ?p" for pre
    using grows_bind [OF repository_stage_grows last_steps [OF that]] by simp
  have attachments: "grows (run_optional_stage P AttachmentsStage (an_attachments ?p) (ao_attachments P ex)) ?p [AttachmentsStage] (\<lambda>_. True)"
    by (rule optional_stage_grows [OF quiet_ports(1)]) (simp add: stage_policy_of_def)
  have retrieval: "grows (run_optional_stage P RetrievalStage (rt_policy (an_retrieval ?p))
      (ao_retrieve P ex (retrieval_call_of (ex_snapshot ex) ?p))) ?p [RetrievalStage] (\<lambda>_. True)"
    by (rule optional_stage_grows [OF quiet_ports(2)]) (simp add: stage_policy_of_def)
  show ?thesis unfolding gather_evidence_def Let_def
    apply (rule grows_after [OF calm_throw_when], rule grows_after [OF calm_steps(4)], rule grows_after [OF calm_steps(4)])
    apply (rule grows_bind [OF attachments, where names' = "[RetrievalStage, RepositoryStage]", simplified])
    apply (rule grows_bind [OF retrieval, where names' = "[RepositoryStage]", simplified])
    apply (rule grows_after [OF calm_steps(7)], rule grows_after [OF calm_steps(4)], rule repository)
    apply simp
    done
qed

section \<open>Prompt, output and repair\<close>

definition built_from :: "analysis_evidence list \<Rightarrow> built_prompt \<Rightarrow> bool" where
  "built_from evidence prompt \<longleftrightarrow> set (bp_selectedEvidence prompt) \<subseteq> prompt_item_of ` set evidence \<and>
     bp_selectedEvidenceHashes prompt = map (\<lambda>i. to_lower (pi_contentHash i)) (bp_selectedEvidence prompt)"

lemma build_prompt_from:
  assumes "build_prompt counter sha \<lparr>in_template = t, in_budgets = b, in_context = prompt_context evidence\<rparr> = Inr prompt"
  shows "built_from evidence prompt"
proof -
  have budgets: "valid_budget (b n)" for n using assms by (simp add: build_prompt_ok)
  have "set (bs_selected (build_section counter (b n) items)) \<subseteq> set items" for n items
    using build_section_of [of "b n" counter items] section_of_selected budgets [of n] by (simp add: valid_budget_def)
  then have "set (bs_selected (build_section counter (b n) (prompt_context evidence n))) \<subseteq> prompt_item_of ` set evidence" for n
    by (force simp: prompt_context_def)
  then show ?thesis using assms by (auto simp: build_prompt_ok Let_def built_from_def)
qed

lemma build_stage_grows: "grows (build_stage P ex evidence) (ex_profile ex) [PromptStage] (built_from evidence)"
  unfolding build_stage_def
proof (rule grows_after [OF calm_steps(3)], rule grows_after [OF calm_port [OF quiet_ports(4)]], rule grows_after [OF calm_steps(5)])
  fix u :: unit and counter prompt
  assume "build_prompt counter (ao_sha256 P) \<lparr>in_template = an_template (ex_profile ex), in_budgets = an_budgets (ex_profile ex),
    in_context = prompt_context evidence\<rparr> = Inr prompt"
  then have "built_from evidence prompt" by (rule build_prompt_from)
  then show "grows (abind (push_stage (stage_entry PromptStage StageCompleted None None)) (\<lambda>_. ret prompt))
      (ex_profile ex) [PromptStage] (built_from evidence)"
    using grows_bind [OF grows_entry grows_ret, of "ex_profile ex" PromptStage "built_from evidence" "\<lambda>_. prompt"]
    by (simp add: stage_policy_of_def)
qed

lemma calm_generate: "calm (generate P ex system user p) (\<lambda>_. True)"
  unfolding generate_def by (rule calm_bind [OF calm_steps(3)]) (rule calm_port [OF quiet_ports(5)])

definition accepted :: "analysis_execution \<Rightarrow> string set \<Rightarrow> nat \<Rightarrow> case_analysis \<times> prompt_exchange list \<Rightarrow> bool" where
  "accepted ex ids n v \<longleftrightarrow> (case v of (output, xs) \<Rightarrow> xs \<noteq> [] \<and> length xs \<le> n + 1 \<and>
     (\<forall>x \<in> set xs. xc_modelOutputHash x = ao_sha256 P (xc_modelOutput x)) \<and>
     validated_output P ids (xc_modelOutput (last xs)) = Inr output)"

lemma repair_calm:
  assumes "\<forall>x \<in> set xs. xc_modelOutputHash x = ao_sha256 P (xc_modelOutput x)"
  shows "calm (repair_loop n P ex system p ids user response xs) (accepted ex ids (length xs + n))"
  using assms
proof (induction n arbitrary: user response xs)
  case 0
  show ?case
    by (subst repair_loop.simps)
      (use 0 in \<open>auto simp: Let_def accepted_def exchange_of_def intro!: calm_steps split: sum.splits\<close>)
next
  case (Suc n)
  let ?xs = "xs @ [exchange_of P system user response]"
  have xs: "\<forall>x \<in> set ?xs. xc_modelOutputHash x = ao_sha256 P (xc_modelOutput x)"
    using Suc.prems by (simp add: exchange_of_def)
  have again: "calm (repair_loop n P ex system p ids u v ?xs) (accepted ex ids (length xs + Suc n))" for u v
    using Suc.IH [OF xs] by simp
  have loop: "repair_loop (Suc n) P ex system p ids user response xs = (case validated_output P ids response of
      Inr a \<Rightarrow> ret (a, ?xs)
    | Inl e \<Rightarrow> abind (lift_result prompt_thrown (assert_repair_input_bound response (an_repairCharacters p))) (\<lambda>repairInput.
        abind (generate P ex system (repair_message repairInput) p) (\<lambda>repaired.
        abind (push_operations [gt_operationId repaired]) (\<lambda>_.
          repair_loop n P ex system p ids (repair_message repairInput) (gt_text repaired) ?xs))))"
    by (subst repair_loop.simps) (simp only: Let_def nat.case)
  show ?case
  proof (cases "validated_output P ids response")
    case (Inr a)
    then have "accepted ex ids (length xs + Suc n) (a, ?xs)" using xs by (simp add: accepted_def exchange_of_def)
    then show ?thesis using Inr unfolding loop by (simp add: calm_steps)
  next
    case (Inl e)
    show ?thesis unfolding loop Inl sum.case
      by (rule calm_bind [OF calm_steps(5)] calm_bind [OF calm_generate] calm_bind [OF calm_steps(7)] again)+
  qed
qed

lemma output_stage_grows:
  "grows (output_stage P ex prompt) (ex_profile ex) [GenerationStage, ValidationStage]
     (accepted ex (set (map pi_id (bp_selectedEvidence prompt))) (nat (int_of (an_repairAttempts (ex_profile ex)))))"
proof -
  let ?ids = "set (map pi_id (bp_selectedEvidence prompt))" and ?n = "nat (int_of (an_repairAttempts (ex_profile ex)))"
  let ?p = "ex_profile ex"
  have repair: "calm (validate_or_repair P ex generated (bp_systemMessage prompt) (bp_userMessage prompt) ?p ?ids) (accepted ex ?ids ?n)"
    for generated unfolding validate_or_repair_def using repair_calm [of "[]" ?n] by simp
  have finish: "grows (abind (push_stage (stage_entry ValidationStage StageCompleted None None)) (\<lambda>_. ret v)) ?p [ValidationStage] (accepted ex ?ids ?n)"
    if "accepted ex ?ids ?n v" for v
    using grows_bind [OF grows_entry grows_ret [of "accepted ex ?ids ?n" v], of ?p ValidationStage] that by (simp add: stage_policy_of_def)
  have validate: "grows (abind (push_stage (stage_entry GenerationStage StageCompleted None None)) (\<lambda>_.
      abind (validate_or_repair P ex generated (bp_systemMessage prompt) (bp_userMessage prompt) ?p ?ids) (\<lambda>validated.
      abind (push_stage (stage_entry ValidationStage StageCompleted None None)) (\<lambda>_. ret validated)))) ?p
      ([GenerationStage] @ [ValidationStage]) (accepted ex ?ids ?n)" for generated
    by (rule grows_bind [OF grows_entry]) (simp add: stage_policy_of_def, rule grows_after [OF repair], rule finish)
  show ?thesis unfolding output_stage_def
    by (rule grows_after [OF calm_generate], rule grows_after [OF calm_steps(7)]) (use validate in simp)
qed

section \<open>The run\<close>

lemma result_sound:
  assumes gathered: "gathered ex evidence" and prompt: "built_from evidence prompt"
    and ok: "accepted ex (set (map pi_id (bp_selectedEvidence prompt))) (nat (int_of (an_repairAttempts (ex_profile ex)))) (output', xs)"
    and stages: "stages_met (ex_profile ex) all_stages sts"
  shows "sound_result P ex (result_record ex prompt evidence repository xs output' i t sts ops)"
proof -
  let ?r = "result_record ex prompt evidence repository xs output' i t sts ops"
  let ?ids = "set (map pi_id (bp_selectedEvidence prompt))"
  have evidence: "list_all (valid_evidence (ao_formats P)) evidence" "distinct (map ev_id evidence)"
    and attempts: "int_between 0 3 (an_repairAttempts (ex_profile ex))"
    using gathered by (simp_all add: gathered_def valid_profile_def)
  have kept: "re_evidence ?r = filter (\<lambda>e. ev_id e \<in> ?ids) evidence" by (simp add: result_record_def)
  have selected: "prompt_item_of ` set (re_evidence ?r) = set (bp_selectedEvidence prompt)"
  proof (intro subset_antisym subsetI)
    fix i assume "i \<in> prompt_item_of ` set (re_evidence ?r)"
    then obtain e where e: "e \<in> set evidence" "ev_id e \<in> ?ids" "i = prompt_item_of e" unfolding kept by auto
    then obtain k where k: "k \<in> set (bp_selectedEvidence prompt)" "pi_id k = ev_id e" by auto
    then obtain f where f: "f \<in> set evidence" "k = prompt_item_of f" using prompt by (auto simp: built_from_def)
    then have "f = e" using k(2) e(1) evidence(2) by (auto simp: prompt_item_of_def distinct_map inj_on_def)
    then show "i \<in> set (bp_selectedEvidence prompt)" using k f e by simp
  next
    fix i assume i: "i \<in> set (bp_selectedEvidence prompt)"
    then obtain e where e: "e \<in> set evidence" "i = prompt_item_of e" using prompt by (auto simp: built_from_def)
    then have "pi_id i = ev_id e" by (simp add: prompt_item_of_def)
    then have "ev_id e \<in> ?ids" using i by (metis image_eqI set_map)
    then show "i \<in> prompt_item_of ` set (re_evidence ?r)" unfolding kept using e by simp
  qed
  have "ev_id ` set (re_evidence ?r) = pi_id ` prompt_item_of ` set (re_evidence ?r)" by (simp add: image_image prompt_item_of_def)
  then have ids: "set (map ev_id (re_evidence ?r)) = ?ids" using selected by simp
  have "(\<lambda>i. to_lower (pi_contentHash i)) ` set (bp_selectedEvidence prompt) = to_lower ` ev_contentHash ` set (re_evidence ?r)"
    unfolding selected [symmetric] image_image by (simp add: prompt_item_of_def)
  then have hashes: "set (re_selectedEvidenceHashes ?r) = to_lower ` ev_contentHash ` set (re_evidence ?r)"
    using prompt by (simp add: built_from_def result_record_def)
  obtain a where a: "parse_case_analysis_output (ao_parse P) (JsText (xc_modelOutput (last xs))) = Inr a"
    "validate_analysis_evidence a ?ids = Inr output'"
    using ok by (auto simp: accepted_def validated_output_def rbind_Inr_iff)
  then have out: "a = output'" "valid_analysis output'" "set (map er_id (co_evidence output')) \<subseteq> ?ids"
    "set (claim_references output') \<subseteq> set (map er_id (co_evidence output'))"
    using a(1) by (auto simp: validate_evidence_ok parse_analysis_ok)
  have "exchanges_ok P ex xs" using ok attempts by (auto simp: accepted_def exchanges_ok_def int_between_def)
  then show ?thesis
    unfolding sound_result_def ids
    using stages evidence hashes out a(1)
    by (auto simp: kept list_all_iff distinct_map_filter result_record_def)
qed

text \<open>The state while the body of the run has not stored anything, and once it has tried.\<close>

definition tried :: "analysis_execution \<Rightarrow> (analysis_error, execution_outcome) result \<Rightarrow> 'w run_state \<Rightarrow> bool" where
  "tried ex r t \<longleftrightarrow> (case view ex (ru_world t) of
      AttemptOpen \<Rightarrow> is_ok r = False
    | AttemptSucceeded res e \<Rightarrow> sound_result P ex res \<and> (\<forall>o'. r = Inr o' \<longrightarrow> o' = RunCompleted (re_id res))
    | _ \<Rightarrow> False)"

lemma tried_error: "view ex (ru_world t) = AttemptOpen \<Longrightarrow> tried ex (Inl e) t"
  by (simp add: tried_def)

text \<open>The attempt is open and the recorded stages are the given ones.\<close>

definition ready :: "analysis_execution \<Rightarrow> stage_status list \<Rightarrow> 'w run_state \<Rightarrow> bool" where
  "ready ex sts s \<longleftrightarrow> view ex (ru_world s) = AttemptOpen \<and> ru_stages s = sts"

lemma tried_after:
  assumes "calm m F" and "ready ex sts s" and "\<And>a t. F a \<Longrightarrow> ready ex sts t \<Longrightarrow> wp (f a) (tried ex) t"
  shows "wp (abind m f) (tried ex) s"
proof (rule wp_bindI)
  show "wp m (\<lambda>r t. same ex s t \<and> (\<forall>a. r = Inr a \<longrightarrow> F a)) s" using assms(1) by (simp add: calm_def)
  show "tried ex (Inl e) t" if "same ex s t \<and> (\<forall>a. Inl e = Inr a \<longrightarrow> F a)" for e t
    using that assms(2) by (intro tried_error) (simp add: same_def ready_def)
  show "wp (f a) (tried ex) t" if "same ex s t \<and> (\<forall>b. Inr a = Inr b \<longrightarrow> F b)" for a t
    using that assms(2) by (intro assms(3)) (simp_all add: same_def ready_def)
qed

lemma store_stage_tried:
  assumes sound: "\<And>i t ops. sound_result P ex (result_record ex prompt evidence repository xs output' i t sts ops)"
    and start: "ready ex sts s" and command: "for_command command ex"
  shows "wp (store_stage P command ex prompt evidence repository output' xs) (tried ex) s"
proof -
  have finish: "wp (abind (on_world (ao_complete P ex result event)) (\<lambda>_. ret (RunCompleted i))) (tried ex) u"
    if u: "ready ex sts u" and event: "create_envelope (ao_date P) (envelope_value (completed_event command k t i)) = Inr event"
      and result: "result = result_record ex prompt evidence repository xs output' i t sts ops"
    for k event i t ops result u
  proof -
    have "completes ex result event"
      using created_event [OF event] command by (simp add: completes_def result result_record_def for_command_def)
    then have written: "view ex w' = AttemptSucceeded result event \<or> is_ok res = False \<and> view ex w' = AttemptOpen"
      if "ao_complete P ex result event (ru_world u) = (res, w')" for res w'
      using complete_open [of ex "ru_world u" result event res w'] u that by (simp add: ready_def)
    have "sound_result P ex result" "re_id result = i" using sound by (simp_all add: result result_record_def)
    then have "after (\<lambda>_. ret (RunCompleted i)) (tried ex) res (u\<lparr>ru_world := w'\<rparr>)"
      if "ao_complete P ex result event (ru_world u) = (res, w')" for res w'
      using written [OF that] by (cases res) (auto simp: wp_rules tried_def)
    then show ?thesis unfolding wp_bind wp_on_world by (rule wpI)
  qed
  have record_it: "wp (abind (reading (\<lambda>s. result_record ex prompt evidence repository xs output' i t (ru_stages s) (ru_operations s))) f) (tried ex) u"
    if "ready ex sts u" "wp (f (result_record ex prompt evidence repository xs output' i t sts (ru_operations u))) (tried ex) u" for i t f u
    using that by (simp add: wp_rules ready_def)
  show ?thesis unfolding store_stage_def
    apply (rule tried_after [OF calm_port [OF quiet_ports(6)] start])
    apply (rule tried_after [OF calm_steps(5)], assumption)
    apply (rule tried_after [OF calm_port [OF quiet_ports(7)]], assumption)
    apply (rule record_it, assumption)
    apply (rule tried_after [OF calm_port [OF quiet_ports(6)]], assumption)
    apply (rule tried_after [OF calm_steps(5)], assumption)
    apply (rule finish)
      apply assumption+
    apply (rule HOL.refl)
    done
qed

lemma body_tried:
  assumes start: "ready ex [] s" and command: "for_command command ex"
  shows "wp (run_body P command ex) (tried ex) s"
proof -
  have step: "wp (abind m f) (tried ex) u"
    if m: "grows m (ex_profile ex) names G" and u: "view ex (ru_world u) = AttemptOpen"
      and f: "\<And>a t sts. G a \<Longrightarrow> ready ex (ru_stages u @ sts) t \<Longrightarrow> stages_met (ex_profile ex) names sts \<Longrightarrow> wp (f a) (tried ex) t"
    for m f names G u
  proof (rule wp_bindI)
    show "wp m (\<lambda>r t. view ex (ru_world t) = view ex (ru_world u) \<and>
      (\<forall>a. r = Inr a \<longrightarrow> G a \<and> (\<exists>sts. ru_stages t = ru_stages u @ sts \<and> stages_met (ex_profile ex) names sts))) u"
      using m by (simp add: grows_def)
  qed (use u f in \<open>auto simp: tried_error ready_def\<close>)
  have appended: "stages_met p names sts \<Longrightarrow> stages_met p names' sts' \<Longrightarrow> stages_met p (names @ names') (sts @ sts')" for p names names' sts sts'
    by (simp add: stages_met_def list_all2_appendI)
  show ?thesis unfolding run_body_def
  proof (rule step [OF gather_grows])
    fix v :: "analysis_evidence list \<times> repository_outcome" and t sts
    assume v: "case v of (evidence, _) \<Rightarrow> gathered ex evidence" and t: "ready ex (ru_stages s @ sts) t"
      and sts: "stages_met (ex_profile ex) [AttachmentsStage, RetrievalStage, RepositoryStage] sts"
    obtain evidence repository where [simp]: "v = (evidence, repository)" by (cases v)
    show "wp (case v of (evidence, repository) \<Rightarrow> abind (build_stage P ex evidence) (\<lambda>prompt.
        abind (output_stage P ex prompt) (\<lambda>(output', xs). store_stage P command ex prompt evidence repository output' xs))) (tried ex) t"
      unfolding \<open>v = _\<close> prod.case
    proof (rule step [OF build_stage_grows])
      fix prompt t2 sts2
      assume prompt: "built_from evidence prompt" and t2: "ready ex (ru_stages t @ sts2) t2" and sts2: "stages_met (ex_profile ex) [PromptStage] sts2"
      show "wp (abind (output_stage P ex prompt) (\<lambda>(output', xs). store_stage P command ex prompt evidence repository output' xs)) (tried ex) t2"
      proof (rule step [OF output_stage_grows])
        fix w t3 sts3
        assume w: "accepted ex (set (map pi_id (bp_selectedEvidence prompt))) (nat (int_of (an_repairAttempts (ex_profile ex)))) w"
          and t3: "ready ex (ru_stages t2 @ sts3) t3" and sts3: "stages_met (ex_profile ex) [GenerationStage, ValidationStage] sts3"
        obtain output' xs where [simp]: "w = (output', xs)" by (cases w)
        have stages: "ru_stages t2 @ sts3 = (sts @ sts2) @ sts3" using t t2 start by (simp add: ready_def)
        have "stages_met (ex_profile ex) all_stages ((sts @ sts2) @ sts3)"
          using appended [OF appended [OF sts sts2] sts3] by (simp add: all_stages_def)
        then show "wp (case w of (output', xs) \<Rightarrow> store_stage P command ex prompt evidence repository output' xs) (tried ex) t3"
          using result_sound [OF _ prompt] v w t3 command unfolding stages
          by (simp add: store_stage_tried [where sts = "sts @ sts2 @ sts3"])
      qed (use t2 in \<open>simp add: ready_def\<close>)
    qed (use t in \<open>simp add: ready_def\<close>)
  qed (use start in \<open>simp add: ready_def\<close>)
qed

text \<open>The client's theorem.\<close>

lemma run_claimed_recorded:
  assumes "ready ex [] s" and "for_command command ex"
  shows "wp (run_claimed P command ex) (\<lambda>r t. run_recorded P ex fault r (view ex (ru_world t))) s"
  unfolding run_claimed_def
proof (rule wp_catchingI [OF body_tried [OF assms]])
  show "run_recorded P ex fault (Inr a) (view ex (ru_world t))" if "tried ex (Inr a) t" for a t
    using that by (auto simp: tried_def run_recorded_def split: attempt_view.splits)
  fix e t assume t: "tried ex (Inl e) t"
  show "wp (record_failure P ex e) (\<lambda>r t. run_recorded P ex fault r (view ex (ru_world t))) t"
    unfolding record_failure_def wp_bind [of "reading _"] wp_reading after_simps prod.case wp_bind [of "on_world _"] wp_on_world
  proof (rule wpI)
    fix r w'
    let ?out = "if ao_aborted P (ru_world t) \<or> fst (error_details e) = ''analysis.cancelled'' then AttemptCancelled else AttemptFailed"
    assume run: "ao_fail P ex ?out (ru_stages t) (error_details e) (ru_world t) = (r, w')"
    show "after (\<lambda>_. throw e) (\<lambda>r t. run_recorded P ex fault r (view ex (ru_world t))) r (t\<lparr>ru_world := w'\<rparr>)"
    proof (cases "view ex (ru_world t)")
      case AttemptOpen
      then show ?thesis using fail_open [OF AttemptOpen run]
        by (cases r) (auto simp: wp_rules run_recorded_def simp del: split_paired_Ex)
    next
      case (AttemptSucceeded res event)
      then show ?thesis using fail_succeeded [OF AttemptSucceeded run] t
        by (cases r) (auto simp: wp_rules run_recorded_def tried_def)
    qed (use t in \<open>simp_all add: tried_def\<close>)
  qed
qed

end

section \<open>The PostgreSQL store\<close>

definition own_attempt :: "analysis_execution \<Rightarrow> attempt_row \<Rightarrow> bool" where
  "own_attempt ex a \<longleftrightarrow> attempt_id a = ex_analysisAttemptId ex \<and> attempt_workspace a = ex_workspaceId ex \<and>
     attempt_jobId a = ex_analysisJobId ex"

definition ended_view :: "attempt_outcome \<Rightarrow> attempt_row \<Rightarrow> attempt_view" where
  "ended_view out a = (case aw_error a of None \<Rightarrow> AttemptGone | Some err \<Rightarrow> AttemptEnded out (aw_stages a) err)"

definition rows_view :: "analysis_tables \<Rightarrow> analysis_job \<Rightarrow> attempt_row \<Rightarrow> attempt_view" where
  "rows_view d j a = (case (job_state j, attempt_state a) of
      (JRunning, TRunning) \<Rightarrow> AttemptOpen
    | (JCompleted, TSucceeded) \<Rightarrow> (case (results_of d j, events_of d j) of ([r], [e]) \<Rightarrow> AttemptSucceeded r e | _ \<Rightarrow> AttemptGone)
    | (JFailed, TFailed) \<Rightarrow> ended_view AttemptFailed a
    | (JCancelled, TCancelled) \<Rightarrow> ended_view AttemptCancelled a
    | _ \<Rightarrow> AttemptGone)"

definition tables_view :: "analysis_execution \<Rightarrow> analysis_tables \<Rightarrow> attempt_view" where
  "tables_view ex d = (case (find (execution_job ex) (db_jobs d), find (own_attempt ex) (db_attempts d)) of
      (Some j, Some a) \<Rightarrow> if job_identity j = ex_analysisIdentityId ex \<and> tables_consistent d then rows_view d j a else AttemptGone
    | _ \<Rightarrow> AttemptGone)"

definition world_view :: "analysis_execution \<Rightarrow> 'o analysis_world \<Rightarrow> attempt_view" where
  "world_view ex w = tables_view ex (aw_tables w)"

lemma find_mapped: "(\<And>x. P (g x) = P x) \<Longrightarrow> find P (map g xs) = map_option g (find P xs)"
  by (induction xs) auto

lemma rows_view_open: "rows_view d j a = AttemptOpen \<longleftrightarrow> job_state j = JRunning \<and> attempt_state a = TRunning"
  by (cases "job_state j"; cases "attempt_state a")
    (auto simp: rows_view_def ended_view_def split: list.splits option.splits)

lemma tables_view_open:
  "tables_view ex d = AttemptOpen \<longleftrightarrow> tables_consistent d \<and> (\<exists>j a. find (execution_job ex) (db_jobs d) = Some j \<and>
     find (own_attempt ex) (db_attempts d) = Some a \<and> job_identity j = ex_analysisIdentityId ex \<and>
     job_state j = JRunning \<and> attempt_state a = TRunning)"
  by (auto simp: tables_view_def rows_view_open split: option.splits)

lemma tables_view_succeeded:
  "tables_view ex d = AttemptSucceeded r e \<longleftrightarrow> tables_consistent d \<and> (\<exists>j a. find (execution_job ex) (db_jobs d) = Some j \<and>
     find (own_attempt ex) (db_attempts d) = Some a \<and> job_identity j = ex_analysisIdentityId ex \<and>
     job_state j = JCompleted \<and> attempt_state a = TSucceeded \<and> results_of d j = [r] \<and> events_of d j = [e])"
proof -
  have "rows_view d j a = AttemptSucceeded r e \<longleftrightarrow>
      job_state j = JCompleted \<and> attempt_state a = TSucceeded \<and> results_of d j = [r] \<and> events_of d j = [e]" for j a
    by (cases "job_state j"; cases "attempt_state a")
      (auto simp: rows_view_def ended_view_def split: list.splits option.splits)
  then show ?thesis by (auto simp: tables_view_def split: option.splits)
qed

lemma running_hit:
  assumes ok: "tables_consistent d" and a: "find (own_attempt ex) (db_attempts d) = Some a" "attempt_state a = TRunning"
  shows "filter (running_attempt ex) (db_attempts d) = [a]"
  using ok found_in [OF a(1)] a(2)
  by (intro one_hit [where key = attempt_id]) (auto simp: tables_consistent_def own_attempt_def running_attempt_def)

lemma transaction_result:
  assumes "transaction E body w = (r, w')"
  shows "(aw_tables w' = aw_tables w \<and> is_ok r = False) \<or>
    (\<exists>a w1. body w = (Inr a, w1) \<and> aw_tables w' = aw_tables w1 \<and> (r = Inr a \<or> r = Inl OtherError))"
  using assms by (auto simp: transaction_def set_tables_def split: prod.splits sum.splits commit_answer.splits)

lemma updated_job_found:
  assumes "find (execution_job ex) (db_jobs d) = Some j" and "job_state j \<in> set was"
  shows "find (execution_job ex) (db_jobs (update_job (ex_workspaceId ex) (ex_analysisJobId ex) was s now d)) = Some (set_job_state s now j)"
proof -
  let ?g = "\<lambda>j. if job_id j = ex_analysisJobId ex \<and> job_workspace j = ex_workspaceId ex \<and> job_state j \<in> set was then set_job_state s now j else j"
  have "db_jobs (update_job (ex_workspaceId ex) (ex_analysisJobId ex) was s now d) = map ?g (db_jobs d)" by (simp add: update_job_def)
  moreover have "find (execution_job ex) (map ?g (db_jobs d)) = map_option ?g (find (execution_job ex) (db_jobs d))"
    by (rule find_mapped) (simp add: execution_job_def)
  moreover have "?g j = set_job_state s now j" using found_in [OF assms(1)] assms(2) by (simp add: execution_job_def)
  ultimately show ?thesis using assms(1) by simp
qed

lemma updated_attempt_found:
  assumes "find (own_attempt ex) (db_attempts d) = Some a" and "attempt_state a = TRunning"
  shows "find (own_attempt ex) (db_attempts (update_attempts (running_attempt ex) (end_attempt s now err st) d)) = Some (end_attempt s now err st a)"
proof -
  let ?g = "\<lambda>a. if running_attempt ex a then end_attempt s now err st a else a"
  have "find (own_attempt ex) (map ?g (db_attempts d)) = map_option ?g (find (own_attempt ex) (db_attempts d))"
    by (rule find_mapped) (simp add: own_attempt_def)
  moreover have "running_attempt ex a" using found_in [OF assms(1)] assms(2) by (simp add: own_attempt_def running_attempt_def)
  ultimately show ?thesis using assms(1) by simp
qed

lemma completed_view:
  assumes open_attempt: "world_view ex w = AttemptOpen" and match: "completes ex r e"
    and run: "store_complete E ex r e w = (res, w')"
  shows "world_view ex w' = AttemptSucceeded r e \<or> is_ok res = False \<and> world_view ex w' = AttemptOpen"
proof -
  define d where "d = aw_tables w"
  obtain j a where ok: "tables_consistent d" and j: "find (execution_job ex) (db_jobs d) = Some j" "job_identity j = ex_analysisIdentityId ex"
    "job_state j = JRunning" and a: "find (own_attempt ex) (db_attempts d) = Some a" "attempt_state a = TRunning"
    using open_attempt by (auto simp: world_view_def tables_view_open d_def)
  have found: "j \<in> set (db_jobs d)" "job_id j = ex_analysisJobId ex" "job_workspace j = ex_workspaceId ex"
    using found_in [OF j(1)] by (simp_all add: execution_job_def)
  have none: "results_of d j = []" "events_of d j = []"
    using ok found(1) j(3) by (auto simp: tables_consistent_def job_consistent_def unrecorded_def)
  have "transaction E (complete_row E ex r e) w = (res, w')"
    using run match by (simp add: store_complete_def abind_def throw_when_def)
  from transaction_result [OF this] show ?thesis
  proof
    assume "aw_tables w' = aw_tables w \<and> is_ok res = False"
    then show ?thesis using open_attempt by (simp add: world_view_def)
  next
    assume "\<exists>u w1. complete_row E ex r e w = (Inr u, w1) \<and> aw_tables w' = aw_tables w1 \<and> (res = Inr u \<or> res = Inl OtherError)"
    then obtain u w1 where row: "complete_row E ex r e w = (Inr u, w1)" "aw_tables w' = aw_tables w1" by blast
    define now where "now = iso_string (en_clock E (aw_outside w))"
    have missing: "find (result_of_job j) (db_results d) = None" using none(1) by (simp add: results_of_def find_none_all)
    define d1 where "d1 = update_attempts (running_attempt ex) (end_attempt TSucceeded now None (re_stages r))
      (d\<lparr>db_results := db_results d @ [r], db_evidence := db_evidence d @ evidence_rows E r\<rparr>)"
    define d' where "d' = (update_job (ex_workspaceId ex) (ex_analysisJobId ex) [JRunning] JCompleted now d1)\<lparr>db_outbox := db_outbox d @ [e]\<rparr>"
    have d': "aw_tables w' = d'"
      using row j missing by (auto simp: complete_row_def Let_def d_def d1_def d'_def now_def split: if_splits)
    have "tables_consistent d'" using complete_consistent [OF _ run] ok d' by (simp add: d_def)
    moreover have "find (execution_job ex) (db_jobs d') = Some (set_job_state JCompleted now j)"
      using updated_job_found [of ex d1 j "[JRunning]"] j by (simp add: d'_def d1_def)
    moreover have "find (own_attempt ex) (db_attempts d') = Some (end_attempt TSucceeded now None (re_stages r) a)"
      using updated_attempt_found [of ex "d\<lparr>db_results := db_results d @ [r], db_evidence := db_evidence d @ evidence_rows E r\<rparr>" a] a
      by (simp add: d'_def d1_def del: update_attempts_parts(5))
    moreover have "results_of d' j = [r]" "events_of d' j = [e]"
      using none match found by (simp_all add: d'_def d1_def results_of_def events_of_def completes_def result_of_job_def)
    then have "results_of d' (set_job_state JCompleted now j) = [r]" "events_of d' (set_job_state JCompleted now j) = [e]"
      by (subst same_identity_rows [where j = j], simp_all)+
    ultimately have "tables_view ex d' = AttemptSucceeded r e" using j by (simp add: tables_view_succeeded)
    then show ?thesis by (simp add: world_view_def d')
  qed
qed

lemma failed_view:
  assumes open_attempt: "world_view ex w = AttemptOpen" and run: "store_fail E ex out st err w = (res, w')"
  shows "(res = Inr () \<or> res = Inl OtherError) \<and>
    (world_view ex w' = AttemptEnded out st err \<or> res = Inl OtherError \<and> world_view ex w' = AttemptOpen)"
proof -
  define d where "d = aw_tables w"
  obtain j a where ok: "tables_consistent d" and j: "find (execution_job ex) (db_jobs d) = Some j" "job_identity j = ex_analysisIdentityId ex"
    "job_state j = JRunning" and a: "find (own_attempt ex) (db_attempts d) = Some a" "attempt_state a = TRunning"
    using open_attempt by (auto simp: world_view_def tables_view_open d_def)
  define now where "now = iso_string (en_clock E (aw_outside w))"
  define f where "f = end_attempt (outcome_attempt out) now (Some err) st"
  define d' where "d' = update_job (ex_workspaceId ex) (ex_analysisJobId ex) [JRunning] (outcome_job out) now
    (update_attempts (running_attempt ex) f d)"
  have row: "fail_row E ex out st err w = (Inr (), set_tables d' w)"
    using j running_hit [OF ok a] by (simp add: fail_row_def Let_def d_def d'_def f_def now_def)
  have result: "res = Inr () \<and> aw_tables w' = d' \<or> res = Inl OtherError \<and> (aw_tables w' = d' \<or> aw_tables w' = d)"
    using run row by (auto simp: store_fail_def transaction_def d_def split: prod.splits commit_answer.splits)
  have "aw_tables w' = d' \<Longrightarrow> tables_consistent d'" using fail_consistent [OF _ run] ok by (simp add: d_def)
  moreover have "find (execution_job ex) (db_jobs d') = Some (set_job_state (outcome_job out) now j)"
    using updated_job_found [of ex "update_attempts (running_attempt ex) f d" j "[JRunning]"] j by (simp add: d'_def)
  moreover have "find (own_attempt ex) (db_attempts d') = Some (f a)"
    using updated_attempt_found [OF a, of "outcome_attempt out" now "Some err" st] by (simp add: d'_def f_def del: update_attempts_parts(5))
  moreover have "rows_view d' (set_job_state (outcome_job out) now j) (f a) = AttemptEnded out st err"
    by (cases out) (simp_all add: rows_view_def ended_view_def f_def end_attempt_def)
  ultimately have "aw_tables w' = d' \<Longrightarrow> tables_view ex d' = AttemptEnded out st err" using j by (simp add: tables_view_def)
  then show ?thesis using result open_attempt by (auto simp: world_view_def d_def)
qed

lemma late_failure_view:
  assumes stored: "world_view ex w = AttemptSucceeded r e" and run: "store_fail E ex out st err w = (res, w')"
  shows "world_view ex w' = AttemptSucceeded r e"
proof -
  define d where "d = aw_tables w"
  obtain j a where ok: "tables_consistent d" and j: "find (execution_job ex) (db_jobs d) = Some j" "job_identity j = ex_analysisIdentityId ex"
    "job_state j = JCompleted" using stored by (auto simp: world_view_def tables_view_succeeded d_def)
  have found: "j \<in> set (db_jobs d)" "job_id j = ex_analysisJobId ex" "job_workspace j = ex_workspaceId ex"
    using found_in [OF j(1)] by (simp_all add: execution_job_def)
  have "attempts_in TRunning d j = []" using ok found(1) j(3) by (auto simp: tables_consistent_def job_consistent_def)
  then have "\<not> running_attempt ex a" if "a \<in> set (db_attempts d)" for a
    using that found by (auto simp: attempts_in_def attempts_of_def filter_empty_conv attempt_of_job_def running_attempt_def)
  then have "update_attempts (running_attempt ex) f d = d" for f by (simp add: update_attempts_def map_idI)
  then have "fail_row E ex out st err w = (Inr (), w)" using j by (simp add: fail_row_def Let_def d_def set_tables_def)
  then have "aw_tables w' = d" using run by (auto simp: store_fail_def transaction_def d_def split: prod.splits commit_answer.splits)
  then show ?thesis using stored by (simp add: world_view_def d_def)
qed

interpretation pg_analysis: analysis_store "store_ports E P" world_view OtherError
proof
  fix ex r e w res w' out st err
  assume "world_view ex w = AttemptOpen" "completes ex r e" "ao_complete (store_ports E P) ex r e w = (res, w')"
  then show "world_view ex w' = AttemptSucceeded r e \<or> is_ok res = False \<and> world_view ex w' = AttemptOpen"
    using completed_view by (simp add: store_ports_def)
next
  fix ex out st err w res w'
  assume "world_view ex w = AttemptOpen" "ao_fail (store_ports E P) ex out st err w = (res, w')"
  then show "(res = Inr () \<or> res = Inl OtherError) \<and>
      (world_view ex w' = AttemptEnded out st err \<or> res = Inl OtherError \<and> world_view ex w' = AttemptOpen)"
    using failed_view [of ex w E out st err] by (simp add: store_ports_def)
next
  fix ex r e out st err w res w'
  assume "world_view ex w = AttemptSucceeded r e" "ao_fail (store_ports E P) ex out st err w = (res, w')"
  then show "world_view ex w' = AttemptSucceeded r e"
    using late_failure_view [of ex w r e E out st err] by (simp add: store_ports_def)
qed (simp_all add: store_ports_def outside_def world_view_def split: prod.splits)

section \<open>Execution\<close>

lemma unique_found:
  assumes "distinct (map key xs)" "x \<in> set xs" "Q x" "\<And>y. Q y \<Longrightarrow> key y = key x"
  shows "find Q xs = Some x"
proof -
  have "filter Q xs = [x]" using assms by (rule one_hit)
  moreover have "filter Q xs = x # ys \<Longrightarrow> find Q xs = Some x" for ys by (induction xs) (auto split: if_splits)
  ultimately show ?thesis by blast
qed

lemma claimed_row_open:
  assumes row: "claim_row E j w = (Inr (Claimed ex), w1)" and j: "j \<in> set (db_jobs (aw_tables w))"
    and command: "claimed_job command j" and ok: "tables_consistent (aw_tables w1)"
  shows "world_view ex w1 = AttemptOpen \<and> for_command command ex"
proof -
  define d where "d = aw_tables w"
  obtain attempt snapshot profile run prepared where queued: "job_state j = JQueued"
    and start: "start_attempt_row E j w = (Inr attempt, w1)"
    and ex: "ex = \<lparr>ex_workspaceId = job_workspace j, ex_analysisJobId = job_id j, ex_analysisIdentityId = job_identity j,
        ex_analysisAttemptId = attempt, ex_snapshot = snapshot, ex_profile = profile,
        ex_preparedAttachments = prepared, ex_repositoryRun = run\<rparr>"
    using row by (auto simp: claim_row_def abind_def reading_def ret_def assert_not_aborted_def throw_when_def
      split: prod.splits sum.splits option.splits if_splits)
  define a where "a = new_attempt E (en_clock E (aw_outside w)) j (next_ordinal j (db_attempts d))"
  define now where "now = iso_string (en_clock E (aw_outside w))"
  define d' where "d' = (update_job (job_workspace j) (job_id j) [JQueued] JRunning now d)\<lparr>db_attempts := db_attempts d @ [a]\<rparr>"
  have w1: "aw_tables w1 = d'" "attempt = attempt_id a"
    using start by (auto simp: start_attempt_row_def Let_def d_def a_def d'_def now_def split: if_splits)
  have okd: "distinct (map job_id (db_jobs d'))" "distinct (map attempt_id (db_attempts d'))" "tables_consistent d'"
    using ok w1 by (simp_all add: tables_consistent_def)
  have jobs: "db_jobs d' = db_jobs (update_job (job_workspace j) (job_id j) [JQueued] JRunning now d)" by (simp add: d'_def)
  have "set_job_state JRunning now j \<in> set (db_jobs d')"
    unfolding jobs in_updated_jobs using j queued by (intro bexI [of _ j]) (simp_all add: d_def)
  then have found: "find (execution_job ex) (db_jobs d') = Some (set_job_state JRunning now j)"
    by (rule unique_found [OF okd(1)]) (simp_all add: ex execution_job_def)
  have "a \<in> set (db_attempts d')" by (simp add: d'_def)
  then have "find (own_attempt ex) (db_attempts d') = Some a"
    by (rule unique_found [OF okd(2)]) (simp_all add: ex own_attempt_def w1 a_def new_attempt_def)
  then have "tables_view ex d' = AttemptOpen"
    unfolding tables_view_open using okd(3) found by (simp add: ex a_def new_attempt_def)
  then show ?thesis using command by (simp add: world_view_def w1 for_command_def ex claimed_job_def)
qed

text \<open>A stored result of the commanded job.\<close>

definition stored_for :: "envelope \<Rightarrow> analysis_tables \<Rightarrow> string \<Rightarrow> bool" where
  "stored_for command d i \<longleftrightarrow> (\<exists>j \<in> set (db_jobs d). claimed_job command j \<and> (\<exists>x \<in> set (results_of d j). re_id x = i))"

lemma claim_view:
  assumes ok: "tables_consistent (aw_tables w)" and run: "store_claim E command w = (r, w')"
  shows "(\<exists>ex. (r = Inr (Claimed ex) \<or> r = Inl OtherError) \<and> world_view ex w' = AttemptOpen \<and> for_command command ex) \<or>
    aw_tables w' = aw_tables w \<and> (\<forall>ex. r \<noteq> Inr (Claimed ex)) \<and>
    (\<forall>i. r = Inr (ClaimCompleted i) \<longrightarrow> stored_for command (aw_tables w) i)"
proof (cases "en_aborted E (aw_outside w)")
  case True
  then show ?thesis using run by (auto simp: store_claim_def assert_not_aborted_def abind_def throw_when_def)
next
  case False
  let ?find = "find (\<lambda>j. claimed_job command j \<and> en_joined E j (aw_outside w)) (db_jobs (aw_tables w))"
  define body where "body = abind (reading (\<lambda>w. find (\<lambda>j. claimed_job command j \<and> en_joined E j (aw_outside w)) (db_jobs (aw_tables w))))
    (\<lambda>row. case row of None \<Rightarrow> ret ClaimNotFound | Some j \<Rightarrow> claim_row E j)"
  have trans: "transaction E body w = (r, w')"
    using run False by (simp add: store_claim_def assert_not_aborted_def abind_def throw_when_def body_def)
  have consistent: "tables_consistent (aw_tables w')" using claim_consistent [OF ok run] .
  have unchanged: "aw_tables w1 = aw_tables w" if "claim_row E j w = (Inr a, w1)" "\<forall>ex. a \<noteq> Claimed ex" for j a w1
    using that by (auto simp: claim_row_def abind_def reading_def ret_def assert_not_aborted_def throw_when_def
      split: prod.splits sum.splits option.splits if_splits)
  have reported: "\<exists>x \<in> set (results_of (aw_tables w) j). re_id x = i" if "claim_row E j w = (Inr (ClaimCompleted i), w1)" for j i w1
    using that by (auto simp: claim_row_def abind_def reading_def ret_def assert_not_aborted_def throw_when_def results_of_def
      split: prod.splits sum.splits option.splits if_splits dest!: found_in)
  from transaction_result [OF trans] show ?thesis
  proof
    assume "aw_tables w' = aw_tables w \<and> is_ok r = False"
    then show ?thesis by (cases r) auto
  next
    assume "\<exists>a w1. body w = (Inr a, w1) \<and> aw_tables w' = aw_tables w1 \<and> (r = Inr a \<or> r = Inl OtherError)"
    then obtain a w1 where b: "body w = (Inr a, w1)" "aw_tables w' = aw_tables w1" "r = Inr a \<or> r = Inl OtherError" by blast
    show ?thesis
    proof (cases ?find)
      case None
      then show ?thesis using b by (auto simp: body_def abind_def reading_def ret_def)
    next
      case (Some j)
      then have row: "claim_row E j w = (Inr a, w1)" using b by (simp add: body_def abind_def reading_def)
      have j: "j \<in> set (db_jobs (aw_tables w))" "claimed_job command j" using found_in [OF Some] by simp_all
      show ?thesis
      proof (cases "\<exists>ex. a = Claimed ex")
        case True
        then obtain ex where a: "a = Claimed ex" by blast
        have "world_view ex w1 = AttemptOpen \<and> for_command command ex"
          using claimed_row_open [OF row [unfolded a] j] consistent b(2) by simp
        then show ?thesis using a b by (auto simp: world_view_def)
      next
        case False
        moreover have "stored_for command (aw_tables w) i" if "a = ClaimCompleted i" for i
          using reported [OF row [unfolded that]] j by (auto simp: stored_for_def)
        ultimately show ?thesis using unchanged [OF row] b by auto
      qed
    qed
  qed
qed

end
