(* ===== verification/Analysis_Claims.thy ===== *)
theory Analysis_Claims
  imports Analysis_Properties
begin

text \<open>
  The properties of analysis runs and a small case, profile, store and set of ports on which they are applied: executions
  and their records, the histories of the tables, the evidence of attachments, and what an optional stage can do.
\<close>

section \<open>A small case\<close>

definition sample_digest :: string where
  "sample_digest = replicate 64 CHR ''a''"

definition sample_tools :: request_tools where
  "sample_tools = \<lparr>rq_formats = \<lparr>tf_datetime = (\<lambda>_. True), tf_url = (\<lambda>_. True)\<rparr>, rq_sha256 = (\<lambda>_. sample_digest), rq_collate = (\<le>)\<rparr>"

definition sample_snapshot :: case_snapshot where
  "sample_snapshot = \<lparr>cs_id = ''snapshot-1'', cs_revision = ''r1'', cs_capturedAt = ''2026-01-01T00:00:00Z'', cs_title = ''T'',
     cs_summary = ''S'', cs_contentHash = sample_digest, cs_messages = [], cs_tombstone = None\<rparr>"

definition sample_profile :: "stage_policy \<Rightarrow> analysis_profile" where
  "sample_profile policy = \<lparr>an_id = ''profile'', an_version = ''v1'', an_analysisBindingVersionId = ''binding'',
     an_template = \<lparr>pt_id = ''t'', pt_version = ''1'', pt_systemInstruction = ''I''\<rparr>, an_schemaVersion = schema_version,
     an_budgets = (\<lambda>_. \<lparr>pb_maximumCharacters = Num 5000, pb_maximumTokens = Num 5000\<rparr>),
     an_retrieval = \<lparr>rt_policy = policy, rt_profileId = ''rp'', rt_profileVersion = ''rv'', rt_collectionIds = [''c''],
       rt_maximumQueryCharacters = Num 100\<rparr>,
     an_attachments = DisabledPolicy,
     an_repository = \<lparr>ry_policy = DisabledPolicy, ry_repositoryId = None, ry_repositoryVersionId = None, ry_executionPolicyId = None,
       ry_executionPolicyVersionId = None, ry_repositoryAgentBindingVersionId = None, ry_maximumContextCharacters = Num 100,
       ry_maximumEvidenceCharacters = Num 100\<rparr>,
     an_generation = \<lparr>gs_maximumInputTokens = Num 1000, gs_maximumOutputTokens = Num 1000, gs_timeoutMs = None, gs_currency = ''USD'',
       gs_hard = True, gs_allowUnknownPricing = None\<rparr>,
     an_repairAttempts = Num 1, an_repairCharacters = Num 100\<rparr>"

definition sample_case_analysis :: case_analysis where
  "sample_case_analysis = \<lparr>co_summary = ''s'', co_probableCauses = [], co_investigation = [], co_recommendedActions = [],
     co_evidence = [], co_unansweredQuestions = [], co_confidence = LowConfidence, co_customerSafeSummary = None\<rparr>"

definition sample_environment :: "stage_policy \<Rightarrow> nat analysis_environment" where
  "sample_environment policy = \<lparr>en_aborted = (\<lambda>_. False), en_commit = (\<lambda>o'. (CommitKept, o')), en_clock = (\<lambda>_. 0),
     en_sha256 = (\<lambda>s. s), en_joined = (\<lambda>_ _. True),
     en_material = (\<lambda>_ _. Inr (sample_profile policy, None, None)), en_snapshot = (\<lambda>_ _. Inr sample_snapshot)\<rparr>"

text \<open>The model answers once with text that is no JSON object, then with an analysis; the world counts its calls.\<close>

definition sample_ports :: "nat analysis_ports" where
  "sample_ports = \<lparr>ao_aborted = (\<lambda>_. False), ao_claim = (\<lambda>_. throw OtherError), ao_complete = (\<lambda>_ _ _. throw OtherError),
     ao_fail = (\<lambda>_ _ _ _. throw OtherError), ao_attachments = (\<lambda>_. throw OtherError), ao_retrieve = (\<lambda>_ _. throw OtherError),
     ao_investigate = (\<lambda>_ _. throw OtherError), ao_counter = (\<lambda>_. ret (\<lambda>_. Num 1)),
     ao_generate = (\<lambda>_ n. (Inr \<lparr>gt_text = (if n = 0 then ''x'' else ''{}''), gt_operationId = ''op''\<rparr>, Suc n)),
     ao_next = (\<lambda>k. ret ''id1''), ao_now = ret ''2026-01-01T00:00:00Z'', ao_tools = sample_tools, ao_date = (\<lambda>_. Some 0),
     ao_parse = (\<lambda>s. if s = ''{}'' then Some (analysis_value sample_case_analysis) else None)\<rparr>"

definition sample_job :: analysis_job where
  "sample_job = \<lparr>job_id = ''job1'', job_workspace = ''w1'', job_identity = ''i1'', runOrdinal = 0, job_state = JQueued,
     job_createdAt = ''t'', job_updatedAt = ''t''\<rparr>"

definition sample_command :: envelope where
  "sample_command = \<lparr>en_id = ''e1'', en_workspaceId = ''w1'', en_occurredAt = ''2026-01-01T00:00:00Z'', en_correlationId = ''c1'',
     en_causationId = ''c1'', en_traceContext = None, en_payload = AnalysisExecute ''job1'' ''i1''\<rparr>"

definition sample_world :: "nat analysis_world" where
  "sample_world = \<lparr>aw_tables = empty_tables\<lparr>db_jobs := [sample_job]\<rparr>, aw_outside = 0\<rparr>"

definition sample_execution :: "stage_policy \<Rightarrow> (analysis_error, execution_outcome) result \<times> nat analysis_world" where
  "sample_execution policy = execute_analysis (store_ports (sample_environment policy) sample_ports) sample_command sample_world"

lemma valid_sample_profile: "valid_profile (sample_profile p)"
  by (simp add: valid_profile_def sample_profile_def bounded_text_def valid_template_def section_names_def valid_budget_def
    valid_retrieval_def valid_repository_def pinned_versions_def valid_generation_def int_between_def safe_int_def max_safe_def)
lemma valid_sample_snapshot: "valid_snapshot (rq_formats sample_tools) sample_snapshot"
  by (simp add: sample_tools_def valid_snapshot_def sample_snapshot_def bounded_text_def digest_text_def sample_digest_def list_all_iff hex_char_def is_digit_def)

lemma sample_evidence: "snapshot_evidence (rq_formats sample_tools) sample_snapshot = Inr [summary_evidence sample_snapshot]"
  by (simp add: snapshot_evidence_def parse_evidence_def valid_evidence_def summary_evidence_def sample_snapshot_def sample_tools_def
     bounded_text_def digest_text_def sample_digest_def list_all_iff hex_char_def is_digit_def enumerate_eq_zip)

lemmas sample_store_defs = store_claim_def sample_world_def assert_not_aborted_def abind_def throw_when_def sample_environment_def
  transaction_def reading_def claimed_job_def sample_command_def sample_job_def claim_row_def empty_tables_def ret_def
  start_attempt_row_def Let_def next_ordinal_def new_attempt_def attempt_identifier_def show_int_def update_job_def set_tables_def

lemma claim_sample:
  "\<exists>ex w. store_claim (sample_environment p) sample_command sample_world = (Inr (Claimed ex), w) \<and>
     db_jobs (aw_tables w) = [set_job_state JRunning (iso_string 0) sample_job] \<and>
     ex_snapshot ex = sample_snapshot \<and> ex_profile ex = sample_profile p"
  by (simp add: sample_store_defs)

lemma sample_consistent: "tables_consistent (aw_tables sample_world)"
  using new_job_consistent [OF empty_consistent, of sample_job] by (simp add: sample_world_def empty_tables_def sample_job_def)

lemma run_sample:
  assumes "ex_snapshot ex = sample_snapshot" "ex_profile ex = sample_profile RequiredPolicy"
  shows "fst (run_body (store_ports (sample_environment p) sample_ports) sample_command ex s) = Inl (OrchestrationError ''analysis.stageFailed'' True)"
  using valid_sample_profile [of RequiredPolicy] valid_sample_snapshot sample_evidence assms
  by (simp add: run_body_def gather_evidence_def Let_def abind_def throw_when_def checked_def lift_result_def assert_prepared_def
    store_ports_def sample_ports_def sample_environment_def throw_def outside_def on_world_def run_optional_stage_def run_stage_def sample_profile_def
    push_stage_def updating_def ret_def catching_def throw_if_aborted_def contextual_error_def split: prod.splits)

lemma execution_sample: "fst (sample_execution RequiredPolicy) = Inl (OrchestrationError ''analysis.stageFailed'' True)"
proof -
  let ?P = "store_ports (sample_environment RequiredPolicy) sample_ports"
  obtain ex w where claim: "store_claim (sample_environment RequiredPolicy) sample_command sample_world = (Inr (Claimed ex), w)"
    and ex: "ex_snapshot ex = sample_snapshot" "ex_profile ex = sample_profile RequiredPolicy" using claim_sample by blast
  have failing: "\<exists>w'. store_fail (sample_environment RequiredPolicy) ex' out st err u = (Inr (), w')" for ex' out st err u
    by (auto simp: store_fail_def transaction_def fail_row_def Let_def sample_environment_def split: option.splits)
  let ?s = "\<lparr>ru_world = w, ru_stages = [], ru_operations = []\<rparr>" and ?e = "OrchestrationError ''analysis.stageFailed'' True"
  obtain s where body: "run_body ?P sample_command ex ?s = (Inl ?e, s)"
    using run_sample [OF ex, of RequiredPolicy ?s] by (metis prod.collapse)
  have "fst (record_failure ?P ex ?e s) = Inl ?e"
  proof -
    have "ao_fail ?P = store_fail (sample_environment RequiredPolicy)" by (simp add: store_ports_def)
    obtain w' where "ao_fail ?P ex (if ao_aborted ?P (ru_world s) \<or> fst (error_details ?e) = ''analysis.cancelled''
        then AttemptCancelled else AttemptFailed) (ru_stages s) (error_details ?e) (ru_world s) = (Inr (), w')"
      unfolding \<open>ao_fail ?P = _\<close> using failing by blast
    then show ?thesis by (simp add: record_failure_def abind_def reading_def on_world_def throw_def)
  qed
  then have "fst (run_claimed ?P sample_command ex ?s) = Inl ?e" using body by (simp add: run_claimed_def catching_def)
  moreover have "ao_aborted ?P sample_world = False" "ao_claim ?P = store_claim (sample_environment RequiredPolicy)"
    by (simp_all add: store_ports_def sample_environment_def)
  ultimately show ?thesis using claim by (auto simp: sample_execution_def execute_analysis_def split: prod.splits)
qed

section \<open>Executions\<close>



section \<open>Histories\<close>



section \<open>Attachments\<close>

text \<open>What the evidence of a captured reference has to be.\<close>

definition exact_evidence ::
  "request_tools \<Rightarrow> jsnum \<Rightarrow> analysis_execution \<Rightarrow> prepared_attachments \<Rightarrow> attachment_reference \<Rightarrow> analysis_evidence \<Rightarrow> bool" where
  "exact_evidence T limit ex prepared ref e \<longleftrightarrow> e = attachment_evidence T ex ref (ev_content e) \<and> valid_evidence (rq_formats T) e \<and>
     int (length (ev_content e)) \<le> int_of limit \<and> rq_sha256 T (ev_content e) = to_lower (ar_outputContentHash ref) \<and>
     (\<exists>a \<in> set (ps_evidence prepared). pa_outcome a = ReadyOutcome \<and> prepared_key a = reference_key ref \<and>
        pa_derivativeId a = Some (ar_derivativeId ref) \<and> map_option to_lower (pa_outputContentHash a) = Some (rq_sha256 T (ev_content e)))"

lemma ready_map_in:
  assumes "map_of (ready_map prepared) k = Some a"
  shows "a \<in> set (ps_evidence prepared) \<and> pa_outcome a = ReadyOutcome \<and> prepared_key a = k"
  using map_of_SomeD [OF assms] by (auto simp: ready_map_def)

lemma ready_keys: "fst ` set (ready_map prepared) = prepared_key ` {a \<in> set (ps_evidence prepared). pa_outcome a = ReadyOutcome}"
  by (force simp: ready_map_def)

lemma wp_assert_active [wp_rules]:
  "wp (assert_active P) Q w \<longleftrightarrow> (if at_aborted P w then Q (Inl evidence_cancelled) w else Q (Inr ()) w)"
  by (simp add: assert_active_def wp_rules)

lemma reading_failed_never: "wp (reading_failed P f) (\<lambda>r _. is_ok r = False) w"
  by (cases f) (simp_all add: reading_failed_def wp_rules)

lemma wp_reading_port:
  assumes "\<And>a t. wp (f a) Q t" and "\<And>e t. Q (Inl e) t"
  shows "wp (abind (catching m (reading_failed P)) f) Q w"
proof (rule wp_bindI [where P = "\<lambda>_ _. True"])
  show "wp (catching m (reading_failed P)) (\<lambda>_ _. True) w" by (simp add: wp_def)
qed (use assms in simp_all)

lemma read_attachment_exact:
  "wp (read_attachment T P ex prepared seen ref) (\<lambda>r _. \<forall>e. r = Inr e \<longrightarrow> reference_key ref \<notin> set seen \<and>
     exact_evidence T (at_maximumCharacters P) ex prepared ref e) w"
proof -
  have parts: "exact_evidence T (at_maximumCharacters P) ex prepared ref (attachment_evidence T ex ref content)"
    if "matches_prepared (map_of (ready_map prepared) (reference_key ref)) ref"
      "to_lower (ar_outputContentHash ref) = rq_sha256 T content"
      "int (length content) \<le> int_of (at_maximumCharacters P)"
      "valid_evidence (rq_formats T) (attachment_evidence T ex ref content)" for content
    using that ready_map_in [of prepared "reference_key ref"]
    by (fastforce simp: exact_evidence_def matches_prepared_def attachment_evidence_def split: option.splits)
  show ?thesis unfolding read_attachment_def
    unfolding wp_bind [of "assert_active P"] wp_bind [of "throw_when _ _"] wp_assert_active wp_throw_when wp_ret after_simps Let_def
    by (auto simp: parts wp_bind [of "assert_active P"] wp_bind [of "throw_when _ _"] wp_assert_active wp_throw_when wp_ret
      intro!: wp_reading_port)
qed

lemma read_attachments_exact:
  assumes "distinct seen"
  shows "wp (read_attachments T P ex prepared seen evidence refs) (\<lambda>r _. \<forall>seen' evidence'. r = Inr (seen', evidence') \<longrightarrow>
     (\<exists>es. seen' = seen @ map reference_key refs \<and> evidence' = evidence @ es \<and> distinct seen' \<and>
        list_all2 (exact_evidence T (at_maximumCharacters P) ex prepared) refs es)) w"
  using assms
proof (induction refs arbitrary: seen evidence w)
  case Nil
  then show ?case by (simp add: wp_rules)
next
  case (Cons ref refs)
  show ?case unfolding read_attachments.simps
  proof (rule wp_bindI [OF read_attachment_exact])
    fix e t
    assume e: "\<forall>e'. Inr e = Inr e' \<longrightarrow> reference_key ref \<notin> set seen \<and> exact_evidence T (at_maximumCharacters P) ex prepared ref e'"
    then have "distinct (seen @ [reference_key ref])" using Cons.prems by simp
    from Cons.IH [OF this, of "evidence @ [e]" t]
    show "wp (read_attachments T P ex prepared (seen @ [reference_key ref]) (evidence @ [e]) refs) (\<lambda>r _. \<forall>seen' evidence'. r = Inr (seen', evidence') \<longrightarrow>
     (\<exists>es. seen' = seen @ map reference_key (ref # refs) \<and> evidence' = evidence @ es \<and> distinct seen' \<and>
        list_all2 (exact_evidence T (at_maximumCharacters P) ex prepared) (ref # refs) es)) t"
      by (rule wp_mono) (use e in \<open>fastforce simp: list_all2_Cons1\<close>)
  qed simp
qed

text \<open>
  C11: the evidence of attachments is exactly what was prepared.  Whatever the stores return, when the port gives evidence, the
  prepared set is valid and its identity hash is that of its outcomes, and there is one piece of evidence for each attachment
  prepared as ready, none missing, repeated or added: it has the derivative that was prepared, a content whose SHA-256 is
  the prepared one and which is within the ceiling, and it is valid prompt evidence.
\<close>

theorem attachment_evidence_exact:
  assumes "resolve_attachments T P ex w = (Inr r, w')"
  shows "\<exists>prepared refs. validate_prepared T (ex_preparedAttachments ex) = Inr prepared \<and> valid_prepared_set prepared \<and>
    prepared_identity T (ps_evidence prepared) = Inr (ps_identityHash prepared) \<and> distinct (map reference_key refs) \<and>
    set (map reference_key refs) = prepared_key ` {a \<in> set (ps_evidence prepared). pa_outcome a = ReadyOutcome} \<and>
    list_all2 (exact_evidence T (at_maximumCharacters P) ex prepared) refs (sr_evidence r)"
proof -
  let ?Q = "\<lambda>x (_ :: 'a). \<forall>r. x = Inr r \<longrightarrow> (\<exists>prepared refs. validate_prepared T (ex_preparedAttachments ex) = Inr prepared \<and>
    distinct (map reference_key refs) \<and> length refs = card (fst ` set (ready_map prepared)) \<and>
    list_all2 (exact_evidence T (at_maximumCharacters P) ex prepared) refs (sr_evidence r))"
  have "wp (resolve_attachments T P ex) ?Q w"
  proof -
    have rest: "wp (abind (read_attachments T P ex prepared [] [] references) (\<lambda>(seen, evidence).
        abind (throw_when (\<lambda>_. length seen \<noteq> card (fst ` set (ready_map prepared))) evidence_integrity) (\<lambda>_.
          ret \<lparr>sr_evidence = evidence, sr_operationIds = []\<rparr>))) (\<lambda>x _. \<forall>r. x = Inr r \<longrightarrow>
          (\<exists>refs. distinct (map reference_key refs) \<and> length refs = card (fst ` set (ready_map prepared)) \<and>
            list_all2 (exact_evidence T (at_maximumCharacters P) ex prepared) refs (sr_evidence r))) t"
      for prepared references t
      by (rule wp_bindI [OF read_attachments_exact]) (auto simp: wp_rules)
    show ?thesis unfolding resolve_attachments_def
      unfolding wp_bind [of "assert_active P"] wp_bind [of "lift_result _ _"] wp_assert_active wp_lift after_simps
      by (auto intro!: wp_reading_port rest)
  qed
  then have "?Q (Inr r) w'" using assms by (simp add: wp_def)
  then obtain prepared refs where p: "validate_prepared T (ex_preparedAttachments ex) = Inr prepared"
    and refs: "distinct (map reference_key refs)" "length refs = card (fst ` set (ready_map prepared))"
      "list_all2 (exact_evidence T (at_maximumCharacters P) ex prepared) refs (sr_evidence r)"
    by blast
  have "reference_key ref \<in> fst ` set (ready_map prepared)" if given: "ref \<in> set refs" for ref
  proof -
    obtain n where "n < length refs" "refs ! n = ref" using given by (auto simp: in_set_conv_nth)
    then obtain e where "exact_evidence T (at_maximumCharacters P) ex prepared ref e" using list_all2_nthD [OF refs(3)] by blast
    then show ?thesis unfolding ready_keys by (auto simp: exact_evidence_def image_iff)
  qed
  then have "set (map reference_key refs) \<subseteq> fst ` set (ready_map prepared)" by auto
  moreover have "card (set (map reference_key refs)) = card (fst ` set (ready_map prepared))"
    using distinct_card [OF refs(1)] refs(2) by simp
  ultimately have keys: "set (map reference_key refs) = fst ` set (ready_map prepared)" by (intro card_subset_eq) simp_all
  have "valid_prepared_set prepared \<and> prepared_identity T (ps_evidence prepared) = Inr (ps_identityHash prepared)"
    using p by (auto simp: validate_prepared_def valid_prepared_set_def digest_text_def to_lower_def list_all_iff hex_lower
      split: option.splits if_splits sum.splits)
  then show ?thesis using p refs keys unfolding ready_keys
    by (elim conjE) (intro exI [of _ prepared] exI [of _ refs] conjI)
qed

definition sample_prepared :: prepared_attachments where
  "sample_prepared = \<lparr>ps_identityHash = sample_digest, ps_evidence = [\<lparr>pa_occurrenceIdentity = None, pa_attachmentId = ''a1'',
     pa_derivativeId = Some ''d1'', pa_outputContentHash = Some sample_digest, pa_outcome = ReadyOutcome, pa_required = True,
     pa_warningCode = None\<rparr>]\<rparr>"

definition sample_attached :: analysis_execution where
  "sample_attached = \<lparr>ex_workspaceId = ''w1'', ex_analysisJobId = ''job1'', ex_analysisIdentityId = ''i1'', ex_analysisAttemptId = ''t1'',
     ex_snapshot = sample_snapshot, ex_profile = sample_profile DisabledPolicy, ex_preparedAttachments = Some sample_prepared,
     ex_repositoryRun = None\<rparr>"

definition sample_attachment_ports :: "unit attachment_ports" where
  "sample_attachment_ports = \<lparr>at_aborted = (\<lambda>_. False), at_references = (\<lambda>_ _. ret [\<lparr>ar_occurrenceIdentity = None,
     ar_attachmentId = ''a1'', ar_derivativeId = ''d1'', ar_processorVersion = ''p'', ar_outputContentHash = sample_digest\<rparr>]),
     at_content = (\<lambda>_ _ _. ret (''text'', sample_digest)), at_maximumCharacters = Num 100\<rparr>"

lemma sample_digest_text: "digest_text sample_digest" "to_lower sample_digest = sample_digest"
  by (simp_all add: digest_text_def sample_digest_def list_all_iff hex_char_def is_digit_def to_lower_def lower_char_def)

lemma prepared_value_plain: "plain_value (prepared_value a)"
  by (simp add: prepared_value_def plain_key_simps)

lemma sample_ready: "\<exists>a. ready_map sample_prepared = [(''a1'', a)] \<and> pa_derivativeId a = Some ''d1'' \<and> pa_outputContentHash a = Some sample_digest"
  by (simp add: ready_map_def sample_prepared_def prepared_key_def)

lemma sample_prepared_ok: "validate_prepared sample_tools (Some sample_prepared) = Inr sample_prepared"
proof -
  have "plain_value (JsObject [(''evidence'', JsArray (map prepared_value (ps_evidence sample_prepared)))])"
    by (simp add: sample_prepared_def prepared_value_plain plain_key_simps)
  then have "\<exists>t. identity_text (JsObject [(''evidence'', JsArray (map prepared_value (ps_evidence sample_prepared)))]) = Inr t"
    using plain_texts_agree unfolding texts_agree_def by blast
  then have "prepared_identity sample_tools (ps_evidence sample_prepared) = Inr sample_digest"
    by (auto simp: prepared_identity_def sample_prepared_def sample_tools_def)
  then show ?thesis
    by (simp add: validate_prepared_def sample_prepared_def unready_def valid_prepared_set_def valid_prepared_def retains_derivative_def
      bounded_text_def sample_digest_text)
qed

theorem attachment_evidence_exact_witness:
  "\<exists>r w. resolve_attachments sample_tools sample_attachment_ports sample_attached () = (Inr r, w) \<and>
     map ev_content (sr_evidence r) = [''text''] \<and>
     (\<exists>prepared refs. set (map reference_key refs) = prepared_key ` {a \<in> set (ps_evidence prepared). pa_outcome a = ReadyOutcome} \<and>
        list_all2 (exact_evidence sample_tools (Num 100) sample_attached prepared) refs (sr_evidence r))"
proof -
  have "\<exists>r w. resolve_attachments sample_tools sample_attachment_ports sample_attached () = (Inr r, w) \<and> map ev_content (sr_evidence r) = [''text'']"
  proof -
    obtain a where a: "ready_map sample_prepared = [(''a1'', a)]" "pa_derivativeId a = Some ''d1''" "pa_outputContentHash a = Some sample_digest"
      using sample_ready by blast
    have "length sample_digest = 64" by (simp add: sample_digest_def)
    then show ?thesis using sample_prepared_ok sample_digest_text a
      by (simp add: resolve_attachments_def abind_def assert_active_def throw_when_def lift_result_def sample_attached_def
        sample_attachment_ports_def ret_def catching_def read_attachment_def reference_key_def valid_attachment_reference_def
        bounded_text_def matches_prepared_def Let_def attachment_evidence_def sample_tools_def valid_evidence_def attachment_evidence_id_def)
  qed
  then obtain r w where run: "resolve_attachments sample_tools sample_attachment_ports sample_attached () = (Inr r, w)"
    and content: "map ev_content (sr_evidence r) = [''text'']" by auto
  have limit: "at_maximumCharacters sample_attachment_ports = Num 100" by (simp add: sample_attachment_ports_def)
  have "\<exists>prepared refs. set (map reference_key refs) = prepared_key ` {a \<in> set (ps_evidence prepared). pa_outcome a = ReadyOutcome} \<and>
      list_all2 (exact_evidence sample_tools (Num 100) sample_attached prepared) refs (sr_evidence r)"
    using attachment_evidence_exact [OF run] unfolding limit by (elim exE conjE) (intro exI conjI)
  then show ?thesis using run content by (intro exI [of _ r] exI [of _ w] conjI)
qed

end
