(* ===== verification/Analysis_Stages.thy ===== *)
theory Analysis_Stages
  imports Analysis_Properties
begin

text \<open>
  What an evidence stage of the orchestrator (\<open>packages/analysis/src/orchestrator.ts\<close>) may do, whatever its port does: the
  policy of the stage decides what an error of the stage means, and only checked evidence passes.
\<close>

section \<open>The frame of a stage\<close>

text \<open>
  A stage logs one entry and no operations.  It is skipped without asking anybody when it is disabled; its error is recorded
  with the entry, and is the error thrown when the stage is required and the empty result otherwise.
\<close>

definition stage_logged ::
  "stage_name \<Rightarrow> stage_policy \<Rightarrow> 'a \<Rightarrow> ('a \<Rightarrow> bool) \<Rightarrow> 'w run_state \<Rightarrow> (analysis_error, 'a) result \<Rightarrow> 'w run_state \<Rightarrow> bool" where
  "stage_logged stage policy nothing good s r t \<longleftrightarrow> ru_operations t = ru_operations s \<and>
     (\<exists>outcome err. ru_stages t = ru_stages s @ [stage_entry stage outcome (Some policy) err] \<and>
       (case outcome of
          StageSkipped \<Rightarrow> policy = DisabledPolicy \<and> err = None \<and> r = Inr nothing \<and> ru_world t = ru_world s
        | StageCompleted \<Rightarrow> policy \<noteq> DisabledPolicy \<and> err = None \<and> (\<exists>v. r = Inr v \<and> good v)
        | StageFailed \<Rightarrow> (\<exists>code again. err = Some (code, again) \<and>
            (policy = OptionalPolicy \<and> r = Inr nothing \<or> policy = RequiredPolicy \<and> r = Inl (OrchestrationError code again)))))"

lemma contextual_form: "\<exists>code again. contextual_error e = OrchestrationError code again"
  by (cases e) (auto simp: contextual_error_def)

text \<open>A body that only asks ports and checks what they return.\<close>

definition asks :: "('w, 'a) run \<Rightarrow> ('a \<Rightarrow> bool) \<Rightarrow> bool" where
  "asks m good \<longleftrightarrow> (\<forall>s. wp m (\<lambda>r t. ru_stages t = ru_stages s \<and> ru_operations t = ru_operations s \<and> (\<forall>v. r = Inr v \<longrightarrow> good v)) s)"

lemma asks_bind:
  assumes "asks m P" and "\<And>a. P a \<Longrightarrow> asks (f a) Q"
  shows "asks (abind m f) Q"
  unfolding asks_def
proof
  fix s :: "'a run_state"
  have m: "wp m (\<lambda>r t. ru_stages t = ru_stages s \<and> ru_operations t = ru_operations s \<and> (\<forall>v. r = Inr v \<longrightarrow> P v)) s"
    using assms(1) by (simp add: asks_def)
  show "wp (abind m f) (\<lambda>r t. ru_stages t = ru_stages s \<and> ru_operations t = ru_operations s \<and> (\<forall>v. r = Inr v \<longrightarrow> Q v)) s"
  proof (rule wp_bindI [OF m])
    fix a and t :: "'a run_state"
    assume t: "ru_stages t = ru_stages s \<and> ru_operations t = ru_operations s \<and> (\<forall>v. Inr a = Inr v \<longrightarrow> P v)"
    then have "asks (f a) Q" using assms(2) by simp
    then show "wp (f a) (\<lambda>r u. ru_stages u = ru_stages s \<and> ru_operations u = ru_operations s \<and> (\<forall>v. r = Inr v \<longrightarrow> Q v)) t"
      using t by (simp add: asks_def wp_def)
  qed simp
qed

lemma asks_port: "asks (on_world m) (\<lambda>_. True)"
  by (simp add: asks_def wp_rules) (simp add: wp_def)

lemma asks_abort: "asks (throw_if_aborted P) (\<lambda>_. True)"
  by (simp add: asks_def wp_rules)

lemma asks_checked: "asks (checked x) (\<lambda>v. x = Inr v)"
  by (simp add: asks_def wp_rules)

lemma asks_weaken: "asks m P \<Longrightarrow> (\<And>a. P a \<Longrightarrow> Q a) \<Longrightarrow> asks m Q"
  by (simp add: asks_def wp_def)

lemma stage_frame:
  assumes "asks body good"
  shows "wp (run_stage stage policy nothing body) (stage_logged stage policy nothing good s) s"
proof (cases "policy = DisabledPolicy")
  case True
  then show ?thesis by (auto simp: run_stage_def wp_rules stage_logged_def intro!: exI [of _ StageSkipped])
next
  case False
  have body: "wp body (\<lambda>r t. ru_stages t = ru_stages s \<and> ru_operations t = ru_operations s \<and> (\<forall>v. r = Inr v \<longrightarrow> good v)) s"
    using assms by (simp add: asks_def)
  show ?thesis unfolding run_stage_def if_not_P [OF False]
  proof (rule wp_catchingI)
    show "wp (abind body (\<lambda>r. abind (push_stage (stage_entry stage StageCompleted (Some policy) None)) (\<lambda>_. ret r)))
        (\<lambda>r t. case r of Inr v \<Rightarrow> stage_logged stage policy nothing good s (Inr v) t
           | Inl e \<Rightarrow> ru_stages t = ru_stages s \<and> ru_operations t = ru_operations s) s"
      by (rule wp_bindI [OF body])
        (use False in \<open>auto simp: wp_rules stage_logged_def intro!: exI [of _ StageCompleted]\<close>)
  next
    fix e :: analysis_error and t :: "'a run_state"
    assume "case Inl e of Inr v \<Rightarrow> stage_logged stage policy nothing good s (Inr v) t
       | Inl e \<Rightarrow> ru_stages t = ru_stages s \<and> ru_operations t = ru_operations s"
    moreover obtain code again where "contextual_error e = OrchestrationError code again" using contextual_form by blast
    moreover have "policy = OptionalPolicy \<or> policy = RequiredPolicy" using False by (cases policy) simp_all
    ultimately show "wp (let failure = contextual_error e in abind
        (push_stage (stage_entry stage StageFailed (Some policy) (Some (error_details failure))))
        (\<lambda>_. if policy = RequiredPolicy then throw failure else ret nothing)) (stage_logged stage policy nothing good s) t"
      by (auto simp: Let_def wp_rules stage_logged_def intro!: exI [of _ StageFailed])
  qed simp
qed

section \<open>What passes\<close>

definition checked_stage :: "text_formats \<Rightarrow> stage_result \<Rightarrow> bool" where
  "checked_stage F v \<longleftrightarrow> list_all (valid_evidence F) (sr_evidence v) \<and> distinct (map ev_id (sr_evidence v)) \<and>
     list_all (bounded_text 200) (sr_operationIds v) \<and> distinct (sr_operationIds v)"

lemma operations_checked:
  "rfold add_operation ids ops = Inr r \<Longrightarrow> list_all (bounded_text 200) ids \<Longrightarrow> distinct ids \<Longrightarrow>
     r = ids @ ops \<and> list_all (bounded_text 200) (ids @ ops) \<and> distinct (ids @ ops)"
proof (induction ops arbitrary: ids)
  case (Cons i ops)
  then have "add_operation ids i = Inr (ids @ [i])" "i \<notin> set ids" "bounded_text 200 i"
    by (auto simp: add_operation_def bounded_text_def Suc_le_eq split: if_splits)
  then show ?case using Cons.IH [of "ids @ [i]"] Cons.prems by simp
qed simp

lemma parsed_stage_checked: "parsed_stage_result F evidence ops = Inr v \<Longrightarrow> sr_evidence v = evidence \<and> checked_stage F v"
  using operations_checked [of "[]" ops]
  by (auto simp: parsed_stage_result_def rbind_Inr_iff validate_evidence_iff checked_stage_def)

text \<open>
  What passes of an investigation: checked evidence of the pinned commit, and for every finding one further piece of
  evidence, with the hash of its text and the place of a piece of evidence that the finding cites.
\<close>

definition cites :: "analysis_evidence list \<Rightarrow> repository_finding \<Rightarrow> analysis_evidence \<Rightarrow> bool" where
  "cites evidence f e \<longleftrightarrow> set (rf_evidenceIds f) \<subseteq> set (map ev_id evidence) \<and> ev_id e = rf_id f \<and>
     ev_content e = finding_content f \<and> (\<exists>c \<in> set evidence. ev_id c \<in> set (rf_evidenceIds f) \<and> ev_origin e = ev_origin c)"

definition checked_investigation :: "'w analysis_ports \<Rightarrow> analysis_execution \<Rightarrow> analysis_profile \<Rightarrow> repository_outcome \<Rightarrow> bool" where
  "checked_investigation P ex profile v \<longleftrightarrow> (\<exists>run evidence further. ro_run v = Some run \<and> ex_repositoryRun ex = Some run \<and>
     pin_matches (an_repository profile) run \<and> ro_evidence v = evidence @ further \<and>
     list_all (\<lambda>e. valid_evidence (ao_formats P) e \<and> of_pin run e) (ro_evidence v) \<and> distinct (map ev_id (ro_evidence v)) \<and>
     list_all (\<lambda>e. ev_contentHash e = ao_sha256 P (ev_content e)) further \<and> valid_findings (ro_findings v) \<and>
     list_all2 (cites evidence) (ro_findings v) further)"

lemma findings_checked:
  "rfold (check_finding ids) seen fs = Inr r \<Longrightarrow> distinct seen \<Longrightarrow> set seen \<inter> set ids = {} \<Longrightarrow>
     distinct (seen @ map rf_id fs) \<and> set (map rf_id fs) \<inter> set ids = {} \<and> list_all (\<lambda>f. set (rf_evidenceIds f) \<subseteq> set ids) fs"
proof (induction fs arbitrary: seen)
  case (Cons f fs)
  then have "check_finding ids seen f = Inr (seen @ [rf_id f])" "rf_id f \<notin> set ids" "rf_id f \<notin> set seen"
    "set (rf_evidenceIds f) \<subseteq> set ids"
    by (auto simp: check_finding_def list_ex_iff split: if_splits)
  then show ?case using Cons.IH [of "seen @ [rf_id f]"] Cons.prems by simp
qed simp

lemma finding_evidence_cites:
  assumes "finding_evidence P evidence f = Inr e" and "set (rf_evidenceIds f) \<subseteq> set (map ev_id evidence)"
  shows "cites evidence f e \<and> valid_evidence (ao_formats P) e \<and> ev_contentHash e = ao_sha256 P (ev_content e)"
proof -
  obtain c l where c: "find (\<lambda>e. ev_id e \<in> set (rf_evidenceIds f)) evidence = Some c" "ev_origin c = OfRepository l"
    and e: "e = \<lparr>ev_id = rf_id f, ev_content = finding_content f, ev_contentHash = ao_sha256 P (finding_content f),
      ev_origin = OfRepository l\<rparr>" "valid_evidence (ao_formats P) e"
    using assms(1) by (auto simp: finding_evidence_def split: option.splits evidence_origin.splits)
  have "c \<in> set evidence" "ev_id c \<in> set (rf_evidenceIds f)" using c(1) by (auto simp: find_Some_iff)
  then show ?thesis using e assms(2) c(2) by (auto simp: cites_def)
qed

lemma investigation_checked:
  assumes "investigated P run v = Inr r" and "repository_run_for P ex profile = Inr run"
  shows "checked_investigation P ex profile r"
proof -
  let ?F = "ao_formats P" and ?E = "iv_evidence v" and ?fs = "iv_findings v"
  obtain parsed further where parsed: "parsed_stage_result ?F ?E (iv_operationIds v) = Inr parsed"
    and all: "length (filter (of_pin run) (sr_evidence parsed)) = length ?E"
    and checks: "\<exists>ids. rfold (check_finding (map ev_id (filter (of_pin run) (sr_evidence parsed)))) [] ?fs = Inr ids"
    and further: "list_all2 (\<lambda>f e. finding_evidence P (filter (of_pin run) (sr_evidence parsed)) f = Inr e) ?fs further"
    and r: "ro_evidence r = filter (of_pin run) (sr_evidence parsed) @ further" "ro_findings r = ?fs" "ro_run r = Some run"
    and valid: "valid_findings ?fs"
    using assms(1) by (auto simp: investigated_def rbind_Inr_iff rmapM_Inr_iff Let_def split: if_splits)
  have E: "sr_evidence parsed = ?E" "checked_stage ?F parsed" using parsed_stage_checked [OF parsed] by auto
  have pinned: "of_pin run e" if "e \<in> set ?E" for e
    using length_filter_less [of e ?E "of_pin run"] all that E(1) by fastforce
  then have kept: "filter (of_pin run) (sr_evidence parsed) = ?E" using E(1) by (simp add: filter_id_conv)
  have ids: "distinct (map rf_id ?fs)" "set (map rf_id ?fs) \<inter> set (map ev_id ?E) = {}"
    "list_all (\<lambda>f. set (rf_evidenceIds f) \<subseteq> set (map ev_id ?E)) ?fs"
    using checks findings_checked [of "map ev_id ?E" "[]" ?fs] unfolding kept by auto
  have each: "cites ?E f e \<and> valid_evidence ?F e \<and> ev_contentHash e = ao_sha256 P (ev_content e)"
    if "(f, e) \<in> set (zip ?fs further)" for f e
  proof (rule finding_evidence_cites)
    show "finding_evidence P ?E f = Inr e" using that further unfolding kept by (auto simp: list_all2_iff)
    show "set (rf_evidenceIds f) \<subseteq> set (map ev_id ?E)" using set_zip_leftD [OF that] ids(3) by (simp add: list_all_iff)
  qed
  have lengths: "length ?fs = length further" using further by (rule list_all2_lengthD)
  have cited: "list_all2 (cites ?E) ?fs further" using each lengths by (auto simp: list_all2_iff)
  have further_ok: "valid_evidence ?F e \<and> of_pin run e \<and> ev_contentHash e = ao_sha256 P (ev_content e)" if e: "e \<in> set further" for e
  proof -
    obtain f where "(f, e) \<in> set (zip ?fs further)" using e lengths by (metis in_set_impl_in_set_zip2)
    then have "cites ?E f e" "valid_evidence ?F e" "ev_contentHash e = ao_sha256 P (ev_content e)" using each by auto
    then show ?thesis using pinned by (auto simp: cites_def of_pin_def)
  qed
  have "map ev_id further = map rf_id ?fs"
    using cited by (auto simp: cites_def list_all2_conv_all_nth intro!: nth_equalityI)
  then have "distinct (map ev_id (?E @ further))" using ids(1,2) E by (auto simp: checked_stage_def)
  then show ?thesis unfolding checked_investigation_def
    using r assms(2) kept cited further_ok pinned valid E
    by (intro exI [of _ run] exI [of _ ?E] exI [of _ further])
      (auto simp: repository_run_for_def list_all_iff checked_stage_def split: option.splits if_splits)
qed

section \<open>The stages\<close>

lemma optional_stage_frame:
  "wp (run_optional_stage P stage policy operation)
     (stage_logged stage policy no_evidence (checked_stage (ao_formats P)) s) s"
  unfolding run_optional_stage_def
  by (rule stage_frame) (rule asks_bind [OF asks_abort] asks_bind [OF asks_port] asks_weaken [OF asks_checked]
    parsed_stage_checked [THEN conjunct2] | assumption)+

lemma repository_stage_frame:
  "wp (run_repository_stage P ex profile snapshot evidence)
     (stage_logged RepositoryStage (ry_policy (an_repository profile)) no_investigation (checked_investigation P ex profile) s) s"
  unfolding run_repository_stage_def Let_def
  by (rule stage_frame) (rule asks_bind [OF asks_abort] asks_bind [OF asks_checked] asks_bind [OF asks_port]
    asks_weaken [OF asks_checked] investigation_checked | assumption)+


end
