(* ===== verification/Publication.thy ===== *)
theory Publication
  imports Prompts Effects
begin

text \<open>
  Publishing an analysis: the renderer (\<open>packages/publication/src/renderer.ts\<close>, \<open>profiles.ts\<close>) and the
  executor (\<open>packages/publication/src/use-cases.ts\<close>, \<open>ports.ts\<close>).  The world the executor acts on (database
  and destination) is a type parameter and its ports are functions on it; the executor also keeps the log of its
  calls.  A transaction runs its calls and is then settled, by a commit that may fail or by a rollback.
\<close>

section \<open>Profiles\<close>

datatype publication_format = PlainTextFormat | MarkdownFormat | HtmlFormat

datatype publication_mode = PreviewOnly | ApprovalRequired | AutoPublishInternal

record publication_profile =
  pf_id :: string
  pf_version :: string
  pf_connectorInstanceId :: string
  pf_rendererId :: string
  pf_rendererVersion :: string
  pf_format :: publication_format
  pf_aiDisclosure :: "string option"
  pf_disclaimers :: "string list"
  pf_mode :: publication_mode
  pf_visibility :: string
  pf_maximumBodyCharacters :: jsnum

definition valid_publication_profile :: "publication_profile \<Rightarrow> bool" where
  "valid_publication_profile p \<longleftrightarrow>
     list_all (bounded_text 200) [pf_id p, pf_version p, pf_connectorInstanceId p, pf_rendererId p, pf_rendererVersion p] \<and>
     optional_valid (bounded_text 4000) (pf_aiDisclosure p) \<and>
     list_all (bounded_text 4000) (pf_disclaimers p) \<and> length (pf_disclaimers p) \<le> 20 \<and>
     pf_visibility p = ''internal'' \<and>
     positive_int (pf_maximumBodyCharacters p) \<and> int_of (pf_maximumBodyCharacters p) \<le> 1000000"

section \<open>The renderer\<close>

datatype rendering_error = BodyLimitExceeded | UnsupportedVisibility | RenderSchemaRejected

record render_sections =
  rs_summary :: string
  rs_probableCauses :: "string list"
  rs_investigation :: "string list"
  rs_recommendedActions :: "string list"
  rs_unansweredQuestions :: "string list"
  rs_confidence :: string

fun confidence_name :: "confidence \<Rightarrow> string" where
  "confidence_name LowConfidence = ''low''"
| "confidence_name MediumConfidence = ''medium''"
| "confidence_name HighConfidence = ''high''"

definition sections_of :: "case_analysis \<Rightarrow> render_sections" where
  "sections_of a = \<lparr>rs_summary = co_summary a, rs_probableCauses = map cl_statement (co_probableCauses a),
     rs_investigation = map st_step (co_investigation a), rs_recommendedActions = map cl_statement (co_recommendedActions a),
     rs_unansweredQuestions = co_unansweredQuestions a, rs_confidence = confidence_name (co_confidence a)\<rparr>"

definition bullet_list :: "string list \<Rightarrow> string \<Rightarrow> string" where
  "bullet_list values mark = join [newline] (map (\<lambda>v. mark @ v) values)"

definition plain_block :: "string \<Rightarrow> string list \<Rightarrow> string list" where
  "plain_block title values = (if values = [] then [] else [title @ [newline] @ bullet_list values ''- ''])"

definition plain_text_body :: "render_sections \<Rightarrow> string" where
  "plain_text_body c = paragraphs
     ([''Analysis summary'' @ [newline] @ rs_summary c, ''Confidence'' @ [newline] @ rs_confidence c] @
      plain_block ''Probable causes'' (rs_probableCauses c) @ plain_block ''Investigation'' (rs_investigation c) @
      plain_block ''Recommended actions'' (rs_recommendedActions c) @
      plain_block ''Unanswered questions'' (rs_unansweredQuestions c))"

definition markdown_block :: "string \<Rightarrow> string list \<Rightarrow> string list" where
  "markdown_block title values =
     (if values = [] then [] else [''## '' @ title @ [newline, newline] @ bullet_list values ''- ''])"

definition markdown_body :: "render_sections \<Rightarrow> string" where
  "markdown_body c = paragraphs
     ([''## Analysis summary'' @ [newline, newline] @ rs_summary c, ''## Confidence'' @ [newline, newline] @ rs_confidence c] @
      markdown_block ''Probable causes'' (rs_probableCauses c) @ markdown_block ''Investigation'' (rs_investigation c) @
      markdown_block ''Recommended actions'' (rs_recommendedActions c) @
      markdown_block ''Unanswered questions'' (rs_unansweredQuestions c))"

definition escape_html :: "string \<Rightarrow> string" where
  "escape_html s =
     replace_char (CHR 0x27) ''&#39;'' (replace_char (CHR 0x22) ''&quot;'' (replace_char CHR ''>'' ''&gt;''
       (replace_char CHR ''<'' ''&lt;'' (replace_char CHR ''&'' ''&amp;'' s))))"

definition html_list :: "string list \<Rightarrow> string" where
  "html_list values = ''<ul>'' @ concat (map (\<lambda>v. ''<li>'' @ escape_html v @ ''</li>'') values) @ ''</ul>''"

definition html_block :: "string \<Rightarrow> string list \<Rightarrow> string list" where
  "html_block title values = (if values = [] then [] else [''<h2>'' @ title @ ''</h2>'' @ html_list values])"

definition html_body :: "render_sections \<Rightarrow> string" where
  "html_body c = concat
     ([''<h2>Analysis summary</h2><p>'' @ escape_html (rs_summary c) @ ''</p>'',
       ''<h2>Confidence</h2><p>'' @ escape_html (rs_confidence c) @ ''</p>''] @
      html_block ''Probable causes'' (rs_probableCauses c) @ html_block ''Investigation'' (rs_investigation c) @
      html_block ''Recommended actions'' (rs_recommendedActions c) @
      html_block ''Unanswered questions'' (rs_unansweredQuestions c))"

definition notices_of :: "publication_profile \<Rightarrow> string list" where
  "notices_of p = (case pf_aiDisclosure p of None \<Rightarrow> [] | Some d \<Rightarrow> [d]) @ pf_disclaimers p"

definition append_notices :: "string \<Rightarrow> publication_profile \<Rightarrow> string" where
  "append_notices body p =
     (let notices = notices_of p in
      if notices = [] then body
      else if pf_format p = HtmlFormat then body @ ''<hr><p>'' @ join ''<br>'' (map escape_html notices) @ ''</p>''
      else body @ [newline, newline] @ join [newline] notices)"

record rendered_publication =
  rp_format :: publication_format
  rp_body :: string
  rp_visibility :: string

definition render :: "case_analysis \<Rightarrow> publication_profile \<Rightarrow> (rendering_error, rendered_publication) result" where
  "render analysis profile =
     (if \<not> valid_publication_profile profile \<or> \<not> valid_analysis analysis then Inl RenderSchemaRejected
      else if pf_visibility profile \<noteq> ''internal'' then Inl UnsupportedVisibility
      else let content = sections_of analysis;
               initial = (case pf_format profile of
                  PlainTextFormat \<Rightarrow> plain_text_body content
                | MarkdownFormat \<Rightarrow> markdown_body content
                | HtmlFormat \<Rightarrow> html_body content);
               body = append_notices initial profile in
        if int_of (pf_maximumBodyCharacters profile) < int (length body) then Inl BodyLimitExceeded
        else Inr \<lparr>rp_format = pf_format profile, rp_body = body, rp_visibility = pf_visibility profile\<rparr>)"

section \<open>The executor: data\<close>

record publication_candidate =
  pc_intentId :: string
  pc_analysisResultId :: string
  pc_identityHash :: string
  pc_marker :: string
  pc_analysis :: case_analysis
  pc_profile :: publication_profile
  pc_connectorRegistrationId :: string
  pc_connectorConfigurationVersionId :: string
  pc_target :: external_reference

record publication_receipt =
  pr_reference :: external_reference
  pr_marker :: string
  pr_requestId :: "string option"

record publish_request =
  pq_target :: external_reference
  pq_marker :: string
  pq_idempotencyKey :: string
  pq_requestHash :: string
  pq_publication :: rendered_publication
  pq_requestId :: string

datatype publish_result = PublishedResult publication_receipt | OutcomeUnknownResult "string option"

text \<open>What a port throws: its \<open>code\<close> and \<open>retryable\<close>, if it has both.\<close>

datatype port_error = PortError "(string \<times> bool) option"

datatype execution_error =
    LeaseDurationInvalid | ExecutionCancelled | DestinationUnavailable | InvalidMarker | InvalidIdentity identity_error
  | RenderRefused rendering_error | PortFailed port_error | LimitInvalid

datatype publication_event =
    CandidateRead string string "publication_candidate option"
  | UnknownListed string int
  | LeaseAcquired string string "int option"
  | AttemptPrepared string string bool "string option"
  | LeaseCompleted string string int
  | DestinationResolved string string "string option"
  | PublicationSought external_reference string "external_reference option"
  | PublishRequested publish_request
  | PublishAnswered publish_result
  | PublishedRecorded string publication_receipt
  | UnknownRecorded string
  | FailureRecorded string "string \<times> bool"
  | PortThrew
  | Committed
  | RolledBack

datatype abort_point = AtStart | BeforeResolve | BeforePublish

record 'w publication_ports =
  up_leaseMs :: jsnum
  up_settle :: "bool \<Rightarrow> 'w \<Rightarrow> 'w \<Rightarrow> port_error option \<times> 'w"
  up_findCandidate :: "string \<Rightarrow> string \<Rightarrow> 'w \<Rightarrow> (port_error, publication_candidate option) result \<times> 'w"
  up_acquire :: "string \<Rightarrow> string \<Rightarrow> jsnum \<Rightarrow> 'w \<Rightarrow> (port_error, int option) result \<times> 'w"
  up_complete :: "string \<Rightarrow> string \<Rightarrow> int \<Rightarrow> 'w \<Rightarrow> (port_error, unit) result \<times> 'w"
  up_prepare :: "publication_candidate \<Rightarrow> string \<Rightarrow> string \<Rightarrow> bool \<Rightarrow> string \<Rightarrow> 'w \<Rightarrow>
    (port_error, string option) result \<times> 'w"
  up_recordPublished :: "publication_candidate \<Rightarrow> string \<Rightarrow> publication_receipt \<Rightarrow> string \<Rightarrow> 'w \<Rightarrow>
    (port_error, unit) result \<times> 'w"
  up_recordUnknown :: "publication_candidate \<Rightarrow> string \<Rightarrow> string \<Rightarrow> 'w \<Rightarrow> (port_error, unit) result \<times> 'w"
  up_recordFailure :: "publication_candidate \<Rightarrow> string \<Rightarrow> string \<times> bool \<Rightarrow> string \<Rightarrow> 'w \<Rightarrow>
    (port_error, unit) result \<times> 'w"
  up_resolve :: "string \<Rightarrow> string \<Rightarrow> string \<Rightarrow> 'w \<Rightarrow> (port_error, string option) result \<times> 'w"
  up_findPublication :: "string \<Rightarrow> external_reference \<Rightarrow> string \<Rightarrow> string \<Rightarrow> 'w \<Rightarrow>
    (port_error, (external_reference \<times> string) option) result \<times> 'w"
  up_publish :: "string \<Rightarrow> publish_request \<Rightarrow> 'w \<Rightarrow> (port_error, publish_result) result \<times> 'w"
  up_findUnknown :: "string \<Rightarrow> int \<Rightarrow> 'w \<Rightarrow> (port_error, string list) result \<times> 'w"
  up_now :: "'w \<Rightarrow> string"
  up_aborted :: "abort_point \<Rightarrow> 'w \<Rightarrow> bool"
  up_sha256 :: "string \<Rightarrow> string"

section \<open>The executor: actions\<close>

type_synonym 'w pstate = "'w \<times> publication_event list"

type_synonym ('w, 'a) action = "('w pstate, execution_error, 'a) effect"

text \<open>A call of a port and its entry in the log.\<close>

definition call :: "('a \<Rightarrow> publication_event) \<Rightarrow> ('w \<Rightarrow> (port_error, 'a) result \<times> 'w) \<Rightarrow> ('w, 'a) action" where
  "call ev f s = (case f (fst s) of
      (Inl e, w) \<Rightarrow> (Inl (PortFailed e), (w, snd s @ [PortThrew]))
    | (Inr a, w) \<Rightarrow> (Inr a, (w, snd s @ [ev a])))"

definition note_event :: "publication_event \<Rightarrow> ('w, unit) action" where
  "note_event e s = (Inr (), (fst s, snd s @ [e]))"

definition transaction :: "'w publication_ports \<Rightarrow> ('w, 'a) action \<Rightarrow> ('w, 'a) action" where
  "transaction p body s = (case body s of
      (Inl e, (w, l)) \<Rightarrow> (Inl e, (snd (up_settle p False (fst s) w), l @ [RolledBack]))
    | (Inr a, (w, l)) \<Rightarrow> (case up_settle p True (fst s) w of
          (None, w') \<Rightarrow> (Inr a, (w', l @ [Committed]))
        | (Some e, w') \<Rightarrow> (Inl (PortFailed e), (w', l @ [RolledBack]))))"

definition throw_if_aborted :: "'w publication_ports \<Rightarrow> abort_point \<Rightarrow> ('w, unit) action" where
  "throw_if_aborted p point s = (if up_aborted p point (fst s) then throw ExecutionCancelled s else ret () s)"

text \<open>The code reads a \<open>code\<close> and \<open>retryable\<close> off any error that has both.\<close>

fun error_details :: "execution_error \<Rightarrow> string \<times> bool" where
  "error_details ExecutionCancelled = (''publication.cancelled'', False)"
| "error_details DestinationUnavailable = (''publication.destinationUnavailable'', True)"
| "error_details (RenderRefused BodyLimitExceeded) = (''publication.bodyLimitExceeded'', False)"
| "error_details (RenderRefused UnsupportedVisibility) = (''publication.unsupportedVisibility'', False)"
| "error_details (PortFailed (PortError (Some d))) = d"
| "error_details _ = (''publication.destinationFailure'', True)"

section \<open>The executor: operations\<close>

record publication_command =
  cm_reconcile :: bool
  cm_workspaceId :: string
  cm_publicationIntentId :: string

definition record_published ::
  "'w publication_ports \<Rightarrow> publication_candidate \<Rightarrow> string \<Rightarrow> publication_receipt \<Rightarrow> ('w, unit) action" where
  "record_published p c attempt receipt = transaction p
     (\<lambda>s. call (\<lambda>_. PublishedRecorded attempt receipt) (up_recordPublished p c attempt receipt (up_now p (fst s))) s)"

definition complete_lease :: "'w publication_ports \<Rightarrow> string \<Rightarrow> string \<Rightarrow> int \<Rightarrow> ('w, unit) action" where
  "complete_lease p ws key token = call (\<lambda>_. LeaseCompleted ws key token) (up_complete p ws key token)"

definition prepare_attempt ::
  "'w publication_ports \<Rightarrow> string \<Rightarrow> publication_candidate \<Rightarrow> bool \<Rightarrow> ('w, (string \<times> int) option) action" where
  "prepare_attempt p ws c allowUnknown = transaction p
     (abind (call (\<lambda>r. LeaseAcquired ws (pc_identityHash c) r) (up_acquire p ws (pc_identityHash c) (up_leaseMs p))) (\<lambda>lease.
      case lease of
        None \<Rightarrow> ret None
      | Some token \<Rightarrow>
          abind (\<lambda>s. call (\<lambda>r. AttemptPrepared (pc_identityHash c) (pc_marker c) allowUnknown r)
                       (up_prepare p c (pc_identityHash c) (pc_marker c) allowUnknown (up_now p (fst s))) s) (\<lambda>attempt.
          case attempt of
            None \<Rightarrow> abind (complete_lease p ws (pc_identityHash c) token) (\<lambda>_. ret None)
          | Some a \<Rightarrow> ret (Some (a, token)))))"

text \<open>The body of the \<open>try\<close> block; the result is what \<open>execute\<close> returns as \<open>published\<close>.\<close>

definition deliver ::
  "'w publication_ports \<Rightarrow> string \<Rightarrow> publication_candidate \<Rightarrow> publication_identity \<Rightarrow> string \<Rightarrow> ('w, bool) action" where
  "deliver p ws c identity attempt =
     abind (throw_if_aborted p BeforeResolve) (\<lambda>_.
     abind (call (\<lambda>r. DestinationResolved (pc_connectorRegistrationId c) (pc_connectorConfigurationVersionId c) r)
              (up_resolve p ws (pc_connectorRegistrationId c) (pc_connectorConfigurationVersionId c))) (\<lambda>destination.
     case destination of
       None \<Rightarrow> throw DestinationUnavailable
     | Some d \<Rightarrow>
         abind (call (\<lambda>r. PublicationSought (pc_target c) (pc_marker c) (map_option fst r))
                  (up_findPublication p d (pc_target c) (pc_marker c) (pc_intentId c))) (\<lambda>existing.
         case existing of
           Some (reference, marker) \<Rightarrow>
             abind (record_published p c attempt \<lparr>pr_reference = reference, pr_marker = marker, pr_requestId = Some (pc_intentId c)\<rparr>)
               (\<lambda>_. ret True)
         | None \<Rightarrow>
             abind (lift_result RenderRefused (render (pc_analysis c) (pc_profile c))) (\<lambda>publication.
             abind (throw_if_aborted p BeforePublish) (\<lambda>_.
             let request = \<lparr>pq_target = pc_target c, pq_marker = pc_marker c, pq_idempotencyKey = pi_idempotencyKey identity,
                   pq_requestHash = pi_requestHash identity, pq_publication = publication, pq_requestId = pc_intentId c\<rparr> in
             abind (note_event (PublishRequested request)) (\<lambda>_.
             abind (call PublishAnswered (up_publish p d request)) (\<lambda>result.
             case result of
               OutcomeUnknownResult _ \<Rightarrow>
                 abind (transaction p (\<lambda>s. call (\<lambda>_. UnknownRecorded attempt) (up_recordUnknown p c attempt (up_now p (fst s))) s))
                   (\<lambda>_. ret False)
             | PublishedResult receipt \<Rightarrow> abind (record_published p c attempt receipt) (\<lambda>_. ret True))))))))"

text \<open>\<open>catch\<close>: the failure is recorded and the error thrown again, unless recording throws.\<close>

definition recording_failure ::
  "'w publication_ports \<Rightarrow> publication_candidate \<Rightarrow> string \<Rightarrow> ('w, 'a) action \<Rightarrow> ('w, 'a) action" where
  "recording_failure p c attempt body s = (case body s of
      (Inr a, s') \<Rightarrow> (Inr a, s')
    | (Inl e, s') \<Rightarrow> abind (transaction p (\<lambda>t. call (\<lambda>_. FailureRecorded attempt (error_details e))
          (up_recordFailure p c attempt (error_details e) (up_now p (fst t))) t)) (\<lambda>_. throw e) s')"

record execution_result =
  xr_published :: bool
  xr_attempted :: bool

definition execute :: "'w publication_ports \<Rightarrow> publication_command \<Rightarrow> ('w, execution_result) action" where
  "execute p cmd =
     abind (throw_if_aborted p AtStart) (\<lambda>_.
     abind (transaction p (call (CandidateRead (cm_workspaceId cmd) (cm_publicationIntentId cmd))
              (up_findCandidate p (cm_workspaceId cmd) (cm_publicationIntentId cmd)))) (\<lambda>found.
     case found of
       None \<Rightarrow> ret \<lparr>xr_published = False, xr_attempted = False\<rparr>
     | Some c \<Rightarrow>
         abind (lift_result InvalidIdentity (publication_delivery_identity (up_sha256 p) (pc_identityHash c))) (\<lambda>identity.
         if pi_marker identity \<noteq> pc_marker c then throw InvalidMarker
         else abind (prepare_attempt p (cm_workspaceId cmd) c (cm_reconcile cmd)) (\<lambda>prepared.
         case prepared of
           None \<Rightarrow> ret \<lparr>xr_published = False, xr_attempted = False\<rparr>
         | Some (attempt, token) \<Rightarrow>
             abind (ensuring (transaction p (complete_lease p (cm_workspaceId cmd) (pc_identityHash c) token))
               (recording_failure p c attempt (deliver p (cm_workspaceId cmd) c identity attempt)))
               (\<lambda>published. ret \<lparr>xr_published = published, xr_attempted = True\<rparr>)))))"

fun execute_each :: "'w publication_ports \<Rightarrow> publication_command list \<Rightarrow> ('w, nat) action" where
  "execute_each p [] = ret 0"
| "execute_each p (cmd # cmds) = abind (execute p cmd) (\<lambda>_. abind (execute_each p cmds) (\<lambda>n. ret (Suc n)))"

definition reconcile :: "'w publication_ports \<Rightarrow> string \<Rightarrow> jsnum \<Rightarrow> ('w, nat) action" where
  "reconcile p ws limit = (case limit of
      NonInt \<Rightarrow> throw LimitInvalid
    | Num n \<Rightarrow> if n < 1 \<or> 100 < n then throw LimitInvalid
        else abind (transaction p (call (\<lambda>_. UnknownListed ws n) (up_findUnknown p ws n))) (\<lambda>intents.
          execute_each p (map (\<lambda>i. \<lparr>cm_reconcile = True, cm_workspaceId = ws, cm_publicationIntentId = i\<rparr>) intents)))"

text \<open>The constructor.\<close>

definition new_executor :: "'w publication_ports \<Rightarrow> (execution_error, 'w publication_ports) result" where
  "new_executor p = (case up_leaseMs p of
      NonInt \<Rightarrow> Inl LeaseDurationInvalid
    | Num n \<Rightarrow> if n < 1 then Inl LeaseDurationInvalid else Inr p)"

section \<open>The destination of fakes.ts\<close>

text \<open>
  \<open>InMemoryAnalysisDestination\<close>: a publication is kept with the target and marker it was made for; the
  \<open>Map\<close> finds it by the text \<open>targetKey\<close> of the two.
\<close>

record memory_destination =
  md_publications :: "(external_reference \<times> string \<times> external_reference) list"
  md_findRequests :: nat
  md_publishRequests :: "publish_request list"
  md_nextUnknown :: bool

definition target_key :: "external_reference \<Rightarrow> string \<Rightarrow> string" where
  "target_key t marker = join [CHR 0x00] [er_connectorInstanceId t, er_resourceType t, er_externalId t, marker]"

definition memory_lookup ::
  "memory_destination \<Rightarrow> external_reference \<Rightarrow> string \<Rightarrow> (external_reference \<times> string) option" where
  "memory_lookup m t marker =
     map_option (\<lambda>(t', marker', reference). (reference, marker'))
       (List.find (\<lambda>(t', marker', reference). target_key t' marker' = target_key t marker) (md_publications m))"

definition memory_find ::
  "external_reference \<Rightarrow> string \<Rightarrow> memory_destination \<Rightarrow>
    (port_error, (external_reference \<times> string) option) result \<times> memory_destination" where
  "memory_find t marker m =
     (let m' = m\<lparr>md_findRequests := md_findRequests m + 1\<rparr> in (Inr (memory_lookup m' t marker), m'))"

definition memory_publish ::
  "publish_request \<Rightarrow> memory_destination \<Rightarrow> (port_error, publish_result) result \<times> memory_destination" where
  "memory_publish q m =
     (let m' = m\<lparr>md_publishRequests := md_publishRequests m @ [q]\<rparr> in
      if md_nextUnknown m' then (Inr (OutcomeUnknownResult (Some (pq_requestId q))), m')
      else (case memory_lookup m' (pq_target q) (pq_marker q) of
          Some (reference, marker) \<Rightarrow>
            (Inr (PublishedResult \<lparr>pr_reference = reference, pr_marker = marker, pr_requestId = Some (pq_requestId q)\<rparr>), m')
        | None \<Rightarrow>
            (let reference = \<lparr>er_connectorInstanceId = er_connectorInstanceId (pq_target q), er_resourceType = ''publication'',
                   er_externalId = ''publication-'' @ show_nat (length (md_publications m') + 1)\<rparr> in
             (Inr (PublishedResult \<lparr>pr_reference = reference, pr_marker = pq_marker q, pr_requestId = Some (pq_requestId q)\<rparr>),
              m'\<lparr>md_publications := md_publications m' @ [(pq_target q, pq_marker q, reference)]\<rparr>))))"

text \<open>\<open>InMemoryPublicationDestinationResolver\<close>: destinations by connector registration id.\<close>

record 'd memory_resolver =
  mr_destinations :: "(string \<times> 'd) list"
  mr_resolveRequests :: "(string \<times> string \<times> string) list"

definition register_destination :: "string \<Rightarrow> 'd \<Rightarrow> 'd memory_resolver \<Rightarrow> 'd memory_resolver option" where
  "register_destination i d m =
     (if map_of (mr_destinations m) i \<noteq> None then None
      else Some (m\<lparr>mr_destinations := assoc_set i d (mr_destinations m)\<rparr>))"

definition resolve_destination ::
  "string \<Rightarrow> string \<Rightarrow> string \<Rightarrow> 'd memory_resolver \<Rightarrow> 'd option \<times> 'd memory_resolver" where
  "resolve_destination ws registration version m =
     (map_of (mr_destinations m) registration,
      m\<lparr>mr_resolveRequests := mr_resolveRequests m @ [(ws, registration, version)]\<rparr>)"

section \<open>Sample inputs of the witnesses\<close>

definition sample_analysis :: case_analysis where
  "sample_analysis = \<lparr>co_summary = ''s'', co_probableCauses = [], co_investigation = [], co_recommendedActions = [], co_evidence = [],
     co_unansweredQuestions = [''a<b''], co_confidence = LowConfidence, co_customerSafeSummary = None\<rparr>"

definition sample_profile :: "publication_format \<Rightarrow> publication_profile" where
  "sample_profile f = \<lparr>pf_id = ''p'', pf_version = ''1'', pf_connectorInstanceId = ''c'', pf_rendererId = ''r'', pf_rendererVersion = ''1'',
     pf_format = f, pf_aiDisclosure = Some ''AI & you'', pf_disclaimers = [], pf_mode = AutoPublishInternal,
     pf_visibility = ''internal'', pf_maximumBodyCharacters = Num 1000\<rparr>"

end
