(* ===== verification/Requests.thy ===== *)
theory Requests
  imports Publication Envelopes Access_Policy Domain_States
begin

text \<open>
  The use cases that request, rerun and cancel analyses and approve publications:
  \<open>packages/application/src/use-cases.ts\<close> and \<open>publication-use-cases.ts\<close>.  The world (database, clock, identifier
  source, abort signal) is a type parameter and the ports of \<open>ports.ts\<close> are functions on it.  The locale
  \<open>request_store\<close> states what the use cases rely on in terms of a view of the store; \<open>Postgres_Store\<close> provides it.
\<close>

section \<open>Data\<close>

record execution_context =
  cx_requestId :: string
  cx_workspaceId :: string
  cx_principalId :: "string option"
  cx_correlationId :: string
  cx_traceContext :: "trace_context option"

record analysis_identity =
  aid_id :: string
  aid_workspaceId :: string
  aid_identityHash :: string
  aid_analysisProfileVersionId :: string
  aid_caseSnapshotId :: string

record audit_record =
  au_id :: string
  au_workspaceId :: string
  au_actorPrincipalId :: "string option"
  au_action :: string
  au_targetId :: "string option"
  au_afterHash :: "string option"
  au_occurredAt :: string

record publication_profile_ref =
  ppr_id :: string
  ppr_version :: string
  ppr_destinationConnectorInstanceId :: string
  ppr_destinationConnectorConfigurationVersionId :: string
  ppr_mode :: publication_mode

datatype approval_outcome = Approved publication_intent | AlreadyApproved | NotApprovable

datatype app_error =
    Aborted | Denied authorization_error | IdempotencyConflictOn string | IdempotencyResourceMissing
  | IdentifierRejected domain_id_error | EnvelopeRejected envelope_error | JobRejected domain_error
  | ProfileNotFound | RelayLimitInvalid | StoreFailed string

record 'w app_ports =
  ap_aborted :: "'w \<Rightarrow> bool"
  ap_now :: "'w \<Rightarrow> string"
  ap_date :: "string \<Rightarrow> int option"
  ap_next :: "string \<Rightarrow> ('w, app_error, string) effect"
  ap_require :: "execution_context \<Rightarrow> permission \<Rightarrow> ('w, app_error, unit) effect"
  ap_settle :: "bool \<Rightarrow> 'w \<Rightarrow> 'w \<Rightarrow> app_error option \<times> 'w"
  ap_lockKey :: "string \<Rightarrow> string \<Rightarrow> ('w, app_error, unit) effect"
  ap_findKey :: "string \<Rightarrow> string \<Rightarrow> ('w, app_error, (string \<times> string) option) effect"
  ap_recordKey :: "string \<Rightarrow> string \<Rightarrow> string \<Rightarrow> string \<Rightarrow> string \<Rightarrow> ('w, app_error, unit) effect"
  ap_identity :: "analysis_identity \<Rightarrow> string \<Rightarrow> ('w, app_error, analysis_identity) effect"
  ap_jobByOrdinal :: "string \<Rightarrow> string \<Rightarrow> int \<Rightarrow> ('w, app_error, analysis_job option) effect"
  ap_createJob :: "analysis_job \<Rightarrow> ('w, app_error, unit) effect"
  ap_lockForRerun :: "string \<Rightarrow> string \<Rightarrow> ('w, app_error, analysis_identity \<times> int) effect"
  ap_findJob :: "string \<Rightarrow> string \<Rightarrow> ('w, app_error, analysis_job option) effect"
  ap_updateJob :: "analysis_job \<Rightarrow> ('w, app_error, unit) effect"
  ap_append :: "envelope \<Rightarrow> ('w, app_error, unit) effect"
  ap_audit :: "audit_record \<Rightarrow> ('w, app_error, unit) effect"
  ap_findProfile :: "string \<Rightarrow> string \<Rightarrow> string \<Rightarrow> ('w, app_error, publication_profile_ref option) effect"
  ap_createIntent :: "string \<Rightarrow> string \<Rightarrow> string \<Rightarrow> publication_profile_ref \<Rightarrow> external_reference \<Rightarrow> string \<Rightarrow>
    intent_state \<Rightarrow> string \<Rightarrow> ('w, app_error, publication_intent) effect"
  ap_approve :: "string \<Rightarrow> string \<Rightarrow> string option \<Rightarrow> string \<Rightarrow> ('w, app_error, approval_outcome) effect"
  ap_bindResult :: "string \<Rightarrow> string \<Rightarrow> string \<Rightarrow> ('w, app_error, unit) effect"
  ap_readyIntents :: "string \<Rightarrow> string \<Rightarrow> ('w, app_error, string list) effect"
  ap_findIntent :: "string \<Rightarrow> string \<Rightarrow> ('w, app_error, publication_intent option) effect"
  ap_enqueuePublication :: "envelope \<Rightarrow> ('w, app_error, unit) effect"
  ap_sha256 :: "string \<Rightarrow> string"

section \<open>Shared steps\<close>

text \<open>\<open>UnitOfWork.transaction\<close>: a commit, which may fail, after a value; a rollback after an error.\<close>

definition in_transaction :: "'w app_ports \<Rightarrow> ('w, app_error, 'a) effect \<Rightarrow> ('w, app_error, 'a) effect" where
  "in_transaction P body s = (case body s of
      (Inl e, w) \<Rightarrow> (Inl e, snd (ap_settle P False s w))
    | (Inr a, w) \<Rightarrow> (case ap_settle P True s w of (None, w') \<Rightarrow> (Inr a, w') | (Some e, w') \<Rightarrow> (Inl e, w')))"

abbreviation throw_if_aborted_by :: "'w app_ports \<Rightarrow> ('w, app_error, unit) effect" where
  "throw_if_aborted_by P \<equiv> throw_when (ap_aborted P) Aborted"

text \<open>\<open>analysisJobId(ids.next("analysisJob"))\<close> and the like.\<close>

definition next_id :: "'w app_ports \<Rightarrow> string \<Rightarrow> ('w, app_error, string) effect" where
  "next_id P kind = abind (ap_next P kind) (\<lambda>s. lift_result IdentifierRejected (opaque_id s kind))"

definition issue_envelope :: "'w app_ports \<Rightarrow> envelope \<Rightarrow> ('w, app_error, envelope) effect" where
  "issue_envelope P e = lift_result EnvelopeRejected (create_envelope (ap_date P) (envelope_value e))"

text \<open>The \<open>analysis.execute.v1\<close> command of a job, appended to the outbox.\<close>

definition append_execute :: "'w app_ports \<Rightarrow> execution_context \<Rightarrow> analysis_job \<Rightarrow> string \<Rightarrow> ('w, app_error, unit) effect" where
  "append_execute P cx job occurredAt =
     abind (next_id P ''outboxEnvelope'') (\<lambda>i.
     abind (lift_result IdentifierRejected (opaque_id (cx_requestId cx) ''causation'')) (\<lambda>cause.
     abind (issue_envelope P \<lparr>en_id = i, en_workspaceId = cx_workspaceId cx, en_occurredAt = occurredAt,
              en_correlationId = cx_correlationId cx, en_causationId = cause, en_traceContext = cx_traceContext cx,
              en_payload = AnalysisExecute (job_id job) (job_identity job)\<rparr>) (ap_append P)))"

definition append_audit ::
  "'w app_ports \<Rightarrow> execution_context \<Rightarrow> string \<Rightarrow> string \<Rightarrow> string option \<Rightarrow> string \<Rightarrow> ('w, app_error, unit) effect" where
  "append_audit P cx action target afterHash occurredAt =
     abind (next_id P ''auditEvent'') (\<lambda>i.
       ap_audit P \<lparr>au_id = i, au_workspaceId = cx_workspaceId cx, au_actorPrincipalId = cx_principalId cx, au_action = action,
         au_targetId = Some target, au_afterHash = afterHash, au_occurredAt = occurredAt\<rparr>)"

section \<open>Requesting an analysis\<close>

record request_command =
  rc_idempotencyKeyDigest :: string
  rc_requestDigest :: string
  rc_identityHash :: string
  rc_analysisProfileVersionId :: string
  rc_caseSnapshotId :: string

record request_result =
  rr_analysisJobId :: string
  rr_analysisIdentityId :: string
  rr_replayed :: bool

text \<open>The job of an idempotency record.\<close>

definition replayed_job ::
  "'w app_ports \<Rightarrow> request_command \<Rightarrow> execution_context \<Rightarrow> string \<times> string \<Rightarrow> ('w, app_error, analysis_job) effect" where
  "replayed_job P cmd cx prior =
     (if fst prior \<noteq> rc_requestDigest cmd then throw (IdempotencyConflictOn ''analysis.request'')
      else abind (ap_findJob P (cx_workspaceId cx) (snd prior)) (\<lambda>found.
        case found of None \<Rightarrow> throw IdempotencyResourceMissing | Some job \<Rightarrow> ret job))"

definition proposed_identity :: "request_command \<Rightarrow> execution_context \<Rightarrow> string \<Rightarrow> analysis_identity" where
  "proposed_identity cmd cx i = \<lparr>aid_id = i, aid_workspaceId = cx_workspaceId cx, aid_identityHash = rc_identityHash cmd,
     aid_analysisProfileVersionId = rc_analysisProfileVersionId cmd, aid_caseSnapshotId = rc_caseSnapshotId cmd\<rparr>"

definition request_identity ::
  "'w app_ports \<Rightarrow> request_command \<Rightarrow> execution_context \<Rightarrow> string \<Rightarrow> ('w, app_error, analysis_identity) effect" where
  "request_identity P cmd cx occurredAt =
     abind (next_id P ''analysisIdentity'') (\<lambda>i. ap_identity P (proposed_identity cmd cx i) occurredAt)"

definition new_job :: "'w app_ports \<Rightarrow> execution_context \<Rightarrow> string \<Rightarrow> int \<Rightarrow> string \<Rightarrow> ('w, app_error, analysis_job) effect" where
  "new_job P cx identityId ordinal occurredAt =
     abind (next_id P ''analysisJob'') (\<lambda>i.
     let job = \<lparr>job_id = i, job_workspace = cx_workspaceId cx, job_identity = identityId, runOrdinal = ordinal,
           job_state = JQueued, job_createdAt = occurredAt, job_updatedAt = occurredAt\<rparr> in
     abind (ap_createJob P job) (\<lambda>_. ret job))"

definition record_request ::
  "'w app_ports \<Rightarrow> request_command \<Rightarrow> execution_context \<Rightarrow> analysis_job \<Rightarrow> string \<Rightarrow> ('w, app_error, unit) effect" where
  "record_request P cmd cx job occurredAt =
     ap_recordKey P (cx_workspaceId cx) (rc_idempotencyKeyDigest cmd) (rc_requestDigest cmd) (job_id job) occurredAt"

definition request_in_transaction ::
  "'w app_ports \<Rightarrow> request_command \<Rightarrow> execution_context \<Rightarrow> ('w, app_error, request_result) effect" where
  "request_in_transaction P cmd cx =
     abind (throw_if_aborted_by P) (\<lambda>_.
     abind (ap_lockKey P (cx_workspaceId cx) (rc_idempotencyKeyDigest cmd)) (\<lambda>_.
     abind (ap_findKey P (cx_workspaceId cx) (rc_idempotencyKeyDigest cmd)) (\<lambda>prior.
     case prior of
       Some p \<Rightarrow> abind (replayed_job P cmd cx p) (\<lambda>job.
         ret \<lparr>rr_analysisJobId = job_id job, rr_analysisIdentityId = job_identity job, rr_replayed = True\<rparr>)
     | None \<Rightarrow>
         abind (reading (ap_now P)) (\<lambda>occurredAt.
         abind (request_identity P cmd cx occurredAt) (\<lambda>identity.
         abind (ap_jobByOrdinal P (cx_workspaceId cx) (aid_id identity) 0) (\<lambda>existing.
         abind (case existing of
             Some job \<Rightarrow> ret job
           | None \<Rightarrow> abind (new_job P cx (aid_id identity) 0 occurredAt) (\<lambda>job.
               abind (append_execute P cx job occurredAt) (\<lambda>_.
               abind (append_audit P cx ''analysis.requested'' (job_id job) (Some (rc_requestDigest cmd)) occurredAt) (\<lambda>_.
               ret job)))) (\<lambda>job.
         abind (record_request P cmd cx job occurredAt) (\<lambda>_.
         ret \<lparr>rr_analysisJobId = job_id job, rr_analysisIdentityId = job_identity job, rr_replayed = False\<rparr>))))))))"

text \<open>\<open>requirePermission\<close> of the use cases: the abort check, then the guard.\<close>

definition authorize :: "'w app_ports \<Rightarrow> execution_context \<Rightarrow> permission \<Rightarrow> ('w, app_error, unit) effect" where
  "authorize P cx p = abind (throw_if_aborted_by P) (\<lambda>_. ap_require P cx p)"

definition request_analysis ::
  "'w app_ports \<Rightarrow> request_command \<Rightarrow> execution_context \<Rightarrow> ('w, app_error, request_result) effect" where
  "request_analysis P cmd cx =
     abind (authorize P cx P_analysis_request) (\<lambda>_.
     abind (throw_if_aborted_by P) (\<lambda>_. in_transaction P (request_in_transaction P cmd cx)))"

section \<open>Rerunning and cancelling\<close>

definition force_rerun :: "'w app_ports \<Rightarrow> string \<Rightarrow> execution_context \<Rightarrow> ('w, app_error, analysis_job) effect" where
  "force_rerun P identityId cx =
     abind (authorize P cx P_analysis_forceRerun) (\<lambda>_.
     abind (throw_if_aborted_by P) (\<lambda>_. in_transaction P
       (abind (ap_lockForRerun P (cx_workspaceId cx) identityId) (\<lambda>(identity, nextRunOrdinal).
        abind (reading (ap_now P)) (\<lambda>occurredAt.
        abind (new_job P cx (aid_id identity) nextRunOrdinal occurredAt) (\<lambda>job.
        abind (append_execute P cx job occurredAt) (\<lambda>_.
        abind (append_audit P cx ''analysis.forceRerun'' (job_id job) None occurredAt) (\<lambda>_.
        ret job))))))))"

definition cancel_job :: "'w app_ports \<Rightarrow> string \<Rightarrow> execution_context \<Rightarrow> ('w, app_error, bool) effect" where
  "cancel_job P jobId cx =
     abind (authorize P cx P_analysis_cancel) (\<lambda>_.
     abind (throw_if_aborted_by P) (\<lambda>_. in_transaction P
       (abind (ap_findJob P (cx_workspaceId cx) jobId) (\<lambda>found.
        case found of
          None \<Rightarrow> ret False
        | Some job \<Rightarrow>
            if job_state job \<noteq> JQueued \<and> job_state job \<noteq> JRunning then ret False
            else abind (reading (ap_now P)) (\<lambda>occurredAt.
              abind (lift_result JobRejected (transition_job job JCancelled occurredAt)) (\<lambda>cancelled.
              abind (ap_updateJob P cancelled) (\<lambda>_.
              abind (append_audit P cx ''analysis.job.cancelled'' (job_id cancelled) None occurredAt) (\<lambda>_.
              ret True))))))))"

section \<open>Publication intents\<close>

fun initial_publication_state :: "publication_mode \<Rightarrow> intent_state" where
  "initial_publication_state PreviewOnly = ISkipped"
| "initial_publication_state ApprovalRequired = IAwaitingApproval"
| "initial_publication_state AutoPublishInternal = IPending"

text \<open>
  \<open>stableOutboxEnvelopeId\<close>: the first sixteen bytes of the digest with the version and variant bits of a UUID,
  computed on the hexadecimal digits.
\<close>

definition hex_value :: "char \<Rightarrow> nat" where
  "hex_value c = (if is_digit c then digit_value c else of_char (lower_char c) - 87)"

definition stable_envelope_text :: "(string \<Rightarrow> string) \<Rightarrow> string \<Rightarrow> string" where
  "stable_envelope_text sha256 value =
     (let h = (sha256 value)[12 := CHR ''5'', 16 := hex_digit (8 + hex_value (sha256 value ! 16) mod 4)] in
      join ''-'' [take 8 h, take 4 (drop 8 h), take 4 (drop 12 h), take 4 (drop 16 h), take 12 (drop 20 h)])"

definition publication_envelope ::
  "'w app_ports \<Rightarrow> string \<Rightarrow> string \<Rightarrow> string \<Rightarrow> string \<Rightarrow> trace_context option \<Rightarrow> string \<Rightarrow> ('w, app_error, envelope) effect" where
  "publication_envelope P intentId ws correlation cause trace occurredAt =
     abind (lift_result IdentifierRejected
              (opaque_id (stable_envelope_text (ap_sha256 P) (''publication-command:'' @ intentId)) ''outboxEnvelope'')) (\<lambda>i.
     abind (lift_result IdentifierRejected (opaque_id cause ''causation'')) (\<lambda>c.
     issue_envelope P \<lparr>en_id = i, en_workspaceId = ws, en_occurredAt = occurredAt, en_correlationId = correlation,
       en_causationId = c, en_traceContext = trace, en_payload = PublicationExecute intentId\<rparr>))"

definition enqueue_intent ::
  "'w app_ports \<Rightarrow> string \<Rightarrow> execution_context \<Rightarrow> string \<Rightarrow> ('w, app_error, unit) effect" where
  "enqueue_intent P intentId cx occurredAt =
     abind (publication_envelope P intentId (cx_workspaceId cx) (cx_correlationId cx) (cx_requestId cx) (cx_traceContext cx) occurredAt)
       (ap_enqueuePublication P)"

record publication_request =
  pu_profileId :: string
  pu_profileVersion :: string
  pu_target :: external_reference
  pu_intentHash :: string
  pu_dryRun :: bool

record publication_request_result =
  prr_request :: request_result
  prr_publicationIntentId :: "string option"
  prr_preview :: bool

text \<open>The job, whether it was replayed and whether this call created it.\<close>

definition resolve_request ::
  "'w app_ports \<Rightarrow> request_command \<Rightarrow> execution_context \<Rightarrow> ('w, app_error, analysis_job \<times> bool \<times> bool) effect" where
  "resolve_request P cmd cx =
     abind (ap_lockKey P (cx_workspaceId cx) (rc_idempotencyKeyDigest cmd)) (\<lambda>_.
     abind (ap_findKey P (cx_workspaceId cx) (rc_idempotencyKeyDigest cmd)) (\<lambda>prior.
     case prior of
       Some p \<Rightarrow> abind (replayed_job P cmd cx p) (\<lambda>job. ret (job, True, False))
     | None \<Rightarrow>
         abind (reading (ap_now P)) (\<lambda>occurredAt.
         abind (request_identity P cmd cx occurredAt) (\<lambda>identity.
         abind (ap_jobByOrdinal P (cx_workspaceId cx) (aid_id identity) 0) (\<lambda>existing.
         abind (case existing of
             Some job \<Rightarrow> ret (job, False)
           | None \<Rightarrow> abind (new_job P cx (aid_id identity) 0 occurredAt) (\<lambda>job. ret (job, True))) (\<lambda>(job, created).
         abind (record_request P cmd cx job occurredAt) (\<lambda>_. ret (job, False, created))))))))"

definition resolve_intent ::
  "'w app_ports \<Rightarrow> publication_request \<Rightarrow> execution_context \<Rightarrow> analysis_job \<Rightarrow> string \<Rightarrow>
    ('w, app_error, publication_intent option) effect" where
  "resolve_intent P pu cx job occurredAt =
     (if pu_dryRun pu then ret None
      else abind (ap_findProfile P (cx_workspaceId cx) (pu_profileId pu) (pu_profileVersion pu)) (\<lambda>found.
        case found of
          None \<Rightarrow> throw ProfileNotFound
        | Some profile \<Rightarrow> abind (next_id P ''publicationIntent'') (\<lambda>i.
            abind (ap_createIntent P i (cx_workspaceId cx) (job_id job) profile (pu_target pu) (pu_intentHash pu)
                     (initial_publication_state (ppr_mode profile)) occurredAt) (\<lambda>intent. ret (Some intent)))))"

definition request_with_publication ::
  "'w app_ports \<Rightarrow> request_command \<Rightarrow> publication_request \<Rightarrow> execution_context \<Rightarrow>
    ('w, app_error, publication_request_result) effect" where
  "request_with_publication P cmd pu cx =
     abind (throw_if_aborted_by P) (\<lambda>_.
     abind (ap_require P cx P_analysis_request) (\<lambda>_.
     abind (ap_require P cx P_publication_publish) (\<lambda>_.
     abind (throw_if_aborted_by P) (\<lambda>_. in_transaction P
       (abind (resolve_request P cmd cx) (\<lambda>(job, replayed, created).
        abind (reading (ap_now P)) (\<lambda>occurredAt.
        abind (resolve_intent P pu cx job occurredAt) (\<lambda>intent.
        abind (if created then abind (append_execute P cx job occurredAt) (\<lambda>_.
                 append_audit P cx ''analysis.requested'' (job_id job) (Some (rc_requestDigest cmd)) occurredAt)
               else ret ()) (\<lambda>_.
        abind (case intent of
            None \<Rightarrow> ret ()
          | Some i \<Rightarrow> if job_state job = JCompleted \<and> intent_state i = IPending
                      then enqueue_intent P (intent_id i) cx occurredAt else ret ()) (\<lambda>_.
        ret \<lparr>prr_request = \<lparr>rr_analysisJobId = job_id job, rr_analysisIdentityId = job_identity job, rr_replayed = replayed\<rparr>,
             prr_publicationIntentId = map_option intent_id intent, prr_preview = pu_dryRun pu\<rparr>))))))))))"

text \<open>The result: whether it is approved, and whether it was before.\<close>

definition approve_publication :: "'w app_ports \<Rightarrow> string \<Rightarrow> execution_context \<Rightarrow> ('w, app_error, bool \<times> bool) effect" where
  "approve_publication P intentId cx =
     abind (throw_if_aborted_by P) (\<lambda>_.
     abind (ap_require P cx P_publication_approve) (\<lambda>_. in_transaction P
       (abind (reading (ap_now P)) (\<lambda>occurredAt.
        abind (ap_approve P (cx_workspaceId cx) intentId (cx_principalId cx) occurredAt) (\<lambda>approval.
        case approval of
          NotApprovable \<Rightarrow> ret (False, False)
        | AlreadyApproved \<Rightarrow> ret (True, True)
        | Approved intent \<Rightarrow>
            abind (ap_readyIntents P (cx_workspaceId cx) (intent_jobId intent)) (\<lambda>ready.
            abind (if intent_id intent \<in> set ready then enqueue_intent P (intent_id intent) cx occurredAt else ret ()) (\<lambda>_.
            abind (append_audit P cx ''publication.approved'' (intent_id intent) None occurredAt) (\<lambda>_.
            ret (True, False)))))))))"

text \<open>\<open>SchedulePublicationForCompletedAnalysis\<close>; an intent that is not pending is left out.\<close>

fun schedule_each :: "'w app_ports \<Rightarrow> envelope \<Rightarrow> string \<Rightarrow> string list \<Rightarrow> ('w, app_error, nat) effect" where
  "schedule_each P event occurredAt [] = ret 0"
| "schedule_each P event occurredAt (i # rest) =
     abind (ap_findIntent P (en_workspaceId event) i) (\<lambda>found.
     abind (case found of
         None \<Rightarrow> ret False
       | Some intent \<Rightarrow>
           if intent_state intent \<noteq> IPending then ret False
           else abind (abind (publication_envelope P (intent_id intent) (en_workspaceId event) (en_correlationId event)
                         (en_id event) (en_traceContext event) occurredAt) (ap_enqueuePublication P)) (\<lambda>_. ret True)) (\<lambda>done_one.
     abind (schedule_each P event occurredAt rest) (\<lambda>n. ret (if done_one then Suc n else n))))"

definition schedule_publication :: "'w app_ports \<Rightarrow> envelope \<Rightarrow> string \<Rightarrow> string \<Rightarrow> ('w, app_error, nat) effect" where
  "schedule_publication P event jobId resultId = in_transaction P
     (abind (ap_bindResult P (en_workspaceId event) jobId resultId) (\<lambda>_.
      abind (ap_readyIntents P (en_workspaceId event) jobId) (\<lambda>intents.
      abind (reading (ap_now P)) (\<lambda>occurredAt. schedule_each P event occurredAt intents))))"

end
