(* ===== verification/Request_Refinement.thy ===== *)
theory Request_Refinement
  imports Requests
begin

text \<open>
  The abstract specification of the requests for analyses and the proof that the use cases refine it.  The store is
  seen through \<open>request_view\<close>: maps from the keys of its tables to rows and the list of execute commands in the outbox.
  \<open>sees\<close> relates the views before and after an effect that returned a value; the locale \<open>request_store\<close> states the
  contract of the ports with it.
\<close>

section \<open>The abstract store\<close>

record request_view =
  rv_requests :: "string \<times> string \<Rightarrow> (string \<times> string) option"
  rv_hashes :: "string \<times> string \<Rightarrow> string option"
  rv_identities :: "string \<Rightarrow> analysis_identity option"
  rv_runs :: "string \<times> int \<Rightarrow> string option"
  rv_jobs :: "string \<Rightarrow> analysis_job option"
  rv_commands :: "(string \<times> string \<times> string) list"
  rv_audits :: "audit_record list"

definition empty_view :: request_view where
  "empty_view = \<lparr>rv_requests = (\<lambda>_. None), rv_hashes = (\<lambda>_. None), rv_identities = (\<lambda>_. None), rv_runs = (\<lambda>_. None),
     rv_jobs = (\<lambda>_. None), rv_commands = [], rv_audits = []\<rparr>"

definition with_request :: "string \<Rightarrow> string \<Rightarrow> string \<Rightarrow> string \<Rightarrow> request_view \<Rightarrow> request_view" where
  "with_request ws key digest job v = v\<lparr>rv_requests := (rv_requests v)((ws, key) \<mapsto> (digest, job))\<rparr>"

definition with_identity :: "analysis_identity \<Rightarrow> request_view \<Rightarrow> request_view" where
  "with_identity i v = v\<lparr>rv_hashes := (rv_hashes v)((aid_workspaceId i, aid_identityHash i) \<mapsto> aid_id i),
     rv_identities := (rv_identities v)(aid_id i \<mapsto> i)\<rparr>"

definition with_job :: "analysis_job \<Rightarrow> request_view \<Rightarrow> request_view" where
  "with_job j v = v\<lparr>rv_runs := (rv_runs v)((job_identity j, runOrdinal j) \<mapsto> job_id j),
     rv_jobs := (rv_jobs v)(job_id j \<mapsto> j)\<rparr>"

definition with_execute :: "string \<Rightarrow> analysis_job \<Rightarrow> request_view \<Rightarrow> request_view" where
  "with_execute ws j v = v\<lparr>rv_commands := rv_commands v @ [(ws, job_id j, job_identity j)]\<rparr>"

definition with_command :: "envelope \<Rightarrow> request_view \<Rightarrow> request_view" where
  "with_command e v = (case en_payload e of
      AnalysisExecute j i \<Rightarrow> v\<lparr>rv_commands := rv_commands v @ [(en_workspaceId e, j, i)]\<rparr> | _ \<Rightarrow> v)"

definition with_audit :: "audit_record \<Rightarrow> request_view \<Rightarrow> request_view" where
  "with_audit a v = v\<lparr>rv_audits := rv_audits v @ [a]\<rparr>"

text \<open>A row seen from a workspace.\<close>

definition job_in :: "string \<Rightarrow> string \<Rightarrow> request_view \<Rightarrow> analysis_job option" where
  "job_in ws i v = (case rv_jobs v i of None \<Rightarrow> None | Some j \<Rightarrow> if job_workspace j = ws then Some j else None)"

definition identity_in :: "string \<Rightarrow> string \<Rightarrow> request_view \<Rightarrow> analysis_identity option" where
  "identity_in ws i v = (case rv_identities v i of None \<Rightarrow> None | Some j \<Rightarrow> if aid_workspaceId j = ws then Some j else None)"

section \<open>The abstract operations\<close>

text \<open>What the world chooses: identifiers and the time.\<close>

record fresh_values =
  fr_identity :: string
  fr_job :: string
  fr_at :: string
  fr_audit :: string
  fr_auditAt :: string

definition the_audit ::
  "execution_context \<Rightarrow> string \<Rightarrow> string \<Rightarrow> string option \<Rightarrow> fresh_values \<Rightarrow> audit_record" where
  "the_audit cx action target afterHash fr = \<lparr>au_id = fr_audit fr, au_workspaceId = cx_workspaceId cx,
     au_actorPrincipalId = cx_principalId cx, au_action = action, au_targetId = Some target, au_afterHash = afterHash,
     au_occurredAt = fr_auditAt fr\<rparr>"

text \<open>A new run: its row, its execute command and its audit record; refused if the run or the identifier is taken.\<close>

definition spec_run ::
  "execution_context \<Rightarrow> string \<Rightarrow> string option \<Rightarrow> string \<Rightarrow> int \<Rightarrow> fresh_values \<Rightarrow> request_view \<Rightarrow>
    (analysis_job \<times> request_view) option" where
  "spec_run cx action afterHash identityId n fr v =
     (let job = \<lparr>job_id = fr_job fr, job_workspace = cx_workspaceId cx, job_identity = identityId, runOrdinal = n,
                 job_state = JQueued, job_createdAt = fr_at fr, job_updatedAt = fr_at fr\<rparr> in
      if rv_jobs v (fr_job fr) \<noteq> None \<or> rv_runs v (identityId, n) \<noteq> None \<or> identity_in (cx_workspaceId cx) identityId v = None
      then None
      else Some (job, with_audit (the_audit cx action (fr_job fr) afterHash fr)
                        (with_execute (cx_workspaceId cx) job (with_job job v))))"

definition spec_identity ::
  "request_command \<Rightarrow> execution_context \<Rightarrow> fresh_values \<Rightarrow> request_view \<Rightarrow> (analysis_identity \<times> request_view) option" where
  "spec_identity cmd cx fr v =
     (let i = proposed_identity cmd cx (fr_identity fr) in
      (case rv_hashes v (cx_workspaceId cx, rc_identityHash cmd) of
         None \<Rightarrow> if rv_identities v (fr_identity fr) \<noteq> None then None else Some (i, with_identity i v)
       | Some k \<Rightarrow> Option.bind (rv_identities v k) (\<lambda>j.
           if aid_analysisProfileVersionId j = rc_analysisProfileVersionId cmd \<and> aid_caseSnapshotId j = rc_caseSnapshotId cmd
           then Some (j, v) else None)))"

definition result_for :: "analysis_job \<Rightarrow> bool \<Rightarrow> request_result" where
  "result_for job replayed = \<lparr>rr_analysisJobId = job_id job, rr_analysisIdentityId = job_identity job, rr_replayed = replayed\<rparr>"

definition spec_request ::
  "request_command \<Rightarrow> execution_context \<Rightarrow> fresh_values \<Rightarrow> request_view \<Rightarrow> (request_result \<times> request_view) option" where
  "spec_request cmd cx fr v =
     (let ws = cx_workspaceId cx; key = rc_idempotencyKeyDigest cmd; digest = rc_requestDigest cmd in
      (case rv_requests v (ws, key) of
         Some (d, j) \<Rightarrow> if d \<noteq> digest then None else map_option (\<lambda>job. (result_for job True, v)) (job_in ws j v)
       | None \<Rightarrow>
           Option.bind (spec_identity cmd cx fr v) (\<lambda>(i, v1).
           Option.bind (case rv_runs v1 (aid_id i, 0) of
               Some j \<Rightarrow> map_option (\<lambda>job. (job, v1)) (job_in ws j v1)
             | None \<Rightarrow> spec_run cx ''analysis.requested'' (Some digest) (aid_id i) 0 fr v1) (\<lambda>(job, v2).
           Some (result_for job False, with_request ws key digest (job_id job) v2)))))"

definition spec_publication ::
  "request_command \<Rightarrow> publication_request \<Rightarrow> execution_context \<Rightarrow> fresh_values \<times> string option \<Rightarrow> request_view \<Rightarrow>
    (publication_request_result \<times> request_view) option" where
  "spec_publication cmd pu cx fr v = map_option (\<lambda>(r, v').
     (\<lparr>prr_request = r, prr_publicationIntentId = snd fr, prr_preview = pu_dryRun pu\<rparr>, v')) (spec_request cmd cx (fst fr) v)"

text \<open>\<open>fst fr\<close> is the ordinal: the first one after the runs of the identity.\<close>

definition spec_rerun ::
  "string \<Rightarrow> execution_context \<Rightarrow> int \<times> fresh_values \<Rightarrow> request_view \<Rightarrow> (analysis_job \<times> request_view) option" where
  "spec_rerun identityId cx fr v =
     (if fst fr < 0 \<or> fst fr \<noteq> 0 \<and> rv_runs v (identityId, fst fr - 1) = None then None
      else spec_run cx ''analysis.forceRerun'' None identityId (fst fr) (snd fr) v)"

definition spec_cancel :: "string \<Rightarrow> execution_context \<Rightarrow> fresh_values \<Rightarrow> request_view \<Rightarrow> (bool \<times> request_view) option" where
  "spec_cancel jobId cx fr v =
     (case job_in (cx_workspaceId cx) jobId v of
        None \<Rightarrow> Some (False, v)
      | Some job \<Rightarrow>
          if job_state job \<noteq> JQueued \<and> job_state job \<noteq> JRunning then Some (False, v)
          else Some (True, with_audit (the_audit cx ''analysis.job.cancelled'' jobId None fr)
            (v\<lparr>rv_jobs := (rv_jobs v)(jobId \<mapsto> job\<lparr>job_state := JCancelled, job_updatedAt := fr_at fr\<rparr>)\<rparr>)))"

text \<open>A step of the specification, for some choice.\<close>

definition resolved ::
  "request_command \<Rightarrow> execution_context \<Rightarrow> request_result \<Rightarrow> request_view \<Rightarrow> request_view \<Rightarrow> bool" where
  "resolved cmd cx r v v' \<longleftrightarrow> (\<exists>fr. spec_request cmd cx fr v = Some (r, v'))"

section \<open>Relating views\<close>

definition sees ::
  "('w \<Rightarrow> bool) \<Rightarrow> ('w \<Rightarrow> 'v) \<Rightarrow> ('w, 'e, 'a) effect \<Rightarrow> ('a \<Rightarrow> 'v \<Rightarrow> 'v \<Rightarrow> bool) \<Rightarrow> bool" where
  "sees ok view m R \<longleftrightarrow> (\<forall>w a w'. ok w \<longrightarrow> m w = (Inr a, w') \<longrightarrow> ok w' \<and> R a (view w) (view w'))"

definition unseen :: "'a \<Rightarrow> 'v \<Rightarrow> 'v \<Rightarrow> bool" where
  "unseen a v v' \<longleftrightarrow> v' = v"

lemma seesD: "sees ok view m R \<Longrightarrow> ok w \<Longrightarrow> m w = (Inr a, w') \<Longrightarrow> ok w' \<and> R a (view w) (view w')"
  unfolding sees_def by blast

lemma sees_mono: "sees ok view m R \<Longrightarrow> (\<And>a v v'. R a v v' \<Longrightarrow> S a v v') \<Longrightarrow> sees ok view m S"
  unfolding sees_def by blast

lemma sees_ret: "sees ok view (ret a) (\<lambda>b v v'. b = a \<and> v' = v)"
  by (simp add: sees_def ret_def)

lemma sees_ret_unseen: "sees ok view (ret a) unseen"
  by (simp add: sees_def ret_def unseen_def)

lemma sees_throw: "sees ok view (throw e) R"
  by (simp add: sees_def throw_def)

lemma sees_throw_when: "sees ok view (throw_when c e) unseen"
  by (simp add: sees_def throw_when_def unseen_def)

lemma sees_reading: "sees ok view (reading f) unseen"
  by (simp add: sees_def reading_def unseen_def)

lemma sees_lift: "sees ok view (lift_result h x) (\<lambda>a v v'. x = Inr a \<and> v' = v)"
  by (auto simp: sees_def lift_result_def split: sum.splits)

lemma sees_bind:
  assumes "sees ok view m R" and "\<And>a. sees ok view (f a) (S a)"
  shows "sees ok view (abind m f) (\<lambda>b v v''. \<exists>a v'. R a v v' \<and> S a b v' v'')"
  unfolding sees_def
proof (intro allI impI)
  fix w b w''
  assume ok: "ok w" and run: "abind m f w = (Inr b, w'')"
  then obtain a w' where a: "m w = (Inr a, w')" "f a w' = (Inr b, w'')"
    by (auto simp: abind_def split: prod.splits sum.splits)
  have "ok w'" "R a (view w) (view w')" using seesD [OF assms(1) ok a(1)] by simp_all
  then show "ok w'' \<and> (\<exists>a v'. R a (view w) v' \<and> S a b v' (view w''))"
    using seesD [OF assms(2) _ a(2)] by blast
qed

lemma sees_bindI:
  assumes "sees ok view m R" and "\<And>a. sees ok view (f a) (S a)"
    and "\<And>a b v v' v''. R a v v' \<Longrightarrow> S a b v' v'' \<Longrightarrow> T b v v''"
  shows "sees ok view (abind m f) T"
  by (rule sees_mono [OF sees_bind [OF assms(1,2)]]) (use assms(3) in blast)

text \<open>The first effect changes nothing that is seen.\<close>

lemma sees_skip:
  assumes "sees ok view m unseen" and "\<And>a. sees ok view (f a) T"
  shows "sees ok view (abind m f) T"
  by (rule sees_bindI [OF assms]) (simp add: unseen_def)

section \<open>The contract of the store\<close>

definition silent :: "('w \<Rightarrow> bool) \<Rightarrow> ('w \<Rightarrow> 'v) \<Rightarrow> ('w, 'e, 'a) effect \<Rightarrow> bool" where
  "silent ok view m \<longleftrightarrow> (\<forall>w. ok w \<longrightarrow> ok (snd (m w)) \<and> view (snd (m w)) = view w)"

lemma silent_throw_when: "silent ok view (throw_when c e)"
  by (simp add: silent_def throw_when_def)

lemma silent_bind: "silent ok view m \<Longrightarrow> (\<And>a. silent ok view (f a)) \<Longrightarrow> silent ok view (abind m f)"
  unfolding silent_def
proof (intro allI impI)
  fix w
  assume m: "\<forall>w. ok w \<longrightarrow> ok (snd (m w)) \<and> view (snd (m w)) = view w" and ok: "ok w"
    and f: "\<And>a. \<forall>w. ok w \<longrightarrow> ok (snd (f a w)) \<and> view (snd (f a w)) = view w"
  obtain r t where t: "m w = (r, t)" by (cases "m w")
  have "ok t" "view t = view w" using m ok t by force+
  then show "ok (snd (abind m f w)) \<and> view (snd (abind m f w)) = view w"
    using t f by (cases r) (simp_all add: abind_def)
qed

lemma issued_command:
  assumes "create_envelope date (envelope_value e) = Inr e'" and "en_payload e = AnalysisExecute j i"
  shows "with_command e' v = v\<lparr>rv_commands := rv_commands v @ [(en_workspaceId e, j, i)]\<rparr>"
proof -
  let ?es = "[(''id'', JsText (en_id e)), (''kind'', JsText ''command''), (''type'', JsText (type_name AnalysisExecuteV1)),
       (''schemaVersion'', JsNumber (Some ''1'')), (''workspaceId'', JsText (en_workspaceId e)),
       (''occurredAt'', JsText (en_occurredAt e)), (''correlationId'', JsText (en_correlationId e)),
       (''causationId'', JsText (en_causationId e))] @
      optional_property ''traceContext'' trace_value (en_traceContext e) @
      [(''payload'', JsObject [(''analysisJobId'', JsText j), (''analysisIdentityId'', JsText i)])]"
  obtain t where t: "type_name t = type_name AnalysisExecuteV1" "envelope_fields date ?es t = Inr e'"
    using assms by (auto simp: create_envelope_def parse_envelope_iff envelope_value_def Let_def required_kind_def)
  have "t = AnalysisExecuteV1" using t(1) by (simp add: type_name_inj del: type_name.simps)
  then have "en_payload e' = AnalysisExecute j i \<and> en_workspaceId e' = en_workspaceId e"
    using envelope_fields_parts [OF t(2)]
    by (cases "en_traceContext e") (auto simp: parse_payload_def rbind_Inr_iff read_id_iff)
  then show ?thesis by (simp add: with_command_def)
qed

text \<open>
  An operation refines a specification with choices \<open>fr\<close>: a value comes with a step of the specification; after an
  error nothing has changed, unless the commit failed after it took effect.
\<close>

definition refines ::
  "('w \<Rightarrow> bool) \<Rightarrow> ('w \<Rightarrow> 'v) \<Rightarrow> ('w, 'e, 'a) effect \<Rightarrow> ('f \<Rightarrow> 'v \<Rightarrow> ('a \<times> 'v) option) \<Rightarrow> bool" where
  "refines ok view m spec \<longleftrightarrow> (\<forall>w r w'. ok w \<longrightarrow> m w = (r, w') \<longrightarrow> ok w' \<and>
     (case r of Inr a \<Rightarrow> (\<exists>fr. spec fr (view w) = Some (a, view w'))
      | Inl e \<Rightarrow> view w' = view w \<or> (\<exists>fr a. spec fr (view w) = Some (a, view w'))))"

lemma refinesD:
  assumes "refines ok view m spec" "ok w" "m w = (r, w')"
  shows "ok w'" and "r = Inr a \<Longrightarrow> \<exists>fr. spec fr (view w) = Some (a, view w')"
    and "view w' = view w \<or> (\<exists>fr a. spec fr (view w) = Some (a, view w'))"
proof -
  have "ok w' \<and> (case r of Inr a \<Rightarrow> (\<exists>fr. spec fr (view w) = Some (a, view w'))
      | Inl e \<Rightarrow> view w' = view w \<or> (\<exists>fr a. spec fr (view w) = Some (a, view w')))"
    using assms unfolding refines_def by blast
  then show "ok w'" and "r = Inr a \<Longrightarrow> \<exists>fr. spec fr (view w) = Some (a, view w')"
    and "view w' = view w \<or> (\<exists>fr a. spec fr (view w) = Some (a, view w'))"
    by (cases r; auto)+
qed

lemma refines_guard:
  assumes "silent ok view m" and "\<And>a. refines ok view (f a) spec"
  shows "refines ok view (abind m f) spec"
  unfolding refines_def
proof (intro allI impI)
  fix w r w'
  assume ok: "ok w" and run: "abind m f w = (r, w')"
  obtain x t where t: "m w = (x, t)" by (cases "m w")
  have s: "ok t" "view t = view w" using assms(1) ok t unfolding silent_def by force+
  show "ok w' \<and> (case r of Inl e \<Rightarrow> view w' = view w \<or> (\<exists>fr a. spec fr (view w) = Some (a, view w'))
      | Inr a \<Rightarrow> \<exists>fr. spec fr (view w) = Some (a, view w'))"
  proof (cases x)
    case (Inl e)
    then show ?thesis using run t s by (auto simp: abind_def)
  next
    case (Inr a)
    then have "f a t = (r, w')" using run t by (simp add: abind_def)
    then show ?thesis using refinesD [OF assms(2) s(1)] s(2) by (cases r) simp_all
  qed
qed

text \<open>The job of the request before its command and audit record are written.\<close>

definition resolves_to ::
  "request_command \<Rightarrow> execution_context \<Rightarrow> analysis_job \<times> bool \<times> bool \<Rightarrow> request_view \<Rightarrow> request_view \<Rightarrow> bool" where
  "resolves_to cmd cx r v v' \<longleftrightarrow> (case r of (job, replayed, created) \<Rightarrow> \<forall>auditAt auditId. \<exists>fr.
     spec_request cmd cx fr v = Some (result_for job replayed,
       if created then with_audit \<lparr>au_id = auditId, au_workspaceId = cx_workspaceId cx, au_actorPrincipalId = cx_principalId cx,
           au_action = ''analysis.requested'', au_targetId = Some (job_id job), au_afterHash = Some (rc_requestDigest cmd),
           au_occurredAt = auditAt\<rparr> (with_execute (cx_workspaceId cx) job v') else v'))"

lemma created_resolves:
  assumes id: "\<forall>fr. spec_identity cmd cx (fr\<lparr>fr_identity := k\<rparr>) v = Some (i, v1)"
    and none: "rv_requests v (cx_workspaceId cx, rc_idempotencyKeyDigest cmd) = None"
    and job: "v2 = with_job job v1" "rv_jobs v1 (job_id job) = None" "rv_runs v1 (aid_id i, 0) = None"
      "identity_in (cx_workspaceId cx) (aid_id i) v1 \<noteq> None"
      "job = \<lparr>job_id = job_id job, job_workspace = cx_workspaceId cx, job_identity = aid_id i, runOrdinal = 0, job_state = JQueued,
        job_createdAt = occurredAt, job_updatedAt = occurredAt\<rparr>"
    and v': "v' = with_request (cx_workspaceId cx) (rc_idempotencyKeyDigest cmd) (rc_requestDigest cmd) (job_id job) v2"
  shows "resolves_to cmd cx (job, False, True) v v'"
  unfolding resolves_to_def split_conv
proof (intro allI)
  fix auditAt auditId
  let ?fr = "\<lparr>fr_identity = k, fr_job = job_id job, fr_at = occurredAt, fr_audit = auditId, fr_auditAt = auditAt\<rparr>"
  have "spec_identity cmd cx ?fr v = Some (i, v1)"
    using id [rule_format, of ?fr] by simp
  moreover have "spec_run cx ''analysis.requested'' (Some (rc_requestDigest cmd)) (aid_id i) 0 ?fr v1 =
      Some (job, with_audit (the_audit cx ''analysis.requested'' (job_id job) (Some (rc_requestDigest cmd)) ?fr)
        (with_execute (cx_workspaceId cx) job v2))"
    unfolding spec_run_def Let_def using job by simp
  ultimately have "spec_request cmd cx ?fr v = Some (result_for job False,
      with_request (cx_workspaceId cx) (rc_idempotencyKeyDigest cmd) (rc_requestDigest cmd) (job_id job)
        (with_audit (the_audit cx ''analysis.requested'' (job_id job) (Some (rc_requestDigest cmd)) ?fr)
          (with_execute (cx_workspaceId cx) job v2)))"
    unfolding spec_request_def Let_def using none job(3) by simp
  then show "\<exists>fr. spec_request cmd cx fr v = Some (result_for job False,
       if True then with_audit \<lparr>au_id = auditId, au_workspaceId = cx_workspaceId cx, au_actorPrincipalId = cx_principalId cx,
           au_action = ''analysis.requested'', au_targetId = Some (job_id job), au_afterHash = Some (rc_requestDigest cmd),
           au_occurredAt = auditAt\<rparr> (with_execute (cx_workspaceId cx) job v') else v')"
    unfolding v' by (intro exI [of _ ?fr]) (simp add: the_audit_def with_request_def with_audit_def with_execute_def)
qed

locale request_store =
  fixes P :: "'w app_ports" and ok :: "'w \<Rightarrow> bool" and view :: "'w \<Rightarrow> request_view"
  assumes next_unseen: "\<And>k. sees ok view (ap_next P k) unseen"
    and guard_silent: "\<And>cx p. silent ok view (ap_require P cx p)"
    and lock_unseen: "\<And>ws key. sees ok view (ap_lockKey P ws key) unseen"
    and find_key: "\<And>ws key. sees ok view (ap_findKey P ws key) (\<lambda>r v v'. r = rv_requests v (ws, key) \<and> v' = v)"
    and record_key: "\<And>ws key d j occurredAt. sees ok view (ap_recordKey P ws key d j occurredAt)
      (\<lambda>_ v v'. rv_requests v (ws, key) = None \<and> v' = with_request ws key d j v)"
    and find_identity: "\<And>i occurredAt. sees ok view (ap_identity P i occurredAt) (\<lambda>r v v'.
      case rv_hashes v (aid_workspaceId i, aid_identityHash i) of
        None \<Rightarrow> r = i \<and> v' = with_identity i v \<and> rv_identities v (aid_id i) = None
      | Some k \<Rightarrow> rv_identities v k = Some r \<and> v' = v \<and>
          aid_analysisProfileVersionId r = aid_analysisProfileVersionId i \<and> aid_caseSnapshotId r = aid_caseSnapshotId i)"
    and job_by_ordinal: "\<And>ws i n. sees ok view (ap_jobByOrdinal P ws i n) (\<lambda>r v v'. v' = v \<and>
      r = (case rv_runs v (i, n) of None \<Rightarrow> None | Some j \<Rightarrow> job_in ws j v))"
    and create_job: "\<And>j. sees ok view (ap_createJob P j) (\<lambda>_ v v'. v' = with_job j v \<and> rv_jobs v (job_id j) = None \<and>
      rv_runs v (job_identity j, runOrdinal j) = None \<and> identity_in (job_workspace j) (job_identity j) v \<noteq> None)"
    and lock_rerun: "\<And>ws i. sees ok view (ap_lockForRerun P ws i) (\<lambda>(x, n) v v'. v' = v \<and> aid_id x = i \<and> 0 \<le> n \<and>
      (n = 0 \<or> rv_runs v (i, n - 1) \<noteq> None))"
    and find_job: "\<And>ws j. sees ok view (ap_findJob P ws j) (\<lambda>r v v'. r = job_in ws j v \<and> v' = v \<and>
      (\<forall>job. r = Some job \<longrightarrow> job_id job = j))"
    and update_job: "\<And>j. sees ok view (ap_updateJob P j) (\<lambda>_ v v'. \<exists>old. job_in (job_workspace j) (job_id j) v = Some old \<and>
      v' = v\<lparr>rv_jobs := (rv_jobs v)(job_id j \<mapsto> old\<lparr>job_state := job_state j, job_updatedAt := job_updatedAt j\<rparr>)\<rparr>)"
    and append_command: "\<And>e. sees ok view (ap_append P e) (\<lambda>_ v v'. v' = with_command e v)"
    and append_audit_record: "\<And>a. sees ok view (ap_audit P a) (\<lambda>_ v v'. v' = with_audit a v)"
    and profile_unseen: "\<And>ws i ver. sees ok view (ap_findProfile P ws i ver) unseen"
    and intent_unseen: "\<And>i ws j prof target h st occurredAt. sees ok view (ap_createIntent P i ws j prof target h st occurredAt) unseen"
    and approve_unseen: "\<And>ws i actor occurredAt. sees ok view (ap_approve P ws i actor occurredAt) unseen"
    and bind_unseen: "\<And>ws j res. sees ok view (ap_bindResult P ws j res) unseen"
    and ready_unseen: "\<And>ws j. sees ok view (ap_readyIntents P ws j) unseen"
    and find_intent_unseen: "\<And>ws i. sees ok view (ap_findIntent P ws i) unseen"
    and enqueue_command: "\<And>e. sees ok view (ap_enqueuePublication P e) (\<lambda>_ v v'. v' = v \<or> v' = with_command e v)"
    and rollback: "\<And>s w. ok s \<Longrightarrow> ok (snd (ap_settle P False s w)) \<and> view (snd (ap_settle P False s w)) = view s"
    and commit: "\<And>s w w' x. ok s \<Longrightarrow> ok w \<Longrightarrow> ap_settle P True s w = (x, w') \<Longrightarrow> ok w' \<and>
      (view w' = view w \<or> x \<noteq> None \<and> view w' = view s)"
begin

lemma in_transaction_refines:
  assumes "sees ok view body (\<lambda>a v v'. \<exists>fr. spec fr v = Some (a, v'))"
  shows "refines ok view (in_transaction P body) spec"
  unfolding refines_def
proof (intro allI impI)
  fix s r w'
  assume ok: "ok s" and run: "in_transaction P body s = (r, w')"
  obtain x w where body: "body s = (x, w)" by (cases "body s")
  show "ok w' \<and> (case r of Inl e \<Rightarrow> view w' = view s \<or> (\<exists>fr a. spec fr (view s) = Some (a, view w'))
      | Inr a \<Rightarrow> \<exists>fr. spec fr (view s) = Some (a, view w'))"
  proof (cases x)
    case (Inl e)
    then show ?thesis using run body rollback [OF ok, of w] by (auto simp: in_transaction_def)
  next
    case (Inr a)
    obtain y w'' where settle: "ap_settle P True s w = (y, w'')" by (cases "ap_settle P True s w")
    have "ok w" and step: "\<exists>fr. spec fr (view s) = Some (a, view w)"
      using seesD [OF assms ok] body Inr by blast+
    then have "ok w''" "view w'' = view w \<or> y \<noteq> None \<and> view w'' = view s" using commit [OF ok _ settle] by simp_all
    moreover have "w'' = w'" "r = (case y of None \<Rightarrow> Inr a | Some e \<Rightarrow> Inl e)"
      using run body Inr settle by (auto simp: in_transaction_def split: option.splits)
    ultimately show ?thesis using step by (cases y) auto
  qed
qed

lemma next_id_unseen: "sees ok view (next_id P k) unseen"
  unfolding next_id_def by (rule sees_bindI [OF next_unseen sees_lift]) (simp add: unseen_def)

lemma append_execute_sees:
  "sees ok view (append_execute P cx job occurredAt) (\<lambda>_ v v'. v' = with_execute (cx_workspaceId cx) job v)"
proof -
  have append: "sees ok view (abind (issue_envelope P e) (ap_append P)) (\<lambda>_ v v'. v' = with_execute (en_workspaceId e) job v)"
    if "en_payload e = AnalysisExecute (job_id job) (job_identity job)" for e
    unfolding issue_envelope_def
  proof (rule sees_bindI [OF sees_lift append_command], elim conjE)
    fix e' v v' v''
    assume "create_envelope (ap_date P) (envelope_value e) = Inr e'" "v' = v" "v'' = with_command e' v'"
    then show "v'' = with_execute (en_workspaceId e) job v"
      using issued_command [OF _ that] by (simp add: with_execute_def)
  qed
  show ?thesis
    unfolding append_execute_def
    by (rule sees_skip [OF next_id_unseen], rule sees_bindI [OF sees_lift append]) (simp_all add: with_execute_def)
qed

lemma append_audit_sees:
  "sees ok view (append_audit P cx action target afterHash occurredAt)
     (\<lambda>_ v v'. \<exists>i. v' = with_audit (the_audit cx action target afterHash \<lparr>fr_identity = [], fr_job = [], fr_at = [], fr_audit = i, fr_auditAt = occurredAt\<rparr>) v)"
  unfolding append_audit_def
  by (rule sees_bindI [OF next_id_unseen append_audit_record]) (auto simp: unseen_def the_audit_def)

lemma new_job_sees:
  "sees ok view (new_job P cx i n occurredAt) (\<lambda>job v v'. v' = with_job job v \<and> rv_jobs v (job_id job) = None \<and>
     rv_runs v (i, n) = None \<and> identity_in (cx_workspaceId cx) i v \<noteq> None \<and>
     job = \<lparr>job_id = job_id job, job_workspace = cx_workspaceId cx, job_identity = i, runOrdinal = n, job_state = JQueued,
            job_createdAt = occurredAt, job_updatedAt = occurredAt\<rparr>)"
  unfolding new_job_def Let_def
  by (rule sees_skip [OF next_id_unseen], rule sees_bindI [OF create_job sees_ret]) simp

text \<open>The three steps of a new run.\<close>

lemma new_run_sees:
  "sees ok view (abind (new_job P cx i n occurredAt) (\<lambda>job.
     abind (append_execute P cx job occurredAt) (\<lambda>_.
     abind (append_audit P cx action (job_id job) afterHash occurredAt) (\<lambda>_. ret job))))
   (\<lambda>job v v'. \<exists>fr. \<forall>k. spec_run cx action afterHash i n (fr\<lparr>fr_identity := k\<rparr>) v = Some (job, v'))"
proof (rule sees_bindI [OF new_job_sees sees_bind [OF append_execute_sees sees_bind [OF append_audit_sees sees_ret]]], elim conjE exE)
  fix job b v v1 v2 a2 a3 v3 v4 j
  assume j: "v1 = with_job job v" "rv_jobs v (job_id job) = None" "rv_runs v (i, n) = None"
      "identity_in (cx_workspaceId cx) i v \<noteq> None"
      "job = \<lparr>job_id = job_id job, job_workspace = cx_workspaceId cx, job_identity = i, runOrdinal = n, job_state = JQueued,
            job_createdAt = occurredAt, job_updatedAt = occurredAt\<rparr>"
    and e: "v3 = with_execute (cx_workspaceId cx) job v1"
    and a: "v4 = with_audit (the_audit cx action (job_id job) afterHash \<lparr>fr_identity = [], fr_job = [], fr_at = [], fr_audit = j, fr_auditAt = occurredAt\<rparr>) v3"
    and r: "b = job" "v2 = v4"
  let ?fr = "\<lparr>fr_identity = [], fr_job = job_id job, fr_at = occurredAt, fr_audit = j, fr_auditAt = occurredAt\<rparr>"
  have "spec_run cx action afterHash i n (?fr\<lparr>fr_identity := k\<rparr>) v = Some (b, v2)" for k
    unfolding spec_run_def Let_def using j e a r by (simp add: the_audit_def)
  then show "\<exists>fr. \<forall>k. spec_run cx action afterHash i n (fr\<lparr>fr_identity := k\<rparr>) v = Some (b, v2)"
    by (intro exI [of _ ?fr]) simp
qed

lemma request_identity_sees:
  "sees ok view (request_identity P cmd cx occurredAt) (\<lambda>i v v'. \<exists>k. \<forall>fr. spec_identity cmd cx (fr\<lparr>fr_identity := k\<rparr>) v = Some (i, v'))"
  unfolding request_identity_def
  by (rule sees_skip [OF next_id_unseen], rule sees_mono [OF find_identity])
    (rule exI, rule allI, auto simp: spec_identity_def proposed_identity_def Let_def split: option.splits)

lemma replayed_job_sees:
  "sees ok view (replayed_job P cmd cx prior) (\<lambda>job v v'. v' = v \<and> fst prior = rc_requestDigest cmd \<and>
     job_in (cx_workspaceId cx) (snd prior) v = Some job)"
proof (cases "fst prior = rc_requestDigest cmd")
  case True
  have "sees ok view (case found of None \<Rightarrow> throw IdempotencyResourceMissing | Some job \<Rightarrow> ret job)
      (\<lambda>job v v'. found = Some job \<and> v' = v)" for found
    by (cases found) (auto intro: sees_throw sees_mono [OF sees_ret])
  then have "sees ok view (abind (ap_findJob P (cx_workspaceId cx) (snd prior)) (\<lambda>found.
      case found of None \<Rightarrow> throw IdempotencyResourceMissing | Some job \<Rightarrow> ret job))
    (\<lambda>job v v'. v' = v \<and> job_in (cx_workspaceId cx) (snd prior) v = Some job)"
    by (rule sees_bindI [OF find_job]) auto
  then show ?thesis using True by (simp add: replayed_job_def)
qed (simp add: replayed_job_def sees_throw)

lemma request_key_sees:
  "sees ok view (record_request P cmd cx job occurredAt) (\<lambda>_ v v'.
     v' = with_request (cx_workspaceId cx) (rc_idempotencyKeyDigest cmd) (rc_requestDigest cmd) (job_id job) v)"
  unfolding record_request_def by (rule sees_mono [OF record_key]) simp

lemma request_in_transaction_sees: "sees ok view (request_in_transaction P cmd cx) (resolved cmd cx)"
proof -
  let ?ws = "cx_workspaceId cx"
  have job: "sees ok view (case existing of Some job \<Rightarrow> ret job
       | None \<Rightarrow> abind (new_job P cx i 0 occurredAt) (\<lambda>job.
           abind (append_execute P cx job occurredAt) (\<lambda>_.
           abind (append_audit P cx ''analysis.requested'' (job_id job) (Some (rc_requestDigest cmd)) occurredAt) (\<lambda>_. ret job))))
     (\<lambda>job v v'. case existing of Some j \<Rightarrow> job = j \<and> v' = v
       | None \<Rightarrow> \<exists>fr. \<forall>k. spec_run cx ''analysis.requested'' (Some (rc_requestDigest cmd)) i 0 (fr\<lparr>fr_identity := k\<rparr>) v = Some (job, v'))"
    for existing i occurredAt
    using sees_ret new_run_sees by (cases existing) simp_all
  have fresh: "sees ok view (abind (reading (ap_now P)) (\<lambda>occurredAt.
         abind (request_identity P cmd cx occurredAt) (\<lambda>identity.
         abind (ap_jobByOrdinal P ?ws (aid_id identity) 0) (\<lambda>existing.
         abind (case existing of
             Some job \<Rightarrow> ret job
           | None \<Rightarrow> abind (new_job P cx (aid_id identity) 0 occurredAt) (\<lambda>job.
               abind (append_execute P cx job occurredAt) (\<lambda>_.
               abind (append_audit P cx ''analysis.requested'' (job_id job) (Some (rc_requestDigest cmd)) occurredAt) (\<lambda>_.
               ret job)))) (\<lambda>job.
         abind (record_request P cmd cx job occurredAt) (\<lambda>_.
         ret \<lparr>rr_analysisJobId = job_id job, rr_analysisIdentityId = job_identity job, rr_replayed = False\<rparr>))))))
     (\<lambda>r v v'. rv_requests v (?ws, rc_idempotencyKeyDigest cmd) = None \<longrightarrow> resolved cmd cx r v v')"
  proof (rule sees_skip [OF sees_reading], rule sees_bindI [OF request_identity_sees sees_bind [OF job_by_ordinal
        sees_bind [OF job sees_bind [OF request_key_sees sees_ret]]]], elim exE conjE, rule impI)
    fix i r and v v1 v' v2 v3 v4 :: request_view and existing job k
    assume id: "\<forall>fr. spec_identity cmd cx (fr\<lparr>fr_identity := k\<rparr>) v = Some (i, v1)"
      and ex: "v2 = v1" "existing = (case rv_runs v1 (aid_id i, 0) of None \<Rightarrow> None | Some j \<Rightarrow> job_in ?ws j v1)"
      and run: "case existing of None \<Rightarrow> \<exists>fr. \<forall>k. spec_run cx ''analysis.requested'' (Some (rc_requestDigest cmd)) (aid_id i) 0
            (fr\<lparr>fr_identity := k\<rparr>) v2 = Some (job, v3) | Some j \<Rightarrow> job = j \<and> v3 = v2"
      and res: "v4 = with_request ?ws (rc_idempotencyKeyDigest cmd) (rc_requestDigest cmd) (job_id job) v3"
        "r = \<lparr>rr_analysisJobId = job_id job, rr_analysisIdentityId = job_identity job, rr_replayed = False\<rparr>" "v' = v4"
      and new: "rv_requests v (?ws, rc_idempotencyKeyDigest cmd) = None"
    show "resolved cmd cx r v v'"
    proof (cases existing)
      case (Some j)
      then show ?thesis using id ex run res new unfolding resolved_def spec_request_def Let_def result_for_def
        by (intro exI [of _ "undefined\<lparr>fr_identity := k\<rparr>"]) (simp split: option.splits)
    next
      case None
      then obtain fr where fr: "spec_run cx ''analysis.requested'' (Some (rc_requestDigest cmd)) (aid_id i) 0
            (fr\<lparr>fr_identity := k\<rparr>) v1 = Some (job, v3)" using run ex by auto
      then have "rv_runs v1 (aid_id i, 0) = None" by (auto simp: spec_run_def Let_def split: if_splits)
      then show ?thesis using id ex fr res new unfolding resolved_def spec_request_def Let_def result_for_def
        by (intro exI [of _ "fr\<lparr>fr_identity := k\<rparr>"]) simp
    qed
  qed
  show ?thesis
    unfolding request_in_transaction_def
  proof (rule sees_skip [OF sees_throw_when], rule sees_skip [OF lock_unseen],
      rule sees_bindI [OF find_key, where S = "\<lambda>prior r v v'. prior = rv_requests v (?ws, rc_idempotencyKeyDigest cmd) \<longrightarrow> resolved cmd cx r v v'"])
    fix prior :: "(string \<times> string) option"
    show "sees ok view (case prior of None \<Rightarrow> abind (reading (ap_now P)) (\<lambda>occurredAt.
         abind (request_identity P cmd cx occurredAt) (\<lambda>identity.
         abind (ap_jobByOrdinal P ?ws (aid_id identity) 0) (\<lambda>existing.
         abind (case existing of
             Some job \<Rightarrow> ret job
           | None \<Rightarrow> abind (new_job P cx (aid_id identity) 0 occurredAt) (\<lambda>job.
               abind (append_execute P cx job occurredAt) (\<lambda>_.
               abind (append_audit P cx ''analysis.requested'' (job_id job) (Some (rc_requestDigest cmd)) occurredAt) (\<lambda>_.
               ret job)))) (\<lambda>job.
         abind (record_request P cmd cx job occurredAt) (\<lambda>_.
         ret \<lparr>rr_analysisJobId = job_id job, rr_analysisIdentityId = job_identity job, rr_replayed = False\<rparr>)))))
       | Some p \<Rightarrow> abind (replayed_job P cmd cx p) (\<lambda>job.
           ret \<lparr>rr_analysisJobId = job_id job, rr_analysisIdentityId = job_identity job, rr_replayed = True\<rparr>))
      (\<lambda>r v v'. prior = rv_requests v (?ws, rc_idempotencyKeyDigest cmd) \<longrightarrow> resolved cmd cx r v v')"
    proof (cases prior)
      case None
      then show ?thesis using fresh by (auto elim: sees_mono)
    next
      case (Some p)
      have "sees ok view (abind (replayed_job P cmd cx p) (\<lambda>job.
           ret \<lparr>rr_analysisJobId = job_id job, rr_analysisIdentityId = job_identity job, rr_replayed = True\<rparr>))
        (\<lambda>r v v'. Some p = rv_requests v (?ws, rc_idempotencyKeyDigest cmd) \<longrightarrow> resolved cmd cx r v v')"
        by (rule sees_bindI [OF replayed_job_sees sees_ret])
          (cases p, auto simp: resolved_def spec_request_def Let_def result_for_def dest: sym)
      then show ?thesis using Some by simp
    qed
  qed simp
qed

section \<open>The other use cases\<close>

lemma authorize_silent: "silent ok view (authorize P cx p)"
  unfolding authorize_def by (rule silent_bind [OF silent_throw_when guard_silent])

lemma request_refines: "refines ok view (request_analysis P cmd cx) (spec_request cmd cx)"
  unfolding request_analysis_def
  by (rule refines_guard [OF authorize_silent], rule refines_guard [OF silent_throw_when],
      rule in_transaction_refines) (rule request_in_transaction_sees [unfolded resolved_def])

lemma rerun_refines: "refines ok view (force_rerun P i cx) (spec_rerun i cx)"
  unfolding force_rerun_def
proof (rule refines_guard [OF authorize_silent], rule refines_guard [OF silent_throw_when], rule in_transaction_refines,
    rule sees_bindI [OF lock_rerun])
  fix x :: "analysis_identity \<times> int"
  obtain identity n where x: "x = (identity, n)" by (cases x)
  show "sees ok view (case x of (identity, nextRunOrdinal) \<Rightarrow> abind (reading (ap_now P)) (\<lambda>occurredAt.
        abind (new_job P cx (aid_id identity) nextRunOrdinal occurredAt) (\<lambda>job.
        abind (append_execute P cx job occurredAt) (\<lambda>_.
        abind (append_audit P cx ''analysis.forceRerun'' (job_id job) None occurredAt) (\<lambda>_. ret job)))))
    (\<lambda>job v v'. \<exists>fr. spec_run cx ''analysis.forceRerun'' None (aid_id (fst x)) (snd x) fr v = Some (job, v'))"
    unfolding x by simp (rule sees_skip [OF sees_reading], rule sees_mono [OF new_run_sees], blast)
next
  fix x job and v v' v'' :: request_view
  assume "(case x of (x, n) \<Rightarrow> \<lambda>v v'. v' = v \<and> aid_id x = i \<and> 0 \<le> n \<and> (n = 0 \<or> rv_runs v (i, n - 1) \<noteq> None)) v v'"
    and "\<exists>fr. spec_run cx ''analysis.forceRerun'' None (aid_id (fst x)) (snd x) fr v' = Some (job, v'')"
  then obtain fr where "spec_run cx ''analysis.forceRerun'' None i (snd x) fr v = Some (job, v'')" "0 \<le> snd x"
      "snd x = 0 \<or> rv_runs v (i, snd x - 1) \<noteq> None" by (cases x) auto
  then show "\<exists>fr. spec_rerun i cx fr v = Some (job, v'')"
    by (intro exI [of _ "(snd x, fr)"]) (auto simp: spec_rerun_def)
qed

lemma cancel_refines: "refines ok view (cancel_job P j cx) (spec_cancel j cx)"
  unfolding cancel_job_def
proof (rule refines_guard [OF authorize_silent], rule refines_guard [OF silent_throw_when], rule in_transaction_refines,
    rule sees_bindI [OF find_job, where S = "\<lambda>found b v v'. found = job_in (cx_workspaceId cx) j v \<longrightarrow>
       (\<forall>job. found = Some job \<longrightarrow> job_id job = j) \<longrightarrow> (\<exists>fr. spec_cancel j cx fr v = Some (b, v'))"])
  fix found :: "analysis_job option"
  have cancelled: "sees ok view (abind (reading (ap_now P)) (\<lambda>occurredAt.
              abind (lift_result JobRejected (transition_job job JCancelled occurredAt)) (\<lambda>cancelled.
              abind (ap_updateJob P cancelled) (\<lambda>_.
              abind (append_audit P cx ''analysis.job.cancelled'' (job_id cancelled) None occurredAt) (\<lambda>_. ret True)))))
     (\<lambda>b v v'. Some job = job_in (cx_workspaceId cx) j v \<longrightarrow> job_id job = j \<longrightarrow> (\<exists>fr. spec_cancel j cx fr v = Some (b, v')))"
    if open_job: "job_state job = JQueued \<or> job_state job = JRunning" for job
  proof (rule sees_skip [OF sees_reading], rule sees_bindI [OF sees_lift sees_bind [OF update_job sees_bind [OF append_audit_sees sees_ret]]],
      elim exE conjE, intro impI)
    fix occurredAt cancelled b old k and v v1 v2 v3 v4 v5 :: request_view
    assume t: "transition_job job JCancelled occurredAt = Inr cancelled" and v: "v1 = v" "v4 = v3" "b = True"
      and old: "job_in (job_workspace cancelled) (job_id cancelled) v1 = Some old"
      and v2: "v2 = v1\<lparr>rv_jobs := (rv_jobs v1)(job_id cancelled \<mapsto> old\<lparr>job_state := job_state cancelled, job_updatedAt := job_updatedAt cancelled\<rparr>)\<rparr>"
      and v3: "v3 = with_audit (the_audit cx ''analysis.job.cancelled'' (job_id cancelled) None
          \<lparr>fr_identity = [], fr_job = [], fr_at = [], fr_audit = k, fr_auditAt = occurredAt\<rparr>) v2"
      and job: "Some job = job_in (cx_workspaceId cx) j v" "job_id job = j"
    have c: "cancelled = job\<lparr>job_state := JCancelled, job_updatedAt := occurredAt\<rparr>"
      using t by (auto simp: transition_job_def Let_def split: if_splits)
    have ws: "job_workspace job = cx_workspaceId cx" using job(1) by (auto simp: job_in_def split: option.splits if_splits)
    then have "old = job" using old job v c by simp
    then have "spec_cancel j cx \<lparr>fr_identity = [], fr_job = [], fr_at = occurredAt, fr_audit = k, fr_auditAt = occurredAt\<rparr> v = Some (b, v4)"
      using v v2 v3 c job open_job unfolding spec_cancel_def job(1) [symmetric] by (auto simp: the_audit_def)
    then show "\<exists>fr. spec_cancel j cx fr v = Some (b, v4)" by blast
  qed
  show "sees ok view (case found of None \<Rightarrow> ret False
        | Some job \<Rightarrow> if job_state job \<noteq> JQueued \<and> job_state job \<noteq> JRunning then ret False
            else abind (reading (ap_now P)) (\<lambda>occurredAt.
              abind (lift_result JobRejected (transition_job job JCancelled occurredAt)) (\<lambda>cancelled.
              abind (ap_updateJob P cancelled) (\<lambda>_.
              abind (append_audit P cx ''analysis.job.cancelled'' (job_id cancelled) None occurredAt) (\<lambda>_. ret True)))))
     (\<lambda>b v v'. found = job_in (cx_workspaceId cx) j v \<longrightarrow> (\<forall>job. found = Some job \<longrightarrow> job_id job = j) \<longrightarrow>
        (\<exists>fr. spec_cancel j cx fr v = Some (b, v')))"
  proof (cases found)
    case None
    then show ?thesis by (auto simp: spec_cancel_def intro: sees_mono [OF sees_ret])
  next
    case (Some job)
    show ?thesis
    proof (cases "job_state job = JQueued \<or> job_state job = JRunning")
      case True
      then show ?thesis using Some cancelled [OF True] by (auto elim: sees_mono)
    next
      case False
      then show ?thesis using Some by (auto simp: spec_cancel_def intro!: sees_mono [OF sees_ret] dest: sym)
    qed
  qed
qed auto

section \<open>Requests with a publication\<close>

lemma enqueue_unseen: "sees ok view (enqueue_intent P i cx occurredAt) unseen"
proof -
  have command: "with_command e' v = v"
    if "create_envelope date (envelope_value e) = Inr e'" "en_payload e = PublicationExecute k" for date e e' k and v :: request_view
    using issued_payload_type [OF that(1)] that(2) by (cases "en_payload e'") (simp_all add: with_command_def)
  have issue: "sees ok view (issue_envelope P e) (\<lambda>e' v v'. v' = v \<and> create_envelope (ap_date P) (envelope_value e) = Inr e')" for e
    unfolding issue_envelope_def by (rule sees_mono [OF sees_lift]) simp
  have envelope: "sees ok view (publication_envelope P i ws c d t occurredAt)
      (\<lambda>e v v'. v' = v \<and> with_command e v = v)" for ws c d t
    unfolding publication_envelope_def
    by (rule sees_bindI [OF sees_lift sees_bind [OF sees_lift issue]]) (auto intro: command)
  show ?thesis
    unfolding enqueue_intent_def
    by (rule sees_bindI [OF envelope enqueue_command]) (auto simp: unseen_def)
qed

lemma resolve_intent_unseen: "sees ok view (resolve_intent P pu cx job occurredAt) unseen"
proof -
  have "sees ok view (case found of None \<Rightarrow> throw ProfileNotFound
        | Some profile \<Rightarrow> abind (next_id P ''publicationIntent'') (\<lambda>i.
            abind (ap_createIntent P i (cx_workspaceId cx) (job_id job) profile (pu_target pu) (pu_intentHash pu)
                     (initial_publication_state (ppr_mode profile)) occurredAt) (\<lambda>intent. ret (Some intent)))) unseen" for found
  proof (cases found)
    case (Some profile)
    show ?thesis unfolding Some option.case
      by (rule sees_skip [OF next_id_unseen], rule sees_skip [OF intent_unseen], rule sees_mono [OF sees_ret]) (simp add: unseen_def)
  qed (simp add: sees_throw)
  from sees_skip [OF profile_unseen this] show ?thesis
    unfolding resolve_intent_def by (cases "pu_dryRun pu") (simp_all only: if_True if_False sees_ret_unseen)
qed

lemma resolve_request_sees: "sees ok view (resolve_request P cmd cx) (resolves_to cmd cx)"
proof -
  let ?ws = "cx_workspaceId cx"
  let ?fresh = "abind (reading (ap_now P)) (\<lambda>occurredAt.
         abind (request_identity P cmd cx occurredAt) (\<lambda>identity.
         abind (ap_jobByOrdinal P ?ws (aid_id identity) 0) (\<lambda>existing.
         abind (case existing of
             Some job \<Rightarrow> ret (job, False)
           | None \<Rightarrow> abind (new_job P cx (aid_id identity) 0 occurredAt) (\<lambda>job. ret (job, True))) (\<lambda>(job, created).
         abind (record_request P cmd cx job occurredAt) (\<lambda>_. ret (job, False, created))))))"
  have job: "sees ok view (case existing of
             Some job \<Rightarrow> ret (job, False)
           | None \<Rightarrow> abind (new_job P cx i 0 occurredAt) (\<lambda>job. ret (job, True)))
     (\<lambda>r v v'. case existing of Some j \<Rightarrow> r = (j, False) \<and> v' = v
       | None \<Rightarrow> snd r \<and> v' = with_job (fst r) v \<and> rv_jobs v (job_id (fst r)) = None \<and> rv_runs v (i, 0) = None \<and>
           identity_in ?ws i v \<noteq> None \<and> (\<exists>t. fst r = \<lparr>job_id = job_id (fst r), job_workspace = ?ws, job_identity = i, runOrdinal = 0,
             job_state = JQueued, job_createdAt = t, job_updatedAt = t\<rparr>))"
    for existing i occurredAt
  proof (cases existing)
    case None
    show ?thesis unfolding None option.case
      by (rule sees_bindI [OF new_job_sees sees_ret]) auto
  qed (simp add: sees_ret)
  have recorded: "sees ok view (case r of (job, created) \<Rightarrow> abind (record_request P cmd cx job occurredAt) (\<lambda>_. ret (job, False, created)))
     (\<lambda>x v v'. x = (fst r, False, snd r) \<and> v' = with_request ?ws (rc_idempotencyKeyDigest cmd) (rc_requestDigest cmd) (job_id (fst r)) v)"
    for r :: "analysis_job \<times> bool" and occurredAt
    by (cases r, simp) (rule sees_bindI [OF request_key_sees sees_ret], simp)
  have fresh: "sees ok view ?fresh
     (\<lambda>r v v'. None = rv_requests v (?ws, rc_idempotencyKeyDigest cmd) \<longrightarrow> resolves_to cmd cx r v v')"
  proof (rule sees_skip [OF sees_reading], rule sees_bindI [OF request_identity_sees sees_bind [OF job_by_ordinal
        sees_bind [OF job recorded]]], elim exE conjE, rule impI)
    fix i x and v v1 v' v2 v3 :: request_view and existing k and r :: "analysis_job \<times> bool"
    assume id: "\<forall>fr. spec_identity cmd cx (fr\<lparr>fr_identity := k\<rparr>) v = Some (i, v1)"
      and ex: "v2 = v1" "existing = (case rv_runs v1 (aid_id i, 0) of None \<Rightarrow> None | Some j \<Rightarrow> job_in ?ws j v1)"
      and run: "case existing of None \<Rightarrow> snd r \<and> v3 = with_job (fst r) v2 \<and> rv_jobs v2 (job_id (fst r)) = None \<and>
           rv_runs v2 (aid_id i, 0) = None \<and> identity_in ?ws (aid_id i) v2 \<noteq> None \<and>
           (\<exists>t. fst r = \<lparr>job_id = job_id (fst r), job_workspace = ?ws, job_identity = aid_id i, runOrdinal = 0,
             job_state = JQueued, job_createdAt = t, job_updatedAt = t\<rparr>)
         | Some j \<Rightarrow> r = (j, False) \<and> v3 = v2"
      and res: "x = (fst r, False, snd r)" "v' = with_request ?ws (rc_idempotencyKeyDigest cmd) (rc_requestDigest cmd) (job_id (fst r)) v3"
      and "None = rv_requests v (?ws, rc_idempotencyKeyDigest cmd)"
    then have new: "rv_requests v (?ws, rc_idempotencyKeyDigest cmd) = None" by simp
    show "resolves_to cmd cx x v v'"
    proof (cases existing)
      case (Some j)
      then have "spec_request cmd cx (undefined\<lparr>fr_identity := k\<rparr>) v = Some (result_for j False, v')"
        using id ex run res new unfolding spec_request_def Let_def by (simp split: option.splits)
      then show ?thesis using Some run res by (auto simp: resolves_to_def)
    next
      case None
      then obtain t where "fst r = \<lparr>job_id = job_id (fst r), job_workspace = ?ws, job_identity = aid_id i, runOrdinal = 0,
             job_state = JQueued, job_createdAt = t, job_updatedAt = t\<rparr>" using run by auto
      then show ?thesis using None created_resolves [OF id new _ _ _ _ _ res(2)] run ex res(1) by simp
    qed
  qed
  have replay: "sees ok view (abind (replayed_job P cmd cx p) (\<lambda>job. ret (job, True, False)))
      (\<lambda>r v v'. Some p = rv_requests v (?ws, rc_idempotencyKeyDigest cmd) \<longrightarrow> resolves_to cmd cx r v v')" for p
    by (rule sees_bindI [OF replayed_job_sees sees_ret])
      (cases p, auto simp: resolves_to_def spec_request_def Let_def dest!: sym [of "Some _"])
  have known: "sees ok view (case prior of None \<Rightarrow> ?fresh | Some p \<Rightarrow> abind (replayed_job P cmd cx p) (\<lambda>job. ret (job, True, False)))
      (\<lambda>r v v'. prior = rv_requests v (?ws, rc_idempotencyKeyDigest cmd) \<longrightarrow> resolves_to cmd cx r v v')" for prior
    using fresh replay by (cases prior) simp_all
  show ?thesis
    unfolding resolve_request_def
    by (rule sees_skip [OF lock_unseen], rule sees_bindI [OF find_key known]) simp
qed

lemma publication_request_refines: "refines ok view (request_with_publication P cmd pu cx) (spec_publication cmd pu cx)"
proof -
  let ?ws = "cx_workspaceId cx"
  let ?audited = "\<lambda>job v v'. \<exists>i t. v' = with_audit \<lparr>au_id = i, au_workspaceId = ?ws, au_actorPrincipalId = cx_principalId cx,
           au_action = ''analysis.requested'', au_targetId = Some (job_id job), au_afterHash = Some (rc_requestDigest cmd),
           au_occurredAt = t\<rparr> (with_execute ?ws job v)"
  have effects: "sees ok view (if created then abind (append_execute P cx job occurredAt) (\<lambda>_.
                 append_audit P cx ''analysis.requested'' (job_id job) (Some (rc_requestDigest cmd)) occurredAt)
               else ret ()) (\<lambda>_ v v'. if created then ?audited job v v' else v' = v)" for created job occurredAt
  proof (cases created)
    case True
    then show ?thesis by simp (rule sees_bindI [OF append_execute_sees append_audit_sees], auto simp: the_audit_def)
  qed (simp, rule sees_mono [OF sees_ret], simp)
  have enqueue: "sees ok view (case intent of
            None \<Rightarrow> ret ()
          | Some i \<Rightarrow> if job_state job = JCompleted \<and> intent_state i = IPending
                      then enqueue_intent P (intent_id i) cx occurredAt else ret ()) unseen"
    for intent and job :: analysis_job and occurredAt
    by (cases intent) (simp_all add: enqueue_unseen sees_ret_unseen)
  have rest: "sees ok view (case x of (job, replayed, created) \<Rightarrow>
        abind (reading (ap_now P)) (\<lambda>occurredAt.
        abind (resolve_intent P pu cx job occurredAt) (\<lambda>intent.
        abind (if created then abind (append_execute P cx job occurredAt) (\<lambda>_.
                 append_audit P cx ''analysis.requested'' (job_id job) (Some (rc_requestDigest cmd)) occurredAt)
               else ret ()) (\<lambda>_.
        abind (case intent of
            None \<Rightarrow> ret ()
          | Some i \<Rightarrow> if job_state job = JCompleted \<and> intent_state i = IPending
                      then enqueue_intent P (intent_id i) cx occurredAt else ret ()) (\<lambda>_.
        ret \<lparr>prr_request = \<lparr>rr_analysisJobId = job_id job, rr_analysisIdentityId = job_identity job, rr_replayed = replayed\<rparr>,
             prr_publicationIntentId = map_option intent_id intent, prr_preview = pu_dryRun pu\<rparr>)))))
     (\<lambda>r v v'. (\<exists>k. r = \<lparr>prr_request = result_for (fst x) (fst (snd x)), prr_publicationIntentId = k, prr_preview = pu_dryRun pu\<rparr>) \<and>
        (if snd (snd x) then ?audited (fst x) v v' else v' = v))"
    for x :: "analysis_job \<times> bool \<times> bool"
  proof -
    obtain job replayed created where x: "x = (job, replayed, created)" by (cases x)
    show ?thesis unfolding x split_conv fst_conv snd_conv
      by (rule sees_skip [OF sees_reading], rule sees_skip [OF resolve_intent_unseen],
          rule sees_bindI [OF effects sees_bind [OF enqueue sees_ret]]) (auto simp: unseen_def result_for_def)
  qed
  show ?thesis
    unfolding request_with_publication_def
  proof (rule refines_guard [OF silent_throw_when], rule refines_guard [OF guard_silent], rule refines_guard [OF guard_silent],
      rule refines_guard [OF silent_throw_when], rule in_transaction_refines, rule sees_bindI [OF resolve_request_sees rest], elim conjE exE)
    fix x :: "analysis_job \<times> bool \<times> bool" and r k and v v1 v2 :: request_view
    obtain job replayed created where x: "x = (job, replayed, created)" by (cases x)
    assume res: "resolves_to cmd cx x v v1"
      and r: "r = \<lparr>prr_request = result_for (fst x) (fst (snd x)), prr_publicationIntentId = k, prr_preview = pu_dryRun pu\<rparr>"
      and eff: "if snd (snd x) then ?audited (fst x) v1 v2 else v2 = v1"
    have "\<exists>fr. spec_request cmd cx fr v = Some (result_for job replayed, v2)"
      using res eff unfolding x resolves_to_def split_conv fst_conv snd_conv by (cases created) auto
    then obtain fr where "spec_request cmd cx fr v = Some (result_for job replayed, v2)" by blast
    then show "\<exists>fr. spec_publication cmd pu cx fr v = Some (r, v2)"
      unfolding r x by (intro exI [of _ "(fr, k)"]) (simp add: spec_publication_def)
  qed
qed

end

end
