(* ===== verification/Request_History.thy ===== *)
theory Request_History
  imports Request_Refinement
begin

text \<open>
  Histories of requests: the consistency of the store, which every use case keeps, and what a later call finds of an
  earlier one.  First for the abstract operations, then, in the locale \<open>request_store\<close>, for sequences of calls of the
  use cases with any outcome.
\<close>

section \<open>Consistency\<close>

definition jobs_indexed :: "request_view \<Rightarrow> bool" where
  "jobs_indexed v \<longleftrightarrow> (\<forall>j job. rv_jobs v j = Some job \<longrightarrow> job_id job = j \<and> 0 \<le> runOrdinal job \<and>
     rv_runs v (job_identity job, runOrdinal job) = Some j \<and> identity_in (job_workspace job) (job_identity job) v \<noteq> None)"

definition runs_contiguous :: "request_view \<Rightarrow> bool" where
  "runs_contiguous v \<longleftrightarrow> (\<forall>i n j. rv_runs v (i, n) = Some j \<longrightarrow>
     (\<exists>job. rv_jobs v j = Some job \<and> job_identity job = i \<and> runOrdinal job = n) \<and> (n = 0 \<or> rv_runs v (i, n - 1) \<noteq> None))"

definition identities_indexed :: "request_view \<Rightarrow> bool" where
  "identities_indexed v \<longleftrightarrow>
     (\<forall>i x. rv_identities v i = Some x \<longrightarrow> aid_id x = i \<and> rv_hashes v (aid_workspaceId x, aid_identityHash x) = Some i) \<and>
     (\<forall>ws h i. rv_hashes v (ws, h) = Some i \<longrightarrow> (\<exists>x. rv_identities v i = Some x \<and> aid_workspaceId x = ws \<and> aid_identityHash x = h))"

definition requests_resolve :: "request_view \<Rightarrow> bool" where
  "requests_resolve v \<longleftrightarrow> (\<forall>ws key d j. rv_requests v (ws, key) = Some (d, j) \<longrightarrow>
     (\<exists>job. job_in ws j v = Some job \<and> runOrdinal job = 0))"

text \<open>Every job has one execute command, and there is no other.\<close>

definition commands_match :: "request_view \<Rightarrow> bool" where
  "commands_match v \<longleftrightarrow> distinct (map (\<lambda>(ws, j, i). j) (rv_commands v)) \<and>
     set (rv_commands v) = (\<lambda>(j, job). (job_workspace job, j, job_identity job)) ` Map.graph (rv_jobs v)"

definition consistent :: "request_view \<Rightarrow> bool" where
  "consistent v \<longleftrightarrow> jobs_indexed v \<and> runs_contiguous v \<and> identities_indexed v \<and> requests_resolve v \<and> commands_match v"

lemmas consistent_defs = jobs_indexed_def runs_contiguous_def identities_indexed_def requests_resolve_def commands_match_def

lemma consistent_empty: "consistent empty_view"
  by (simp add: consistent_def consistent_defs empty_view_def)

lemma consistent_audit [simp]: "consistent (with_audit a v) = consistent v"
  by (simp add: consistent_def consistent_defs with_audit_def identity_in_def job_in_def)

lemma job_in_Some: "job_in ws j v = Some job \<longleftrightarrow> rv_jobs v j = Some job \<and> job_workspace job = ws"
  by (auto simp: job_in_def split: option.splits)

lemma identity_in_Some: "identity_in ws i v = Some x \<longleftrightarrow> rv_identities v i = Some x \<and> aid_workspaceId x = ws"
  by (auto simp: identity_in_def split: option.splits)

lemma consistent_request:
  assumes "consistent v" and "job_in ws j v = Some job" and "runOrdinal job = 0"
  shows "consistent (with_request ws key d j v)"
  using assms by (auto simp: consistent_def consistent_defs with_request_def identity_in_def job_in_def split: option.splits)

lemma consistent_identity:
  assumes v: "consistent v" and "rv_identities v (aid_id i) = None" and "rv_hashes v (aid_workspaceId i, aid_identityHash i) = None"
  shows "consistent (with_identity i v)"
proof -
  have keep: "identity_in ws k v \<noteq> None \<Longrightarrow> identity_in ws k (with_identity i v) \<noteq> None" for ws k
    using assms(2) by (auto simp: identity_in_def with_identity_def split: option.splits)
  have jobs: "jobs_indexed (with_identity i v)"
    using v keep by (auto simp: consistent_def jobs_indexed_def with_identity_def)
  have "identities_indexed (with_identity i v)"
    unfolding identities_indexed_def
  proof (intro conjI allI impI)
    have old: "rv_hashes v (aid_workspaceId x, aid_identityHash x) = Some k \<and> aid_id x = k" if "rv_identities v k = Some x" for k x
      using v that unfolding consistent_def identities_indexed_def by blast
    fix k x
    assume row: "rv_identities (with_identity i v) k = Some x"
    show "aid_id x = k" using row old by (cases "k = aid_id i") (simp_all add: with_identity_def)
    show "rv_hashes (with_identity i v) (aid_workspaceId x, aid_identityHash x) = Some k"
    proof (cases "k = aid_id i")
      case True
      then show ?thesis using row by (simp add: with_identity_def)
    next
      case False
      then have "rv_hashes v (aid_workspaceId x, aid_identityHash x) = Some k" using row old by (simp add: with_identity_def)
      then show ?thesis using assms(3) by (auto simp: with_identity_def)
    qed
  next
    fix ws h k
    assume "rv_hashes (with_identity i v) (ws, h) = Some k"
    then have row: "((rv_hashes v)((aid_workspaceId i, aid_identityHash i) \<mapsto> aid_id i)) (ws, h) = Some k"
      by (simp add: with_identity_def)
    show "\<exists>x. rv_identities (with_identity i v) k = Some x \<and> aid_workspaceId x = ws \<and> aid_identityHash x = h"
    proof (cases "(ws, h) = (aid_workspaceId i, aid_identityHash i)")
      case True
      then show ?thesis using row by (simp add: with_identity_def)
    next
      case False
      then have "rv_hashes v (ws, h) = Some k" using row by (auto split: if_splits)
      then obtain x where x: "rv_identities v k = Some x" "aid_workspaceId x = ws" "aid_identityHash x = h"
        using v unfolding consistent_def identities_indexed_def by blast
      then have "k \<noteq> aid_id i" using assms(2) by auto
      then show ?thesis using x by (simp add: with_identity_def)
    qed
  qed
  with jobs show ?thesis
    using v by (auto simp: consistent_def runs_contiguous_def requests_resolve_def commands_match_def with_identity_def job_in_def)
qed

lemma consistent_run:
  assumes v: "consistent v" and new: "rv_jobs v (job_id job) = None" "rv_runs v (job_identity job, runOrdinal job) = None"
    and identity: "identity_in (job_workspace job) (job_identity job) v \<noteq> None"
    and ordinal: "0 \<le> runOrdinal job" "runOrdinal job = 0 \<or> rv_runs v (job_identity job, runOrdinal job - 1) \<noteq> None"
  shows "consistent (with_execute (job_workspace job) job (with_job job v))"
proof -
  let ?v = "with_execute (job_workspace job) job (with_job job v)"
  have "jobs_indexed ?v"
    unfolding jobs_indexed_def
  proof (intro allI impI)
    fix j job'
    assume row: "rv_jobs ?v j = Some job'"
    have keep: "identity_in ws i ?v = identity_in ws i v" for ws i
      by (simp add: identity_in_def with_execute_def with_job_def)
    show "job_id job' = j \<and> 0 \<le> runOrdinal job' \<and> rv_runs ?v (job_identity job', runOrdinal job') = Some j \<and>
       identity_in (job_workspace job') (job_identity job') ?v \<noteq> None"
    proof (cases "j = job_id job")
      case True
      then show ?thesis using row identity ordinal unfolding keep by (simp add: with_execute_def with_job_def)
    next
      case False
      then have "rv_jobs v j = Some job'" using row by (simp add: with_execute_def with_job_def)
      then have old: "job_id job' = j \<and> 0 \<le> runOrdinal job' \<and> rv_runs v (job_identity job', runOrdinal job') = Some j \<and>
          identity_in (job_workspace job') (job_identity job') v \<noteq> None"
        using v unfolding consistent_def jobs_indexed_def by blast
      then have "(job_identity job', runOrdinal job') \<noteq> (job_identity job, runOrdinal job)" using new by auto
      then show ?thesis using old unfolding keep by (auto simp: with_execute_def with_job_def)
    qed
  qed
  moreover have "runs_contiguous ?v"
    unfolding runs_contiguous_def
  proof (intro allI impI)
    fix i n j
    assume run: "rv_runs ?v (i, n) = Some j"
    show "(\<exists>job. rv_jobs ?v j = Some job \<and> job_identity job = i \<and> runOrdinal job = n) \<and> (n = 0 \<or> rv_runs ?v (i, n - 1) \<noteq> None)"
    proof (cases "(i, n) = (job_identity job, runOrdinal job)")
      case True
      then show ?thesis using run ordinal by (auto simp: with_execute_def with_job_def)
    next
      case False
      then have old: "rv_runs v (i, n) = Some j" using run by (auto simp: with_execute_def with_job_def)
      then obtain job' where job': "rv_jobs v j = Some job'" "job_identity job' = i" "runOrdinal job' = n"
        and prev: "n = 0 \<or> rv_runs v (i, n - 1) \<noteq> None" using v unfolding consistent_def runs_contiguous_def by blast
      have "j \<noteq> job_id job" using job' new by auto
      then show ?thesis using job' prev by (auto simp: with_execute_def with_job_def)
    qed
  qed
  moreover have "identities_indexed ?v"
    using v by (simp add: consistent_def identities_indexed_def with_execute_def with_job_def)
  moreover have "requests_resolve ?v"
    unfolding requests_resolve_def
  proof (intro allI impI)
    fix ws key d j
    assume "rv_requests ?v (ws, key) = Some (d, j)"
    then have "rv_requests v (ws, key) = Some (d, j)" by (simp add: with_execute_def with_job_def)
    then obtain job' where job': "rv_jobs v j = Some job'" "job_workspace job' = ws" "runOrdinal job' = 0"
      using v unfolding consistent_def requests_resolve_def job_in_Some by blast
    then have "j \<noteq> job_id job" using new by auto
    then show "\<exists>job. job_in ws j ?v = Some job \<and> runOrdinal job = 0"
      using job' by (simp add: job_in_Some with_execute_def with_job_def)
  qed
  moreover have "commands_match ?v"
  proof -
    have commands: "set (rv_commands v) = (\<lambda>(j, job). (job_workspace job, j, job_identity job)) ` Map.graph (rv_jobs v)"
      and once: "distinct (map (\<lambda>(ws, j, i). j) (rv_commands v))"
      using v unfolding consistent_def commands_match_def by blast+
    have all: "rv_commands ?v = rv_commands v @ [(job_workspace job, job_id job, job_identity job)]"
        "rv_jobs ?v = (rv_jobs v)(job_id job \<mapsto> job)"
      by (simp_all add: with_execute_def with_job_def)
    have "j \<noteq> job_id job" if "(ws, j, i) \<in> set (rv_commands v)" for ws j i
      using that new(1) unfolding commands by (auto simp: in_graphD dest: in_graphD)
    then have fresh: "job_id job \<notin> set (map (\<lambda>(ws, j, i). j) (rv_commands v))" by auto
    have rows: "Map.graph ((rv_jobs v)(job_id job \<mapsto> job)) = insert (job_id job, job) (Map.graph (rv_jobs v))"
      using new(1) by (simp add: graph_map_upd fun_upd_idem)
    show ?thesis
      unfolding commands_match_def all rows using commands once fresh by simp
  qed
  ultimately show ?thesis by (simp add: consistent_def)
qed

section \<open>The abstract operations keep the consistency\<close>

lemma spec_run_Some:
  "spec_run cx action h i n fr v = Some (job, v') \<longleftrightarrow>
     rv_jobs v (fr_job fr) = None \<and> rv_runs v (i, n) = None \<and> identity_in (cx_workspaceId cx) i v \<noteq> None \<and>
     job = \<lparr>job_id = fr_job fr, job_workspace = cx_workspaceId cx, job_identity = i, runOrdinal = n,
            job_state = JQueued, job_createdAt = fr_at fr, job_updatedAt = fr_at fr\<rparr> \<and>
     v' = with_audit (the_audit cx action (fr_job fr) h fr) (with_execute (cx_workspaceId cx) job (with_job job v))"
  by (auto simp: spec_run_def Let_def)

lemma spec_run_consistent:
  assumes "consistent v" and run: "spec_run cx action h i n fr v = Some (job, v')" and "0 \<le> n" "n = 0 \<or> rv_runs v (i, n - 1) \<noteq> None"
  shows "consistent v' \<and> job_in (cx_workspaceId cx) (job_id job) v' = Some job \<and> runOrdinal job = n"
proof -
  have job: "job_workspace job = cx_workspaceId cx" "job_identity job = i" "runOrdinal job = n" "rv_jobs v (job_id job) = None"
      "rv_runs v (i, n) = None" "identity_in (cx_workspaceId cx) i v \<noteq> None"
    and v': "v' = with_audit (the_audit cx action (fr_job fr) h fr) (with_execute (cx_workspaceId cx) job (with_job job v))"
    using run unfolding spec_run_Some by auto
  have "consistent (with_execute (job_workspace job) job (with_job job v))"
    by (rule consistent_run) (use assms(1,3,4) job in simp_all)
  then have "consistent v'" unfolding v' using job by simp
  moreover have "job_in (cx_workspaceId cx) (job_id job) v' = Some job"
    unfolding v' using job by (simp add: job_in_def with_audit_def with_execute_def with_job_def)
  ultimately show ?thesis using job by simp
qed

lemma spec_identity_consistent:
  assumes "consistent v" and "spec_identity cmd cx fr v = Some (i, v')"
  shows "consistent v' \<and> rv_requests v' = rv_requests v"
proof (cases "rv_hashes v (cx_workspaceId cx, rc_identityHash cmd)")
  case None
  then have "v' = with_identity (proposed_identity cmd cx (fr_identity fr)) v" "rv_identities v (fr_identity fr) = None"
    using assms(2) by (auto simp: spec_identity_def Let_def split: if_splits)
  then show ?thesis
    using consistent_identity [OF assms(1), of "proposed_identity cmd cx (fr_identity fr)"] None
    by (simp add: proposed_identity_def with_identity_def)
next
  case (Some k)
  then show ?thesis using assms by (auto simp: spec_identity_def Let_def bind_eq_Some_conv split: if_splits)
qed

text \<open>What \<open>spec_request\<close> does when it returns, case by case.\<close>

lemma spec_requestE:
  assumes "spec_request cmd cx fr v = Some (r, v')"
  obtains (replay) j job where "rv_requests v (cx_workspaceId cx, rc_idempotencyKeyDigest cmd) = Some (rc_requestDigest cmd, j)"
      "job_in (cx_workspaceId cx) j v = Some job" "r = result_for job True" "v' = v"
  | (joined) i v1 j job where "rv_requests v (cx_workspaceId cx, rc_idempotencyKeyDigest cmd) = None"
      "spec_identity cmd cx fr v = Some (i, v1)" "rv_runs v1 (aid_id i, 0) = Some j" "job_in (cx_workspaceId cx) j v1 = Some job"
      "r = result_for job False"
      "v' = with_request (cx_workspaceId cx) (rc_idempotencyKeyDigest cmd) (rc_requestDigest cmd) (job_id job) v1"
  | (created) i v1 job v2 where "rv_requests v (cx_workspaceId cx, rc_idempotencyKeyDigest cmd) = None"
      "spec_identity cmd cx fr v = Some (i, v1)" "rv_runs v1 (aid_id i, 0) = None"
      "spec_run cx ''analysis.requested'' (Some (rc_requestDigest cmd)) (aid_id i) 0 fr v1 = Some (job, v2)"
      "r = result_for job False"
      "v' = with_request (cx_workspaceId cx) (rc_idempotencyKeyDigest cmd) (rc_requestDigest cmd) (job_id job) v2"
proof (cases "rv_requests v (cx_workspaceId cx, rc_idempotencyKeyDigest cmd)")
  case None
  then obtain i v1 job v2 where i: "spec_identity cmd cx fr v = Some (i, v1)"
    and job: "(case rv_runs v1 (aid_id i, 0) of Some j \<Rightarrow> map_option (\<lambda>job. (job, v1)) (job_in (cx_workspaceId cx) j v1)
       | None \<Rightarrow> spec_run cx ''analysis.requested'' (Some (rc_requestDigest cmd)) (aid_id i) 0 fr v1) = Some (job, v2)"
    and r: "r = result_for job False"
      "v' = with_request (cx_workspaceId cx) (rc_idempotencyKeyDigest cmd) (rc_requestDigest cmd) (job_id job) v2"
    using assms unfolding spec_request_def Let_def by (auto simp: bind_eq_Some_conv)
  show thesis
  proof (cases "rv_runs v1 (aid_id i, 0)")
    case (Some j)
    then show thesis using joined [OF None i Some] job r by auto
  next
    case 2: None
    then show thesis using created [OF None i 2] job r by simp
  qed
next
  case (Some p)
  then show thesis using assms replay unfolding spec_request_def Let_def by (cases p) (auto split: if_splits)
qed

lemma spec_request_consistent:
  assumes v: "consistent v" and "spec_request cmd cx fr v = Some (r, v')"
  shows "consistent v'"
  using assms(2)
proof (cases rule: spec_requestE)
  case replay
  then show ?thesis using v by simp
next
  case (joined i v1 j job)
  have v1: "consistent v1" using spec_identity_consistent [OF v joined(2)] by simp
  then have "job_id job = j" "runOrdinal job = 0"
    using joined(3,4) unfolding consistent_def jobs_indexed_def runs_contiguous_def job_in_Some by (metis option.inject)+
  then show ?thesis using consistent_request [OF v1 joined(4)] joined(6) by simp
next
  case (created i v1 job v2)
  have v1: "consistent v1" using spec_identity_consistent [OF v created(2)] by simp
  show ?thesis
    using consistent_request spec_run_consistent [OF v1 created(4)] created(6) by simp
qed

lemma spec_rerun_consistent:
  assumes "consistent v" and "spec_rerun i cx fr v = Some (job, v')"
  shows "consistent v'"
  using spec_run_consistent [OF assms(1), of cx _ None i "fst fr" "snd fr" job v'] assms(2)
  by (auto simp: spec_rerun_def split: if_splits)

text \<open>Changes of the state of a job, by a cancellation or by the worker that runs it.\<close>

definition work_step :: "request_view \<Rightarrow> request_view \<Rightarrow> bool" where
  "work_step v v' \<longleftrightarrow> (\<exists>f. v' = v\<lparr>rv_jobs := (\<lambda>j. map_option (\<lambda>job. job\<lparr>job_state := fst (f j), job_updatedAt := snd (f j)\<rparr>)
     (rv_jobs v j))\<rparr>)"

lemma work_step_refl: "work_step v v"
proof -
  have "v = v\<lparr>rv_jobs := (\<lambda>j. map_option (\<lambda>job. job\<lparr>job_state := fst (f j), job_updatedAt := snd (f j)\<rparr>) (rv_jobs v j))\<rparr>"
    if "f = (\<lambda>j. case rv_jobs v j of None \<Rightarrow> undefined | Some job \<Rightarrow> (job_state job, job_updatedAt job))" for f
  proof -
    have "(\<lambda>j. map_option (\<lambda>job. job\<lparr>job_state := fst (f j), job_updatedAt := snd (f j)\<rparr>) (rv_jobs v j)) = rv_jobs v"
      using that by (intro ext) (simp split: option.split)
    then show ?thesis by simp
  qed
  then show ?thesis unfolding work_step_def by blast
qed

lemma consistent_work:
  assumes "consistent v" and "work_step v v'"
  shows "consistent v'"
proof -
  obtain f where v': "v' = v\<lparr>rv_jobs := (\<lambda>j. map_option (\<lambda>job. job\<lparr>job_state := fst (f j), job_updatedAt := snd (f j)\<rparr>)
     (rv_jobs v j))\<rparr>" using assms(2) unfolding work_step_def by blast
  have graph: "(\<lambda>(j, job). (job_workspace job, j, job_identity job)) ` Map.graph (rv_jobs v') =
      (\<lambda>(j, job). (job_workspace job, j, job_identity job)) ` Map.graph (rv_jobs v)"
    unfolding v' by (auto simp: Map.graph_def image_iff)
  have keep: "identity_in ws i v' = identity_in ws i v" for ws i by (simp add: identity_in_def v')
  have row: "\<exists>old. rv_jobs v j = Some old \<and> job_id job = job_id old \<and> job_workspace job = job_workspace old \<and>
      job_identity job = job_identity old \<and> runOrdinal job = runOrdinal old" if "rv_jobs v' j = Some job" for j job
    using that by (auto simp: v')
  have "jobs_indexed v'"
    unfolding jobs_indexed_def keep
  proof (intro allI impI)
    fix j job
    assume "rv_jobs v' j = Some job"
    then obtain old where "rv_jobs v j = Some old" "job_id job = job_id old" "job_workspace job = job_workspace old"
      "job_identity job = job_identity old" "runOrdinal job = runOrdinal old" using row by blast
    moreover have "rv_runs v' = rv_runs v" by (simp add: v')
    ultimately show "job_id job = j \<and> 0 \<le> runOrdinal job \<and> rv_runs v' (job_identity job, runOrdinal job) = Some j \<and>
        identity_in (job_workspace job) (job_identity job) v \<noteq> None"
      using assms(1) unfolding consistent_def jobs_indexed_def by metis
  qed
  moreover have "runs_contiguous v'" using assms(1) unfolding consistent_def runs_contiguous_def v' by fastforce
  moreover have "identities_indexed v'" using assms(1) unfolding consistent_def identities_indexed_def v' by simp
  moreover have "requests_resolve v'" using assms(1) unfolding consistent_def requests_resolve_def v' job_in_Some by fastforce
  moreover have "commands_match v'"
    using assms(1) graph unfolding consistent_def commands_match_def by (simp add: v')
  ultimately show ?thesis by (simp add: consistent_def)
qed

lemma spec_cancel_work:
  assumes "spec_cancel j cx fr v = Some (b, v')"
  shows "\<exists>v1. work_step v v1 \<and> (v' = v1 \<or> (\<exists>a. v' = with_audit a v1))"
proof -
  let ?ws = "cx_workspaceId cx"
  have "work_step v (v\<lparr>rv_jobs := (rv_jobs v)(j \<mapsto> job\<lparr>job_state := s, job_updatedAt := t\<rparr>)\<rparr>)"
    if "rv_jobs v j = Some job" for job s t
    unfolding work_step_def
  proof (rule exI [of _ "\<lambda>k. if k = j then (s, t) else case rv_jobs v k of None \<Rightarrow> undefined | Some job \<Rightarrow> (job_state job, job_updatedAt job)"],
      rule arg_cong [of _ _ "\<lambda>m. v\<lparr>rv_jobs := m\<rparr>"], rule ext)
    fix k
    show "((rv_jobs v)(j \<mapsto> job\<lparr>job_state := s, job_updatedAt := t\<rparr>)) k = map_option (\<lambda>job. job\<lparr>job_state :=
        fst (if k = j then (s, t) else case rv_jobs v k of None \<Rightarrow> undefined | Some job \<Rightarrow> (job_state job, job_updatedAt job)),
      job_updatedAt := snd (if k = j then (s, t) else case rv_jobs v k of None \<Rightarrow> undefined | Some job \<Rightarrow> (job_state job, job_updatedAt job))\<rparr>)
      (rv_jobs v k)"
      using that by (auto split: option.split)
  qed
  then show ?thesis
    using assms work_step_refl [of v] unfolding spec_cancel_def
    by (cases "job_in ?ws j v") (auto simp: job_in_Some split: if_splits)
qed

section \<open>What stays\<close>

text \<open>A later view: keys, identities and runs are never rebound, and a job stays the run it is.\<close>

definition same_run :: "analysis_job \<Rightarrow> analysis_job \<Rightarrow> bool" where
  "same_run a b \<longleftrightarrow> job_id a = job_id b \<and> job_workspace a = job_workspace b \<and> job_identity a = job_identity b \<and> runOrdinal a = runOrdinal b"

definition later :: "request_view \<Rightarrow> request_view \<Rightarrow> bool" where
  "later v v' \<longleftrightarrow> rv_requests v \<subseteq>\<^sub>m rv_requests v' \<and> rv_hashes v \<subseteq>\<^sub>m rv_hashes v' \<and> rv_identities v \<subseteq>\<^sub>m rv_identities v' \<and>
     rv_runs v \<subseteq>\<^sub>m rv_runs v' \<and> (\<forall>j job. rv_jobs v j = Some job \<longrightarrow> (\<exists>job'. rv_jobs v' j = Some job' \<and> same_run job job'))"

lemma later_refl: "later v v"
  by (auto simp: later_def same_run_def)

lemma same_run_trans: "same_run a b \<Longrightarrow> same_run b c \<Longrightarrow> same_run a c"
  by (simp add: same_run_def)

lemma later_trans: "later u v \<Longrightarrow> later v w \<Longrightarrow> later u w"
  unfolding later_def using same_run_trans by (meson map_le_trans)

lemma map_le_new: "m k = None \<Longrightarrow> m \<subseteq>\<^sub>m m(k \<mapsto> x)"
  by (auto simp: map_le_def dom_def)

lemma later_request: "rv_requests v (ws, key) = None \<Longrightarrow> later v (with_request ws key d j v)"
  using map_le_new [of "rv_requests v" "(ws, key)" "(d, j)"] by (auto simp: later_def with_request_def same_run_def)

lemma later_audit: "later v (with_audit a v)"
  by (auto simp: later_def with_audit_def same_run_def)

lemma later_identity: "spec_identity cmd cx fr v = Some (i, v') \<Longrightarrow> later v v'"
  using map_le_new [of "rv_hashes v" "(cx_workspaceId cx, rc_identityHash cmd)" "fr_identity fr"]
    map_le_new [of "rv_identities v" "fr_identity fr" "proposed_identity cmd cx (fr_identity fr)"]
  by (auto simp: spec_identity_def Let_def later_refl bind_eq_Some_conv split: if_splits option.splits)
    (auto simp: later_def with_identity_def proposed_identity_def same_run_def)

lemma later_run: "spec_run cx action h i n fr v = Some (job, v') \<Longrightarrow> later v v'"
  unfolding spec_run_Some
  using map_le_new [of "rv_runs v" "(i, n)" "fr_job fr"]
  by (auto simp: later_def with_job_def with_execute_def with_audit_def same_run_def)

lemma later_spec_request:
  assumes "spec_request cmd cx fr v = Some (r, v')"
  shows "later v v'"
  using assms
proof (cases rule: spec_requestE)
  case replay
  then show ?thesis by (simp add: later_refl)
next
  case (joined i v1 j job)
  have "later v v1" "rv_requests v1 = rv_requests v"
    using later_identity [OF joined(2)] joined(2)
    by (auto simp: spec_identity_def Let_def with_identity_def bind_eq_Some_conv split: option.splits if_splits)
  then show ?thesis using later_request joined(1,6) later_trans by simp
next
  case (created i v1 job v2)
  have "later v v1" "rv_requests v1 = rv_requests v"
    using later_identity [OF created(2)] created(2)
    by (auto simp: spec_identity_def Let_def with_identity_def bind_eq_Some_conv split: option.splits if_splits)
  moreover have "later v1 v2" "rv_requests v2 = rv_requests v1"
    using later_run [OF created(4)] created(4)
    by (auto simp: spec_run_Some with_job_def with_execute_def with_audit_def)
  ultimately show ?thesis using later_request created(1,6) later_trans by simp
qed

lemma later_rerun: "spec_rerun i cx fr v = Some (job, v') \<Longrightarrow> later v v'"
  by (auto simp: spec_rerun_def split: if_splits dest: later_run)

lemma later_work: "work_step v v' \<Longrightarrow> later v v'"
  by (auto simp: work_step_def later_def same_run_def)

lemma later_cancel: "spec_cancel j cx fr v = Some (b, v') \<Longrightarrow> later v v'"
  using spec_cancel_work later_work later_audit later_trans by blast

lemma later_key: "later v v' \<Longrightarrow> rv_requests v k = Some x \<Longrightarrow> rv_requests v' k = Some x"
  unfolding later_def by (metis domI map_le_def)

lemma later_job: "later v v' \<Longrightarrow> job_in ws j v = Some job \<Longrightarrow> \<exists>job'. job_in ws j v' = Some job' \<and> same_run job job'"
  unfolding later_def job_in_Some same_run_def by metis

section \<open>Histories of calls\<close>

text \<open>
  Any call, with any outcome, and, as \<open>elsewhere\<close>, what other parts do to the database: the worker changes the state of
  a job, the relay delivers the outbox.
\<close>

inductive app_step :: "'w app_ports \<Rightarrow> ('w \<Rightarrow> bool) \<Rightarrow> ('w \<Rightarrow> request_view) \<Rightarrow> 'w \<Rightarrow> 'w \<Rightarrow> bool" for P ok view where
  requested: "request_analysis P cmd cx w = (r1, w') \<Longrightarrow> app_step P ok view w w'"
| requested_publication: "request_with_publication P cmd pu cx w = (r2, w') \<Longrightarrow> app_step P ok view w w'"
| rerun: "force_rerun P i cx w = (r3, w') \<Longrightarrow> app_step P ok view w w'"
| cancelled: "cancel_job P j cx w = (r4, w') \<Longrightarrow> app_step P ok view w w'"
| approved: "approve_publication P i cx w = (r5, w') \<Longrightarrow> app_step P ok view w w'"
| scheduled: "schedule_publication P event j res w = (r6, w') \<Longrightarrow> app_step P ok view w w'"
| elsewhere: "ok w' \<Longrightarrow> work_step (view w) (view w') \<Longrightarrow> app_step P ok view w w'"

inductive app_history :: "'w app_ports \<Rightarrow> ('w \<Rightarrow> bool) \<Rightarrow> ('w \<Rightarrow> request_view) \<Rightarrow> 'w \<Rightarrow> 'w \<Rightarrow> bool" for P ok view where
  start: "app_history P ok view w w"
| extend: "app_history P ok view w u \<Longrightarrow> app_step P ok view u t \<Longrightarrow> app_history P ok view w t"

inductive_cases app_stepE: "app_step P ok view w w'"


text \<open>Whatever a call ends with, the view has been left or a step of its specification was taken.\<close>

lemma call_view:
  assumes "refines ok view m spec" and "ok w" and "m w = (r, w')"
  shows "ok w' \<and> (view w' = view w \<or> (\<exists>fr a. spec fr (view w) = Some (a, view w')))"
  using refinesD [OF assms] by blast

context request_store
begin

lemma approve_refines:
  "refines ok view (approve_publication P i cx) (\<lambda>fr v. Some (fst fr, case snd fr of None \<Rightarrow> v | Some a \<Rightarrow> with_audit a v))"
proof -
  have maybe: "sees ok view (if c then enqueue_intent P k cx occurredAt else ret ()) unseen" for c k occurredAt
    by (simp add: enqueue_unseen sees_ret_unseen)
  have rest: "sees ok view (case approval of
          NotApprovable \<Rightarrow> ret (False, False)
        | AlreadyApproved \<Rightarrow> ret (True, True)
        | Approved intent \<Rightarrow>
            abind (ap_readyIntents P (cx_workspaceId cx) (intent_jobId intent)) (\<lambda>ready.
            abind (if intent_id intent \<in> set ready then enqueue_intent P (intent_id intent) cx occurredAt else ret ()) (\<lambda>_.
            abind (append_audit P cx ''publication.approved'' (intent_id intent) None occurredAt) (\<lambda>_. ret (True, False)))))
     (\<lambda>x v v'. \<exists>a. v' = (case a of None \<Rightarrow> v | Some a \<Rightarrow> with_audit a v))" for approval occurredAt
  proof (cases approval)
    case (Approved intent)
    show ?thesis unfolding Approved approval_outcome.case
      by (rule sees_skip [OF ready_unseen], rule sees_skip [OF maybe], rule sees_bindI [OF append_audit_sees sees_ret])
        (auto intro: exI [of _ "Some x" for x])
  qed (auto intro!: sees_mono [OF sees_ret] exI [of _ None])
  show ?thesis
    unfolding approve_publication_def
  proof (rule refines_guard [OF silent_throw_when], rule refines_guard [OF guard_silent], rule in_transaction_refines,
      rule sees_skip [OF sees_reading], rule sees_skip [OF approve_unseen], rule sees_mono [OF rest])
    fix x and v v' :: request_view
    assume "\<exists>a. v' = (case a of None \<Rightarrow> v | Some a \<Rightarrow> with_audit a v)"
    then obtain a where "v' = (case a of None \<Rightarrow> v | Some a \<Rightarrow> with_audit a v)" by blast
    then show "\<exists>fr. Some (fst fr, case snd fr of None \<Rightarrow> v | Some a \<Rightarrow> with_audit a v) = Some (x, v')"
      by (intro exI [of _ "(x, a)"]) simp
  qed
qed

end

context request_store
begin

lemma schedule_silent:
  "ok w \<Longrightarrow> schedule_publication P event j res w = (r, w') \<Longrightarrow> ok w' \<and> view w' = view w"
proof -
  assume ok: "ok w" and run: "schedule_publication P event j res w = (r, w')"
  have issue: "sees ok view (issue_envelope P e) (\<lambda>e' v v'. v' = v \<and> create_envelope (ap_date P) (envelope_value e) = Inr e')" for e
    unfolding issue_envelope_def by (rule sees_mono [OF sees_lift]) simp
  have command: "with_command e' v = v"
    if "create_envelope date (envelope_value e) = Inr e'" "en_payload e = PublicationExecute k" for date e e' k and v :: request_view
    using issued_payload_type [OF that(1)] that(2) by (cases "en_payload e'") (simp_all add: with_command_def)
  have envelope: "sees ok view (publication_envelope P i ws c d t occurredAt) (\<lambda>e v v'. v' = v \<and> with_command e v = v)" for i ws c d t occurredAt
    unfolding publication_envelope_def
    by (rule sees_bindI [OF sees_lift sees_bind [OF sees_lift issue]]) (auto intro: command)
  have enqueue: "sees ok view (abind (abind (publication_envelope P i ws c d t occurredAt) (ap_enqueuePublication P)) (\<lambda>_. ret True)) unseen"
    for i ws c d t occurredAt
    by (rule sees_skip [OF _ sees_ret_unseen], rule sees_bindI [OF envelope enqueue_command]) (auto simp: unseen_def)
  have one: "sees ok view (case found of None \<Rightarrow> ret False | Some intent \<Rightarrow>
       if intent_state intent \<noteq> IPending then ret False
       else abind (abind (publication_envelope P (intent_id intent) (en_workspaceId event) (en_correlationId event)
         (en_id event) (en_traceContext event) occurredAt) (ap_enqueuePublication P)) (\<lambda>_. ret True)) unseen" for found occurredAt
    using enqueue by (auto simp: sees_ret_unseen split: option.split)
  have each: "sees ok view (schedule_each P event occurredAt intents) unseen" for occurredAt intents
  proof (induction intents)
    case Nil
    show ?case by (simp add: sees_ret_unseen)
  next
    case (Cons i rest)
    show ?case unfolding schedule_each.simps
      by (rule sees_skip [OF find_intent_unseen], rule sees_skip [OF one], rule sees_skip [OF Cons.IH sees_ret_unseen])
  qed
  have refines: "refines ok view (schedule_publication P event j res) (\<lambda>fr v. Some (fr, v))"
    unfolding schedule_publication_def
    by (rule in_transaction_refines, rule sees_skip [OF bind_unseen], rule sees_skip [OF ready_unseen],
        rule sees_skip [OF sees_reading], rule sees_mono [OF each]) (simp add: unseen_def)
  show ?thesis using call_view [OF refines ok run] by auto
qed

lemma step_keeps:
  assumes step: "app_step P ok view w w'" and ok: "ok w" and v: "consistent (view w)"
  shows "ok w' \<and> consistent (view w') \<and> later (view w) (view w')"
  using step
proof cases
  case (requested cmd cx r)
  then show ?thesis
    using call_view [OF request_refines ok] spec_request_consistent [OF v] later_spec_request v later_refl by metis
next
  case (requested_publication cmd pu cx r)
  have spec: "spec_publication cmd pu cx fr u = Some (a, u') \<Longrightarrow> \<exists>x. spec_request cmd cx (fst fr) u = Some (x, u')" for fr u a u'
    by (auto simp: spec_publication_def)
  show ?thesis
    using call_view [OF publication_request_refines ok requested_publication] spec_request_consistent [OF v] later_spec_request v later_refl spec
    by metis
next
  case (rerun i cx r)
  then show ?thesis
    using call_view [OF rerun_refines ok rerun] spec_rerun_consistent [OF v] later_rerun v later_refl by metis
next
  case (cancelled j cx r)
  have "consistent v' \<and> later (view w) v'" if "spec_cancel j cx fr (view w) = Some (b, v')" for fr b v'
    using spec_cancel_work [OF that] consistent_work [OF v] later_cancel [OF that] by auto
  then show ?thesis
    using call_view [OF cancel_refines ok cancelled] v later_refl by metis
next
  case (approved i cx r)
  then have "ok w' \<and> (view w' = view w \<or> (\<exists>a. view w' = with_audit a (view w)))"
    using call_view [OF approve_refines ok approved] by (auto split: option.splits) metis
  then show ?thesis using v later_refl later_audit by auto
next
  case (scheduled event j res r)
  then show ?thesis using schedule_silent [OF ok scheduled] v later_refl by simp
next
  case elsewhere
  then show ?thesis using consistent_work [OF v] later_work by blast
qed

lemma history_keeps:
  assumes "app_history P ok view w w'" and "ok w" and "consistent (view w)"
  shows "ok w' \<and> consistent (view w') \<and> later (view w) (view w')"
  using assms
proof (induction rule: app_history.induct)
  case (start w)
  then show ?case by (simp add: later_refl)
next
  case (extend w u t)
  then show ?case using step_keeps [of u t] later_trans by blast
qed

text \<open>The key of a request that returned is bound to its digest and job.\<close>

lemma request_binds:
  assumes "ok w" and "consistent (view w)" and "request_analysis P cmd cx w = (Inr r, w')"
  shows "rv_requests (view w') (cx_workspaceId cx, rc_idempotencyKeyDigest cmd) = Some (rc_requestDigest cmd, rr_analysisJobId r) \<and>
     (\<exists>job. job_in (cx_workspaceId cx) (rr_analysisJobId r) (view w') = Some job \<and> job_identity job = rr_analysisIdentityId r)"
proof -
  obtain fr where spec: "spec_request cmd cx fr (view w) = Some (r, view w')"
    using refinesD(2) [OF request_refines assms(1,3) HOL.refl] by blast
  have v': "consistent (view w')" by (rule spec_request_consistent [OF assms(2) spec])
  have indexed: "job_in ws j (view w') = Some job \<Longrightarrow> job_id job = j" for ws j job
    using v' unfolding consistent_def jobs_indexed_def job_in_Some by blast
  show ?thesis
    using spec
  proof (cases rule: spec_requestE)
    case (replay j job)
    then show ?thesis using indexed [of _ j job] by (simp add: result_for_def)
  next
    case (joined i v1 j job)
    have row: "job_in (cx_workspaceId cx) j (view w') = Some job"
      using joined(4,6) by (simp add: with_request_def job_in_def)
    have "job_id job = j" by (rule indexed [OF row])
    then show ?thesis using row joined(5,6) by (simp add: result_for_def with_request_def)
  next
    case (created i v1 job v2)
    have "job_in (cx_workspaceId cx) (job_id job) (view w') = Some job"
      using created(4,6) by (auto simp: spec_run_Some with_request_def job_in_def with_job_def with_execute_def with_audit_def)
    then show ?thesis using created(5,6) by (simp add: result_for_def with_request_def)
  qed
qed

text \<open>A request whose key is bound: only a replay can return.\<close>

lemma request_replays:
  assumes "ok w" and "consistent (view w)" and "request_analysis P cmd cx w = (r, w')"
    and key: "rv_requests (view w) (cx_workspaceId cx, rc_idempotencyKeyDigest cmd) = Some (d, j)"
    and job: "job_in (cx_workspaceId cx) j (view w) = Some job"
  shows "view w' = view w \<and> (\<forall>x. r = Inr x \<longrightarrow> d = rc_requestDigest cmd \<and> x = result_for job True \<and> rr_analysisJobId x = j)"
proof -
  have spec: "v' = view w \<and> d = rc_requestDigest cmd \<and> x = result_for job True"
    if "spec_request cmd cx fr (view w) = Some (x, v')" for fr x v'
    using that key job by (auto simp: spec_request_def Let_def split: if_splits)
  have j: "job_id job = j" using assms(2) job unfolding consistent_def jobs_indexed_def job_in_Some by blast
  have v: "view w' = view w" using refinesD(3) [OF request_refines assms(1,3)] spec by blast
  have "d = rc_requestDigest cmd \<and> x = result_for job True \<and> rr_analysisJobId x = j" if "r = Inr x" for x
  proof -
    have "d = rc_requestDigest cmd \<and> x = result_for job True"
      using refinesD(2) [OF request_refines assms(1,3) that] spec by blast
    then show ?thesis using j by (simp add: result_for_def)
  qed
  then show ?thesis using v by blast
qed

lemma request_again:
  assumes "ok w1" and "consistent (view w1)" and first: "request_analysis P cmd cx w1 = (Inr r, w2)"
    and "ok w3" and "consistent (view w3)" and "later (view w2) (view w3)"
    and again: "request_analysis P cmd' cx' w3 = (r', w4)"
    and same: "cx_workspaceId cx' = cx_workspaceId cx" "rc_idempotencyKeyDigest cmd' = rc_idempotencyKeyDigest cmd"
  shows "view w4 = view w3 \<and> (\<forall>x. r' = Inr x \<longrightarrow> rc_requestDigest cmd' = rc_requestDigest cmd \<and> rr_replayed x \<and>
     rr_analysisJobId x = rr_analysisJobId r \<and> rr_analysisIdentityId x = rr_analysisIdentityId r)"
proof -
  obtain job where "rv_requests (view w2) (cx_workspaceId cx, rc_idempotencyKeyDigest cmd) = Some (rc_requestDigest cmd, rr_analysisJobId r)"
    and job: "job_in (cx_workspaceId cx) (rr_analysisJobId r) (view w2) = Some job" "job_identity job = rr_analysisIdentityId r"
    using request_binds [OF assms(1,2) first] by blast
  then have key: "rv_requests (view w3) (cx_workspaceId cx', rc_idempotencyKeyDigest cmd') = Some (rc_requestDigest cmd, rr_analysisJobId r)"
    using later_key [OF assms(6)] same by simp
  obtain job' where job': "job_in (cx_workspaceId cx') (rr_analysisJobId r) (view w3) = Some job'" "same_run job job'"
    using later_job [OF assms(6) job(1)] same by auto
  have replayed: "rr_replayed x \<and> rr_analysisIdentityId x = rr_analysisIdentityId r" if "x = result_for job' True" for x
    using that job(2) job'(2) by (simp add: result_for_def same_run_def)
  show ?thesis
    using request_replays [OF assms(4,5) again key job'(1)] replayed by metis
qed

text \<open>The job of a request that was no replay is the first run of the identity of its hash.\<close>

lemma request_identifies:
  assumes "ok w" and "consistent (view w)" and "request_analysis P cmd cx w = (Inr r, w')" and "\<not> rr_replayed r"
  shows "rv_hashes (view w') (cx_workspaceId cx, rc_identityHash cmd) = Some (rr_analysisIdentityId r) \<and>
    rv_runs (view w') (rr_analysisIdentityId r, 0) = Some (rr_analysisJobId r)"
proof -
  obtain fr where spec: "spec_request cmd cx fr (view w) = Some (r, view w')"
    using refinesD(2) [OF request_refines assms(1,3) HOL.refl] by blast
  have identity: "rv_hashes v1 (cx_workspaceId cx, rc_identityHash cmd) = Some (aid_id i) \<and> consistent v1"
    if "spec_identity cmd cx fr (view w) = Some (i, v1)" for i v1
  proof (cases "rv_hashes (view w) (cx_workspaceId cx, rc_identityHash cmd)")
    case None
    then have "v1 = with_identity (proposed_identity cmd cx (fr_identity fr)) (view w)" "i = proposed_identity cmd cx (fr_identity fr)"
      using that by (auto simp: spec_identity_def Let_def split: if_splits)
    then show ?thesis using spec_identity_consistent [OF assms(2) that] by (simp add: with_identity_def proposed_identity_def)
  next
    case (Some k)
    then have "v1 = view w" "rv_identities (view w) k = Some i"
      using that by (auto simp: spec_identity_def Let_def bind_eq_Some_conv split: if_splits)
    then show ?thesis using Some assms(2) unfolding consistent_def identities_indexed_def by auto
  qed
  show ?thesis
    using spec
  proof (cases rule: spec_requestE)
    case (replay j job)
    then show ?thesis using assms(4) by (simp add: result_for_def)
  next
    case (joined i v1 j job)
    have row: "rv_jobs v1 j = Some job" using joined(4) unfolding job_in_Some by blast
    have "consistent v1" using identity [OF joined(2)] by blast
    then have "job_id job = j" "\<exists>job'. rv_jobs v1 j = Some job' \<and> job_identity job' = aid_id i"
      using row joined(3) unfolding consistent_def jobs_indexed_def runs_contiguous_def by blast+
    then have "job_identity job = aid_id i" "job_id job = j" using row by simp_all
    then show ?thesis using identity [OF joined(2)] joined(3,5,6) by (simp add: result_for_def with_request_def)
  next
    case (created i v1 job v2)
    then show ?thesis using identity [OF created(2)]
      by (auto simp: spec_run_Some result_for_def with_request_def with_audit_def with_execute_def with_job_def)
  qed
qed

lemma same_identity_same_job:
  assumes "ok w1" and "consistent (view w1)" and first: "request_analysis P cmd cx w1 = (Inr r, w2)"
    and "ok w3" and "consistent (view w3)" and later: "later (view w2) (view w3)"
    and again: "request_analysis P cmd' cx' w3 = (Inr x, w4)"
    and same: "cx_workspaceId cx' = cx_workspaceId cx" "rc_identityHash cmd' = rc_identityHash cmd" "\<not> rr_replayed r" "\<not> rr_replayed x"
  shows "rr_analysisJobId x = rr_analysisJobId r \<and> rr_analysisIdentityId x = rr_analysisIdentityId r"
proof -
  have first: "rv_hashes (view w2) (cx_workspaceId cx, rc_identityHash cmd) = Some (rr_analysisIdentityId r)"
      "rv_runs (view w2) (rr_analysisIdentityId r, 0) = Some (rr_analysisJobId r)"
    using request_identifies [OF assms(1-3) same(3)] by blast+
  have again': "rv_hashes (view w4) (cx_workspaceId cx, rc_identityHash cmd) = Some (rr_analysisIdentityId x)"
      "rv_runs (view w4) (rr_analysisIdentityId x, 0) = Some (rr_analysisJobId x)"
    using request_identifies [OF assms(4,5) again same(4)] same(1,2) by simp_all
  have "later (view w3) (view w4)"
    using step_keeps [OF app_step.requested [OF again] assms(4,5)] by blast
  then have up: "later (view w2) (view w4)" using later later_trans by blast
  then have "rv_hashes (view w4) (cx_workspaceId cx, rc_identityHash cmd) = Some (rr_analysisIdentityId r)"
    using first(1) unfolding later_def by (metis domI map_le_def)
  then have "rr_analysisIdentityId x = rr_analysisIdentityId r" using again'(1) by simp
  moreover have "rv_runs (view w4) (rr_analysisIdentityId r, 0) = Some (rr_analysisJobId r)"
    using first(2) up unfolding later_def by (metis domI map_le_def)
  ultimately show ?thesis using again'(2) by simp
qed

end

end
