(* ===== verification/Postgres_Store.thy ===== *)
theory Postgres_Store
  imports Request_History
begin

text \<open>
  The PostgreSQL side of the requests: \<open>PrismaUnitOfWork\<close>, \<open>PostgresAnalysisRequestStore\<close>, \<open>PostgresOutboxStore.append\<close>,
  \<open>PostgresAuditStore\<close> and \<open>PostgresAuthorizationGuard\<close> of \<open>infrastructure/postgres/src/index.ts\<close>.  A table is the
  list of its rows with the constraints of the migrations; each statement may fail for reasons of its own
  (\<open>ev_fault\<close>: the connection, a constraint on another table).  The tables of publications are a type parameter.
\<close>

section \<open>The database\<close>

record idempotency_row =
  ir_workspaceId :: string
  ir_operation :: string
  ir_keyDigest :: string
  ir_requestDigest :: string
  ir_resourceId :: string
  ir_createdAt :: string

record role_row =
  rw_workspaceId :: string
  rw_principalId :: string
  rw_role :: string

record ('p, 'e) database =
  db_identities :: "analysis_identity list"
  db_jobs :: "analysis_job list"
  db_keys :: "idempotency_row list"
  db_outbox :: "envelope list"
  db_audit :: "audit_record list"
  db_roles :: "role_row list"
  db_publications :: 'p
  db_rest :: 'e

datatype commit_outcome = CommitDone | CommitRefused | CommitUnanswered

record ('p, 'e) environment =
  ev_aborted :: "'e \<Rightarrow> bool"
  ev_now :: "'e \<Rightarrow> string"
  ev_date :: "string \<Rightarrow> int option"
  ev_sha256 :: "string \<Rightarrow> string"
  ev_next :: "string \<Rightarrow> 'e \<Rightarrow> string \<times> 'e"
  ev_fault :: "string \<Rightarrow> string list \<Rightarrow> 'e \<Rightarrow> bool \<times> 'e"
  ev_commit :: "'e \<Rightarrow> commit_outcome \<times> 'e"
  ev_findProfile :: "string \<Rightarrow> string \<Rightarrow> string \<Rightarrow> 'p \<Rightarrow> (app_error, publication_profile_ref option) result \<times> 'p"
  ev_createIntent :: "string \<Rightarrow> string \<Rightarrow> string \<Rightarrow> publication_profile_ref \<Rightarrow> external_reference \<Rightarrow> string \<Rightarrow> intent_state \<Rightarrow>
    string \<Rightarrow> 'p \<Rightarrow> (app_error, publication_intent) result \<times> 'p"
  ev_approve :: "string \<Rightarrow> string \<Rightarrow> string option \<Rightarrow> string \<Rightarrow> 'p \<Rightarrow> (app_error, approval_outcome) result \<times> 'p"
  ev_bindResult :: "string \<Rightarrow> string \<Rightarrow> string \<Rightarrow> 'p \<Rightarrow> (app_error, unit) result \<times> 'p"
  ev_readyIntents :: "string \<Rightarrow> string \<Rightarrow> 'p \<Rightarrow> (app_error, string list) result \<times> 'p"
  ev_findIntent :: "string \<Rightarrow> string \<Rightarrow> 'p \<Rightarrow> (app_error, publication_intent option) result \<times> 'p"

type_synonym ('p, 'e, 'a) query = "(('p, 'e) database, app_error, 'a) effect"

section \<open>Statements\<close>

definition statement :: "('p, 'e) environment \<Rightarrow> string \<Rightarrow> string list \<Rightarrow> ('p, 'e, 'a) query \<Rightarrow> ('p, 'e, 'a) query" where
  "statement E name args q d = (case ev_fault E name args (db_rest d) of
      (True, e) \<Rightarrow> (Inl (StoreFailed name), d\<lparr>db_rest := e\<rparr>)
    | (False, e) \<Rightarrow> q (d\<lparr>db_rest := e\<rparr>))"

text \<open>A unique constraint: the row is inserted unless another row has its key.\<close>

definition insert_row ::
  "string \<Rightarrow> ('d \<Rightarrow> 'r list) \<Rightarrow> ('r list \<Rightarrow> 'd \<Rightarrow> 'd) \<Rightarrow> ('r \<Rightarrow> 'r \<Rightarrow> bool) \<Rightarrow> 'r \<Rightarrow> ('d, app_error, unit) effect" where
  "insert_row name rows set_rows clash r d =
     (if list_ex (clash r) (rows d) then (Inl (StoreFailed name), d) else (Inr (), set_rows (rows d @ [r]) d))"

definition settle :: "('p, 'e) environment \<Rightarrow> bool \<Rightarrow> ('p, 'e) database \<Rightarrow> ('p, 'e) database \<Rightarrow> app_error option \<times> ('p, 'e) database" where
  "settle E keep old new =
     (if \<not> keep then (None, old\<lparr>db_rest := db_rest new\<rparr>)
      else (case ev_commit E (db_rest new) of
         (CommitDone, e) \<Rightarrow> (None, new\<lparr>db_rest := e\<rparr>)
       | (CommitRefused, e) \<Rightarrow> (Some (StoreFailed ''commit''), old\<lparr>db_rest := e\<rparr>)
       | (CommitUnanswered, e) \<Rightarrow> (Some (StoreFailed ''commit''), new\<lparr>db_rest := e\<rparr>)))"

definition next_identifier :: "('p, 'e) environment \<Rightarrow> string \<Rightarrow> ('p, 'e, string) query" where
  "next_identifier E kind d = (case ev_next E kind (db_rest d) of (s, e) \<Rightarrow> (Inr s, d\<lparr>db_rest := e\<rparr>))"

definition on_publications ::
  "('p, 'e) environment \<Rightarrow> string \<Rightarrow> ('p \<Rightarrow> (app_error, 'a) result \<times> 'p) \<Rightarrow> ('p, 'e, 'a) query" where
  "on_publications E name f = statement E name [] (\<lambda>d. case f (db_publications d) of (r, p) \<Rightarrow> (r, d\<lparr>db_publications := p\<rparr>))"

section \<open>Analysis requests\<close>

text \<open>An advisory lock: another transaction that holds it makes this one wait.\<close>

definition pg_lock_key :: "('p, 'e) environment \<Rightarrow> string \<Rightarrow> string \<Rightarrow> ('p, 'e, unit) query" where
  "pg_lock_key E ws key = statement E ''lockIdempotencyKey'' [ws @ '':analysis.request:'' @ key] (ret ())"

definition key_of_row :: "string \<Rightarrow> string \<Rightarrow> idempotency_row \<Rightarrow> bool" where
  "key_of_row ws key r \<longleftrightarrow> ir_workspaceId r = ws \<and> ir_operation r = ''analysis.request'' \<and> ir_keyDigest r = key"

definition pg_find_key :: "('p, 'e) environment \<Rightarrow> string \<Rightarrow> string \<Rightarrow> ('p, 'e, (string \<times> string) option) query" where
  "pg_find_key E ws key = statement E ''findIdempotency'' [] (\<lambda>d.
     case List.find (key_of_row ws key) (db_keys d) of
       None \<Rightarrow> ret None d
     | Some r \<Rightarrow> abind (lift_result IdentifierRejected (opaque_id (ir_resourceId r) ''analysisJob''))
         (\<lambda>job. ret (Some (ir_requestDigest r, job))) d)"

definition pg_record_key ::
  "('p, 'e) environment \<Rightarrow> string \<Rightarrow> string \<Rightarrow> string \<Rightarrow> string \<Rightarrow> string \<Rightarrow> ('p, 'e, unit) query" where
  "pg_record_key E ws key digest resource occurredAt = statement E ''recordIdempotency'' [ws]
     (insert_row ''recordIdempotency'' db_keys (\<lambda>rs d. d\<lparr>db_keys := rs\<rparr>)
        (\<lambda>a b. ir_workspaceId a = ir_workspaceId b \<and> ir_operation a = ir_operation b \<and> ir_keyDigest a = ir_keyDigest b)
        \<lparr>ir_workspaceId = ws, ir_operation = ''analysis.request'', ir_keyDigest = key, ir_requestDigest = digest,
         ir_resourceId = resource, ir_createdAt = occurredAt\<rparr>)"

definition checked_identity :: "analysis_identity \<Rightarrow> analysis_identity \<Rightarrow> ('p, 'e, analysis_identity) query" where
  "checked_identity i row =
     (if aid_analysisProfileVersionId row \<noteq> aid_analysisProfileVersionId i \<or> aid_caseSnapshotId row \<noteq> aid_caseSnapshotId i
      then throw (StoreFailed ''identityHash'')
      else abind (lift_result IdentifierRejected (opaque_id (aid_id row) ''analysisIdentity'')) (\<lambda>_.
           abind (lift_result IdentifierRejected (opaque_id (aid_workspaceId row) ''workspace'')) (\<lambda>_. ret row)))"

definition pg_identity :: "('p, 'e) environment \<Rightarrow> analysis_identity \<Rightarrow> string \<Rightarrow> ('p, 'e, analysis_identity) query" where
  "pg_identity E i occurredAt =
     abind (statement E ''lockIdentityHash'' [aid_workspaceId i @ '':analysis-identity:'' @ aid_identityHash i] (ret ())) (\<lambda>_.
     abind (statement E ''findIdentity'' []
        (reading (\<lambda>d. List.find (\<lambda>x. aid_workspaceId x = aid_workspaceId i \<and> aid_identityHash x = aid_identityHash i) (db_identities d))))
     (\<lambda>existing. case existing of
         Some row \<Rightarrow> checked_identity i row
       | None \<Rightarrow>
           abind (statement E ''createIdentity'' [aid_workspaceId i, aid_analysisProfileVersionId i, aid_caseSnapshotId i]
             (insert_row ''createIdentity'' db_identities (\<lambda>rs d. d\<lparr>db_identities := rs\<rparr>)
               (\<lambda>a b. aid_id a = aid_id b \<or> aid_workspaceId a = aid_workspaceId b \<and> aid_identityHash a = aid_identityHash b) i))
             (\<lambda>_. checked_identity i i)))"

text \<open>\<open>toAnalysisJob\<close>; the states of the rows are those of the check constraint.\<close>

definition to_analysis_job :: "analysis_job \<Rightarrow> ('p, 'e, analysis_job) query" where
  "to_analysis_job j =
     abind (lift_result IdentifierRejected (opaque_id (job_id j) ''analysisJob'')) (\<lambda>_.
     abind (lift_result IdentifierRejected (opaque_id (job_workspace j) ''workspace'')) (\<lambda>_.
     abind (lift_result IdentifierRejected (opaque_id (job_identity j) ''analysisIdentity'')) (\<lambda>_. ret j)))"

definition optional_job :: "analysis_job option \<Rightarrow> ('p, 'e, analysis_job option) query" where
  "optional_job found = (case found of None \<Rightarrow> ret None | Some j \<Rightarrow> abind (to_analysis_job j) (\<lambda>j. ret (Some j)))"

definition pg_job_by_ordinal :: "('p, 'e) environment \<Rightarrow> string \<Rightarrow> string \<Rightarrow> int \<Rightarrow> ('p, 'e, analysis_job option) query" where
  "pg_job_by_ordinal E ws i n = abind (statement E ''findJobByRunOrdinal'' []
     (reading (\<lambda>d. List.find (\<lambda>j. job_workspace j = ws \<and> job_identity j = i \<and> runOrdinal j = n) (db_jobs d)))) optional_job"

definition pg_create_job :: "('p, 'e) environment \<Rightarrow> analysis_job \<Rightarrow> ('p, 'e, unit) query" where
  "pg_create_job E j = statement E ''createJob'' [job_workspace j] (\<lambda>d.
     if runOrdinal j < 0 \<or> \<not> list_ex (\<lambda>i. aid_workspaceId i = job_workspace j \<and> aid_id i = job_identity j) (db_identities d)
     then throw (StoreFailed ''createJob'') d
     else insert_row ''createJob'' db_jobs (\<lambda>rs d. d\<lparr>db_jobs := rs\<rparr>)
       (\<lambda>a b. job_id a = job_id b \<or> job_identity a = job_identity b \<and> runOrdinal a = runOrdinal b) j d)"

definition latest_ordinal :: "string \<Rightarrow> string \<Rightarrow> analysis_job list \<Rightarrow> int option" where
  "latest_ordinal ws i jobs =
     (case map runOrdinal (filter (\<lambda>j. job_workspace j = ws \<and> job_identity j = i) jobs) of
        [] \<Rightarrow> None | n # ns \<Rightarrow> Some (List.fold max ns n))"

definition pg_lock_for_rerun :: "('p, 'e) environment \<Rightarrow> string \<Rightarrow> string \<Rightarrow> ('p, 'e, analysis_identity \<times> int) query" where
  "pg_lock_for_rerun E ws i =
     abind (statement E ''lockIdentityForRerun'' []
       (reading (\<lambda>d. List.find (\<lambda>x. aid_workspaceId x = ws \<and> aid_id x = i) (db_identities d)))) (\<lambda>found.
     case found of
       None \<Rightarrow> throw (StoreFailed ''identityNotFound'')
     | Some identity \<Rightarrow>
         abind (statement E ''latestRun'' [] (reading (\<lambda>d. latest_ordinal ws i (db_jobs d)))) (\<lambda>latest.
         abind (lift_result IdentifierRejected (opaque_id (aid_id identity) ''analysisIdentity'')) (\<lambda>_.
         abind (lift_result IdentifierRejected (opaque_id (aid_workspaceId identity) ''workspace'')) (\<lambda>_.
         ret (identity, (case latest of None \<Rightarrow> -1 | Some n \<Rightarrow> n) + 1)))))"

definition pg_find_job :: "('p, 'e) environment \<Rightarrow> string \<Rightarrow> string \<Rightarrow> ('p, 'e, analysis_job option) query" where
  "pg_find_job E ws i = abind (statement E ''findJob'' []
     (reading (\<lambda>d. List.find (\<lambda>j. job_workspace j = ws \<and> job_id j = i) (db_jobs d)))) optional_job"

definition pg_update_job :: "('p, 'e) environment \<Rightarrow> analysis_job \<Rightarrow> ('p, 'e, unit) query" where
  "pg_update_job E j = statement E ''updateJobState'' [] (\<lambda>d.
     let hit = (\<lambda>x. job_id x = job_id j \<and> job_workspace x = job_workspace j) in
     if length (filter hit (db_jobs d)) \<noteq> 1 then throw (StoreFailed ''updateJobState'') d
     else (Inr (), d\<lparr>db_jobs := map (\<lambda>x. if hit x then x\<lparr>job_state := job_state j, job_updatedAt := job_updatedAt j\<rparr> else x)
             (db_jobs d)\<rparr>))"

section \<open>Outbox, audit and authorization\<close>

definition pg_append :: "('p, 'e) environment \<Rightarrow> envelope \<Rightarrow> ('p, 'e, unit) query" where
  "pg_append E e = statement E ''appendOutbox'' [en_workspaceId e]
     (insert_row ''appendOutbox'' db_outbox (\<lambda>rs d. d\<lparr>db_outbox := rs\<rparr>) (\<lambda>a b. en_id a = en_id b) e)"

text \<open>\<open>ON CONFLICT (id) DO NOTHING\<close>.\<close>

definition pg_enqueue :: "('p, 'e) environment \<Rightarrow> envelope \<Rightarrow> ('p, 'e, unit) query" where
  "pg_enqueue E e = statement E ''enqueuePublication'' [en_workspaceId e] (\<lambda>d.
     if list_ex (\<lambda>x. en_id x = en_id e) (db_outbox d) then (Inr (), d)
     else (Inr (), d\<lparr>db_outbox := db_outbox d @ [e]\<rparr>))"

definition pg_audit :: "('p, 'e) environment \<Rightarrow> audit_record \<Rightarrow> ('p, 'e, unit) query" where
  "pg_audit E a = statement E ''appendAudit'' [au_workspaceId a]
     (insert_row ''appendAudit'' db_audit (\<lambda>rs d. d\<lparr>db_audit := rs\<rparr>) (\<lambda>a b. au_id a = au_id b) a)"

definition role_named :: "string \<Rightarrow> workspace_role option" where
  "role_named s = (if \<not> is_workspace_role s then None else if s = ''administrator'' then Some Administrator
     else if s = ''operator'' then Some Operator else if s = ''analyst'' then Some Analyst else Some Viewer)"

definition assignment_of :: "string \<Rightarrow> string \<Rightarrow> role_row \<Rightarrow> (app_error, role_assignment) result" where
  "assignment_of ws actor r = (case role_named (rw_role r) of
      None \<Rightarrow> Inl (StoreFailed ''role'')
    | Some role \<Rightarrow> Inr \<lparr>ra_workspace = ws, ra_principal = actor, ra_role = role\<rparr>)"

definition guard_decision :: "role_row list \<Rightarrow> string \<Rightarrow> string \<Rightarrow> permission \<Rightarrow> (app_error, unit) result" where
  "guard_decision rows ws actor p =
     rbind (rmapM (assignment_of ws actor) (filter (\<lambda>r. rw_workspaceId r = ws \<and> rw_principalId r = actor) rows)) (\<lambda>roles.
     case require_permission roles ws actor p of Inl e \<Rightarrow> Inl (Denied e) | Inr u \<Rightarrow> Inr u)"

text \<open>The guard opens a transaction of its own and only reads in it.  An \<open>ExecutionContext\<close> has a actor.\<close>

definition pg_require :: "('p, 'e) environment \<Rightarrow> execution_context \<Rightarrow> permission \<Rightarrow> ('p, 'e, unit) query" where
  "pg_require E cx p d =
     (case statement E ''findRoles'' [] (\<lambda>d. lift_result id (case cx_principalId cx of
          None \<Rightarrow> Inl (Denied (AuthorizationError p))
        | Some actor \<Rightarrow> guard_decision (db_roles d) (cx_workspaceId cx) actor p) d) d of
       (Inl e, w) \<Rightarrow> (Inl e, snd (settle E False d w))
     | (Inr u, w) \<Rightarrow> (case settle E True d w of (None, w') \<Rightarrow> (Inr u, w') | (Some e, w') \<Rightarrow> (Inl e, w')))"

definition postgres_ports :: "('p, 'e) environment \<Rightarrow> ('p, 'e) database app_ports" where
  "postgres_ports E = \<lparr>ap_aborted = (\<lambda>d. ev_aborted E (db_rest d)), ap_now = (\<lambda>d. ev_now E (db_rest d)), ap_date = ev_date E,
     ap_next = next_identifier E, ap_require = pg_require E, ap_settle = settle E,
     ap_lockKey = pg_lock_key E, ap_findKey = pg_find_key E, ap_recordKey = pg_record_key E, ap_identity = pg_identity E,
     ap_jobByOrdinal = pg_job_by_ordinal E, ap_createJob = pg_create_job E, ap_lockForRerun = pg_lock_for_rerun E,
     ap_findJob = pg_find_job E, ap_updateJob = pg_update_job E, ap_append = pg_append E, ap_audit = pg_audit E,
     ap_findProfile = (\<lambda>ws i v. on_publications E ''findProfile'' (ev_findProfile E ws i v)),
     ap_createIntent = (\<lambda>i ws j p t h s a. on_publications E ''createIntent'' (ev_createIntent E i ws j p t h s a)),
     ap_approve = (\<lambda>ws i u a. on_publications E ''approveIntent'' (ev_approve E ws i u a)),
     ap_bindResult = (\<lambda>ws j r. on_publications E ''bindResult'' (ev_bindResult E ws j r)),
     ap_readyIntents = (\<lambda>ws j. on_publications E ''readyIntents'' (ev_readyIntents E ws j)),
     ap_findIntent = (\<lambda>ws i. on_publications E ''findIntent'' (ev_findIntent E ws i)),
     ap_enqueuePublication = pg_enqueue E, ap_sha256 = ev_sha256 E\<rparr>"

end
