(* ===== verification/Postgres_Requests.thy ===== *)
theory Postgres_Requests
  imports Postgres_Store
begin

text \<open>
  The PostgreSQL store keeps the contract of the requests: \<open>pg_ok\<close> is what the constraints of the tables promise,
  \<open>pg_view\<close> reads the tables as the abstract store.  With the interpretation of \<open>request_store\<close> the use cases on
  PostgreSQL refine their specification, and what holds of histories of calls holds of the database.
\<close>

section \<open>The tables as maps\<close>

definition executions :: "envelope \<Rightarrow> (string \<times> string \<times> string) list" where
  "executions e = (case en_payload e of AnalysisExecute j i \<Rightarrow> [(en_workspaceId e, j, i)] | _ \<Rightarrow> [])"

definition pg_view :: "('p, 'e) database \<Rightarrow> request_view" where
  "pg_view d = \<lparr>rv_requests = (\<lambda>(ws, key). map_option (\<lambda>r. (ir_requestDigest r, ir_resourceId r)) (List.find (key_of_row ws key) (db_keys d))),
     rv_hashes = (\<lambda>(ws, h). map_option aid_id (List.find (\<lambda>x. aid_workspaceId x = ws \<and> aid_identityHash x = h) (db_identities d))),
     rv_identities = (\<lambda>i. List.find (\<lambda>x. aid_id x = i) (db_identities d)),
     rv_runs = (\<lambda>(i, n). map_option job_id (List.find (\<lambda>j. job_identity j = i \<and> runOrdinal j = n) (db_jobs d))),
     rv_jobs = (\<lambda>i. List.find (\<lambda>j. job_id j = i) (db_jobs d)),
     rv_commands = concat (map executions (db_outbox d)), rv_audits = db_audit d\<rparr>"

definition pg_ok :: "('p, 'e) database \<Rightarrow> bool" where
  "pg_ok d \<longleftrightarrow> distinct (map aid_id (db_identities d)) \<and>
     distinct (map (\<lambda>i. (aid_workspaceId i, aid_identityHash i)) (db_identities d)) \<and>
     distinct (map job_id (db_jobs d)) \<and> distinct (map (\<lambda>j. (job_identity j, runOrdinal j)) (db_jobs d)) \<and>
     (\<forall>j \<in> set (db_jobs d). 0 \<le> runOrdinal j)"

lemma pg_rest [simp]: "pg_ok (d\<lparr>db_rest := e\<rparr>) = pg_ok d" "pg_view (d\<lparr>db_rest := e\<rparr>) = pg_view d"
  by (simp_all add: pg_ok_def pg_view_def)

lemma pg_publications [simp]: "pg_ok (d\<lparr>db_publications := p\<rparr>) = pg_ok d" "pg_view (d\<lparr>db_publications := p\<rparr>) = pg_view d"
  by (simp_all add: pg_ok_def pg_view_def)

lemma find_snoc:
  assumes "P y \<Longrightarrow> List.find P xs = None"
  shows "List.find P (xs @ [y]) = (if P y then Some y else List.find P xs)"
  using assms by (induction xs) auto

lemma find_map: "(\<And>x. P (g x) = P x) \<Longrightarrow> List.find P (map g xs) = map_option g (List.find P xs)"
  by (induction xs) simp_all

lemma find_distinct: "distinct (map f xs) \<Longrightarrow> x \<in> set xs \<Longrightarrow> List.find (\<lambda>y. f y = f x) xs = Some x"
  by (induction xs) (auto simp: image_iff)

lemma find_Some: "List.find P xs = Some x \<Longrightarrow> x \<in> set xs \<and> P x"
  by (induction xs) (auto split: if_splits)

lemma find_none: "List.find P xs = None \<longleftrightarrow> (\<forall>x \<in> set xs. \<not> P x)"
  by (induction xs) auto

section \<open>The contract of the statements\<close>

lemma statement_sees:
  assumes "sees pg_ok pg_view q R"
  shows "sees pg_ok pg_view (statement E name args q) R"
  unfolding sees_def
proof (intro allI impI)
  fix d a d'
  assume ok: "pg_ok d" and run: "statement E name args q d = (Inr a, d')"
  obtain fail e where fault: "ev_fault E name args (db_rest d) = (fail, e)" by (cases "ev_fault E name args (db_rest d)")
  then have "q (d\<lparr>db_rest := e\<rparr>) = (Inr a, d')" using run by (cases fail) (simp_all add: statement_def)
  then show "pg_ok d' \<and> R a (pg_view d) (pg_view d')" using seesD [OF assms, of "d\<lparr>db_rest := e\<rparr>" a d'] ok by simp
qed

lemma reading_sees: "(\<And>d. pg_ok d \<Longrightarrow> R (f d) (pg_view d)) \<Longrightarrow> sees pg_ok pg_view (reading f) (\<lambda>r v v'. v' = v \<and> R r v)"
  by (simp add: sees_def reading_def)

lemma on_publications_unseen: "sees pg_ok pg_view (on_publications E name f) unseen"
  unfolding on_publications_def
  by (rule statement_sees) (auto simp: sees_def unseen_def split: prod.splits)

lemma opaque_id_same: "opaque_id s k = Inr t \<Longrightarrow> t = s"
  by (auto simp: opaque_id_def split: if_splits)

lemma checked_identity_sees:
  "sees pg_ok pg_view (checked_identity i row) (\<lambda>r v v'. r = row \<and> v' = v \<and>
     aid_analysisProfileVersionId row = aid_analysisProfileVersionId i \<and> aid_caseSnapshotId row = aid_caseSnapshotId i)"
proof (cases "aid_analysisProfileVersionId row \<noteq> aid_analysisProfileVersionId i \<or> aid_caseSnapshotId row \<noteq> aid_caseSnapshotId i")
  case True
  then show ?thesis unfolding checked_identity_def by (simp only: if_True sees_throw)
next
  case False
  then show ?thesis unfolding checked_identity_def
    by (simp only: if_False, intro sees_bindI [OF sees_lift sees_bind [OF sees_lift sees_ret]]) auto
qed

lemma optional_job_sees: "sees pg_ok pg_view (optional_job found) (\<lambda>r v v'. r = found \<and> v' = v)"
proof (cases found)
  case (Some j)
  have job: "sees pg_ok pg_view (to_analysis_job j) (\<lambda>r v v'. r = j \<and> v' = v)"
    unfolding to_analysis_job_def
    by (rule sees_bindI [OF sees_lift sees_bind [OF sees_lift sees_bind [OF sees_lift sees_ret]]]) auto
  show ?thesis unfolding optional_job_def Some option.case
    by (rule sees_bindI [OF job sees_ret]) simp
qed (simp add: optional_job_def sees_ret)

lemma found_job:
  assumes "pg_ok d"
  shows "List.find (\<lambda>x. job_workspace x = ws \<and> job_id x = j) (db_jobs d) = job_in ws j (pg_view d)" (is "?l = _")
proof (cases ?l)
  case None
  have "List.find (\<lambda>x. job_id x = j) (db_jobs d) = Some y \<Longrightarrow> job_workspace y \<noteq> ws" for y
    using None find_Some [of "\<lambda>x. job_id x = j" "db_jobs d" y] by (auto simp: find_none)
  then show ?thesis unfolding None by (auto simp: job_in_def pg_view_def split: option.split)
next
  case (Some x)
  then have x: "x \<in> set (db_jobs d)" "job_workspace x = ws" "job_id x = j" using find_Some [OF Some] by auto
  then have "List.find (\<lambda>y. job_id y = j) (db_jobs d) = Some x"
    using assms find_distinct [of job_id "db_jobs d" x] by (simp add: pg_ok_def)
  then show ?thesis using Some x by (simp add: job_in_def pg_view_def)
qed

lemma found_run:
  assumes "pg_ok d"
  shows "List.find (\<lambda>j. job_workspace j = ws \<and> job_identity j = i \<and> runOrdinal j = n) (db_jobs d) =
      (case rv_runs (pg_view d) (i, n) of None \<Rightarrow> None | Some j \<Rightarrow> job_in ws j (pg_view d))" (is "?l = ?r")
proof (cases "List.find (\<lambda>j. job_identity j = i \<and> runOrdinal j = n) (db_jobs d)")
  case None
  then have "?l = None" unfolding find_none by blast
  then show ?thesis using None by (simp add: pg_view_def)
next
  case (Some x)
  then have x: "x \<in> set (db_jobs d)" "job_identity x = i" "runOrdinal x = n" using find_Some [OF Some] by auto
  have row: "List.find (\<lambda>y. job_id y = job_id x) (db_jobs d) = Some x"
    using assms x(1) find_distinct [of job_id "db_jobs d" x] by (simp add: pg_ok_def)
  have only: "y = x" if "y \<in> set (db_jobs d)" "job_identity y = i" "runOrdinal y = n" for y
    using assms that x by (auto simp: pg_ok_def distinct_map inj_on_def)
  have "?l = (if job_workspace x = ws then Some x else None)"
  proof (cases ?l)
    case None
    then have "job_workspace x \<noteq> ws" using x unfolding find_none by blast
    then show ?thesis using None by simp
  next
    case (Some y)
    then have "y = x \<and> job_workspace y = ws" using only [of y] find_Some [OF Some] by blast
    then show ?thesis using Some by auto
  qed
  then show ?thesis using Some row by (simp add: pg_view_def job_in_def)
qed

lemma find_job_sees:
  "sees pg_ok pg_view (pg_find_job E ws j) (\<lambda>r v v'. r = job_in ws j v \<and> v' = v \<and> (\<forall>job. r = Some job \<longrightarrow> job_id job = j))"
proof -
  have "sees pg_ok pg_view (statement E n a (reading (\<lambda>d. List.find (\<lambda>x. job_workspace x = ws \<and> job_id x = j) (db_jobs d))))
      (\<lambda>r v v'. v' = v \<and> r = job_in ws j v \<and> (\<forall>job. r = Some job \<longrightarrow> job_id job = j))" for n a
    by (rule statement_sees) (auto simp: sees_def reading_def found_job [symmetric] dest: find_Some)
  then show ?thesis
    unfolding pg_find_job_def by (rule sees_bindI [OF _ optional_job_sees]) simp
qed

lemma job_by_ordinal_sees:
  "sees pg_ok pg_view (pg_job_by_ordinal E ws i n) (\<lambda>r v v'. v' = v \<and>
     r = (case rv_runs v (i, n) of None \<Rightarrow> None | Some j \<Rightarrow> job_in ws j v))"
proof -
  have "sees pg_ok pg_view (statement E name a (reading (\<lambda>d. List.find (\<lambda>j. job_workspace j = ws \<and> job_identity j = i \<and> runOrdinal j = n) (db_jobs d))))
      (\<lambda>r v v'. v' = v \<and> r = (case rv_runs v (i, n) of None \<Rightarrow> None | Some j \<Rightarrow> job_in ws j v))" for name a
    by (rule statement_sees) (simp add: sees_def reading_def found_run)
  then show ?thesis
    unfolding pg_job_by_ordinal_def by (rule sees_bindI [OF _ optional_job_sees]) simp
qed

text \<open>Inserts: a row that clashes with none.\<close>

lemma insert_row_sees:
  assumes "\<And>d. pg_ok d \<Longrightarrow> \<not> list_ex (clash r) (rows d) \<Longrightarrow>
      pg_ok (set_rows (rows d @ [r]) d) \<and> R (pg_view d) (pg_view (set_rows (rows d @ [r]) d))"
  shows "sees pg_ok pg_view (insert_row name rows set_rows clash r) (\<lambda>_. R)"
  using assms by (auto simp: sees_def insert_row_def split: if_splits)

lemma record_key_sees:
  "sees pg_ok pg_view (pg_record_key E ws key digest j occurredAt)
     (\<lambda>_ v v'. rv_requests v (ws, key) = None \<and> v' = with_request ws key digest j v)"
  unfolding pg_record_key_def
proof (intro statement_sees insert_row_sees conjI)
  let ?r = "\<lparr>ir_workspaceId = ws, ir_operation = ''analysis.request'', ir_keyDigest = key, ir_requestDigest = digest,
         ir_resourceId = j, ir_createdAt = occurredAt\<rparr>"
  fix d :: "('a, 'b) database"
  assume "pg_ok d" and new: "\<not> list_ex (\<lambda>b. ir_workspaceId ?r = ir_workspaceId b \<and> ir_operation ?r = ir_operation b \<and>
      ir_keyDigest ?r = ir_keyDigest b) (db_keys d)"
  then show "pg_ok (d\<lparr>db_keys := db_keys d @ [?r]\<rparr>)" by (simp add: pg_ok_def)
  have none: "List.find (key_of_row ws key) (db_keys d) = None"
    using new by (auto simp: find_none list_ex_iff key_of_row_def)
  then show "rv_requests (pg_view d) (ws, key) = None" by (simp add: pg_view_def)
  have "List.find (key_of_row w k) (db_keys d @ [?r]) = (if (w, k) = (ws, key) then Some ?r else List.find (key_of_row w k) (db_keys d))" for w k
    using none by (subst find_snoc) (auto simp: key_of_row_def)
  then show "pg_view (d\<lparr>db_keys := db_keys d @ [?r]\<rparr>) = with_request ws key digest j (pg_view d)"
    by (auto simp: pg_view_def with_request_def fun_eq_iff)
qed

lemma find_key_sees:
  "sees pg_ok pg_view (pg_find_key E ws key) (\<lambda>r v v'. r = rv_requests v (ws, key) \<and> v' = v)"
  unfolding pg_find_key_def
  by (rule statement_sees)
    (auto simp: sees_def pg_view_def ret_def abind_def lift_result_def opaque_id_same split: option.splits prod.splits sum.splits)

lemma identity_sees:
  "sees pg_ok pg_view (pg_identity E i occurredAt) (\<lambda>r v v'.
      case rv_hashes v (aid_workspaceId i, aid_identityHash i) of
        None \<Rightarrow> r = i \<and> v' = with_identity i v \<and> rv_identities v (aid_id i) = None
      | Some k \<Rightarrow> rv_identities v k = Some r \<and> v' = v \<and>
          aid_analysisProfileVersionId r = aid_analysisProfileVersionId i \<and> aid_caseSnapshotId r = aid_caseSnapshotId i)"
proof -
  let ?mine = "\<lambda>x. aid_workspaceId x = aid_workspaceId i \<and> aid_identityHash x = aid_identityHash i"
  have lock: "sees pg_ok pg_view (statement E n a (ret ())) unseen" for n a
    by (rule statement_sees) (rule sees_ret_unseen)
  have find: "sees pg_ok pg_view (statement E n a (reading (\<lambda>d. List.find ?mine (db_identities d))))
      (\<lambda>r v v'. v' = v \<and> rv_hashes v (aid_workspaceId i, aid_identityHash i) = map_option aid_id r \<and>
        (\<forall>x. r = Some x \<longrightarrow> rv_identities v (aid_id x) = Some x))" for n a
  proof (rule statement_sees, unfold sees_def reading_def, clarsimp)
    fix d :: "('a, 'b) database"
    assume ok: "pg_ok d"
    show "rv_hashes (pg_view d) (aid_workspaceId i, aid_identityHash i) = map_option aid_id (List.find ?mine (db_identities d)) \<and>
        (\<forall>x. List.find ?mine (db_identities d) = Some x \<longrightarrow> rv_identities (pg_view d) (aid_id x) = Some x)"
      using ok find_distinct [of aid_id "db_identities d"] by (auto simp: pg_view_def pg_ok_def dest: find_Some)
  qed
  have create: "sees pg_ok pg_view (statement E n a (insert_row m db_identities (\<lambda>rs d. d\<lparr>db_identities := rs\<rparr>)
               (\<lambda>a b. aid_id a = aid_id b \<or> aid_workspaceId a = aid_workspaceId b \<and> aid_identityHash a = aid_identityHash b) i))
      (\<lambda>_ v v'. v' = with_identity i v \<and> rv_identities v (aid_id i) = None)" for n a m
  proof (intro statement_sees insert_row_sees conjI)
    fix d :: "('a, 'b) database"
    assume ok: "pg_ok d" and "\<not> list_ex (\<lambda>b. aid_id i = aid_id b \<or> aid_workspaceId i = aid_workspaceId b \<and>
        aid_identityHash i = aid_identityHash b) (db_identities d)"
    then have new: "\<forall>x \<in> set (db_identities d). aid_id x \<noteq> aid_id i \<and> \<not> ?mine x" by (auto simp: list_ex_iff)
    then show "pg_ok (d\<lparr>db_identities := db_identities d @ [i]\<rparr>)" using ok by (auto simp: pg_ok_def)
    show "rv_identities (pg_view d) (aid_id i) = None" using new by (simp add: pg_view_def find_none)
    have "List.find (\<lambda>x. aid_id x = k) (db_identities d @ [i]) = (if k = aid_id i then Some i else List.find (\<lambda>x. aid_id x = k) (db_identities d))" for k
      using new by (subst find_snoc) (auto simp: find_none)
    moreover have "List.find (\<lambda>x. aid_workspaceId x = ws \<and> aid_identityHash x = h) (db_identities d @ [i]) =
        (if (ws, h) = (aid_workspaceId i, aid_identityHash i) then Some i
         else List.find (\<lambda>x. aid_workspaceId x = ws \<and> aid_identityHash x = h) (db_identities d))" for ws h
      using new by (subst find_snoc) (auto simp: find_none)
    ultimately show "pg_view (d\<lparr>db_identities := db_identities d @ [i]\<rparr>) = with_identity i (pg_view d)"
      by (auto simp: pg_view_def with_identity_def fun_eq_iff)
  qed
  have rest: "sees pg_ok pg_view (case found of Some row \<Rightarrow> checked_identity i row | None \<Rightarrow>
         abind (statement E n a (insert_row m db_identities (\<lambda>rs d. d\<lparr>db_identities := rs\<rparr>)
               (\<lambda>a b. aid_id a = aid_id b \<or> aid_workspaceId a = aid_workspaceId b \<and> aid_identityHash a = aid_identityHash b) i))
             (\<lambda>_. checked_identity i i))
      (\<lambda>r v v'. case found of None \<Rightarrow> r = i \<and> v' = with_identity i v \<and> rv_identities v (aid_id i) = None
        | Some x \<Rightarrow> r = x \<and> v' = v \<and> aid_analysisProfileVersionId x = aid_analysisProfileVersionId i \<and> aid_caseSnapshotId x = aid_caseSnapshotId i)"
    for found n a m
  proof (cases found)
    case None
    show ?thesis unfolding None option.case by (rule sees_bindI [OF create checked_identity_sees]) simp
  next
    case (Some x)
    show ?thesis unfolding Some option.case by (rule checked_identity_sees)
  qed
  show ?thesis
    unfolding pg_identity_def
    by (rule sees_skip [OF lock], rule sees_bindI [OF find rest]) (auto split: option.splits)
qed

lemma create_job_sees:
  "sees pg_ok pg_view (pg_create_job E j) (\<lambda>_ v v'. v' = with_job j v \<and> rv_jobs v (job_id j) = None \<and>
      rv_runs v (job_identity j, runOrdinal j) = None \<and> identity_in (job_workspace j) (job_identity j) v \<noteq> None)"
  unfolding pg_create_job_def
proof (rule statement_sees, unfold sees_def, intro allI impI)
  fix d :: "('a, 'b) database" and u :: unit and d'
  let ?clash = "\<lambda>a b. job_id a = job_id b \<or> job_identity a = job_identity b \<and> runOrdinal a = runOrdinal b"
  assume ok: "pg_ok d" and run: "(if runOrdinal j < 0 \<or> \<not> list_ex (\<lambda>i. aid_workspaceId i = job_workspace j \<and> aid_id i = job_identity j) (db_identities d)
     then throw (StoreFailed ''createJob'') d
     else insert_row ''createJob'' db_jobs (\<lambda>rs d. d\<lparr>db_jobs := rs\<rparr>) ?clash j d) = (Inr u, d')"
  then have ordinal: "0 \<le> runOrdinal j"
    and key: "\<exists>i \<in> set (db_identities d). aid_workspaceId i = job_workspace j \<and> aid_id i = job_identity j"
    and insert: "insert_row ''createJob'' db_jobs (\<lambda>rs d. d\<lparr>db_jobs := rs\<rparr>) ?clash j d = (Inr u, d')"
    by (auto simp: throw_def list_ex_iff split: if_splits)
  then have new: "\<forall>x \<in> set (db_jobs d). job_id x \<noteq> job_id j \<and> \<not> (job_identity x = job_identity j \<and> runOrdinal x = runOrdinal j)"
    and d': "d' = d\<lparr>db_jobs := db_jobs d @ [j]\<rparr>"
    by (auto simp: insert_row_def list_ex_iff split: if_splits)
  have ok': "pg_ok d'" using ok new ordinal unfolding d' by (auto simp: pg_ok_def)
  have "List.find (\<lambda>x. job_id x = k) (db_jobs d @ [j]) = (if k = job_id j then Some j else List.find (\<lambda>x. job_id x = k) (db_jobs d))" for k
    using new by (subst find_snoc) (auto simp: find_none)
  moreover have "List.find (\<lambda>x. job_identity x = i \<and> runOrdinal x = n) (db_jobs d @ [j]) =
      (if (i, n) = (job_identity j, runOrdinal j) then Some j else List.find (\<lambda>x. job_identity x = i \<and> runOrdinal x = n) (db_jobs d))" for i n
    using new by (subst find_snoc) (auto simp: find_none)
  ultimately have row: "pg_view d' = with_job j (pg_view d)" unfolding d' by (auto simp: pg_view_def with_job_def fun_eq_iff)
  obtain i where i: "i \<in> set (db_identities d)" "aid_workspaceId i = job_workspace j" "aid_id i = job_identity j" using key by blast
  have "List.find (\<lambda>x. aid_id x = job_identity j) (db_identities d) = Some i"
    using ok i find_distinct [of aid_id "db_identities d" i] by (simp add: pg_ok_def)
  then have "identity_in (job_workspace j) (job_identity j) (pg_view d) \<noteq> None" using i by (simp add: identity_in_def pg_view_def)
  moreover have "rv_jobs (pg_view d) (job_id j) = None" "rv_runs (pg_view d) (job_identity j, runOrdinal j) = None"
    using new by (simp_all add: pg_view_def find_none)
  ultimately show "pg_ok d' \<and> pg_view d' = with_job j (pg_view d) \<and> rv_jobs (pg_view d) (job_id j) = None \<and>
      rv_runs (pg_view d) (job_identity j, runOrdinal j) = None \<and> identity_in (job_workspace j) (job_identity j) (pg_view d) \<noteq> None"
    using ok' row by simp
qed

lemma fold_max: "List.fold max ns (n::int) \<in> set (n # ns)"
proof (induction ns arbitrary: n)
  case (Cons m ns)
  show ?case using Cons.IH [of "max m n"] by (auto simp: max_def split: if_splits)
qed simp

lemma latest_ordinal_run:
  assumes "pg_ok d" and "latest_ordinal ws i (db_jobs d) = Some n"
  shows "0 \<le> n \<and> rv_runs (pg_view d) (i, n) \<noteq> None"
proof -
  let ?own = "filter (\<lambda>j. job_workspace j = ws \<and> job_identity j = i) (db_jobs d)"
  obtain m ns where ns: "map runOrdinal ?own = m # ns" "n = List.fold max ns m"
    using assms(2) unfolding latest_ordinal_def by (cases "map runOrdinal ?own") simp_all
  have "n \<in> set (map runOrdinal ?own)" unfolding ns by (rule fold_max)
  then obtain j where j: "j \<in> set (db_jobs d)" "job_identity j = i" "runOrdinal j = n" by auto
  then have "List.find (\<lambda>j. job_identity j = i \<and> runOrdinal j = n) (db_jobs d) \<noteq> None" unfolding find_none by blast
  moreover have "0 \<le> n" using assms(1) j unfolding pg_ok_def by blast
  ultimately show ?thesis by (simp add: pg_view_def)
qed

lemma lock_for_rerun_sees:
  "sees pg_ok pg_view (pg_lock_for_rerun E ws i) (\<lambda>(x, n) v v'. v' = v \<and> aid_id x = i \<and> 0 \<le> n \<and>
      (n = 0 \<or> rv_runs v (i, n - 1) \<noteq> None))"
proof -
  have row: "sees pg_ok pg_view (statement E m a (reading (\<lambda>d. List.find (\<lambda>x. aid_workspaceId x = ws \<and> aid_id x = i) (db_identities d))))
      (\<lambda>r v v'. v' = v \<and> (\<forall>x. r = Some x \<longrightarrow> aid_id x = i))" for m a
    by (rule statement_sees) (auto simp: sees_def reading_def dest: find_Some)
  have latest: "sees pg_ok pg_view (statement E m a (reading (\<lambda>d. latest_ordinal ws i (db_jobs d))))
      (\<lambda>r v v'. v' = v \<and> (\<forall>n. r = Some n \<longrightarrow> 0 \<le> n \<and> rv_runs v (i, n) \<noteq> None))" for m a
    by (rule statement_sees) (use latest_ordinal_run in \<open>auto simp: sees_def reading_def\<close>)
  have rest: "sees pg_ok pg_view (case found of None \<Rightarrow> throw e | Some identity \<Rightarrow>
         abind (statement E m a (reading (\<lambda>d. latest_ordinal ws i (db_jobs d)))) (\<lambda>latest.
         abind (lift_result IdentifierRejected (opaque_id (aid_id identity) k)) (\<lambda>_.
         abind (lift_result IdentifierRejected (opaque_id (aid_workspaceId identity) k')) (\<lambda>_.
         ret (identity, (case latest of None \<Rightarrow> -1 | Some n \<Rightarrow> n) + 1)))))
      (\<lambda>(x, n) v v'. v' = v \<and> found = Some x \<and> 0 \<le> n \<and> (n = 0 \<or> rv_runs v (i, n - 1) \<noteq> None))" for found e m a k k'
  proof (cases found)
    case (Some x)
    show ?thesis unfolding Some option.case
      by (rule sees_bindI [OF latest sees_bind [OF sees_lift sees_bind [OF sees_lift sees_ret]]]) (auto split: option.splits)
  qed (simp add: sees_throw)
  show ?thesis
    unfolding pg_lock_for_rerun_def by (rule sees_bindI [OF row rest]) auto
qed

lemma map_one:
  assumes "length (filter p xs) = 1" "distinct (map f xs)" "x \<in> set xs" "p x"
  shows "map (\<lambda>y. if p y then g y else y) xs = map (\<lambda>y. if f y = f x then g y else y) xs"
proof -
  obtain y where y: "filter p xs = [y]" using assms(1) by (auto simp: length_Suc_conv)
  have "x \<in> set (filter p xs)" using assms(3,4) by simp
  then have "filter p xs = [x]" unfolding y by simp
  then have "{y \<in> set xs. p y} = {x}" by (metis list.set(1,2) set_filter)
  then have "p y \<longleftrightarrow> y = x" if "y \<in> set xs" for y using that by blast
  moreover have "f y = f x \<longleftrightarrow> y = x" if "y \<in> set xs" for y using that assms(2,3) by (auto simp: distinct_map inj_on_def)
  ultimately show ?thesis by auto
qed

lemma update_job_sees:
  "sees pg_ok pg_view (pg_update_job E j) (\<lambda>_ v v'. \<exists>old. job_in (job_workspace j) (job_id j) v = Some old \<and>
      v' = v\<lparr>rv_jobs := (rv_jobs v)(job_id j \<mapsto> old\<lparr>job_state := job_state j, job_updatedAt := job_updatedAt j\<rparr>)\<rparr>)"
  unfolding pg_update_job_def Let_def
proof (rule statement_sees, unfold sees_def, intro allI impI)
  let ?hit = "\<lambda>x. job_id x = job_id j \<and> job_workspace x = job_workspace j"
  let ?set = "\<lambda>x. x\<lparr>job_state := job_state j, job_updatedAt := job_updatedAt j\<rparr>"
  fix d :: "('a, 'b) database" and u :: unit and d'
  assume ok: "pg_ok d" and run: "(if length (filter ?hit (db_jobs d)) \<noteq> 1 then throw (StoreFailed ''updateJobState'') d
     else (Inr (), d\<lparr>db_jobs := map (\<lambda>x. if ?hit x then ?set x else x) (db_jobs d)\<rparr>)) = (Inr u, d')"
  then have one: "length (filter ?hit (db_jobs d)) = 1"
    and d': "d' = d\<lparr>db_jobs := map (\<lambda>x. if ?hit x then ?set x else x) (db_jobs d)\<rparr>"
    by (auto simp: throw_def split: if_splits)
  have "filter ?hit (db_jobs d) \<noteq> []" using one by force
  then obtain old where old: "old \<in> set (db_jobs d)" "job_id old = job_id j" "job_workspace old = job_workspace j"
    by (auto simp: filter_empty_conv)
  let ?g = "\<lambda>x. if job_id x = job_id j then ?set x else x"
  have rows: "d' = d\<lparr>db_jobs := map ?g (db_jobs d)\<rparr>"
    using map_one [of ?hit "db_jobs d" job_id old ?set] one ok old unfolding d' by (simp add: pg_ok_def)
  have m1: "map job_id (map ?g js) = map job_id js" for js by (induction js) simp_all
  have m2: "map (\<lambda>j. (job_identity j, runOrdinal j)) (map ?g js) = map (\<lambda>j. (job_identity j, runOrdinal j)) js" for js
    by (induction js) simp_all
  have m3: "\<forall>x \<in> set (map ?g (db_jobs d)). 0 \<le> runOrdinal x" using ok unfolding pg_ok_def by auto
  have "db_jobs d' = map ?g (db_jobs d)" "db_identities d' = db_identities d" unfolding rows by simp_all
  then have ok': "pg_ok d'" using ok m3 unfolding pg_ok_def by (simp only: m1 m2)
  have found: "List.find (\<lambda>x. job_id x = job_id j) (db_jobs d) = Some old"
    using ok old(1,2) find_distinct [of job_id "db_jobs d" old] unfolding pg_ok_def by simp
  have jobs: "List.find (\<lambda>x. job_id x = k) (map ?g (db_jobs d)) = map_option ?g (List.find (\<lambda>x. job_id x = k) (db_jobs d))" for k
    by (rule find_map) simp
  have runs: "List.find (\<lambda>x. job_identity x = i \<and> runOrdinal x = n) (map ?g (db_jobs d)) =
      map_option ?g (List.find (\<lambda>x. job_identity x = i \<and> runOrdinal x = n) (db_jobs d))" for i n
    by (rule find_map) simp
  have jobs': "rv_jobs (pg_view d') = (rv_jobs (pg_view d))(job_id j \<mapsto> ?set old)"
  proof
    fix k
    have "map_option ?g (List.find (\<lambda>x. job_id x = k) (db_jobs d)) =
        (if k = job_id j then Some (?set old) else List.find (\<lambda>x. job_id x = k) (db_jobs d))"
    proof (cases "List.find (\<lambda>x. job_id x = k) (db_jobs d)")
      case None
      then have "k \<noteq> job_id j" using found by auto
      then show ?thesis using None by simp
    next
      case (Some x)
      have "job_id x = k" using find_Some [OF Some] by simp
      moreover have "k = job_id j \<Longrightarrow> x = old" using found Some by simp
      ultimately show ?thesis unfolding Some by simp
    qed
    then show "rv_jobs (pg_view d') k = ((rv_jobs (pg_view d))(job_id j \<mapsto> ?set old)) k"
      unfolding rows by (simp add: pg_view_def jobs)
  qed
  have runs': "rv_runs (pg_view d') = rv_runs (pg_view d)"
  proof
    fix k :: "string \<times> int"
    have "map_option job_id (map_option ?g x) = map_option job_id x" for x by (cases x) simp_all
    then show "rv_runs (pg_view d') k = rv_runs (pg_view d) k"
      unfolding rows by (cases k) (simp add: pg_view_def runs)
  qed
  have "pg_view d' = (pg_view d)\<lparr>rv_jobs := rv_jobs (pg_view d'), rv_runs := rv_runs (pg_view d')\<rparr>"
    unfolding rows by (simp add: pg_view_def)
  then have "pg_view d' = (pg_view d)\<lparr>rv_jobs := (rv_jobs (pg_view d))(job_id j \<mapsto> ?set old)\<rparr>"
    unfolding jobs' runs' by simp
  moreover have "job_in (job_workspace j) (job_id j) (pg_view d) = Some old" using found old by (simp add: job_in_def pg_view_def)
  ultimately show "pg_ok d' \<and> (\<exists>old. job_in (job_workspace j) (job_id j) (pg_view d) = Some old \<and>
      pg_view d' = (pg_view d)\<lparr>rv_jobs := (rv_jobs (pg_view d))(job_id j \<mapsto> ?set old)\<rparr>)"
    using ok' by blast
qed

lemma append_sees: "sees pg_ok pg_view (pg_append E e) (\<lambda>_ v v'. v' = with_command e v)"
  unfolding pg_append_def
proof (intro statement_sees insert_row_sees conjI)
  fix d :: "('a, 'b) database"
  assume "pg_ok d"
  then show "pg_ok (d\<lparr>db_outbox := db_outbox d @ [e]\<rparr>)" by (simp add: pg_ok_def)
  show "pg_view (d\<lparr>db_outbox := db_outbox d @ [e]\<rparr>) = with_command e (pg_view d)"
    by (cases "en_payload e") (simp_all add: pg_view_def with_command_def executions_def)
qed

lemma enqueue_sees: "sees pg_ok pg_view (pg_enqueue E e) (\<lambda>_ v v'. v' = v \<or> v' = with_command e v)"
  unfolding pg_enqueue_def
proof (rule statement_sees, unfold sees_def, intro allI impI)
  fix d :: "('a, 'b) database" and u :: unit and d'
  assume ok: "pg_ok d" and run: "(if list_ex (\<lambda>x. en_id x = en_id e) (db_outbox d) then (Inr (), d)
     else (Inr (), d\<lparr>db_outbox := db_outbox d @ [e]\<rparr>)) = (Inr u, d')"
  have "pg_view (d\<lparr>db_outbox := db_outbox d @ [e]\<rparr>) = with_command e (pg_view d)"
    by (cases "en_payload e") (simp_all add: pg_view_def with_command_def executions_def)
  then show "pg_ok d' \<and> (pg_view d' = pg_view d \<or> pg_view d' = with_command e (pg_view d))"
    using ok run by (auto simp: pg_ok_def split: if_splits)
qed

lemma audit_sees: "sees pg_ok pg_view (pg_audit E a) (\<lambda>_ v v'. v' = with_audit a v)"
  unfolding pg_audit_def
  by (intro statement_sees insert_row_sees) (simp add: pg_ok_def pg_view_def with_audit_def)

lemma settle_rollback: "pg_ok s \<Longrightarrow> pg_ok (snd (settle E False s w)) \<and> pg_view (snd (settle E False s w)) = pg_view s"
  by (simp add: settle_def)

lemma settle_commit:
  "pg_ok s \<Longrightarrow> pg_ok w \<Longrightarrow> settle E True s w = (x, w') \<Longrightarrow>
    pg_ok w' \<and> (pg_view w' = pg_view w \<or> x \<noteq> None \<and> pg_view w' = pg_view s)"
  by (auto simp: settle_def split: prod.splits commit_outcome.splits)

lemma require_silent: "silent pg_ok pg_view (pg_require E cx p)"
  unfolding silent_def
proof (intro allI impI)
  fix d :: "('a, 'b) database"
  assume ok: "pg_ok d"
  let ?check = "\<lambda>d. lift_result id (case cx_principalId cx of None \<Rightarrow> Inl (Denied (AuthorizationError p))
        | Some actor \<Rightarrow> guard_decision (db_roles d) (cx_workspaceId cx) actor p) d"
  obtain r w where w: "statement E ''findRoles'' [] ?check d = (r, w)" by (cases "statement E ''findRoles'' [] ?check d")
  then obtain e where e: "w = d\<lparr>db_rest := e\<rparr>"
    by (auto simp: statement_def lift_result_def split: prod.splits bool.splits sum.splits)
  have "pg_ok w" "pg_view w = pg_view d" using ok e by simp_all
  then have settled: "pg_ok w' \<and> pg_view w' = pg_view d" if "settle E True d w = (x, w')" for x w'
    using settle_commit [OF ok _ that] by auto
  have "pg_require E cx p d = (case r of
       Inl e \<Rightarrow> (Inl e, snd (settle E False d w))
     | Inr u \<Rightarrow> (case settle E True d w of (None, w') \<Rightarrow> (Inr u, w') | (Some e, w') \<Rightarrow> (Inl e, w')))"
    unfolding pg_require_def w by (cases r) simp_all
  then show "pg_ok (snd (pg_require E cx p d)) \<and> pg_view (snd (pg_require E cx p d)) = pg_view d"
    using settle_rollback [OF ok] settled by (cases r; cases "settle E True d w") (auto split: option.splits)
qed

lemma next_identifier_unseen: "sees pg_ok pg_view (next_identifier E k) unseen"
  by (auto simp: sees_def next_identifier_def unseen_def split: prod.splits)

lemma lock_key_unseen: "sees pg_ok pg_view (pg_lock_key E ws key) unseen"
  unfolding pg_lock_key_def by (rule statement_sees) (rule sees_ret_unseen)

interpretation pg: request_store "postgres_ports E" pg_ok pg_view
  by (unfold_locales, unfold postgres_ports_def app_ports.simps)
    (rule next_identifier_unseen require_silent lock_key_unseen find_key_sees record_key_sees identity_sees job_by_ordinal_sees
       create_job_sees lock_for_rerun_sees find_job_sees update_job_sees append_sees audit_sees on_publications_unseen enqueue_sees
     | (rule settle_rollback settle_commit; assumption))+

end
