(* ===== verification/Request_Properties.thy ===== *)
theory Request_Properties
  imports Postgres_Requests
begin

text \<open>
  The properties of the requests on PostgreSQL: they refine their specification, histories of calls keep the tables
  consistent, and a key and an identity are bound once.  \<open>demo\<close> is an environment in which every statement succeeds, for
  the witnesses.
\<close>

section \<open>A concrete environment\<close>

definition demo :: "(unit, nat) environment" where
  "demo = \<lparr>ev_aborted = (\<lambda>_. False), ev_now = (\<lambda>_. ''2026-01-01T00:00:00.000Z''), ev_date = (\<lambda>_. Some 0),
     ev_sha256 = (\<lambda>_. replicate 64 CHR ''0''), ev_next = (\<lambda>k n. (k @ ''-'' @ replicate n CHR ''x'', Suc n)),
     ev_fault = (\<lambda>_ _ n. (False, n)), ev_commit = (\<lambda>n. (CommitDone, n)), ev_findProfile = (\<lambda>_ _ _ p. (Inr None, p)),
     ev_createIntent = (\<lambda>_ _ _ _ _ _ _ _ p. (Inl ProfileNotFound, p)), ev_approve = (\<lambda>_ _ _ _ p. (Inr NotApprovable, p)),
     ev_bindResult = (\<lambda>_ _ _ p. (Inr (), p)), ev_readyIntents = (\<lambda>_ _ p. (Inr [], p)), ev_findIntent = (\<lambda>_ _ p. (Inr None, p))\<rparr>"

definition new_database :: "(unit, nat) database" where
  "new_database = \<lparr>db_identities = [], db_jobs = [], db_keys = [], db_outbox = [], db_audit = [],
     db_roles = [\<lparr>rw_workspaceId = ''ws'', rw_principalId = ''ann'', rw_role = ''operator''\<rparr>], db_publications = (), db_rest = 0\<rparr>"

definition demo_request :: request_command where
  "demo_request = \<lparr>rc_idempotencyKeyDigest = ''key'', rc_requestDigest = ''digest'', rc_identityHash = ''hash'',
     rc_analysisProfileVersionId = ''profile'', rc_caseSnapshotId = ''snapshot''\<rparr>"

definition demo_context :: execution_context where
  "demo_context = \<lparr>cx_requestId = ''request'', cx_workspaceId = ''ws'', cx_principalId = Some ''ann'', cx_correlationId = ''correlation'',
     cx_traceContext = None\<rparr>"

definition demo_database :: "(unit, nat) database" where
  "demo_database = snd (request_analysis (postgres_ports demo) demo_request demo_context new_database)"

lemma demo_returns: "fst (request_analysis (postgres_ports demo) demo_request demo_context new_database) =
    Inr \<lparr>rr_analysisJobId = ''analysisJob-x'', rr_analysisIdentityId = ''analysisIdentity-'', rr_replayed = False\<rparr>"
  by code_simp

lemma demo_replays: "fst (request_analysis (postgres_ports demo) demo_request demo_context demo_database) =
    Inr \<lparr>rr_analysisJobId = ''analysisJob-x'', rr_analysisIdentityId = ''analysisIdentity-'', rr_replayed = True\<rparr>"
  by code_simp

lemma demo_runs: "request_analysis (postgres_ports demo) demo_request demo_context new_database =
    (Inr \<lparr>rr_analysisJobId = ''analysisJob-x'', rr_analysisIdentityId = ''analysisIdentity-'', rr_replayed = False\<rparr>, demo_database)"
  using demo_returns by (simp add: demo_database_def prod_eq_iff)

section \<open>The database of a workspace\<close>

text \<open>No requests yet.\<close>

definition no_requests :: "('p, 'e) database \<Rightarrow> bool" where
  "no_requests d \<longleftrightarrow> db_identities d = [] \<and> db_jobs d = [] \<and> db_keys d = [] \<and> concat (map executions (db_outbox d)) = []"

lemma no_requests_ok: "no_requests d \<Longrightarrow> pg_ok d \<and> consistent (pg_view d)"
  unfolding no_requests_def by (simp add: pg_ok_def pg_view_def consistent_def consistent_defs identity_in_def job_in_def del: concat_eq_Nil_conv)

abbreviation pg_history :: "('p, 'e) environment \<Rightarrow> ('p, 'e) database \<Rightarrow> ('p, 'e) database \<Rightarrow> bool" where
  "pg_history E \<equiv> app_history (postgres_ports E) pg_ok pg_view"

lemma pg_reached: "no_requests d \<Longrightarrow> pg_history E d d' \<Longrightarrow> pg_ok d' \<and> consistent (pg_view d')"
  using no_requests_ok pg.history_keeps by blast

text \<open>A set of ordinals without gaps.\<close>

lemma no_gaps:
  assumes "finite N" and "\<And>n. n \<in> N \<Longrightarrow> 0 \<le> n \<and> (n = 0 \<or> n - 1 \<in> N)"
  shows "\<exists>k. N = {0 ..< int k}"
proof (cases "N = {}")
  case True
  then show ?thesis by (intro exI [of _ 0]) simp
next
  case False
  have below: "n - int m \<in> N" if "n \<in> N" "int m \<le> n" for n m
    using that
  proof (induction m)
    case (Suc m)
    then have "n - int m \<in> N" "n - int m \<noteq> 0" by simp_all
    then have "n - int m - 1 \<in> N" using assms(2) by blast
    moreover have "n - int (Suc m) = n - int m - 1" by simp
    ultimately show ?case by (simp only:)
  qed simp
  have top: "Max N \<in> N" using assms(1) False by (rule Max_in)
  have "N = {0 .. Max N}"
  proof (intro set_eqI iffI)
    fix n
    assume n: "n \<in> {0 .. Max N}"
    then have "int (nat (Max N - n)) = Max N - n" by simp
    then show "n \<in> N" using below [OF top, of "nat (Max N - n)"] n by simp
  next
    fix n
    assume "n \<in> N"
    then show "n \<in> {0 .. Max N}" using assms(2) [of n] Max_ge [OF assms(1)] by simp
  qed
  moreover have "0 \<le> Max N" using assms(2) top by blast
  ultimately have "N = {0 ..< int (nat (Max N + 1))}" by force
  then show ?thesis by blast
qed

lemma runs_numbered:
  assumes ok: "pg_ok d" and v: "consistent (pg_view d)"
  shows "\<exists>k. runOrdinal ` {j \<in> set (db_jobs d). job_identity j = i} = {0 ..< int k}"
proof (rule no_gaps)
  fix n
  assume "n \<in> runOrdinal ` {j \<in> set (db_jobs d). job_identity j = i}"
  then obtain j where j: "j \<in> set (db_jobs d)" "job_identity j = i" "runOrdinal j = n" by blast
  then have "rv_runs (pg_view d) (i, n) \<noteq> None" by (auto simp: pg_view_def find_none)
  then have "n = 0 \<or> rv_runs (pg_view d) (i, n - 1) \<noteq> None"
    using v unfolding consistent_def runs_contiguous_def by blast
  moreover have "n - 1 \<in> runOrdinal ` {j \<in> set (db_jobs d). job_identity j = i}" if "rv_runs (pg_view d) (i, n - 1) \<noteq> None"
    using that by (auto simp: pg_view_def find_none intro!: image_eqI)
  ultimately show "0 \<le> n \<and> (n = 0 \<or> n - 1 \<in> runOrdinal ` {j \<in> set (db_jobs d). job_identity j = i})"
    using ok j unfolding pg_ok_def by blast
qed simp

lemma jobs_commanded:
  assumes ok: "pg_ok d" and v: "consistent (pg_view d)"
  shows "distinct (map (\<lambda>(ws, j, i). j) (concat (map executions (db_outbox d)))) \<and>
    set (concat (map executions (db_outbox d))) = (\<lambda>j. (job_workspace j, job_id j, job_identity j)) ` set (db_jobs d)"
proof -
  have row: "rv_jobs (pg_view d) j = Some job \<longleftrightarrow> job \<in> set (db_jobs d) \<and> job_id job = j" for j job
    using ok find_distinct [of job_id "db_jobs d"] find_Some [of "\<lambda>x. job_id x = j" "db_jobs d" job]
    by (auto simp: pg_view_def pg_ok_def)
  have "(\<lambda>(j, job). (job_workspace job, j, job_identity job)) ` Map.graph (rv_jobs (pg_view d)) =
      (\<lambda>j. (job_workspace j, job_id j, job_identity j)) ` set (db_jobs d)"
    using row by (force simp: Map.graph_def)
  moreover have "rv_commands (pg_view d) = concat (map executions (db_outbox d))" by (simp add: pg_view_def)
  ultimately show ?thesis using v unfolding consistent_def commands_match_def by metis
qed

section \<open>Properties\<close>

text \<open>
  C12: On PostgreSQL the use cases refine their specification on the abstract store: a value that \<open>RequestAnalysis\<close>,
  \<open>RequestAnalysisWithPublication\<close>, \<open>ForceRerunAnalysis\<close> or \<open>CancelAnalysisJob\<close> returns comes with one step of the
  specification, for some choice of identifiers and times; when one throws, nothing the specification sees has changed,
  unless the commit took effect and only its answer was lost.
\<close>

theorem requests_refine_specification:
  "refines pg_ok pg_view (request_analysis (postgres_ports E) cmd cx) (spec_request cmd cx) \<and>
   refines pg_ok pg_view (request_with_publication (postgres_ports E) cmd pu cx) (spec_publication cmd pu cx) \<and>
   refines pg_ok pg_view (force_rerun (postgres_ports E) identity cx) (spec_rerun identity cx) \<and>
   refines pg_ok pg_view (cancel_job (postgres_ports E) job cx) (spec_cancel job cx)"
  by (intro conjI pg.request_refines pg.publication_request_refines pg.rerun_refines pg.cancel_refines)



text \<open>
  C13: A request is made once.  After a request returned, and after any later calls, a request with the same idempotency
  key in the same workspace changes nothing the specification sees; it can only return the same job and identity, marked
  as replayed, and only if its digest is the same.  And two requests that are no replays and have the same identity hash
  get the same job, whatever their keys.
\<close>

theorem request_made_once:
  assumes "no_requests d" and "pg_history E d d1"
    and first: "request_analysis (postgres_ports E) cmd cx d1 = (Inr r, d2)"
    and between: "pg_history E d2 d3"
    and again: "request_analysis (postgres_ports E) cmd' cx' d3 = (r', d4)"
    and workspace: "cx_workspaceId cx' = cx_workspaceId cx"
  shows "(if rc_idempotencyKeyDigest cmd' = rc_idempotencyKeyDigest cmd
     then pg_view d4 = pg_view d3 \<and> (case r' of Inl _ \<Rightarrow> True
       | Inr x \<Rightarrow> rc_requestDigest cmd' = rc_requestDigest cmd \<and> rr_replayed x \<and> rr_analysisJobId x = rr_analysisJobId r \<and>
           rr_analysisIdentityId x = rr_analysisIdentityId r)
     else True) \<and>
   (case r' of Inl _ \<Rightarrow> True
     | Inr x \<Rightarrow> if rc_identityHash cmd' = rc_identityHash cmd \<and> \<not> rr_replayed r \<and> \<not> rr_replayed x
         then rr_analysisJobId x = rr_analysisJobId r \<and> rr_analysisIdentityId x = rr_analysisIdentityId r else True)"
proof -
  have d1: "pg_ok d1" "consistent (pg_view d1)" using pg_reached [OF assms(1,2)] by blast+
  have d2: "pg_ok d2 \<and> consistent (pg_view d2)" using pg.step_keeps [OF app_step.requested [OF first] d1] by blast
  have d3: "pg_ok d3 \<and> consistent (pg_view d3)" "later (pg_view d2) (pg_view d3)"
    using pg.history_keeps [OF between] d2 by blast+
  show ?thesis
  proof (cases r')
    case (Inl e)
    then show ?thesis
      using pg.request_again [OF d1 first _ _ d3(2) again workspace] d3(1) by simp
  next
    case (Inr x)
    then show ?thesis
      using pg.request_again [OF d1 first _ _ d3(2) again workspace] d3(1) workspace
        pg.same_identity_same_job [OF d1 first _ _ d3(2) again [unfolded Inr] workspace] by simp
  qed
qed

theorem request_made_once_witness:
  "fst (request_analysis (postgres_ports demo) demo_request demo_context demo_database) =
     Inr \<lparr>rr_analysisJobId = ''analysisJob-x'', rr_analysisIdentityId = ''analysisIdentity-'', rr_replayed = True\<rparr> \<and>
   pg_view (snd (request_analysis (postgres_ports demo) demo_request demo_context demo_database)) = pg_view demo_database"
proof
  have empty: "no_requests new_database" by (simp add: no_requests_def new_database_def)
  show "pg_view (snd (request_analysis (postgres_ports demo) demo_request demo_context demo_database)) = pg_view demo_database"
    using request_made_once [OF empty app_history.start demo_runs app_history.start prod.collapse [symmetric] HOL.refl] by simp
qed (rule demo_replays)

end
