(* ===== verification/Outbox.thy ===== *)
theory Outbox
  imports Envelopes Effects
begin

text \<open>
  The transactional outbox: \<open>OutboxRelay\<close> of \<open>packages/application/src/use-cases.ts\<close>, the claims and acknowledgements of
  \<open>PostgresOutboxStore\<close> (\<open>infrastructure/postgres/src/index.ts\<close>) and \<open>PgBossDurableMessageQueue.publish\<close>
  (\<open>infrastructure/queue-postgres/src/index.ts\<close>).  The queue library pg-boss and the order in which the database
  returns updated rows are parameters.  \<open>relay_step\<close> interleaves any number of relays.
\<close>

section \<open>The table\<close>

record outbox_row =
  ob_envelope :: envelope
  ob_occurredAt :: int
  ob_availableAt :: int
  ob_deliveredAt :: "string option"
  ob_claimToken :: "string option"
  ob_claimedUntil :: "int option"
  ob_claimAttempts :: nat

record outbox_claim =
  cl_envelope :: envelope
  cl_token :: string

datatype relay_error =
    RelayLimitOutOfRange | ClaimLimitOutOfRange | ClaimDurationNotPositive | EnvelopeUnreadable envelope_error
  | EnvelopeIdNotUuid | QueueRejected string | QueueIdNotPreserved | ClaimNotActive

definition row_id :: "outbox_row \<Rightarrow> string" where
  "row_id r = en_id (ob_envelope r)"

definition claim_id :: "outbox_claim \<Rightarrow> string" where
  "claim_id c = en_id (cl_envelope c)"

definition claimable :: "int \<Rightarrow> outbox_row \<Rightarrow> bool" where
  "claimable now r \<longleftrightarrow> ob_deliveredAt r = None \<and> ob_availableAt r \<le> now \<and>
     (case ob_claimedUntil r of None \<Rightarrow> True | Some u \<Rightarrow> u \<le> now)"

text \<open>\<open>ORDER BY occurred_at, id LIMIT\<close>.\<close>

definition selected :: "int \<Rightarrow> nat \<Rightarrow> outbox_row list \<Rightarrow> string set" where
  "selected now limit rows =
     set (map row_id (take limit (sort_key ob_occurredAt (sort_key row_id (filter (claimable now) rows)))))"

definition claimed_row :: "string \<Rightarrow> int \<Rightarrow> outbox_row \<Rightarrow> outbox_row" where
  "claimed_row token u r = r\<lparr>ob_claimToken := Some token, ob_claimedUntil := Some u, ob_claimAttempts := ob_claimAttempts r + 1\<rparr>"

definition claim_of :: "(string \<Rightarrow> int option) \<Rightarrow> string \<Rightarrow> outbox_row \<Rightarrow> (relay_error, outbox_claim) result" where
  "claim_of date token r = (case deserialize_envelope date (envelope_value (ob_envelope r)) of
      Inl e \<Rightarrow> Inl (EnvelopeUnreadable e) | Inr e \<Rightarrow> Inr \<lparr>cl_envelope = e, cl_token = token\<rparr>)"

definition claim_outbox ::
  "(string \<Rightarrow> int option) \<Rightarrow> (outbox_row list \<Rightarrow> outbox_row list) \<Rightarrow> int \<Rightarrow> string \<Rightarrow> jsnum \<Rightarrow> jsnum \<Rightarrow> outbox_row list \<Rightarrow>
    (relay_error, outbox_claim list) result \<times> outbox_row list" where
  "claim_outbox date arrange now token limit leaseMs rows =
     (if \<not> is_integer limit \<or> int_of limit < 1 \<or> int_of limit > 100 then (Inl ClaimLimitOutOfRange, rows)
      else if \<not> is_integer leaseMs \<or> int_of leaseMs < 1 then (Inl ClaimDurationNotPositive, rows)
      else let chosen = selected now (nat (int_of limit)) rows;
               rows' = map (\<lambda>r. if row_id r \<in> chosen then claimed_row token (now + int_of leaseMs) r else r) rows in
        (case rmapM (claim_of date token) (arrange (filter (\<lambda>r. row_id r \<in> chosen) rows')) of
           Inl e \<Rightarrow> (Inl e, rows) | Inr claims \<Rightarrow> (Inr claims, rows')))"

definition acknowledges :: "outbox_claim \<Rightarrow> outbox_row \<Rightarrow> bool" where
  "acknowledges c r \<longleftrightarrow> row_id r = claim_id c \<and> en_workspaceId (ob_envelope r) = en_workspaceId (cl_envelope c) \<and>
     ob_claimToken r = Some (cl_token c) \<and> ob_deliveredAt r = None"

definition acknowledge_outbox :: "outbox_claim \<Rightarrow> string \<Rightarrow> outbox_row list \<Rightarrow> (relay_error, unit) result \<times> outbox_row list" where
  "acknowledge_outbox c deliveredAt rows =
     (if length (filter (acknowledges c) rows) \<noteq> 1 then (Inl ClaimNotActive, rows)
      else (Inr (), map (\<lambda>r. if acknowledges c r
        then r\<lparr>ob_deliveredAt := Some deliveredAt, ob_claimToken := None, ob_claimedUntil := None\<rparr> else r) rows))"

section \<open>The queue\<close>

text \<open>\<open>pgBossJobIdPattern\<close>.\<close>

definition hex_letter :: "char \<Rightarrow> bool" where
  "hex_letter c \<longleftrightarrow> is_digit c \<or> lower_char c \<in> set ''abcdef''"

definition uuid_text :: "string \<Rightarrow> bool" where
  "uuid_text s \<longleftrightarrow> length s = 36 \<and> s ! 8 = CHR ''-'' \<and> s ! 13 = CHR ''-'' \<and> s ! 18 = CHR ''-'' \<and> s ! 23 = CHR ''-'' \<and>
     list_all (\<lambda>i. hex_letter (s ! i)) (filter (\<lambda>i. i \<notin> {8, 13, 18, 23}) [0..<36]) \<and>
     s ! 14 \<in> set ''12345678'' \<and> lower_char (s ! 19) \<in> set ''89ab''"

text \<open>\<open>boss.send\<close> is a parameter: what it throws, or the identifier of the job, or nothing when there is one already.\<close>

type_synonym 'q boss = "envelope \<Rightarrow> 'q \<Rightarrow> (string, string option) result \<times> 'q"

definition pg_boss_publish :: "'q boss \<Rightarrow> envelope \<Rightarrow> 'q \<Rightarrow> (relay_error, unit) result \<times> 'q" where
  "pg_boss_publish boss e q =
     (if \<not> uuid_text (en_id e) then (Inl EnvelopeIdNotUuid, q)
      else (case boss e q of
          (Inl err, q') \<Rightarrow> (Inl (QueueRejected err), q')
        | (Inr i, q') \<Rightarrow> (if i \<noteq> None \<and> i \<noteq> Some (en_id e) then Inl QueueIdNotPreserved else Inr (), q')))"

section \<open>The relay\<close>

record 'q relay_store =
  rs_rows :: "outbox_row list"
  rs_queue :: 'q
  rs_now :: int
  rs_clock :: string

record 'q relay_ports =
  rp_boss :: "'q boss"
  rp_date :: "string \<Rightarrow> int option"
  rp_arrange :: "outbox_row list \<Rightarrow> outbox_row list"
  rp_token :: string

definition relay_claim :: "'q relay_ports \<Rightarrow> jsnum \<Rightarrow> jsnum \<Rightarrow> ('q relay_store, relay_error, outbox_claim list) effect" where
  "relay_claim P limit leaseMs s = (case claim_outbox (rp_date P) (rp_arrange P) (rs_now s) (rp_token P) limit leaseMs (rs_rows s) of
      (r, rows) \<Rightarrow> (r, s\<lparr>rs_rows := rows\<rparr>))"

definition relay_publish :: "'q relay_ports \<Rightarrow> outbox_claim \<Rightarrow> ('q relay_store, relay_error, unit) effect" where
  "relay_publish P c s = (case pg_boss_publish (rp_boss P) (cl_envelope c) (rs_queue s) of (r, q) \<Rightarrow> (r, s\<lparr>rs_queue := q\<rparr>))"

definition relay_acknowledge :: "outbox_claim \<Rightarrow> ('q relay_store, relay_error, unit) effect" where
  "relay_acknowledge c s = (case acknowledge_outbox c (rs_clock s) (rs_rows s) of (r, rows) \<Rightarrow> (r, s\<lparr>rs_rows := rows\<rparr>))"

fun relay_each :: "'q relay_ports \<Rightarrow> outbox_claim list \<Rightarrow> ('q relay_store, relay_error, nat) effect" where
  "relay_each P [] = ret 0"
| "relay_each P (c # cs) =
     abind (relay_publish P c) (\<lambda>_. abind (relay_acknowledge c) (\<lambda>_. abind (relay_each P cs) (\<lambda>n. ret (Suc n))))"

definition relay_run :: "'q relay_ports \<Rightarrow> jsnum \<Rightarrow> jsnum \<Rightarrow> ('q relay_store, relay_error, nat) effect" where
  "relay_run P limit leaseMs =
     (if \<not> is_integer limit \<or> int_of limit < 1 \<or> int_of limit > 100 then throw RelayLimitOutOfRange
      else abind (relay_claim P limit leaseMs) (relay_each P))"

text \<open>The command that \<open>PostgresRepositoryChangeStore\<close> puts into the outbox: its identifier is no UUID.\<close>

definition repository_change_envelope ::
  "(string \<Rightarrow> int option) \<Rightarrow> string \<Rightarrow> string \<Rightarrow> envelope \<Rightarrow> (envelope_error, envelope) result" where
  "repository_change_envelope date uuid requestId event =
     create_envelope date (envelope_value \<lparr>en_id = ''repository-change-outbox-'' @ uuid, en_workspaceId = en_workspaceId event,
       en_occurredAt = en_occurredAt event, en_correlationId = en_correlationId event, en_causationId = en_causationId event,
       en_traceContext = None, en_payload = RepositoryChangeExecute requestId\<rparr>)"

end
