(* ===== verification/Outbox_Delivery.thy ===== *)
theory Outbox_Delivery
  imports Outbox
begin

text \<open>
  What the outbox promises: with any number of relays an acknowledged envelope has been accepted by the queue and a claim
  is active for one relay only; a run of one relay delivers exactly the claims before the first one the queue refuses.
\<close>

section \<open>Interleaved relays\<close>

datatype relay_phase = Idle | Relaying "outbox_claim list" | Published outbox_claim "outbox_claim list"

fun pending :: "relay_phase \<Rightarrow> outbox_claim list" where
  "pending Idle = []"
| "pending (Relaying cs) = cs"
| "pending (Published c cs) = c # cs"

record 'q relay_world =
  rw_rows :: "outbox_row list"
  rw_queue :: 'q
  rw_now :: int
  rw_tokens :: "string set"
  rw_phase :: "string \<Rightarrow> relay_phase"

text \<open>The steps of \<open>runOnce\<close> in relay \<open>n\<close>, new envelopes and time; a claim has a token of its own (\<open>randomUUID\<close>).\<close>

inductive relay_step :: "'q boss \<Rightarrow> (string \<Rightarrow> int option) \<Rightarrow> 'q relay_world \<Rightarrow> 'q relay_world \<Rightarrow> bool" for boss date where
  appended: "row_id r \<notin> row_id ` set (rw_rows w) \<Longrightarrow> ob_deliveredAt r = None \<Longrightarrow> ob_claimToken r = None \<Longrightarrow>
    relay_step boss date w (w\<lparr>rw_rows := rw_rows w @ [r]\<rparr>)"
| time_passed: "rw_now w \<le> t \<Longrightarrow> relay_step boss date w (w\<lparr>rw_now := t\<rparr>)"
| claimed: "rw_phase w n = Idle \<Longrightarrow> token \<notin> rw_tokens w \<Longrightarrow>
    claim_outbox date arrange (rw_now w) token limit leaseMs (rw_rows w) = (Inr claims, rows) \<Longrightarrow>
    relay_step boss date w (w\<lparr>rw_rows := rows, rw_tokens := insert token (rw_tokens w), rw_phase := (rw_phase w)(n := Relaying claims)\<rparr>)"
| published: "rw_phase w n = Relaying (c # cs) \<Longrightarrow> pg_boss_publish boss (cl_envelope c) (rw_queue w) = (Inr u, q) \<Longrightarrow>
    relay_step boss date w (w\<lparr>rw_queue := q, rw_phase := (rw_phase w)(n := Published c cs)\<rparr>)"
| not_published: "rw_phase w n = Relaying (c # cs) \<Longrightarrow> pg_boss_publish boss (cl_envelope c) (rw_queue w) = (Inl e, q) \<Longrightarrow>
    relay_step boss date w (w\<lparr>rw_queue := q, rw_phase := (rw_phase w)(n := Idle)\<rparr>)"
| acknowledged: "rw_phase w n = Published c cs \<Longrightarrow> acknowledge_outbox c t (rw_rows w) = (Inr u, rows) \<Longrightarrow>
    relay_step boss date w (w\<lparr>rw_rows := rows, rw_phase := (rw_phase w)(n := Relaying cs)\<rparr>)"
| stopped: "relay_step boss date w (w\<lparr>rw_phase := (rw_phase w)(n := Idle)\<rparr>)"

inductive relay_history :: "'q boss \<Rightarrow> (string \<Rightarrow> int option) \<Rightarrow> 'q relay_world \<Rightarrow> bool" for boss date where
  empty_outbox: "relay_history boss date \<lparr>rw_rows = [], rw_queue = q, rw_now = t, rw_tokens = {}, rw_phase = (\<lambda>_. Idle)\<rparr>"
| further: "relay_history boss date w \<Longrightarrow> relay_step boss date w w' \<Longrightarrow> relay_history boss date w'"

section \<open>The invariant\<close>

definition delivery_invariant :: "('q \<Rightarrow> string set) \<Rightarrow> 'q relay_world \<Rightarrow> bool" where
  "delivery_invariant accepted w \<longleftrightarrow> distinct (map row_id (rw_rows w)) \<and>
     (\<forall>r \<in> set (rw_rows w). ob_deliveredAt r \<noteq> None \<longrightarrow> row_id r \<in> accepted (rw_queue w)) \<and>
     (\<forall>n c cs. rw_phase w n = Published c cs \<longrightarrow> claim_id c \<in> accepted (rw_queue w)) \<and>
     (\<forall>n. \<forall>c \<in> set (pending (rw_phase w n)). cl_token c \<in> rw_tokens w) \<and>
     (\<forall>n m. n \<noteq> m \<longrightarrow> (\<forall>c \<in> set (pending (rw_phase w n)). \<forall>d \<in> set (pending (rw_phase w m)). cl_token c \<noteq> cl_token d))"

text \<open>What the relay relies on of pg-boss: a job that is sent without an error exists, and jobs are not forgotten.\<close>

definition durable :: "'q boss \<Rightarrow> ('q \<Rightarrow> string set) \<Rightarrow> bool" where
  "durable boss accepted \<longleftrightarrow> (\<forall>e q r q'. boss e q = (r, q') \<longrightarrow> accepted q \<subseteq> accepted q' \<and>
     (\<forall>i. r = Inr i \<longrightarrow> i = None \<or> i = Some (en_id e) \<longrightarrow> en_id e \<in> accepted q'))"

lemma publish_accepted:
  assumes "durable boss accepted" and "pg_boss_publish boss e q = (r, q')"
  shows "accepted q \<subseteq> accepted q' \<and> (\<forall>u. r = Inr u \<longrightarrow> en_id e \<in> accepted q')"
proof (cases "uuid_text (en_id e)")
  case False
  then show ?thesis using assms(2) by (auto simp: pg_boss_publish_def)
next
  case True
  obtain x q1 where x: "boss e q = (x, q1)" by (cases "boss e q")
  have "accepted q \<subseteq> accepted q1" "\<And>i. x = Inr i \<Longrightarrow> i = None \<or> i = Some (en_id e) \<Longrightarrow> en_id e \<in> accepted q1"
    using assms(1) x unfolding durable_def by blast+
  then show ?thesis using assms(2) True x by (cases x) (auto simp: pg_boss_publish_def split: if_splits)
qed

lemma claim_outbox_Inr:
  assumes "claim_outbox date arrange now token limit leaseMs rows = (Inr claims, rows')"
  shows "(\<exists>chosen u. rows' = map (\<lambda>r. if row_id r \<in> chosen then claimed_row token u r else r) rows) \<and>
    (\<forall>c \<in> set claims. cl_token c = token)"
proof -
  have token: "cl_token c = token" if "claim_of date token r = Inr c" for r c
    using that by (auto simp: claim_of_def split: sum.splits)
  have "cl_token c = token" if "rmapM (claim_of date token) rs = Inr claims" "c \<in> set claims" for rs c
    using that token by (auto simp: rmapM_Inr_iff list_all2_conv_all_nth in_set_conv_nth)
  then show ?thesis using assms by (auto simp: claim_outbox_def Let_def split: if_splits sum.splits)
qed

lemma row_id_claimed [simp]: "row_id (claimed_row token u r) = row_id r" "ob_deliveredAt (claimed_row token u r) = ob_deliveredAt r"
  by (simp_all add: claimed_row_def row_id_def)

lemma acknowledge_outbox_Inr:
  "acknowledge_outbox c t rows = (Inr u, rows') \<Longrightarrow> length (filter (acknowledges c) rows) = 1 \<and>
     rows' = map (\<lambda>r. if acknowledges c r then r\<lparr>ob_deliveredAt := Some t, ob_claimToken := None, ob_claimedUntil := None\<rparr> else r) rows"
  by (auto simp: acknowledge_outbox_def split: if_splits)

lemma delivery_step:
  assumes step: "relay_step boss date w w'" and durable: "durable boss accepted" and ok: "delivery_invariant accepted w"
  shows "delivery_invariant accepted w'"
proof -
  have ids: "distinct (map row_id (rw_rows w))"
    and delivered: "\<And>r. r \<in> set (rw_rows w) \<Longrightarrow> ob_deliveredAt r \<noteq> None \<Longrightarrow> row_id r \<in> accepted (rw_queue w)"
    and sent: "\<And>n c cs. rw_phase w n = Published c cs \<Longrightarrow> claim_id c \<in> accepted (rw_queue w)"
    and tokens: "\<And>n c. c \<in> set (pending (rw_phase w n)) \<Longrightarrow> cl_token c \<in> rw_tokens w"
    and apart: "\<And>n m c d. n \<noteq> m \<Longrightarrow> c \<in> set (pending (rw_phase w n)) \<Longrightarrow> d \<in> set (pending (rw_phase w m)) \<Longrightarrow> cl_token c \<noteq> cl_token d"
    using ok unfolding delivery_invariant_def by blast+
  have map_ids: "map row_id (map f rows) = map row_id rows" if "\<And>r. row_id (f r) = row_id r" for f and rows :: "outbox_row list"
    using that by (induction rows) simp_all
  have phases: "delivery_invariant accepted w''"
    if "distinct (map row_id (rw_rows w''))"
      "\<And>r. r \<in> set (rw_rows w'') \<Longrightarrow> ob_deliveredAt r \<noteq> None \<Longrightarrow> row_id r \<in> accepted (rw_queue w'')"
      "accepted (rw_queue w) \<subseteq> accepted (rw_queue w'')" "rw_tokens w'' = rw_tokens w" "rw_phase w'' = (rw_phase w)(n := p)"
      "set (pending p) \<subseteq> set (pending (rw_phase w n))" "\<And>c cs. p = Published c cs \<Longrightarrow> claim_id c \<in> accepted (rw_queue w'')"
    for w'' n p
    unfolding delivery_invariant_def that(4,5)
    using that(1,2,3,6,7) sent tokens apart by (auto split: if_splits)
  show ?thesis
    using step
  proof (cases rule: relay_step.cases)
    case (appended r)
    then show ?thesis using ids delivered sent tokens apart unfolding delivery_invariant_def by auto
  next
    case (time_passed t)
    then show ?thesis using ok unfolding delivery_invariant_def by simp
  next
    case (claimed n token arrange limit leaseMs claims rows)
    obtain chosen u where rows: "rows = map (\<lambda>r. if row_id r \<in> chosen then claimed_row token u r else r) (rw_rows w)"
      and claims: "\<forall>c \<in> set claims. cl_token c = token" using claim_outbox_Inr [OF claimed(4)] by blast
    have "map row_id rows = map row_id (rw_rows w)" unfolding rows by (rule map_ids) simp
    moreover have "row_id r \<in> accepted (rw_queue w)" if "r \<in> set rows" "ob_deliveredAt r \<noteq> None" for r
      using that delivered unfolding rows by (auto split: if_splits)
    moreover have "cl_token c \<noteq> token" if "c \<in> set (pending (rw_phase w m))" for c m using tokens [OF that] claimed(3) by auto
    ultimately show ?thesis
      using ids sent tokens apart claims claimed unfolding delivery_invariant_def by (auto split: if_splits)
  next
    case (published n c cs u q)
    show ?thesis
      using publish_accepted [OF durable published(3)] ids delivered published
      by (intro phases [where n = n and p = "Published c cs"]) (auto simp: claim_id_def)
  next
    case (not_published n c cs e q)
    show ?thesis
      using publish_accepted [OF durable not_published(3)] ids delivered not_published
      by (intro phases [where n = n and p = Idle]) auto
  next
    case (acknowledged n c cs t u rows)
    have rows: "rows = map (\<lambda>r. if acknowledges c r then r\<lparr>ob_deliveredAt := Some t, ob_claimToken := None, ob_claimedUntil := None\<rparr> else r) (rw_rows w)"
      using acknowledge_outbox_Inr [OF acknowledged(3)] by blast
    have "map row_id rows = map row_id (rw_rows w)" unfolding rows by (rule map_ids) (simp add: row_id_def)
    moreover have "row_id r \<in> accepted (rw_queue w)" if "r \<in> set rows" "ob_deliveredAt r \<noteq> None" for r
    proof -
      let ?f = "\<lambda>r. if acknowledges c r then r\<lparr>ob_deliveredAt := Some t, ob_claimToken := None, ob_claimedUntil := None\<rparr> else r"
      have "r \<in> ?f ` set (rw_rows w)" using that(1) unfolding rows by simp
      then obtain r0 where row: "r = ?f r0" "r0 \<in> set (rw_rows w)" by (rule imageE)
      then have r0: "r0 \<in> set (rw_rows w)" "row_id r0 = row_id r" "acknowledges c r0 \<or> r = r0"
        by (simp_all add: row_id_def)
      then show ?thesis using that(2) delivered [of r0] sent [OF acknowledged(2)] by (auto simp: acknowledges_def)
    qed
    ultimately show ?thesis
      using ids acknowledged by (intro phases [where n = n and p = "Relaying cs"]) auto
  next
    case (stopped n)
    then show ?thesis using ids delivered by (intro phases [where n = n and p = Idle]) auto
  qed
qed

lemma delivery_reached: "relay_history boss date w \<Longrightarrow> durable boss accepted \<Longrightarrow> delivery_invariant accepted w"
proof (induction rule: relay_history.induct)
  case (empty_outbox q t)
  then show ?case by (simp add: delivery_invariant_def)
next
  case (further w w')
  then show ?case using delivery_step by blast
qed

section \<open>One run\<close>

lemma parsed_value_parts:
  assumes "parse_envelope date (envelope_value e) legacy = Inr e'"
  shows "en_id e' = en_id e \<and> en_workspaceId e' = en_workspaceId e"
proof -
  obtain es t where es: "record_of (envelope_value e) = Some es" "envelope_fields date es t = Inr e'"
    using assms unfolding parse_envelope_iff by blast
  have "property es ''id'' = JsText (en_id e) \<and> property es ''workspaceId'' = JsText (en_workspaceId e)"
    using es(1) by (auto simp: envelope_value_def Let_def)
  then show ?thesis using es(2) unfolding envelope_fields_def by (clarsimp simp: rbind_Inr_iff read_id_iff)
qed

lemma claim_of_Inr:
  "claim_of date token r = Inr c \<Longrightarrow> claim_id c = row_id r \<and> en_workspaceId (cl_envelope c) = en_workspaceId (ob_envelope r) \<and> cl_token c = token"
  by (auto simp: claim_of_def deserialize_envelope_def claim_id_def row_id_def split: sum.splits dest: parsed_value_parts)

text \<open>A claim that can be acknowledged.\<close>

definition active :: "outbox_row list \<Rightarrow> outbox_claim \<Rightarrow> bool" where
  "active rows c \<longleftrightarrow> length (filter (acknowledges c) rows) = 1"

definition delivered :: "outbox_claim list \<Rightarrow> string \<Rightarrow> outbox_row list \<Rightarrow> outbox_row list" where
  "delivered cs t rows = map (\<lambda>r. if list_ex (\<lambda>c. acknowledges c r) cs
     then r\<lparr>ob_deliveredAt := Some t, ob_claimToken := None, ob_claimedUntil := None\<rparr> else r) rows"

definition accepting :: "'q boss \<Rightarrow> bool" where
  "accepting boss \<longleftrightarrow> (\<forall>e q. fst (boss e q) = Inr (Some (en_id e)) \<or> fst (boss e q) = Inr None)"

lemma publish_accepting:
  "accepting boss \<Longrightarrow> fst (pg_boss_publish boss e q) = (if uuid_text (en_id e) then Inr () else Inl EnvelopeIdNotUuid)"
proof -
  assume "accepting boss"
  then have "fst (boss e q) = Inr (Some (en_id e)) \<or> fst (boss e q) = Inr None" unfolding accepting_def by blast
  then show ?thesis by (cases "boss e q") (auto simp: pg_boss_publish_def)
qed

lemma delivered_step:
  assumes "active rows c" and "claim_id c \<notin> claim_id ` set cs"
  shows "acknowledge_outbox c t rows = (Inr (), delivered [c] t rows)"
    and "d \<in> set cs \<Longrightarrow> active rows d \<Longrightarrow> active (delivered [c] t rows) d"
    and "delivered cs t (delivered [c] t rows) = delivered (c # cs) t rows"
proof -
  let ?done = "\<lambda>r. r\<lparr>ob_deliveredAt := Some t, ob_claimToken := None, ob_claimedUntil := None\<rparr>"
  show "acknowledge_outbox c t rows = (Inr (), delivered [c] t rows)"
    using assms(1) by (simp add: active_def acknowledge_outbox_def delivered_def)
  show "active (delivered [c] t rows) d" if "d \<in> set cs" "active rows d"
  proof -
    have "acknowledges d (if acknowledges c r then ?done r else r) = acknowledges d r" for r
      using assms(2) that(1) by (auto simp: acknowledges_def row_id_def image_iff)
    moreover have "(if acknowledges c r then ?done r else r) = r" if "acknowledges d r" for r
    proof -
      have "claim_id c \<noteq> claim_id d" using assms(2) \<open>d \<in> set cs\<close> by (metis image_eqI)
      then show ?thesis using that by (auto simp: acknowledges_def)
    qed
    ultimately have "length (filter (acknowledges d) (delivered [c] t rows)) = length (filter (acknowledges d) rows)"
      unfolding delivered_def by (induction rows) simp_all
    then show ?thesis using that(2) by (simp add: active_def)
  qed
  have "list_ex (\<lambda>d. acknowledges d (?done r)) cs = False" for r by (auto simp: acknowledges_def list_ex_iff)
  then show "delivered cs t (delivered [c] t rows) = delivered (c # cs) t rows"
    unfolding delivered_def by (auto simp: o_def)
qed

lemma relay_each_delivers:
  assumes "accepting (rp_boss P)" and "distinct (map claim_id cs)" and "\<And>c. c \<in> set cs \<Longrightarrow> active (rs_rows s) c"
  shows "fst (relay_each P cs s) = (if \<forall>c \<in> set cs. uuid_text (claim_id c) then Inr (length cs) else Inl EnvelopeIdNotUuid) \<and>
    rs_rows (snd (relay_each P cs s)) = delivered (takeWhile (\<lambda>c. uuid_text (claim_id c)) cs) (rs_clock s) (rs_rows s)"
  using assms(2,3)
proof (induction cs arbitrary: s)
  case Nil
  then show ?case by (simp add: ret_def delivered_def)
next
  case (Cons c cs)
  obtain q where q: "relay_publish P c s = ((if uuid_text (claim_id c) then Inr () else Inl EnvelopeIdNotUuid), s\<lparr>rs_queue := q\<rparr>)"
    using publish_accepting [OF assms(1), of "cl_envelope c" "rs_queue s"]
    by (cases "pg_boss_publish (rp_boss P) (cl_envelope c) (rs_queue s)") (auto simp: relay_publish_def claim_id_def)
  show ?case
  proof (cases "uuid_text (claim_id c)")
    case False
    then show ?thesis using q by (simp add: abind_def delivered_def)
  next
    case True
    have new: "claim_id c \<notin> claim_id ` set cs" using Cons.prems(1) by simp
    have c: "active (rs_rows s) c" using Cons.prems(2) by simp
    let ?s = "s\<lparr>rs_queue := q, rs_rows := delivered [c] (rs_clock s) (rs_rows s)\<rparr>"
    have ack: "relay_acknowledge c (s\<lparr>rs_queue := q\<rparr>) = (Inr (), ?s)"
      using delivered_step(1) [OF c new, of "rs_clock s"] by (simp add: relay_acknowledge_def)
    have rest: "fst (relay_each P cs ?s) = (if \<forall>c \<in> set cs. uuid_text (claim_id c) then Inr (length cs) else Inl EnvelopeIdNotUuid) \<and>
        rs_rows (snd (relay_each P cs ?s)) = delivered (takeWhile (\<lambda>c. uuid_text (claim_id c)) cs) (rs_clock ?s) (rs_rows ?s)"
      using delivered_step(2) [OF c new] Cons.prems by (intro Cons.IH) simp_all
    have run: "relay_each P (c # cs) s = abind (relay_each P cs) (\<lambda>n. ret (Suc n)) ?s"
      using q ack True by (simp add: abind_def)
    have "claim_id c \<notin> claim_id ` set (takeWhile (\<lambda>c. uuid_text (claim_id c)) cs)" using new by (auto dest: set_takeWhileD)
    then have "delivered (takeWhile (\<lambda>c. uuid_text (claim_id c)) cs) (rs_clock s) (delivered [c] (rs_clock s) (rs_rows s)) =
        delivered (c # takeWhile (\<lambda>c. uuid_text (claim_id c)) cs) (rs_clock s) (rs_rows s)"
      by (rule delivered_step(3) [OF c])
    then show ?thesis
      unfolding run using rest True
      by (cases "relay_each P cs ?s") (auto simp: abind_def ret_def split: sum.split)
  qed
qed

lemma mapped_rows:
  assumes "\<And>r. row_id (f r) = row_id r"
  shows "row_id ` {r \<in> set (map f rows). P r} = row_id ` {r \<in> set rows. P (f r)}"
  using assms by (force simp: image_iff)

lemma list_all2_in: "list_all2 R xs ys \<Longrightarrow> y \<in> set ys \<Longrightarrow> \<exists>x \<in> set xs. R x y"
  by (induction rule: list_all2_induct) auto

lemma claim_active:
  assumes ids: "distinct (map row_id rows)" and perm: "\<And>rs. mset (arrange rs) = mset rs"
    and claim: "claim_outbox date arrange now token limit leaseMs rows = (Inr claims, rows')"
  shows "distinct (map claim_id claims) \<and> (\<forall>c \<in> set claims. active rows' c) \<and> set (map claim_id claims) = selected now (nat (int_of limit)) rows \<and>
    rows' = map (\<lambda>r. if row_id r \<in> selected now (nat (int_of limit)) rows then claimed_row token (now + int_of leaseMs) r else r) rows"
proof -
  let ?chosen = "selected now (nat (int_of limit)) rows"
  let ?mine = "filter (\<lambda>r. row_id r \<in> ?chosen) rows'"
  have rows': "rows' = map (\<lambda>r. if row_id r \<in> ?chosen then claimed_row token (now + int_of leaseMs) r else r) rows"
    and read: "rmapM (claim_of date token) (arrange ?mine) = Inr claims"
    using claim by (auto simp: claim_outbox_def Let_def split: if_splits sum.splits)
  have ids': "map row_id rows' = map row_id rows" unfolding rows' by (induction rows) simp_all
  have each: "list_all2 (\<lambda>r c. claim_of date token r = Inr c) (arrange ?mine) claims" using read unfolding rmapM_Inr_iff .
  then have names: "map claim_id claims = map row_id (arrange ?mine)"
    by (induction rule: list_all2_induct) (simp_all add: claim_of_Inr)
  have "mset (map row_id (arrange ?mine)) = mset (map row_id ?mine)" using perm by simp
  then have once: "distinct (map claim_id claims)" "set (map claim_id claims) = set (map row_id ?mine)"
    using ids ids' unfolding names by (metis distinct_map_filter mset_eq_imp_distinct_iff, metis mset_eq_setD)
  have undelivered: "row_id r \<in> ?chosen \<Longrightarrow> r \<in> set rows \<Longrightarrow> ob_deliveredAt r = None" for r
  proof -
    assume r: "row_id r \<in> ?chosen" "r \<in> set rows"
    then obtain x where x: "x \<in> set rows" "claimable now x" "row_id x = row_id r"
      unfolding selected_def by (auto dest!: in_set_takeD)
    then have "x = r" using ids r(2) by (auto simp: distinct_map inj_on_def)
    then show ?thesis using x(2) by (simp add: claimable_def)
  qed
  have "active rows' c" if c: "c \<in> set claims" for c
  proof -
    obtain r where r: "r \<in> set (arrange ?mine)" "claim_of date token r = Inr c"
      using list_all2_in [OF each c] by blast
    have "set (arrange ?mine) = set ?mine" using perm by (metis mset_eq_setD)
    then have "r \<in> set ?mine" using r(1) by (simp only:)
    then have mine: "r \<in> set rows'" "row_id r \<in> ?chosen" by simp_all
    let ?f = "\<lambda>r. if row_id r \<in> ?chosen then claimed_row token (now + int_of leaseMs) r else r"
    have "r \<in> ?f ` set rows" using mine(1) unfolding rows' by simp
    then obtain r0 where f: "r = ?f r0" and r0: "r0 \<in> set rows" by (rule imageE)
    have "row_id r0 \<in> ?chosen" using mine(2) unfolding f by (simp split: if_splits)
    then have r0: "r0 \<in> set rows" "r = claimed_row token (now + int_of leaseMs) r0" using f r0 by simp_all
    then have "acknowledges c r"
      using claim_of_Inr [OF r(2)] undelivered [of r0] mine(2) by (simp add: acknowledges_def claimed_row_def row_id_def)
    moreover have "x = r" if "x \<in> set rows'" "acknowledges c x" for x
    proof -
      have "row_id x = row_id r" using that(2) claim_of_Inr [OF r(2)] by (simp add: acknowledges_def)
      moreover have "inj_on row_id (set rows')" using ids ids' by (metis distinct_map)
      ultimately show ?thesis using that(1) mine(1) by (metis inj_on_def)
    qed
    ultimately have "acknowledges c x \<longleftrightarrow> x = r" if "x \<in> set rows'" for x using that by blast
    then have "filter (acknowledges c) rows' = filter (\<lambda>x. x = r) rows'" by (rule filter_cong [OF HOL.refl])
    moreover have "distinct rows'" using ids ids' by (metis distinct_map)
    ultimately show ?thesis using mine(1) unfolding active_def by (simp add: distinct_length_filter)
  qed
  moreover have "set (map row_id ?mine) = ?chosen"
  proof -
    have "?chosen \<subseteq> row_id ` set rows" unfolding selected_def by (auto dest!: in_set_takeD)
    then have "?chosen \<subseteq> set (map row_id rows')" unfolding ids' by simp
    then show ?thesis by auto
  qed
  ultimately show ?thesis using once rows' by simp
qed

section \<open>Properties\<close>

text \<open>
  C15: With any number of relays, interleaved in any way, stopping anywhere, on a queue that keeps what it takes: an
  envelope marked as delivered has been accepted by the queue, so none is lost between the outbox and the queue; and no
  two relays can acknowledge the same row, because a claim is active for one of them only.
\<close>

theorem delivered_after_accepted:
  assumes "relay_history boss date w" and "durable boss accepted" and "r \<in> set (rw_rows w)"
  shows "(case ob_deliveredAt r of None \<Rightarrow> True | Some _ \<Rightarrow> row_id r \<in> accepted (rw_queue w)) \<and>
    \<not> (\<exists>n m c d. n \<noteq> m \<and> c \<in> set (pending (rw_phase w n)) \<and> d \<in> set (pending (rw_phase w m)) \<and> acknowledges c r \<and> acknowledges d r)"
proof -
  have ok: "delivery_invariant accepted w" using delivery_reached assms(1,2) by blast
  have "cl_token c \<noteq> cl_token d" if "n \<noteq> m" "c \<in> set (pending (rw_phase w n))" "d \<in> set (pending (rw_phase w m))" for n m c d
    using ok that unfolding delivery_invariant_def by blast
  moreover have "acknowledges c r \<Longrightarrow> acknowledges d r \<Longrightarrow> cl_token c = cl_token d" for c d by (simp add: acknowledges_def)
  moreover have "ob_deliveredAt r \<noteq> None \<longrightarrow> row_id r \<in> accepted (rw_queue w)" using ok assms(3) unfolding delivery_invariant_def by blast
  ultimately have "\<not> (\<exists>n m c d. n \<noteq> m \<and> c \<in> set (pending (rw_phase w n)) \<and> d \<in> set (pending (rw_phase w m)) \<and> acknowledges c r \<and> acknowledges d r)"
      "case ob_deliveredAt r of None \<Rightarrow> True | Some _ \<Rightarrow> row_id r \<in> accepted (rw_queue w)"
    by (blast, simp split: option.split)
  then show ?thesis by blast
qed

text \<open>A queue of identifiers and one row that goes through it.\<close>

definition list_boss :: "string list boss" where
  "list_boss e q = (if en_id e \<in> set q then (Inr None, q) else (Inr (Some (en_id e)), q @ [en_id e]))"

lemma list_boss_durable: "durable list_boss set" and list_boss_accepting: "accepting list_boss"
  by (auto simp: durable_def accepting_def list_boss_def split: if_splits)

definition sample_row :: "string \<Rightarrow> outbox_row" where
  "sample_row i = \<lparr>ob_envelope = \<lparr>en_id = i, en_workspaceId = ''ws'', en_occurredAt = ''1970-01-01T00:00:00.000Z'',
     en_correlationId = ''c'', en_causationId = ''d'', en_traceContext = None, en_payload = AnalysisExecute ''job'' ''identity''\<rparr>,
     ob_occurredAt = 0, ob_availableAt = 0, ob_deliveredAt = None, ob_claimToken = None, ob_claimedUntil = None, ob_claimAttempts = 0\<rparr>"

definition sample_ports :: "string list relay_ports" where
  "sample_ports = \<lparr>rp_boss = list_boss, rp_date = (\<lambda>_. Some 0), rp_arrange = id, rp_token = ''token''\<rparr>"

definition sample_uuid :: string where
  "sample_uuid = ''01234567-89ab-4cde-8f01-23456789abcd''"

definition sample_store :: "string list relay_store" where
  "sample_store = \<lparr>rs_rows = [sample_row sample_uuid, sample_row (''repository-change-outbox-'' @ sample_uuid)], rs_queue = [],
     rs_now = 0, rs_clock = ''1970-01-01T00:00:00.000Z''\<rparr>"

definition sample_claims :: "outbox_claim list" where
  "sample_claims = map (\<lambda>r. \<lparr>cl_envelope = ob_envelope r, cl_token = ''token''\<rparr>) (rs_rows sample_store)"

definition sample_rows :: "outbox_row list" where
  "sample_rows = map (claimed_row ''token'' 30000) (rs_rows sample_store)"

lemma sample_claim:
  "claim_outbox (\<lambda>_. Some 0) id 0 ''token'' (Num 25) (Num 30000) (rs_rows sample_store) = (Inr sample_claims, sample_rows)"
  by code_simp

text \<open>The row goes through one relay: appended, claimed, published and acknowledged.\<close>

definition sample_world :: "string list relay_world" where
  "sample_world = \<lparr>rw_rows = [], rw_queue = [], rw_now = 0, rw_tokens = {}, rw_phase = (\<lambda>_. Idle)\<rparr>"

definition sample_claim_of :: outbox_claim where
  "sample_claim_of = \<lparr>cl_envelope = ob_envelope (sample_row sample_uuid), cl_token = ''token''\<rparr>"

definition sample_done :: outbox_row where
  "sample_done = (sample_row sample_uuid)\<lparr>ob_deliveredAt := Some ''t'', ob_claimAttempts := 1\<rparr>"

lemma sample_steps:
  "claim_outbox (\<lambda>_. Some 0) id 0 ''token'' (Num 25) (Num 30000) [sample_row sample_uuid] =
     (Inr [sample_claim_of], [claimed_row ''token'' 30000 (sample_row sample_uuid)])"
  "pg_boss_publish list_boss (cl_envelope sample_claim_of) [] = (Inr (), [sample_uuid])"
  "acknowledge_outbox sample_claim_of ''t'' [claimed_row ''token'' 30000 (sample_row sample_uuid)] = (Inr (), [sample_done])"
  by code_simp+

lemma sample_history:
  "relay_history list_boss (\<lambda>_. Some 0) (sample_world\<lparr>rw_rows := [sample_done], rw_queue := [sample_uuid], rw_tokens := {''token''},
     rw_phase := (\<lambda>_. Idle)(''relay'' := Relaying [])\<rparr>)"
proof -
  have 1: "relay_history list_boss (\<lambda>_. Some 0) (sample_world\<lparr>rw_rows := [sample_row sample_uuid]\<rparr>)"
    using relay_history.further [OF relay_history.empty_outbox relay_step.appended [of "sample_row sample_uuid"]]
    by (simp add: sample_world_def sample_row_def)
  have 2: "relay_history list_boss (\<lambda>_. Some 0) (sample_world\<lparr>rw_rows := [claimed_row ''token'' 30000 (sample_row sample_uuid)],
      rw_tokens := {''token''}, rw_phase := (\<lambda>_. Idle)(''relay'' := Relaying [sample_claim_of])\<rparr>)"
    using relay_history.further [OF 1 relay_step.claimed [of _ "''relay''" "''token''" "\<lambda>_. Some 0" id "Num 25" "Num 30000"]] sample_steps(1)
    by (simp add: sample_world_def)
  have 3: "relay_history list_boss (\<lambda>_. Some 0) (sample_world\<lparr>rw_rows := [claimed_row ''token'' 30000 (sample_row sample_uuid)],
      rw_queue := [sample_uuid], rw_tokens := {''token''}, rw_phase := (\<lambda>_. Idle)(''relay'' := Published sample_claim_of [])\<rparr>)"
    using relay_history.further [OF 2 relay_step.published [of _ "''relay''" sample_claim_of "[]"]] sample_steps(2)
    by (simp add: sample_world_def)
  show ?thesis
    using relay_history.further [OF 3 relay_step.acknowledged [of _ "''relay''" sample_claim_of "[]" "''t''"]] sample_steps(3)
    by (simp add: sample_world_def)
qed

theorem delivered_after_accepted_witness:
  "ob_deliveredAt sample_done = Some ''t'' \<and> row_id sample_done \<in> set [sample_uuid]"
  using delivered_after_accepted [OF sample_history list_boss_durable, of sample_done] by (simp add: sample_done_def)

text \<open>
  C16: What one run of the relay does on a queue without faults: it claims the oldest rows that are due, delivers exactly
  the claims before the first identifier that is no UUID, and counts them only if there is no such identifier; otherwise
  it throws and leaves the rest of its claims undelivered.  The commands of \<open>repository-change.execute.v1\<close> always have
  such an identifier: they are never delivered, and hold up what is claimed together with them.
\<close>

theorem relay_delivers_batch:
  assumes ids: "distinct (map row_id (rs_rows s))" and perm: "\<And>rs. mset (rp_arrange P rs) = mset rs"
    and boss: "accepting (rp_boss P)"
    and claim: "claim_outbox (rp_date P) (rp_arrange P) (rs_now s) (rp_token P) limit leaseMs (rs_rows s) = (Inr claims, rows)"
  shows "fst (relay_run P limit leaseMs s) =
      (if \<forall>c \<in> set claims. uuid_text (claim_id c) then Inr (length claims) else Inl EnvelopeIdNotUuid) \<and>
    row_id ` {r \<in> set (rs_rows (snd (relay_run P limit leaseMs s))). ob_deliveredAt r \<noteq> None} =
      row_id ` {r \<in> set (rs_rows s). ob_deliveredAt r \<noteq> None} \<union> claim_id ` set (takeWhile (\<lambda>c. uuid_text (claim_id c)) claims) \<and>
    claim_id ` set claims = selected (rs_now s) (nat (int_of limit)) (rs_rows s) \<and>
    \<not> (\<exists>uuid requestId event e. repository_change_envelope (rp_date P) uuid requestId event = Inr e \<and> uuid_text (en_id e))"
proof -
  let ?sent = "takeWhile (\<lambda>c. uuid_text (claim_id c)) claims"
  let ?chosen = "selected (rs_now s) (nat (int_of limit)) (rs_rows s)"
  let ?s = "s\<lparr>rs_rows := rows\<rparr>"
  note active = claim_active [OF ids perm claim]
  have limits: "is_integer limit" "1 \<le> int_of limit" "int_of limit \<le> 100" using claim by (auto simp: claim_outbox_def split: if_splits)
  then have run: "relay_run P limit leaseMs s = relay_each P claims ?s"
    using claim by (simp add: relay_run_def relay_claim_def abind_def)
  have each: "fst (relay_each P claims ?s) = (if \<forall>c \<in> set claims. uuid_text (claim_id c) then Inr (length claims) else Inl EnvelopeIdNotUuid) \<and>
      rs_rows (snd (relay_each P claims ?s)) = delivered ?sent (rs_clock ?s) (rs_rows ?s)"
    by (rule relay_each_delivers [OF boss]) (use active in \<open>simp, metis relay_store.select_convs(1) relay_store.surjective relay_store.update_convs(1)\<close>)
  have before: "row_id ` {r \<in> set rows. ob_deliveredAt r \<noteq> None} = row_id ` {r \<in> set (rs_rows s). ob_deliveredAt r \<noteq> None}"
  proof -
    have rows: "rows = map (\<lambda>r. if row_id r \<in> ?chosen then claimed_row (rp_token P) (rs_now s + int_of leaseMs) r else r) (rs_rows s)"
      using active by blast
    show ?thesis unfolding rows by (subst mapped_rows) (simp_all add: if_distrib [of ob_deliveredAt] cong: if_cong)
  qed
  have "row_id ` {r \<in> set (delivered ?sent t rows). ob_deliveredAt r \<noteq> None} =
      row_id ` {r \<in> set rows. ob_deliveredAt r \<noteq> None} \<union> claim_id ` set ?sent" (is "?l = ?r") for t
  proof (rule set_eqI)
    fix i
    have "?l = row_id ` {r \<in> set rows. ob_deliveredAt r \<noteq> None \<or> (\<exists>c \<in> set ?sent. acknowledges c r)}"
      unfolding delivered_def
      by (subst mapped_rows) (simp add: row_id_def, rule arg_cong [of _ _ "\<lambda>S. row_id ` S"], auto simp: list_ex_iff)
    then have "i \<in> ?l \<longleftrightarrow> (\<exists>r \<in> set rows. row_id r = i \<and> (ob_deliveredAt r \<noteq> None \<or> (\<exists>c \<in> set ?sent. acknowledges c r)))"
      by auto
    also have "\<dots> \<longleftrightarrow> i \<in> ?r"
    proof -
      have "(\<exists>r \<in> set rows. row_id r = i \<and> (\<exists>c \<in> set ?sent. acknowledges c r)) \<longleftrightarrow> i \<in> claim_id ` set ?sent"
      proof
        assume "i \<in> claim_id ` set ?sent"
        then obtain c where c: "c \<in> set ?sent" "claim_id c = i" by blast
        then have "length (filter (acknowledges c) rows) = 1" using active by (auto simp: active_def dest: set_takeWhileD)
        then have "filter (acknowledges c) rows \<noteq> []" by force
        then obtain r where "r \<in> set rows" "acknowledges c r" by (auto simp: filter_empty_conv)
        then show "\<exists>r \<in> set rows. row_id r = i \<and> (\<exists>c \<in> set ?sent. acknowledges c r)"
          using c by (auto simp: acknowledges_def)
      qed (auto simp: acknowledges_def)
      then show ?thesis by auto
    qed
    finally show "i \<in> ?l \<longleftrightarrow> i \<in> ?r" .
  qed
  then have rows: "row_id ` {r \<in> set (rs_rows (snd (relay_run P limit leaseMs s))). ob_deliveredAt r \<noteq> None} =
      row_id ` {r \<in> set (rs_rows s). ob_deliveredAt r \<noteq> None} \<union> claim_id ` set ?sent"
    unfolding run using each before by simp
  have "\<not> uuid_text (en_id e)" if "repository_change_envelope (rp_date P) uuid requestId event = Inr e" for uuid requestId event e
  proof -
    have "en_id e = ''repository-change-outbox-'' @ uuid"
      using that parsed_value_parts by (fastforce simp: repository_change_envelope_def create_envelope_def)
    then show ?thesis by (simp add: uuid_text_def)
  qed
  then show ?thesis using run each rows active by auto
qed

theorem relay_delivers_batch_witness:
  "fst (relay_run sample_ports (Num 25) (Num 30000) sample_store) = Inl EnvelopeIdNotUuid \<and>
   row_id ` {r \<in> set (rs_rows (snd (relay_run sample_ports (Num 25) (Num 30000) sample_store))). ob_deliveredAt r \<noteq> None} = {sample_uuid}"
proof -
  have 1: "distinct (map row_id (rs_rows sample_store))" by code_simp
  have 2: "mset (rp_arrange sample_ports rs) = mset rs" for rs by (simp add: sample_ports_def)
  have 3: "accepting (rp_boss sample_ports)" using list_boss_accepting by (simp add: sample_ports_def)
  have 4: "claim_outbox (rp_date sample_ports) (rp_arrange sample_ports) (rs_now sample_store) (rp_token sample_ports) (Num 25) (Num 30000)
      (rs_rows sample_store) = (Inr sample_claims, sample_rows)"
    using sample_claim by (simp add: sample_ports_def sample_store_def)
  have ids: "map claim_id sample_claims = [sample_uuid, ''repository-change-outbox-'' @ sample_uuid]"
    "map (\<lambda>r. ob_deliveredAt r) (rs_rows sample_store) = [None, None]" by code_simp+
  have uuid: "uuid_text sample_uuid" "\<not> uuid_text (''repository-change-outbox-'' @ sample_uuid)" by code_simp+
  obtain c d where cd: "sample_claims = [c, d]" "claim_id c = sample_uuid" "claim_id d = ''repository-change-outbox-'' @ sample_uuid"
    using ids(1) by (auto simp: map_eq_Cons_conv)
  have none: "{r \<in> set (rs_rows sample_store). \<exists>t. ob_deliveredAt r = Some t} = {}"
    by (auto simp: sample_store_def sample_row_def)
  show ?thesis using relay_delivers_batch [OF 1 2 3 4] uuid none by (simp add: cd)
qed

end
