(* ===== verification/Leases.thy ===== *)
theory Leases
  imports Effects
begin

text \<open>
  \<open>PostgresResourceLeaseStore\<close> of \<open>infrastructure/postgres/src/index.ts\<close>: leases on resources with fencing tokens, as
  the rows of \<open>resource_leases\<close>, and the histories in which holders acquire and complete them while time passes.
\<close>

section \<open>The table\<close>

type_synonym lease_key = "string \<times> string \<times> string"

record lease_row =
  ls_fencingToken :: int
  ls_expiresAt :: int

type_synonym lease_table = "lease_key \<rightharpoonup> lease_row"

datatype lease_error = LeaseDurationNotPositive

text \<open>
  \<open>acquire\<close>: an insert with token 1, on a conflict the next token if the lease has expired; times in milliseconds.
\<close>

definition acquire_lease ::
  "int \<Rightarrow> lease_key \<Rightarrow> jsnum \<Rightarrow> lease_table \<Rightarrow> (lease_error, lease_row option) result \<times> lease_table" where
  "acquire_lease now key leaseMs t =
     (if \<not> is_integer leaseMs \<or> int_of leaseMs < 1 then (Inl LeaseDurationNotPositive, t)
      else (case t key of
          None \<Rightarrow> let r = \<lparr>ls_fencingToken = 1, ls_expiresAt = now + int_of leaseMs\<rparr> in (Inr (Some r), t(key \<mapsto> r))
        | Some old \<Rightarrow>
            if ls_expiresAt old \<le> now
            then let r = \<lparr>ls_fencingToken = ls_fencingToken old + 1, ls_expiresAt = now + int_of leaseMs\<rparr>
                 in (Inr (Some r), t(key \<mapsto> r))
            else (Inr None, t)))"

text \<open>\<open>complete\<close>: the row with the token is deleted.\<close>

definition complete_lease :: "lease_key \<Rightarrow> int \<Rightarrow> lease_table \<Rightarrow> bool \<times> lease_table" where
  "complete_lease key token t = (case t key of
      None \<Rightarrow> (False, t)
    | Some r \<Rightarrow> if ls_fencingToken r = token then (True, t(key := None)) else (False, t))"

section \<open>Holders\<close>

text \<open>A holder keeps the key, the token and the expiry it was given until it calls \<open>complete\<close>.\<close>

record held_lease =
  hl_holder :: string
  hl_key :: lease_key
  hl_token :: int
  hl_expiresAt :: int

record lease_world =
  lw_now :: int
  lw_table :: lease_table
  lw_held :: "held_lease set"

definition live :: "lease_world \<Rightarrow> held_lease \<Rightarrow> bool" where
  "live w h \<longleftrightarrow> h \<in> lw_held w \<and> lw_now w < hl_expiresAt h"

text \<open>With \<open>timely\<close>, nobody completes a lease after it has expired.\<close>

inductive lease_step :: "bool \<Rightarrow> lease_world \<Rightarrow> lease_world \<Rightarrow> bool" for timely where
  time_passes: "lw_now w \<le> t \<Longrightarrow> lease_step timely w (w\<lparr>lw_now := t\<rparr>)"
| acquires: "acquire_lease (lw_now w) key leaseMs (lw_table w) = (Inr (Some r), table) \<Longrightarrow>
    lease_step timely w (w\<lparr>lw_table := table, lw_held := insert \<lparr>hl_holder = name, hl_key = key,
      hl_token = ls_fencingToken r, hl_expiresAt = ls_expiresAt r\<rparr> (lw_held w)\<rparr>)"
| refused: "acquire_lease (lw_now w) key leaseMs (lw_table w) = (Inr None, table) \<Longrightarrow>
    lease_step timely w (w\<lparr>lw_table := table\<rparr>)"
| completes: "h \<in> lw_held w \<Longrightarrow> (timely \<Longrightarrow> lw_now w < hl_expiresAt h) \<Longrightarrow>
    complete_lease (hl_key h) (hl_token h) (lw_table w) = (gone, table) \<Longrightarrow>
    lease_step timely w (w\<lparr>lw_table := table, lw_held := lw_held w - {h}\<rparr>)"

inductive lease_history :: "bool \<Rightarrow> lease_world \<Rightarrow> bool" for timely where
  no_leases: "lease_history timely \<lparr>lw_now = t, lw_table = Map.empty, lw_held = {}\<rparr>"
| next_step: "lease_history timely w \<Longrightarrow> lease_step timely w w' \<Longrightarrow> lease_history timely w'"

section \<open>Exclusion\<close>

text \<open>While completions are timely, a live lease is the row of the table.\<close>

definition leases_recorded :: "lease_world \<Rightarrow> bool" where
  "leases_recorded w \<longleftrightarrow> (\<forall>h. live w h \<longrightarrow>
     lw_table w (hl_key h) = Some \<lparr>ls_fencingToken = hl_token h, ls_expiresAt = hl_expiresAt h\<rparr> \<and>
     (\<forall>k. live w k \<longrightarrow> hl_key k = hl_key h \<longrightarrow> k = h))"

lemma acquire_SomeD:
  assumes "acquire_lease now key leaseMs t = (Inr (Some r), t')"
  shows "t' = t(key \<mapsto> r) \<and> now < ls_expiresAt r \<and> (\<forall>old. t key = Some old \<longrightarrow> ls_expiresAt old \<le> now \<and>
    ls_fencingToken r = ls_fencingToken old + 1)"
  using assms by (auto simp: acquire_lease_def Let_def split: if_splits option.splits)

lemma acquire_None: "acquire_lease now key leaseMs t = (Inr None, t') \<Longrightarrow> t' = t"
  by (auto simp: acquire_lease_def Let_def split: if_splits option.splits)

lemma recorded_step:
  assumes "lease_step True w w'" and ok: "leases_recorded w"
  shows "leases_recorded w'"
  using assms(1)
proof (cases rule: lease_step.cases)
  case (time_passes t)
  then have "live w' h \<Longrightarrow> live w h" for h by (simp add: live_def)
  then show ?thesis using ok time_passes unfolding leases_recorded_def by simp
next
  case (acquires key leaseMs r table name)
  let ?new = "\<lparr>hl_holder = name, hl_key = key, hl_token = ls_fencingToken r, hl_expiresAt = ls_expiresAt r\<rparr>"
  have table: "table = (lw_table w)(key \<mapsto> r)" "\<And>old. lw_table w key = Some old \<Longrightarrow> ls_expiresAt old \<le> lw_now w"
    using acquire_SomeD [OF acquires(2)] by auto
  have other: "h = ?new \<or> live w h \<and> hl_key h \<noteq> key" if "live w' h" for h
  proof (cases "h = ?new")
    case False
    then have h: "live w h" using that acquires(1) by (simp add: live_def)
    have "hl_key h \<noteq> key"
    proof
      assume "hl_key h = key"
      then have "lw_table w key = Some \<lparr>ls_fencingToken = hl_token h, ls_expiresAt = hl_expiresAt h\<rparr>"
        using ok h unfolding leases_recorded_def by auto
      then show False using table(2) h by (auto simp: live_def)
    qed
    then show ?thesis using h by blast
  qed simp
  show ?thesis
    unfolding leases_recorded_def
  proof (intro allI impI conjI)
    fix h k
    assume h: "live w' h"
    show "lw_table w' (hl_key h) = Some \<lparr>ls_fencingToken = hl_token h, ls_expiresAt = hl_expiresAt h\<rparr>"
      using other [OF h] ok acquires(1) table(1) unfolding leases_recorded_def by auto
    assume k: "live w' k" and "hl_key k = hl_key h"
    then show "k = h" using other [OF h] other [OF k] ok unfolding leases_recorded_def by auto
  qed
next
  case (refused key leaseMs table)
  then have "w' = w" using acquire_None by fastforce
  then show ?thesis using ok by simp
next
  case (completes h gone table)
  have mine: "live w h" using completes by (simp add: live_def)
  have keep: "live w k \<and> k \<noteq> h \<and> hl_key k \<noteq> hl_key h" if "live w' k" for k
  proof -
    have k: "live w k" "k \<noteq> h" using that completes(1) by (auto simp: live_def)
    then show ?thesis using ok mine unfolding leases_recorded_def by blast
  qed
  have "table key = lw_table w key" if "key \<noteq> hl_key h" for key
    using completes(4) that by (auto simp: complete_lease_def split: option.splits if_splits)
  then show ?thesis
    using ok keep completes(1) unfolding leases_recorded_def by simp
qed

lemma recorded_history: "lease_history True w \<Longrightarrow> leases_recorded w"
proof (induction rule: lease_history.induct)
  case (no_leases t)
  then show ?case by (simp add: leases_recorded_def live_def)
next
  case (next_step w w')
  then show ?case using recorded_step by blast
qed

text \<open>The run in which a completion comes late: three workers on one key.\<close>

definition late_key :: lease_key where
  "late_key = (''ws'', ''publication'', ''target'')"

definition after_acquire :: "string \<Rightarrow> lease_world \<Rightarrow> lease_world" where
  "after_acquire name w = (case acquire_lease (lw_now w) late_key (Num 10) (lw_table w) of
      (Inr (Some r), table) \<Rightarrow> w\<lparr>lw_table := table, lw_held := insert \<lparr>hl_holder = name, hl_key = late_key,
        hl_token = ls_fencingToken r, hl_expiresAt = ls_expiresAt r\<rparr> (lw_held w)\<rparr>
    | _ \<Rightarrow> w)"

lemma after_acquire_history:
  assumes "lease_history b w" and "fst (acquire_lease (lw_now w) late_key (Num 10) (lw_table w)) = Inr (Some r)"
  shows "lease_history b (after_acquire name w)"
proof -
  obtain t where t: "acquire_lease (lw_now w) late_key (Num 10) (lw_table w) = (Inr (Some r), t)"
    using assms(2) by (metis prod.collapse)
  show ?thesis
    using lease_history.next_step [OF assms(1) lease_step.acquires [OF t]] by (simp add: after_acquire_def t)
qed

lemma late_completion:
  "\<exists>w h k. lease_history False w \<and> live w h \<and> live w k \<and> hl_key h = hl_key k \<and> hl_holder h \<noteq> hl_holder k"
proof -
  let ?lease = "\<lambda>name n t. \<lparr>hl_holder = name, hl_key = late_key, hl_token = n, hl_expiresAt = t\<rparr>"
  let ?row = "\<lambda>n t. [late_key \<mapsto> \<lparr>ls_fencingToken = n, ls_expiresAt = t\<rparr>]"
  let ?w = "\<lambda>now table held. \<lparr>lw_now = now, lw_table = table, lw_held = held\<rparr>"
  note simps = acquire_lease_def complete_lease_def after_acquire_def Let_def
  have 1: "lease_history False (?w 0 (?row 1 10) {?lease ''A'' 1 10})"
    using after_acquire_history [OF lease_history.no_leases, of 0 _ False "''A''"] by (simp add: simps)
  have 2: "lease_history False (?w 10 (?row 1 10) {?lease ''A'' 1 10})"
    using lease_history.next_step [OF 1 lease_step.time_passes [of _ 10]] by simp
  have 3: "lease_history False (?w 10 (?row 2 20) {?lease ''B'' 2 20, ?lease ''A'' 1 10})"
    using after_acquire_history [OF 2, of _ "''B''"] by (simp add: simps)
  have 4: "lease_history False (?w 10 Map.empty {?lease ''A'' 1 10})"
    using lease_history.next_step [OF 3 lease_step.completes [of "?lease ''B'' 2 20" _ False True Map.empty]]
    by (simp add: simps insert_Diff_if)
  have 5: "lease_history False (?w 10 (?row 1 20) {?lease ''C'' 1 20, ?lease ''A'' 1 10})"
    using after_acquire_history [OF 4, of _ "''C''"] by (simp add: simps)
  have 6: "lease_history False (?w 10 Map.empty {?lease ''C'' 1 20})"
    using lease_history.next_step [OF 5 lease_step.completes [of "?lease ''A'' 1 10" _ False True Map.empty]]
    by (simp add: simps insert_Diff_if)
  have 7: "lease_history False (?w 10 (?row 1 20) {?lease ''D'' 1 20, ?lease ''C'' 1 20})"
    using after_acquire_history [OF 6, of _ "''D''"] by (simp add: simps)
  show ?thesis
    by (intro exI [of _ "?w 10 (?row 1 20) {?lease ''D'' 1 20, ?lease ''C'' 1 20}"] exI [of _ "?lease ''C'' 1 20"]
        exI [of _ "?lease ''D'' 1 20"]) (use 7 in \<open>simp add: live_def\<close>)
qed

section \<open>Properties\<close>

text \<open>
  C17: A resource has at most one live lease while holders complete only leases that have not expired: the live lease is
  then the row of the table.  Without that, exclusion fails: the table forgets its token when a lease is completed, so
  the token of an expired holder is given out again, and the completion of that holder (a publication that took longer
  than its lease, say) removes the lease of another, after which two workers hold a live lease on one resource.
\<close>

theorem leases_exclude:
  assumes "lease_history True w" and "live w h" and "live w k" and "hl_key k = hl_key h"
  shows "k = h \<and> lw_table w (hl_key h) = Some \<lparr>ls_fencingToken = hl_token h, ls_expiresAt = hl_expiresAt h\<rparr> \<and>
   (\<exists>w h k. lease_history False w \<and> live w h \<and> live w k \<and> hl_key h = hl_key k \<and> hl_holder h \<noteq> hl_holder k)"
  using assms late_completion recorded_history [of w] unfolding leases_recorded_def by blast

theorem leases_exclude_witness:
  "lw_table (after_acquire ''A'' \<lparr>lw_now = 0, lw_table = Map.empty, lw_held = {}\<rparr>) late_key =
     Some \<lparr>ls_fencingToken = 1, ls_expiresAt = 10\<rparr>"
proof -
  let ?h = "\<lparr>hl_holder = ''A'', hl_key = late_key, hl_token = 1, hl_expiresAt = 10\<rparr>"
  let ?w = "after_acquire ''A'' \<lparr>lw_now = 0, lw_table = Map.empty, lw_held = {}\<rparr>"
  have "lease_history True ?w"
    by (rule after_acquire_history [OF lease_history.no_leases]) (simp add: acquire_lease_def Let_def)
  moreover have "live ?w ?h" by (simp add: live_def after_acquire_def acquire_lease_def Let_def)
  ultimately show ?thesis using leases_exclude [of ?w ?h ?h] by simp
qed

end
