(* ===== verification/Cron.thy ===== *)
theory Cron
  imports Instants
begin

text \<open>
  Cron expressions and the next run of a schedule, \<open>packages/scheduling/src/cron.ts\<close>.  The reading of
  a date text (\<open>date\<close>), the local time of an instant in a time zone (\<open>Intl.DateTimeFormat\<close> with the
  zone database; \<open>None\<close> is its \<open>RangeError\<close>) and the first word of a SHA-256 digest are arguments.
  The scan for the next minute runs at most 1054080 times, the bound of the code, so it is a
  recursion on that number.
\<close>

section \<open>Fields\<close>

datatype schedule_error =
    InvalidScheduleInstant string
  | CronNotNumeric | CronOutOfRange int int | CronNotAscending | CronRangeInvalid
  | CronFieldCount | LocalTimeUnavailable | JitterInvalid | NoCronOccurrence | IntervalInvalid
  | InvalidTimeValue | LegacyScheduleUnavailable | LeaseDurationInvalid | SchedulerLimitInvalid
  | StoreFailure string

datatype schedule_cadence =
    IntervalCadence jsnum "jsnum option"
  | CronCadence string string "jsnum option"

record timed_schedule =
  ts_id :: string
  ts_cadence :: schedule_cadence
  ts_enabled :: bool
  ts_nextRunAt :: string

record cron_fields =
  cf_minute :: "int list"
  cf_hour :: "int list"
  cf_dayOfMonth :: "int list"
  cf_month :: "int list"
  cf_dayOfWeek :: "int list"
  cf_dayOfMonthWildcard :: bool
  cf_dayOfWeekWildcard :: bool

record local_date_time =
  ld_year :: int
  ld_month :: int
  ld_day :: int
  ld_hour :: int
  ld_minute :: int

definition valid_date :: "(string \<Rightarrow> int option) \<Rightarrow> string \<Rightarrow> string \<Rightarrow> (schedule_error, int) result" where
  "valid_date date value field =
     (case date value of None \<Rightarrow> Inl (InvalidScheduleInstant field) | Some t \<Rightarrow> Inr t)"

definition parse_number :: "string \<Rightarrow> int \<Rightarrow> int \<Rightarrow> (schedule_error, int) result" where
  "parse_number value minimum maximum =
     (if value = [] \<or> \<not> list_all is_digit value then Inl CronNotNumeric
      else let parsed = int (digits_value value) in
        if parsed < minimum \<or> parsed > maximum then Inl (CronOutOfRange minimum maximum) else Inr parsed)"

text \<open>\<open>for (value = start; value <= end; value += step)\<close>; a step below one is rejected before.\<close>

function cron_values :: "int \<Rightarrow> int \<Rightarrow> int \<Rightarrow> int list" where
  "cron_values start stop step =
     (if step < 1 \<or> start > stop then [] else start # cron_values (start + step) stop step)"
  by auto
termination by (relation "measure (\<lambda>(start, stop, step). nat (stop + 1 - start))") auto

declare cron_values.simps [simp del]

definition part_range :: "string \<Rightarrow> int \<Rightarrow> int \<Rightarrow> (schedule_error, int \<times> int) result" where
  "part_range expr minimum maximum =
     (if expr = ''*'' then Inr (minimum, maximum)
      else (case split_on CHR ''-'' expr of
              [single] \<Rightarrow> rbind (parse_number expr minimum maximum) (\<lambda>v. Inr (v, v))
            | [lower, upper] \<Rightarrow>
                rbind (parse_number lower minimum maximum) (\<lambda>first.
                rbind (parse_number upper minimum maximum) (\<lambda>final.
                if final < first then Inl CronNotAscending else Inr (first, final)))
            | _ \<Rightarrow> Inl CronRangeInvalid))"

definition part_step :: "string list \<Rightarrow> int \<Rightarrow> int \<Rightarrow> (schedule_error, int) result" where
  "part_step pieces minimum maximum =
     (case pieces of expr # step # others \<Rightarrow> parse_number step 1 (maximum - minimum + 1) | _ \<Rightarrow> Inr 1)"

definition field_part :: "int \<Rightarrow> int \<Rightarrow> bool \<Rightarrow> string \<Rightarrow> (schedule_error, int list) result" where
  "field_part minimum maximum dayOfWeek part =
     (let pieces = split_on CHR ''/'' part in
      rbind (part_step pieces minimum maximum) (\<lambda>step.
      rbind (part_range (hd pieces) minimum maximum) (\<lambda>r.
      Inr (map (\<lambda>v. if dayOfWeek \<and> v = 7 then 0 else v) (cron_values (fst r) (snd r) step)))))"

definition parse_field :: "string \<Rightarrow> int \<Rightarrow> int \<Rightarrow> bool \<Rightarrow> (schedule_error, int list) result" where
  "parse_field expression minimum maximum dayOfWeek =
     rbind (rmapM (field_part minimum maximum dayOfWeek) (split_on CHR '','' expression)) (\<lambda>parts. Inr (concat parts))"

text \<open>\<open>split(/\s+/)\<close> of a trimmed text.\<close>

function split_spaces :: "string \<Rightarrow> string list" where
  "split_spaces s =
     (let w = takeWhile (\<lambda>c. \<not> is_space c) s; r = dropWhile (\<lambda>c. \<not> is_space c) s in
      if r = [] then [w] else w # split_spaces (dropWhile is_space r))"
  by auto
termination
proof (relation "measure length", goal_cases)
  case 1
  then show ?case by simp
next
  case (2 s w r)
  then obtain c r' where r: "r = c # r'" using list.exhaust by metis
  have "\<not> \<not> is_space (hd r)" unfolding 2(2) by (rule hd_dropWhile) (use 2 in simp)
  then have "is_space c" by (simp add: r)
  then have "length (dropWhile is_space r) < length r"
    using length_dropWhile_le [of is_space r'] by (simp add: r)
  moreover have "length r \<le> length s" using 2(2) by (simp add: length_dropWhile_le)
  ultimately show ?case by simp
qed

declare split_spaces.simps [simp del]

definition parse_cron :: "string \<Rightarrow> (schedule_error, cron_fields) result" where
  "parse_cron expression =
     (case split_spaces (trim expression) of
        [minute, hour, dayOfMonth, month, dayOfWeek] \<Rightarrow>
          rbind (parse_field minute 0 59 False) (\<lambda>mi.
          rbind (parse_field hour 0 23 False) (\<lambda>h.
          rbind (parse_field dayOfMonth 1 31 False) (\<lambda>dm.
          rbind (parse_field month 1 12 False) (\<lambda>mo.
          rbind (parse_field dayOfWeek 0 7 True) (\<lambda>dw.
          Inr \<lparr>cf_minute = mi, cf_hour = h, cf_dayOfMonth = dm, cf_month = mo, cf_dayOfWeek = dw,
               cf_dayOfMonthWildcard = (dayOfMonth = ''*''), cf_dayOfWeekWildcard = (dayOfWeek = ''*'')\<rparr>)))))
      | _ \<Rightarrow> Inl CronFieldCount)"

section \<open>Occurrences\<close>

definition matches_cron :: "cron_fields \<Rightarrow> local_date_time \<Rightarrow> bool" where
  "matches_cron f l =
     (if ld_minute l \<notin> set (cf_minute f) \<or> ld_hour l \<notin> set (cf_hour f) \<or> ld_month l \<notin> set (cf_month f)
      then False
      else let dayOfWeek = utc_weekday (ld_year l) (ld_month l) (ld_day l);
               matchesDayOfMonth = ld_day l \<in> set (cf_dayOfMonth f);
               matchesDayOfWeek = dayOfWeek \<in> set (cf_dayOfWeek f)
           in if cf_dayOfMonthWildcard f \<or> cf_dayOfWeekWildcard f
              then matchesDayOfMonth \<and> matchesDayOfWeek
              else matchesDayOfMonth \<or> matchesDayOfWeek)"

definition to_iso :: "int \<Rightarrow> (schedule_error, string) result" where
  "to_iso t = (if time_clip t then Inr (iso_string t) else Inl InvalidTimeValue)"

definition jitter_ms :: "(string \<Rightarrow> nat) \<Rightarrow> string \<Rightarrow> int \<Rightarrow> jsnum option \<Rightarrow> (schedule_error, int) result" where
  "jitter_ms digest scheduleId nominal maximum =
     (case maximum of
        None \<Rightarrow> Inr 0
      | Some m \<Rightarrow>
          if m = Num 0 then Inr 0
          else if \<not> is_integer m \<or> int_of m < 0 then Inl JitterInvalid
          else rbind (to_iso nominal) (\<lambda>text.
            Inr (int (digest (scheduleId @ '':'' @ text)) mod (int_of m + 1))))"

text \<open>The local time of a candidate; formatting an invalid date is an error of the formatter.\<close>

definition local_time ::
  "(string \<Rightarrow> int \<Rightarrow> local_date_time option) \<Rightarrow> string \<Rightarrow> int \<Rightarrow> (schedule_error, local_date_time) result" where
  "local_time zone timezone t =
     (if \<not> time_clip t then Inl LocalTimeUnavailable
      else (case zone timezone t of None \<Rightarrow> Inl LocalTimeUnavailable | Some l \<Rightarrow> Inr l))"

fun cron_scan ::
  "(string \<Rightarrow> int \<Rightarrow> local_date_time option) \<Rightarrow> (int \<Rightarrow> (schedule_error, int) result) \<Rightarrow> cron_fields \<Rightarrow> string \<Rightarrow>
   nat \<Rightarrow> int \<Rightarrow> (schedule_error, int) result" where
  "cron_scan zone jitter cron timezone 0 candidate = Inl NoCronOccurrence"
| "cron_scan zone jitter cron timezone (Suc n) candidate =
     rbind (local_time zone timezone candidate) (\<lambda>l.
       if matches_cron cron l
       then rbind (jitter candidate) (\<lambda>j. Inr (candidate + j))
       else cron_scan zone jitter cron timezone n (candidate + 60000))"

definition maximum_minutes :: nat where
  "maximum_minutes = 366 * 24 * 60 * 2"

definition next_minute :: "int \<Rightarrow> int" where
  "next_minute after = after div 60000 * 60000 + 60000"

definition next_cron_occurrence ::
  "(string \<Rightarrow> int \<Rightarrow> local_date_time option) \<Rightarrow> (string \<Rightarrow> nat) \<Rightarrow> string \<Rightarrow> string \<Rightarrow> string \<Rightarrow> jsnum option \<Rightarrow>
   int \<Rightarrow> (schedule_error, int) result" where
  "next_cron_occurrence zone digest scheduleId expression timezone jitter after =
     rbind (parse_cron expression) (\<lambda>cron.
     rbind (local_time zone timezone after) (\<lambda>_.
     cron_scan zone (\<lambda>t. jitter_ms digest scheduleId t jitter) cron timezone maximum_minutes (next_minute after)))"

definition next_run_at ::
  "(string \<Rightarrow> int option) \<Rightarrow> (string \<Rightarrow> int \<Rightarrow> local_date_time option) \<Rightarrow> (string \<Rightarrow> nat) \<Rightarrow> timed_schedule \<Rightarrow> string \<Rightarrow>
   (schedule_error, string) result" where
  "next_run_at date zone digest schedule after =
     rbind (valid_date date after ''reference time'') (\<lambda>afterDate.
     (case ts_cadence schedule of
        CronCadence expression timezone jitter \<Rightarrow>
          rbind (next_cron_occurrence zone digest (ts_id schedule) expression timezone jitter afterDate) to_iso
      | IntervalCadence intervalMs jitter \<Rightarrow>
          if \<not> is_integer intervalMs \<or> int_of intervalMs < 1 then Inl IntervalInvalid
          else let nominal = afterDate + int_of intervalMs in
            rbind (jitter_ms digest (ts_id schedule) nominal jitter) (\<lambda>j. to_iso (nominal + j))))"

definition is_due :: "(string \<Rightarrow> int option) \<Rightarrow> timed_schedule \<Rightarrow> string \<Rightarrow> (schedule_error, bool) result" where
  "is_due date schedule now =
     (if \<not> ts_enabled schedule then Inr False
      else rbind (valid_date date (ts_nextRunAt schedule) ''next run'') (\<lambda>t.
           rbind (valid_date date now ''clock'') (\<lambda>n. Inr (t \<le> n))))"

section \<open>What a field denotes\<close>

lemma cron_values_set:
  "1 \<le> step \<Longrightarrow> set (cron_values start stop step) = {v. start \<le> v \<and> v \<le> stop \<and> (v - start) mod step = 0}"
proof (induction start stop step rule: cron_values.induct)
  case (1 start stop step)
  show ?case
  proof (cases "start > stop")
    case True
    then show ?thesis by (auto simp: cron_values.simps [of start stop step])
  next
    case False
    then have rec: "cron_values start stop step = start # cron_values (start + step) stop step"
      using "1.prems" by (simp add: cron_values.simps [of start stop step])
    have IH: "set (cron_values (start + step) stop step) =
        {v. start + step \<le> v \<and> v \<le> stop \<and> (v - (start + step)) mod step = 0}"
      using "1.IH" False "1.prems" by simp
    have shift: "(v - (start + step)) mod step = (v - start) mod step" for v
      by (metis diff_diff_add mod_diff_right_eq mod_self diff_zero)
    have "start + step \<le> v" if "start \<le> v" "v \<noteq> start" "(v - start) mod step = 0" for v
      using that "1.prems" zdvd_imp_le [of step "v - start"] by (auto simp: dvd_eq_mod_eq_0)
    then show ?thesis using False "1.prems" by (auto simp: rec IH shift)
  qed
qed

text \<open>A part of a field stands for an arithmetic progression within the bounds of the field.\<close>

definition progression :: "int \<Rightarrow> int \<Rightarrow> int \<Rightarrow> int set" where
  "progression start stop step = {v. start \<le> v \<and> v \<le> stop \<and> (v - start) mod step = 0}"

lemma parse_number_bounds: "parse_number s lo hi = Inr n \<Longrightarrow> lo \<le> n \<and> n \<le> hi \<and> n = int (digits_value s)"
  by (auto simp: parse_number_def Let_def split: if_splits)

lemma part_range_bounds:
  "part_range r lo hi = Inr (a, b) \<Longrightarrow> lo \<le> hi \<Longrightarrow> lo \<le> a \<and> a \<le> b \<and> b \<le> hi"
  by (auto simp: part_range_def rbind_Inr_iff dest!: parse_number_bounds split: if_splits list.splits)

lemma part_step_positive: "part_step ps lo hi = Inr s \<Longrightarrow> 1 \<le> s"
  by (auto simp: part_step_def dest!: parse_number_bounds split: list.splits)

lemma field_part_values:
  assumes "field_part lo hi dow part = Inr vs" and "lo \<le> hi"
  shows "\<exists>start stop step. lo \<le> start \<and> start \<le> stop \<and> stop \<le> hi \<and> 1 \<le> step \<and>
    part_range (hd (split_on CHR ''/'' part)) lo hi = Inr (start, stop) \<and>
    part_step (split_on CHR ''/'' part) lo hi = Inr step \<and>
    set vs = (\<lambda>v. if dow \<and> v = 7 then 0 else v) ` progression start stop step"
  using assms part_range_bounds part_step_positive
  by (fastforce simp: field_part_def rbind_Inr_iff Let_def progression_def cron_values_set)

text \<open>
  a cron field denotes what its parts say.  An accepted field is the union of the progressions of
  its comma-separated parts, each within the bounds of the field and not empty; in the day-of-week
  field Sunday may be written 0 or 7 and is stored as 0, so the values are the weekdays 0 to 6.
\<close>

theorem parse_field_denotes:
  assumes "parse_field e lo hi dow = Inr vs" and "lo \<le> hi" and "dow \<longrightarrow> lo = 0 \<and> hi = 7"
  shows "\<exists>parts. vs = concat parts \<and>
    list_all2 (\<lambda>part values. \<exists>start stop step. lo \<le> start \<and> start \<le> stop \<and> stop \<le> hi \<and> 1 \<le> step \<and>
      part_range (hd (split_on CHR ''/'' part)) lo hi = Inr (start, stop) \<and>
      part_step (split_on CHR ''/'' part) lo hi = Inr step \<and>
      set values = (\<lambda>v. if dow \<and> v = 7 then 0 else v) ` progression start stop step)
    (split_on CHR '','' e) parts \<and>
    vs \<noteq> [] \<and> list_all (\<lambda>v. lo \<le> v \<and> v \<le> hi \<and> \<not> (dow \<and> v = 7)) vs"
proof -
  obtain parts where vs: "vs = concat parts"
    and all: "list_all2 (\<lambda>part values. field_part lo hi dow part = Inr values) (split_on CHR '','' e) parts"
    using assms(1) by (auto simp: parse_field_def result_simps)
  have den: "list_all2 (\<lambda>part values. \<exists>start stop step. lo \<le> start \<and> start \<le> stop \<and> stop \<le> hi \<and> 1 \<le> step \<and>
      part_range (hd (split_on CHR ''/'' part)) lo hi = Inr (start, stop) \<and>
      part_step (split_on CHR ''/'' part) lo hi = Inr step \<and>
      set values = (\<lambda>v. if dow \<and> v = 7 then 0 else v) ` progression start stop step)
    (split_on CHR '','' e) parts"
    by (rule list_all2_mono [OF all]) (rule field_part_values [OF _ assms(2)])
  have one: "values \<noteq> [] \<and> list_all (\<lambda>v. lo \<le> v \<and> v \<le> hi \<and> \<not> (dow \<and> v = 7)) values" if "values \<in> set parts" for "values"
  proof -
    obtain start stop step where b: "lo \<le> start" "start \<le> stop" "stop \<le> hi"
      and v: "set values = (\<lambda>v. if dow \<and> v = 7 then 0 else v) ` progression start stop step"
    proof -
      obtain i where i: "i < length parts" "values = parts ! i"
        using \<open>values \<in> set parts\<close> by (auto simp: in_set_conv_nth)
      then have "i < length (split_on CHR '','' e)" using list_all2_lengthD [OF den] by simp
      from list_all2_nthD [OF den this] i(2) show ?thesis using that by blast
    qed
    have "start \<in> progression start stop step" using b by (simp add: progression_def)
    then have "set values \<noteq> {}" unfolding v by blast
    then have "values \<noteq> []" by simp
    then show ?thesis using v b assms(3) by (auto simp: list_all_iff progression_def)
  qed
  have "parts \<noteq> []" using all by (metis list_all2_Nil2 split_on_nonempty)
  then have "vs \<noteq> []" using one vs by (cases parts) auto
  moreover have "list_all (\<lambda>v. lo \<le> v \<and> v \<le> hi \<and> \<not> (dow \<and> v = 7)) vs"
    using one vs by (auto simp: list_all_iff)
  ultimately show ?thesis using vs den by blast
qed

theorem parse_field_denotes_witness:
  "\<exists>vs. parse_field ''1-5/2,7'' 0 7 True = Inr vs \<and> vs \<noteq> [] \<and> list_all (\<lambda>v. 0 \<le> v \<and> v \<le> 7 \<and> v \<noteq> 7) vs"
proof -
  have digits: "parse_number ''1'' 0 7 = Inr 1" "parse_number ''5'' 0 7 = Inr 5" "parse_number ''7'' 0 7 = Inr 7"
    "parse_number ''2'' 1 8 = Inr 2"
    by (simp_all add: parse_number_def is_digit_def digits_value_def digit_value_def)
  have "parse_field ''1-5/2,7'' 0 7 True = Inr [1, 3, 5, 0]"
    by (simp add: parse_field_def field_part_def part_step_def part_range_def digits cron_values.simps)
  from parse_field_denotes [OF this] show ?thesis
    using \<open>parse_field ''1-5/2,7'' 0 7 True = Inr [1, 3, 5, 0]\<close> by auto
qed

section \<open>The next occurrence\<close>

definition matches_at ::
  "(string \<Rightarrow> int \<Rightarrow> local_date_time option) \<Rightarrow> string \<Rightarrow> cron_fields \<Rightarrow> int \<Rightarrow> bool" where
  "matches_at zone timezone cron t =
     (case local_time zone timezone t of Inl e \<Rightarrow> False | Inr l \<Rightarrow> matches_cron cron l)"

lemma cron_scan_found:
  "cron_scan zone jit cron tz n c = Inr r \<Longrightarrow>
   \<exists>k < n. matches_at zone tz cron (c + 60000 * int k) \<and> (\<forall>i < k. \<not> matches_at zone tz cron (c + 60000 * int i)) \<and>
     (\<exists>j. jit (c + 60000 * int k) = Inr j \<and> r = c + 60000 * int k + j)"
proof (induction n arbitrary: c)
  case 0
  then show ?case by simp
next
  case (Suc n)
  obtain l where l: "local_time zone tz c = Inr l" using Suc.prems by (auto simp: rbind_Inr_iff)
  show ?case
  proof (cases "matches_cron cron l")
    case True
    then obtain j where "jit c = Inr j" "r = c + j" using Suc.prems l by (auto simp: rbind_Inr_iff)
    then show ?thesis using True l by (intro exI [of _ 0]) (simp add: matches_at_def)
  next
    case False
    then have "cron_scan zone jit cron tz n (c + 60000) = Inr r" using Suc.prems l by simp
    from Suc.IH [OF this] obtain k where k: "k < n" "matches_at zone tz cron (c + 60000 + 60000 * int k)"
        "\<forall>i < k. \<not> matches_at zone tz cron (c + 60000 + 60000 * int i)"
        "\<exists>j. jit (c + 60000 + 60000 * int k) = Inr j \<and> r = c + 60000 + 60000 * int k + j"
      by blast
    have first: "\<not> matches_at zone tz cron c" using False l by (simp add: matches_at_def)
    have "\<not> matches_at zone tz cron (c + 60000 * int i)" if "i < Suc k" for i
      using that first k(3) by (cases i) (auto simp: algebra_simps)
    then show ?thesis using k(1,2,4) by (intro exI [of _ "Suc k"]) (auto simp: algebra_simps)
  qed
qed

lemma cron_scan_none:
  "cron_scan zone jit cron tz n c = Inl NoCronOccurrence \<Longrightarrow>
   (\<And>t. jit t \<noteq> Inl NoCronOccurrence) \<Longrightarrow> i < n \<Longrightarrow> \<not> matches_at zone tz cron (c + 60000 * int i)"
proof (induction n arbitrary: c i)
  case 0
  then show ?case by simp
next
  case (Suc n)
  have "local_time zone tz c \<noteq> Inl NoCronOccurrence" by (auto simp: local_time_def split: option.splits)
  then obtain l where l: "local_time zone tz c = Inr l" "\<not> matches_cron cron l"
    and rest: "cron_scan zone jit cron tz n (c + 60000) = Inl NoCronOccurrence"
    using Suc.prems(1,2) by (cases "local_time zone tz c") (auto simp: rbind_Inl_iff split: if_splits)
  show ?case
  proof (cases i)
    case 0
    then show ?thesis using l by (simp add: matches_at_def)
  next
    case (Suc m)
    then show ?thesis using Suc.IH [OF rest Suc.prems(2), of m] Suc.prems(3) by (simp add: algebra_simps)
  qed
qed

text \<open>The whole minutes after an instant.\<close>

lemma next_minute_facts: "after < next_minute after" "next_minute after \<le> after + 60000" "next_minute after mod 60000 = 0"
proof -
  have "after div 60000 * 60000 + after mod 60000 = after" by simp
  moreover have "0 \<le> after mod 60000" "after mod 60000 < 60000" by simp_all
  ultimately show "after < next_minute after" "next_minute after \<le> after + 60000"
    unfolding next_minute_def by linarith+
  show "next_minute after mod 60000 = 0" by (simp add: next_minute_def)
qed

lemma whole_minute_index:
  assumes "after < t" and "t mod 60000 = 0"
  shows "\<exists>i. t = next_minute after + 60000 * int i"
proof -
  obtain q where q: "t = 60000 * q" using assms(2) by auto
  have "after div 60000 < q" using assms(1) unfolding q by (simp add: div_less_iff_less_mult mult.commute)
  then have "t = next_minute after + 60000 * int (nat (q - after div 60000 - 1))"
    by (simp add: q next_minute_def algebra_simps)
  then show ?thesis by blast
qed

lemma jitter_range:
  "jitter_ms digest i t m = Inr j \<Longrightarrow> 0 \<le> j \<and> j \<le> (case m of None \<Rightarrow> 0 | Some n \<Rightarrow> int_of n)"
  by (auto simp: jitter_ms_def rbind_Inr_iff to_iso_def split: option.splits if_splits)
     (metis add.commute pos_mod_bound zle_add1_eq_le le_imp_0_less not_le zless_add1_eq)+

text \<open>The errors of parsing are not the error of the scan.\<close>

lemma rmapM_Inl: "rmapM f xs = Inl e \<Longrightarrow> \<exists>x \<in> set xs. f x = Inl e"
  by (induction xs) (auto simp: rbind_Inl_iff)

lemma parse_number_error: "parse_number s lo hi \<noteq> Inl NoCronOccurrence"
  by (simp add: parse_number_def Let_def)

lemma parse_field_error: "parse_field e lo hi dow \<noteq> Inl NoCronOccurrence"
proof
  assume "parse_field e lo hi dow = Inl NoCronOccurrence"
  then obtain part where "field_part lo hi dow part = Inl NoCronOccurrence"
    by (auto simp: parse_field_def rbind_Inl_iff dest: rmapM_Inl)
  then show False
    using parse_number_error
    by (auto simp: field_part_def rbind_Inl_iff Let_def part_step_def part_range_def split: list.splits if_splits)
qed

lemma parse_cron_error: "parse_cron e \<noteq> Inl NoCronOccurrence"
  using parse_field_error by (auto simp: parse_cron_def rbind_Inl_iff split: list.splits)

lemma jitter_error: "jitter_ms digest i t m \<noteq> Inl NoCronOccurrence"
  by (auto simp: jitter_ms_def rbind_Inl_iff to_iso_def split: option.splits)

text \<open>
  C28: a cron schedule runs at the next matching minute.  If a next occurrence is computed, it is the
  first whole minute after the reference time whose local time matches the expression, delayed by a
  jitter between zero and the maximum; every earlier minute after the reference time was no match.
  If the scan gives up, no minute of the two years (of 366 days) after the reference time matches.
  Since a run is computed from the previous run with its jitter, matching minutes that fall
  between a nominal occurrence and its delayed run are passed over.
\<close>

theorem next_cron_is_next:
  "case next_cron_occurrence zone digest i expression tz jitter after of
     Inr r \<Rightarrow> (\<exists>cron nominal. parse_cron expression = Inr cron \<and> after < nominal \<and> nominal mod 60000 = 0 \<and>
       matches_at zone tz cron nominal \<and>
       (\<forall>t. after < t \<and> t < nominal \<and> t mod 60000 = 0 \<longrightarrow> \<not> matches_at zone tz cron t) \<and>
       nominal \<le> r \<and> r \<le> nominal + (case jitter of None \<Rightarrow> 0 | Some n \<Rightarrow> int_of n))
   | Inl e \<Rightarrow> e = NoCronOccurrence \<longrightarrow> (\<exists>cron. parse_cron expression = Inr cron \<and>
       (\<forall>t. after < t \<and> t \<le> after + 2 * 366 * 86400000 \<and> t mod 60000 = 0 \<longrightarrow> \<not> matches_at zone tz cron t))"
proof (cases "next_cron_occurrence zone digest i expression tz jitter after")
  case (Inr r)
  obtain cron where cron: "parse_cron expression = Inr cron"
    and scan: "cron_scan zone (\<lambda>t. jitter_ms digest i t jitter) cron tz maximum_minutes (next_minute after) = Inr r"
    using Inr by (auto simp: next_cron_occurrence_def rbind_Inr_iff)
  obtain k j where k: "matches_at zone tz cron (next_minute after + 60000 * int k)"
      "\<forall>i < k. \<not> matches_at zone tz cron (next_minute after + 60000 * int i)"
    and j: "jitter_ms digest i (next_minute after + 60000 * int k) jitter = Inr j"
      "r = next_minute after + 60000 * int k + j"
    using cron_scan_found [OF scan] by blast
  have "\<not> matches_at zone tz cron t"
    if t: "after < t" "t < next_minute after + 60000 * int k" "t mod 60000 = 0" for t
  proof -
    obtain m where "t = next_minute after + 60000 * int m"
      using whole_minute_index [OF t(1,3)] by blast
    then show ?thesis using k(2) t(2) by simp
  qed
  moreover have "after < next_minute after + 60000 * int k" using next_minute_facts(1) [of after] by simp
  moreover have "(next_minute after + 60000 * int k) mod 60000 = 0"
    using next_minute_facts(3) [of after] by (metis mod_mult_self2)
  ultimately show ?thesis using Inr cron k(1) j jitter_range [OF j(1)] by auto
next
  case (Inl e)
  show ?thesis
  proof (cases "e = NoCronOccurrence")
    case True
    have "local_time zone tz after \<noteq> Inl NoCronOccurrence" by (auto simp: local_time_def split: option.splits)
    then obtain cron where cron: "parse_cron expression = Inr cron"
      and scan: "cron_scan zone (\<lambda>t. jitter_ms digest i t jitter) cron tz maximum_minutes (next_minute after) =
        Inl NoCronOccurrence"
      using Inl True parse_cron_error by (auto simp: next_cron_occurrence_def rbind_Inl_iff)
    have "\<not> matches_at zone tz cron t"
      if t: "after < t" "t \<le> after + 2 * 366 * 86400000" "t mod 60000 = 0" for t
    proof -
      obtain m where m: "t = next_minute after + 60000 * int m"
        using whole_minute_index [OF t(1,3)] by blast
      have "60000 * int m < 2 * 366 * 86400000" using m t(2) next_minute_facts(1) [of after] by simp
      then have "m < maximum_minutes" by (simp add: maximum_minutes_def)
      then show ?thesis unfolding m by (rule cron_scan_none [OF scan jitter_error])
    qed
    then show ?thesis using Inl cron by auto
  next
    case False
    then show ?thesis using Inl by simp
  qed
qed

text \<open>The time zone of the witnesses: UTC.\<close>

definition utc_zone :: "string \<Rightarrow> int \<Rightarrow> local_date_time option" where
  "utc_zone tz t =
     (if tz = ''UTC''
      then let f = utc_of t in Some \<lparr>ld_year = utc_year f, ld_month = utc_month f, ld_day = utc_day f,
             ld_hour = utc_hour f, ld_minute = utc_minute f\<rparr>
      else None)"

lemma local_time_epoch:
  "local_time utc_zone ''UTC'' 0 = Inr \<lparr>ld_year = 1970, ld_month = 1, ld_day = 1, ld_hour = 0, ld_minute = 0\<rparr>"
  "local_time utc_zone ''UTC'' 60000 = Inr \<lparr>ld_year = 1970, ld_month = 1, ld_day = 1, ld_hour = 0, ld_minute = 1\<rparr>"
proof -
  have "year_from_day 0 = 1970" "day_from_year 1970 = 0"
    by (simp_all add: year_from_day_def day_from_year_def Let_def)
  moreover have "month_of lp 0 = 0" "month_start lp 0 = 0" for lp
    by (simp_all add: month_of_def month_start_def Let_def)
  ultimately show
    "local_time utc_zone ''UTC'' 0 = Inr \<lparr>ld_year = 1970, ld_month = 1, ld_day = 1, ld_hour = 0, ld_minute = 0\<rparr>"
    "local_time utc_zone ''UTC'' 60000 = Inr \<lparr>ld_year = 1970, ld_month = 1, ld_day = 1, ld_hour = 0, ld_minute = 1\<rparr>"
    by (simp_all add: local_time_def time_clip_def utc_zone_def utc_of_def ms_per_day_def Let_def)
qed

lemma every_minute: "next_cron_occurrence utc_zone (\<lambda>s. 0) ''s'' ''1 0 * * *'' ''UTC'' None 0 = Inr 60000"
proof -
  have star: "parse_field ''*'' lo hi dow =
      Inr (map (\<lambda>v. if dow \<and> v = 7 then 0 else v) (cron_values lo hi 1))" for lo hi dow
    by (simp add: parse_field_def field_part_def part_step_def part_range_def)
  have "parse_number ''1'' 0 59 = Inr 1" "parse_number ''0'' 0 23 = Inr 0"
    by (simp_all add: parse_number_def is_digit_def digits_value_def digit_value_def)
  then have one: "parse_field ''1'' 0 59 False = Inr [1]" "parse_field ''0'' 0 23 False = Inr [0]"
    by (simp_all add: parse_field_def field_part_def part_step_def part_range_def cron_values.simps)
  have "split_spaces (trim ''1 0 * * *'') = [''1'', ''0'', ''*'', ''*'', ''*'']"
    by (simp add: trim_def trim_start_def is_space_def split_spaces.simps)
  then have cron: "parse_cron ''1 0 * * *'' = Inr \<lparr>cf_minute = [1], cf_hour = [0], cf_dayOfMonth = cron_values 1 31 1,
      cf_month = cron_values 1 12 1,
      cf_dayOfWeek = map (\<lambda>v. if v = 7 then 0 else v) (cron_values 0 7 1),
      cf_dayOfMonthWildcard = True, cf_dayOfWeekWildcard = True\<rparr>"
    by (simp add: parse_cron_def one star)
  have days: "set (cron_values lo hi 1) = {v. lo \<le> v \<and> v \<le> hi}" for lo hi by (simp add: cron_values_set)
  have "utc_weekday 1970 1 1 = 4"
    by (simp add: utc_weekday_def day_of_civil_def day_from_year_def month_start_def)
  then have "matches_cron \<lparr>cf_minute = [1], cf_hour = [0], cf_dayOfMonth = cron_values 1 31 1,
      cf_month = cron_values 1 12 1, cf_dayOfWeek = map (\<lambda>v. if v = 7 then 0 else v) (cron_values 0 7 1),
      cf_dayOfMonthWildcard = True, cf_dayOfWeekWildcard = True\<rparr>
      \<lparr>ld_year = 1970, ld_month = 1, ld_day = 1, ld_hour = 0, ld_minute = 1\<rparr>"
    by (auto simp: matches_cron_def days)
  moreover obtain n where n: "maximum_minutes = Suc n"
    by (cases maximum_minutes) (simp_all add: maximum_minutes_def)
  ultimately show ?thesis
    unfolding next_cron_occurrence_def cron n by (simp add: local_time_epoch next_minute_def jitter_ms_def)
qed

theorem next_cron_is_next_witness:
  "\<exists>cron nominal. parse_cron ''1 0 * * *'' = Inr cron \<and> 0 < nominal \<and> matches_at utc_zone ''UTC'' cron nominal \<and>
    nominal = 60000"
  using next_cron_is_next [where zone = utc_zone and digest = "\<lambda>s. 0" and i = "''s''" and
      expression = "''1 0 * * *''" and tz = "''UTC''" and jitter = None and after = 0]
  unfolding every_minute by fastforce

section \<open>Runs move forward\<close>

context instant_reader
begin

lemma next_run_advances:
  assumes "next_run_at date zone digest s after = Inr text"
  shows "\<exists>a b. date after = Some a \<and> date text = Some b \<and> a < b \<and> text = iso_string b \<and>
    (case ts_cadence s of
       IntervalCadence n jitter \<Rightarrow> a + int_of n \<le> b \<and>
         b \<le> a + int_of n + (case jitter of None \<Rightarrow> 0 | Some m \<Rightarrow> int_of m)
     | CronCadence e tz jitter \<Rightarrow> next_cron_occurrence zone digest (ts_id s) e tz jitter a = Inr b)"
proof -
  obtain a where a: "date after = Some a"
    using assms by (auto simp: next_run_at_def valid_date_def rbind_Inr_iff split: option.splits)
  show ?thesis
  proof (cases "ts_cadence s")
    case (IntervalCadence n jitter)
    then obtain j where j: "jitter_ms digest (ts_id s) (a + int_of n) jitter = Inr j"
      and t: "to_iso (a + int_of n + j) = Inr text" and n: "1 \<le> int_of n"
      using assms a by (auto simp: next_run_at_def valid_date_def rbind_Inr_iff Let_def split: if_splits)
    have iso: "text = iso_string (a + int_of n + j)" and clip: "time_clip (a + int_of n + j)"
      using t by (auto simp: to_iso_def split: if_splits)
    have "0 \<le> j \<and> j \<le> (case jitter of None \<Rightarrow> 0 | Some m \<Rightarrow> int_of m)" by (rule jitter_range [OF j])
    then show ?thesis
      using a n iso reads_iso [OF clip] IntervalCadence by (intro exI [of _ a] exI [of _ "a + int_of n + j"]) auto
  next
    case (CronCadence e tz jitter)
    then obtain r where r: "next_cron_occurrence zone digest (ts_id s) e tz jitter a = Inr r" and t: "to_iso r = Inr text"
      using assms a by (auto simp: next_run_at_def valid_date_def rbind_Inr_iff)
    have iso: "text = iso_string r" and clip: "time_clip r" using t by (auto simp: to_iso_def split: if_splits)
    obtain cron k j where scan: "a < next_minute a + 60000 * int k" "jitter_ms digest (ts_id s) (next_minute a + 60000 * int k) jitter = Inr j"
        "r = next_minute a + 60000 * int k + j"
    proof -
      obtain cron where "cron_scan zone (\<lambda>t. jitter_ms digest (ts_id s) t jitter) cron tz maximum_minutes (next_minute a) = Inr r"
        using r by (auto simp: next_cron_occurrence_def rbind_Inr_iff)
      from cron_scan_found [OF this] show ?thesis
        using that next_minute_facts(1) [of a] by fastforce
    qed
    have "a < r" using scan(1,3) jitter_range [OF scan(2)] by simp
    then show ?thesis using a iso reads_iso [OF clip] r CronCadence by auto
  qed
qed

end

text \<open>
  a schedule always moves forward.  The next run computed for a schedule is an instant in the
  format of \<open>toISOString\<close> strictly after the reference time: for an interval at least the interval
  and at most interval and jitter later (counted from the previous run, jitter included, so jitter
  accumulates), for a cron expression the delayed next occurrence.
\<close>

theorem next_run_moves_forward:
  assumes "next_run_at parse_iso zone digest s after = Inr text"
  shows "\<exists>a b. parse_iso after = Some a \<and> parse_iso text = Some b \<and> a < b \<and> text = iso_string b \<and>
    (case ts_cadence s of
       IntervalCadence n jitter \<Rightarrow> a + int_of n \<le> b \<and>
         b \<le> a + int_of n + (case jitter of None \<Rightarrow> 0 | Some m \<Rightarrow> int_of m)
     | CronCadence e tz jitter \<Rightarrow> next_cron_occurrence zone digest (ts_id s) e tz jitter a = Inr b)"
  by (rule iso_reader.next_run_advances [OF assms])

theorem next_run_moves_forward_witness:
  "\<exists>b. parse_iso (iso_string 5000) = Some b \<and> 0 < b \<and> b = 5000"
proof -
  have clip: "time_clip 0" "time_clip 5000" by (simp_all add: time_clip_def)
  have "next_run_at parse_iso utc_zone (\<lambda>s. 0)
      \<lparr>ts_id = ''s'', ts_cadence = IntervalCadence (Num 5000) None, ts_enabled = True, ts_nextRunAt = iso_string 0\<rparr>
      (iso_string 0) = Inr (iso_string 5000)"
    by (simp add: next_run_at_def valid_date_def parse_iso_string clip jitter_ms_def to_iso_def)
  from next_run_moves_forward [OF this] show ?thesis
    by (auto simp: parse_iso_string clip)
qed

end
