(* ===== verification/Schedulers.thy ===== *)
theory Schedulers
  imports Cron "HOL-Library.Sublist"
begin

text \<open>
  The three durable schedulers of \<open>packages/scheduling/src\<close>: \<open>scheduler.ts\<close> (knowledge sources),
  \<open>analysis-scheduler.ts\<close> (single cases) and \<open>case-discovery-scheduler.ts\<close>.  Their \<open>runOnce\<close> methods
  have one shape, \<open>run_once\<close>, over the schedule type, its occurrence key and its command.  The store
  is a state of any type with the three operations of its port; an operation that rejects returns an
  error and the state it leaves.  The run records the occurrences it hands to the store.
\<close>

section \<open>Schedules and commands\<close>

datatype knowledge_kind = Synchronize | FullRescan

record knowledge_schedule =
  ks_id :: string
  ks_workspaceId :: string
  ks_sourceId :: string
  ks_sourceConfigurationVersionId :: string
  ks_connectorConfigurationVersionId :: string
  ks_kind :: knowledge_kind
  ks_cadence :: schedule_cadence
  ks_enabled :: bool
  ks_nextRunAt :: string

record knowledge_command =
  kc_type :: string
  kc_workspaceId :: string
  kc_sourceId :: string
  kc_sourceConfigurationVersionId :: string
  kc_connectorConfigurationVersionId :: string
  kc_trigger :: string
  kc_occurrenceKey :: string
  kc_scheduledFor :: string

record case_target =
  ct_connectorInstanceId :: string
  ct_resourceType :: string
  ct_externalId :: string

record analysis_schedule =
  as_id :: string
  as_workspaceId :: string
  as_triggerId :: string
  as_configurationVersion :: string
  as_analysisTriggerVersionId :: "string option"
  as_target :: "case_target option"
  as_automatedPrincipalId :: "string option"
  as_connectorRegistrationId :: "string option"
  as_connectorConfigurationVersionId :: "string option"
  as_cadence :: schedule_cadence
  as_enabled :: bool
  as_nextRunAt :: string

record analysis_command =
  ak_type :: string
  ak_workspaceId :: string
  ak_triggerRequestId :: string
  ak_triggerId :: string
  ak_triggerVersionId :: string
  ak_connectorRegistrationId :: string
  ak_connectorConfigurationVersionId :: string
  ak_source :: string
  ak_occurrenceKey :: string
  ak_target :: "case_target option"

record discovery_schedule =
  ds_id :: string
  ds_workspaceId :: string
  ds_configurationVersionId :: string
  ds_triggerId :: string
  ds_triggerVersionId :: string
  ds_automatedPrincipalId :: string
  ds_connectorRegistrationId :: string
  ds_connectorConfigurationVersionId :: string
  ds_cadence :: schedule_cadence
  ds_enabled :: bool
  ds_nextRunAt :: string

record discovery_command =
  dk_type :: string
  dk_workspaceId :: string
  dk_scheduleId :: string
  dk_scheduleConfigurationVersionId :: string
  dk_triggerId :: string
  dk_triggerVersionId :: string
  dk_connectorRegistrationId :: string
  dk_connectorConfigurationVersionId :: string
  dk_occurrenceKey :: string

record schedule_lease =
  sl_fencingToken :: int
  sl_expiresAt :: string

datatype enqueue_outcome = Enqueued | Duplicate

record ('sched, 'cmd) occurrence =
  oc_schedule :: 'sched
  oc_lease :: schedule_lease
  oc_occurrenceKey :: string
  oc_command :: 'cmd
  oc_nextRunAt :: string
  oc_now :: string

record ('s, 'sched, 'cmd) schedule_store =
  ss_findDue :: "'s \<Rightarrow> string \<Rightarrow> int \<Rightarrow> (schedule_error, 'sched list) result"
  ss_acquireLease :: "'s \<Rightarrow> 'sched \<Rightarrow> string \<Rightarrow> jsnum \<Rightarrow> (schedule_error, schedule_lease option) result \<times> 's"
  ss_enqueueOccurrence :: "'s \<Rightarrow> ('sched, 'cmd) occurrence \<Rightarrow> (schedule_error, enqueue_outcome) result \<times> 's"

record run_result =
  rr_due :: nat
  rr_leased :: nat
  rr_enqueued :: nat
  rr_duplicate :: nat

section \<open>Keys and commands\<close>

definition knowledge_payload :: "knowledge_schedule \<Rightarrow> string" where
  "knowledge_payload s = join '':''
     [''knowledge-schedule.v2'', ks_workspaceId s, ks_id s, ks_sourceConfigurationVersionId s,
      ks_connectorConfigurationVersionId s,
      (case ks_kind s of Synchronize \<Rightarrow> ''synchronize'' | FullRescan \<Rightarrow> ''fullRescan''), ks_nextRunAt s]"

definition knowledge_command_for :: "knowledge_schedule \<Rightarrow> string \<Rightarrow> knowledge_command" where
  "knowledge_command_for s key =
     \<lparr>kc_type = (if ks_kind s = Synchronize then ''knowledge.synchronize.v2'' else ''knowledge.full-rescan.v2''),
      kc_workspaceId = ks_workspaceId s, kc_sourceId = ks_sourceId s,
      kc_sourceConfigurationVersionId = ks_sourceConfigurationVersionId s,
      kc_connectorConfigurationVersionId = ks_connectorConfigurationVersionId s,
      kc_trigger = ''schedule'', kc_occurrenceKey = key, kc_scheduledFor = ks_nextRunAt s\<rparr>"

definition or_legacy :: "string option \<Rightarrow> string" where
  "or_legacy v = (case v of None \<Rightarrow> ''legacy'' | Some s \<Rightarrow> s)"

definition analysis_payload :: "analysis_schedule \<Rightarrow> string" where
  "analysis_payload s = join '':''
     [''case-analysis-schedule.v2'', as_workspaceId s, as_id s, as_triggerId s,
      or_legacy (as_analysisTriggerVersionId s), or_legacy (map_option ct_connectorInstanceId (as_target s)),
      or_legacy (map_option ct_resourceType (as_target s)), or_legacy (map_option ct_externalId (as_target s)),
      as_nextRunAt s]"

definition present :: "string option \<Rightarrow> bool" where
  "present v = (case v of None \<Rightarrow> False | Some s \<Rightarrow> s \<noteq> [])"

definition is_pinned_schedule :: "analysis_schedule \<Rightarrow> bool" where
  "is_pinned_schedule s \<longleftrightarrow>
     present (as_analysisTriggerVersionId s) \<and> present (as_automatedPrincipalId s) \<and>
     present (as_connectorRegistrationId s) \<and> present (as_connectorConfigurationVersionId s) \<and>
     (case as_target s of
        None \<Rightarrow> False
      | Some t \<Rightarrow> ct_connectorInstanceId t \<noteq> [] \<and> ct_resourceType t \<noteq> [] \<and> ct_externalId t \<noteq> [])"

text \<open>The command is built for pinned schedules only, whose optional fields are present.\<close>

definition text_of :: "string option \<Rightarrow> string" where
  "text_of v = (case v of None \<Rightarrow> [] | Some s \<Rightarrow> s)"

definition analysis_command_for :: "analysis_schedule \<Rightarrow> string \<Rightarrow> analysis_command" where
  "analysis_command_for s key =
     \<lparr>ak_type = ''analysis.trigger.v2'', ak_workspaceId = as_workspaceId s,
      ak_triggerRequestId = ''analysis-trigger-request:schedule:'' @ key, ak_triggerId = as_triggerId s,
      ak_triggerVersionId = text_of (as_analysisTriggerVersionId s),
      ak_connectorRegistrationId = text_of (as_connectorRegistrationId s),
      ak_connectorConfigurationVersionId = text_of (as_connectorConfigurationVersionId s),
      ak_source = ''schedule'', ak_occurrenceKey = key, ak_target = as_target s\<rparr>"

definition discovery_payload :: "discovery_schedule \<Rightarrow> string" where
  "discovery_payload s = join '':''
     [''case-discovery-schedule.v1'', ds_workspaceId s, ds_id s, ds_configurationVersionId s, ds_triggerId s,
      ds_triggerVersionId s, ds_connectorRegistrationId s, ds_connectorConfigurationVersionId s, ds_nextRunAt s]"

definition discovery_command_for :: "discovery_schedule \<Rightarrow> string \<Rightarrow> discovery_command" where
  "discovery_command_for s key =
     \<lparr>dk_type = ''analysis.discover.v1'', dk_workspaceId = ds_workspaceId s, dk_scheduleId = ds_id s,
      dk_scheduleConfigurationVersionId = ds_configurationVersionId s, dk_triggerId = ds_triggerId s,
      dk_triggerVersionId = ds_triggerVersionId s, dk_connectorRegistrationId = ds_connectorRegistrationId s,
      dk_connectorConfigurationVersionId = ds_connectorConfigurationVersionId s, dk_occurrenceKey = key\<rparr>"

section \<open>One run\<close>

text \<open>What a scheduler fixes: the timing of its schedules, its guard, key and command.\<close>

record ('sched, 'cmd) scheduler_kind =
  sk_timed :: "'sched \<Rightarrow> timed_schedule"
  sk_allowed :: "'sched \<Rightarrow> bool"
  sk_key :: "'sched \<Rightarrow> string"
  sk_command :: "'sched \<Rightarrow> string \<Rightarrow> 'cmd"

record time_ports =
  tp_date :: "string \<Rightarrow> int option"
  tp_zone :: "string \<Rightarrow> int \<Rightarrow> local_date_time option"
  tp_digest :: "string \<Rightarrow> nat"

record ('s, 'sched, 'cmd) run_state =
  rn_store :: 's
  rn_leased :: nat
  rn_enqueued :: nat
  rn_duplicate :: nat
  rn_occurrences :: "('sched, 'cmd) occurrence list"

definition count_outcome :: "enqueue_outcome \<Rightarrow> ('s, 'sched, 'cmd) run_state \<Rightarrow> ('s, 'sched, 'cmd) run_state" where
  "count_outcome r st =
     (if r = Enqueued then st\<lparr>rn_enqueued := rn_enqueued st + 1\<rparr> else st\<lparr>rn_duplicate := rn_duplicate st + 1\<rparr>)"

text \<open>The body of the loop for a schedule that is due.\<close>

definition run_schedule ::
  "time_ports \<Rightarrow> ('sched, 'cmd) scheduler_kind \<Rightarrow> ('s, 'sched, 'cmd) schedule_store \<Rightarrow> jsnum \<Rightarrow> string \<Rightarrow> 'sched \<Rightarrow>
   ('s, 'sched, 'cmd) run_state \<Rightarrow> (schedule_error, unit) result \<times> ('s, 'sched, 'cmd) run_state" where
  "run_schedule tp sk store leaseMs now s st =
     (if \<not> sk_allowed sk s then (Inl LegacyScheduleUnavailable, st)
      else (case ss_acquireLease store (rn_store st) s now leaseMs of
        (Inl e, st') \<Rightarrow> (Inl e, st\<lparr>rn_store := st'\<rparr>)
      | (Inr None, st') \<Rightarrow> (Inr (), st\<lparr>rn_store := st'\<rparr>)
      | (Inr (Some lease), st') \<Rightarrow>
          let st1 = st\<lparr>rn_store := st', rn_leased := rn_leased st + 1\<rparr>; key = sk_key sk s in
          (case next_run_at (tp_date tp) (tp_zone tp) (tp_digest tp) (sk_timed sk s) (ts_nextRunAt (sk_timed sk s)) of
             Inl e \<Rightarrow> (Inl e, st1)
           | Inr nextRun \<Rightarrow>
               let oc = \<lparr>oc_schedule = s, oc_lease = lease, oc_occurrenceKey = key,
                         oc_command = sk_command sk s key, oc_nextRunAt = nextRun, oc_now = now\<rparr>;
                   st2 = st1\<lparr>rn_occurrences := rn_occurrences st1 @ [oc]\<rparr> in
               (case ss_enqueueOccurrence store st' oc of
                  (Inl e, st3) \<Rightarrow> (Inl e, st2\<lparr>rn_store := st3\<rparr>)
                | (Inr r, st3) \<Rightarrow> (Inr (), count_outcome r (st2\<lparr>rn_store := st3\<rparr>))))))"

fun run_loop ::
  "time_ports \<Rightarrow> ('sched, 'cmd) scheduler_kind \<Rightarrow> ('s, 'sched, 'cmd) schedule_store \<Rightarrow> jsnum \<Rightarrow> string \<Rightarrow> 'sched list \<Rightarrow>
   ('s, 'sched, 'cmd) run_state \<Rightarrow> (schedule_error, unit) result \<times> ('s, 'sched, 'cmd) run_state" where
  "run_loop tp sk store leaseMs now [] st = (Inr (), st)"
| "run_loop tp sk store leaseMs now (s # ss) st =
     (case is_due (tp_date tp) (sk_timed sk s) now of
        Inl e \<Rightarrow> (Inl e, st)
      | Inr due \<Rightarrow>
          if \<not> due then run_loop tp sk store leaseMs now ss st
          else (case run_schedule tp sk store leaseMs now s st of
                  (Inl e, st') \<Rightarrow> (Inl e, st')
                | (Inr u, st') \<Rightarrow> run_loop tp sk store leaseMs now ss st'))"

text \<open>The constructor check and \<open>runOnce\<close>; \<open>now\<close> is the reading of the clock.\<close>

definition run_once ::
  "time_ports \<Rightarrow> ('sched, 'cmd) scheduler_kind \<Rightarrow> ('s, 'sched, 'cmd) schedule_store \<Rightarrow> jsnum \<Rightarrow> string \<Rightarrow> jsnum \<Rightarrow> 's \<Rightarrow>
   (schedule_error, run_result) result \<times> ('s, 'sched, 'cmd) run_state" where
  "run_once tp sk store leaseMs now limit s =
     (let st = \<lparr>rn_store = s, rn_leased = 0, rn_enqueued = 0, rn_duplicate = 0, rn_occurrences = []\<rparr> in
      if \<not> is_integer leaseMs \<or> int_of leaseMs < 1 then (Inl LeaseDurationInvalid, st)
      else if \<not> is_integer limit \<or> int_of limit < 1 \<or> int_of limit > 100 then (Inl SchedulerLimitInvalid, st)
      else (case ss_findDue store s now (int_of limit) of
        Inl e \<Rightarrow> (Inl e, st)
      | Inr due \<Rightarrow>
          (case run_loop tp sk store leaseMs now due st of
             (Inl e, st') \<Rightarrow> (Inl e, st')
           | (Inr u, st') \<Rightarrow>
               (Inr \<lparr>rr_due = length due, rr_leased = rn_leased st', rr_enqueued = rn_enqueued st',
                     rr_duplicate = rn_duplicate st'\<rparr>, st'))))"

definition knowledge_scheduler :: "(string \<Rightarrow> string) \<Rightarrow> (knowledge_schedule, knowledge_command) scheduler_kind" where
  "knowledge_scheduler sha256 =
     \<lparr>sk_timed = (\<lambda>s. \<lparr>ts_id = ks_id s, ts_cadence = ks_cadence s, ts_enabled = ks_enabled s, ts_nextRunAt = ks_nextRunAt s\<rparr>),
      sk_allowed = (\<lambda>s. True), sk_key = (\<lambda>s. sha256 (knowledge_payload s)), sk_command = knowledge_command_for\<rparr>"

definition analysis_scheduler :: "(string \<Rightarrow> string) \<Rightarrow> (analysis_schedule, analysis_command) scheduler_kind" where
  "analysis_scheduler sha256 =
     \<lparr>sk_timed = (\<lambda>s. \<lparr>ts_id = as_id s, ts_cadence = as_cadence s, ts_enabled = as_enabled s, ts_nextRunAt = as_nextRunAt s\<rparr>),
      sk_allowed = is_pinned_schedule, sk_key = (\<lambda>s. sha256 (analysis_payload s)), sk_command = analysis_command_for\<rparr>"

definition discovery_scheduler :: "(string \<Rightarrow> string) \<Rightarrow> (discovery_schedule, discovery_command) scheduler_kind" where
  "discovery_scheduler sha256 =
     \<lparr>sk_timed = (\<lambda>s. \<lparr>ts_id = ds_id s, ts_cadence = ds_cadence s, ts_enabled = ds_enabled s, ts_nextRunAt = ds_nextRunAt s\<rparr>),
      sk_allowed = (\<lambda>s. True), sk_key = (\<lambda>s. sha256 (discovery_payload s)), sk_command = discovery_command_for\<rparr>"

section \<open>What a run does\<close>

definition occurrence_ok ::
  "time_ports \<Rightarrow> ('sched, 'cmd) scheduler_kind \<Rightarrow> string \<Rightarrow> ('sched, 'cmd) occurrence \<Rightarrow> bool" where
  "occurrence_ok tp sk now oc \<longleftrightarrow>
     (let s = oc_schedule oc in
      is_due (tp_date tp) (sk_timed sk s) now = Inr True \<and> sk_allowed sk s \<and>
      oc_occurrenceKey oc = sk_key sk s \<and> oc_command oc = sk_command sk s (sk_key sk s) \<and>
      next_run_at (tp_date tp) (tp_zone tp) (tp_digest tp) (sk_timed sk s) (ts_nextRunAt (sk_timed sk s)) =
        Inr (oc_nextRunAt oc) \<and>
      oc_now oc = now)"

definition accounted :: "('s, 'sched, 'cmd) run_state \<Rightarrow> bool" where
  "accounted st \<longleftrightarrow>
     rn_leased st = rn_enqueued st + rn_duplicate st \<and> rn_leased st = length (rn_occurrences st)"

lemma run_schedule_step:
  assumes "run_schedule tp sk store leaseMs now s st = (r, st')" and "is_due (tp_date tp) (sk_timed sk s) now = Inr True"
  shows "\<exists>new. rn_occurrences st' = rn_occurrences st @ new \<and> subseq (map oc_schedule new) [s] \<and>
    list_all (occurrence_ok tp sk now) new \<and>
    (r = Inr () \<and> accounted st \<longrightarrow> accounted st') \<and> (r = Inr () \<longrightarrow> sk_allowed sk s)"
  using assms
  by (auto simp: run_schedule_def Let_def count_outcome_def accounted_def occurrence_ok_def
      split: if_splits prod.splits sum.splits option.splits)

lemma run_loop_steps:
  "run_loop tp sk store leaseMs now ss st = (r, st') \<Longrightarrow>
   \<exists>new. rn_occurrences st' = rn_occurrences st @ new \<and> subseq (map oc_schedule new) ss \<and>
     list_all (occurrence_ok tp sk now) new \<and>
     (r = Inr () \<and> accounted st \<longrightarrow> accounted st') \<and>
     (r = Inr () \<longrightarrow> (\<forall>s \<in> set ss. is_due (tp_date tp) (sk_timed sk s) now = Inr True \<longrightarrow> sk_allowed sk s))"
proof (induction ss arbitrary: st)
  case Nil
  then show ?case by auto
next
  case (Cons s ss)
  consider (err) e where "is_due (tp_date tp) (sk_timed sk s) now = Inl e"
    | (skip) "is_due (tp_date tp) (sk_timed sk s) now = Inr False"
    | (due) "is_due (tp_date tp) (sk_timed sk s) now = Inr True"
    by (cases "is_due (tp_date tp) (sk_timed sk s) now") auto
  then show ?case
  proof cases
    case err
    then show ?thesis using Cons.prems by auto
  next
    case skip
    then show ?thesis using Cons.prems Cons.IH [of st] by fastforce
  next
    case due
    obtain r1 st1 where step: "run_schedule tp sk store leaseMs now s st = (r1, st1)" by fastforce
    obtain new1 where new1: "rn_occurrences st1 = rn_occurrences st @ new1" "subseq (map oc_schedule new1) [s]"
        "list_all (occurrence_ok tp sk now) new1" "r1 = Inr () \<and> accounted st \<longrightarrow> accounted st1"
        "r1 = Inr () \<longrightarrow> sk_allowed sk s"
      using run_schedule_step [OF step due] by blast
    show ?thesis
    proof (cases r1)
      case (Inl e)
      have "subseq (map oc_schedule new1) (s # ss)" using list_emb_append2 [of "(=)" _ "[s]" ss] new1(2)
        by (metis append_Cons append_Nil subseq_order.trans list_emb_append2 subseq_rev_drop_many)
      then show ?thesis using Cons.prems step due Inl new1 by auto
    next
      case (Inr u)
      then have rest: "run_loop tp sk store leaseMs now ss st1 = (r, st')" using Cons.prems step due by simp
      obtain new2 where new2: "rn_occurrences st' = rn_occurrences st1 @ new2" "subseq (map oc_schedule new2) ss"
          "list_all (occurrence_ok tp sk now) new2" "r = Inr () \<and> accounted st1 \<longrightarrow> accounted st'"
          "r = Inr () \<longrightarrow> (\<forall>s \<in> set ss. is_due (tp_date tp) (sk_timed sk s) now = Inr True \<longrightarrow> sk_allowed sk s)"
        using Cons.IH [OF rest] by blast
      have "subseq (map oc_schedule (new1 @ new2)) ([s] @ ss)"
        unfolding map_append by (rule list_emb_append_mono [OF new1(2) new2(2)])
      then show ?thesis using new1 new2 Inr by (intro exI [of _ "new1 @ new2"]) auto
    qed
  qed
qed

lemma run_once_steps:
  assumes "run_once tp sk store leaseMs now limit s = (r, st)"
  shows "list_all (occurrence_ok tp sk now) (rn_occurrences st) \<and>
    (case r of
       Inl e \<Rightarrow> True
     | Inr res \<Rightarrow> \<exists>due. ss_findDue store s now (int_of limit) = Inr due \<and> rr_due res = length due \<and>
         subseq (map oc_schedule (rn_occurrences st)) due \<and> rr_leased res = length (rn_occurrences st) \<and>
         rr_leased res = rr_enqueued res + rr_duplicate res \<and>
         (\<forall>s \<in> set due. is_due (tp_date tp) (sk_timed sk s) now = Inr True \<longrightarrow> sk_allowed sk s))"
proof -
  let ?st = "\<lparr>rn_store = s, rn_leased = 0, rn_enqueued = 0, rn_duplicate = 0, rn_occurrences = []\<rparr>"
  have acc: "accounted ?st" by (simp add: accounted_def)
  show ?thesis
  proof (cases "ss_findDue store s now (int_of limit)")
    case (Inl e)
    then show ?thesis using assms by (auto simp: run_once_def Let_def split: if_splits)
  next
    case (Inr due)
    obtain r1 st1 where loop: "run_loop tp sk store leaseMs now due ?st = (r1, st1)" by fastforce
    show ?thesis
      using assms Inr loop run_loop_steps [OF loop] acc
      by (auto simp: run_once_def Let_def accounted_def split: if_splits sum.splits)
  qed
qed

text \<open>
  C27: what a scheduler run enqueues.  For any store and any of the schedulers: every occurrence that is
  handed to the store, whether the run succeeds or fails, belongs to an enabled schedule that is due
  at the clock, passes the guard of the scheduler, carries its key and the command built from that
  schedule, and moves the schedule to a strictly later instant.  If the run succeeds, its occurrences are
  schedules of the due list in order, each entry at most once, and the counts add up: as many leases as
  occurrences, each of them either enqueued or a duplicate, and not more than were found due.
\<close>

theorem run_once_accounts:
  assumes "run_once \<lparr>tp_date = parse_iso, tp_zone = zone, tp_digest = digest\<rparr> sk store leaseMs now limit s = (r, st)"
  shows "list_all (\<lambda>oc. let sched = oc_schedule oc; timed = sk_timed sk sched in
      (\<exists>t n nx. parse_iso (ts_nextRunAt timed) = Some t \<and> parse_iso now = Some n \<and>
         parse_iso (oc_nextRunAt oc) = Some nx \<and> t \<le> n \<and> t < nx) \<and>
      ts_enabled timed \<and> sk_allowed sk sched \<and> oc_occurrenceKey oc = sk_key sk sched \<and>
      oc_command oc = sk_command sk sched (sk_key sk sched) \<and> oc_now oc = now) (rn_occurrences st) \<and>
    (case r of
       Inl e \<Rightarrow> True
     | Inr res \<Rightarrow> \<exists>due. ss_findDue store s now (int_of limit) = Inr due \<and> rr_due res = length due \<and>
         subseq (map oc_schedule (rn_occurrences st)) due \<and> rr_leased res = length (rn_occurrences st) \<and>
         rr_leased res = rr_enqueued res + rr_duplicate res \<and> rr_leased res \<le> rr_due res)"
proof -
  let ?tp = "\<lparr>tp_date = parse_iso, tp_zone = zone, tp_digest = digest\<rparr>"
  have ok: "list_all (occurrence_ok ?tp sk now) (rn_occurrences st)" using run_once_steps [OF assms] by blast
  have each: "let sched = oc_schedule oc; timed = sk_timed sk sched in
      (\<exists>t n nx. parse_iso (ts_nextRunAt timed) = Some t \<and> parse_iso now = Some n \<and>
         parse_iso (oc_nextRunAt oc) = Some nx \<and> t \<le> n \<and> t < nx) \<and>
      ts_enabled timed \<and> sk_allowed sk sched \<and> oc_occurrenceKey oc = sk_key sk sched \<and>
      oc_command oc = sk_command sk sched (sk_key sk sched) \<and> oc_now oc = now"
    if oc: "occurrence_ok ?tp sk now oc" for oc
  proof -
    let ?t = "sk_timed sk (oc_schedule oc)"
    have nx: "next_run_at parse_iso zone digest ?t (ts_nextRunAt ?t) = Inr (oc_nextRunAt oc)"
      using oc by (simp add: occurrence_ok_def Let_def)
    obtain a b where ab: "parse_iso (ts_nextRunAt ?t) = Some a" "parse_iso (oc_nextRunAt oc) = Some b" "a < b"
      using iso_reader.next_run_advances [OF nx] by blast
    have "ts_enabled ?t \<and> (\<exists>t n. parse_iso (ts_nextRunAt ?t) = Some t \<and> parse_iso now = Some n \<and> t \<le> n)"
      using oc by (auto simp: occurrence_ok_def Let_def is_due_def valid_date_def rbind_Inr_iff
          split: if_splits option.splits)
    then show ?thesis using ab oc by (auto simp: occurrence_ok_def Let_def)
  qed
  have "list_all P xs" if "list_all Q xs" "\<And>x. Q x \<Longrightarrow> P x" for P Q :: "('b, 'c) occurrence \<Rightarrow> bool" and xs
    using that by (auto simp: list_all_iff)
  note mono = this
  have "rr_leased res \<le> rr_due res"
    if "subseq (map oc_schedule (rn_occurrences st)) due" "rr_due res = length due"
      "rr_leased res = length (rn_occurrences st)" for res due
    using list_emb_length [OF that(1)] that(2,3) by simp
  then show ?thesis
    using mono [OF ok each] run_once_steps [OF assms] by (auto split: sum.splits)
qed

text \<open>The store of the witnesses: one schedule is due, the lease is granted, the occurrence is new.\<close>

definition single_store :: "'sched \<Rightarrow> (nat, 'sched, 'cmd) schedule_store" where
  "single_store sched =
     \<lparr>ss_findDue = (\<lambda>s now limit. Inr [sched]),
      ss_acquireLease = (\<lambda>s sched now leaseMs. (Inr (Some \<lparr>sl_fencingToken = 1, sl_expiresAt = now\<rparr>), s)),
      ss_enqueueOccurrence = (\<lambda>s oc. (Inr Enqueued, Suc s))\<rparr>"

definition utc_ports :: time_ports where
  "utc_ports = \<lparr>tp_date = parse_iso, tp_zone = utc_zone, tp_digest = (\<lambda>s. 0)\<rparr>"

definition sample_knowledge :: knowledge_schedule where
  "sample_knowledge = \<lparr>ks_id = ''s1'', ks_workspaceId = ''w1'', ks_sourceId = ''src'',
     ks_sourceConfigurationVersionId = ''v1'', ks_connectorConfigurationVersionId = ''c1'', ks_kind = Synchronize,
     ks_cadence = IntervalCadence (Num 5000) None, ks_enabled = True, ks_nextRunAt = iso_string 0\<rparr>"

definition sample_analysis :: analysis_schedule where
  "sample_analysis = \<lparr>as_id = ''s1'', as_workspaceId = ''w1'', as_triggerId = ''t1'', as_configurationVersion = ''1'',
     as_analysisTriggerVersionId = Some ''tv'',
     as_target = Some \<lparr>ct_connectorInstanceId = ''c'', ct_resourceType = ''case'', ct_externalId = ''7''\<rparr>,
     as_automatedPrincipalId = Some ''p'', as_connectorRegistrationId = Some ''r'',
     as_connectorConfigurationVersionId = Some ''cv'',
     as_cadence = IntervalCadence (Num 5000) None, as_enabled = True, as_nextRunAt = iso_string 0\<rparr>"

lemma interval_runs:
  "is_due parse_iso \<lparr>ts_id = i, ts_cadence = IntervalCadence (Num 5000) None, ts_enabled = True, ts_nextRunAt = iso_string 0\<rparr>
     (iso_string 0) = Inr True"
  "next_run_at parse_iso utc_zone (\<lambda>s. 0)
     \<lparr>ts_id = i, ts_cadence = IntervalCadence (Num 5000) None, ts_enabled = True, ts_nextRunAt = iso_string 0\<rparr>
     (iso_string 0) = Inr (iso_string 5000)"
  by (simp_all add: is_due_def next_run_at_def valid_date_def parse_iso_string jitter_ms_def to_iso_def time_clip_def)

lemma sample_knowledge_run:
  "\<exists>st. run_once utc_ports (knowledge_scheduler id) (single_store sample_knowledge) (Num 30000) (iso_string 0) (Num 25) 0 =
     (Inr \<lparr>rr_due = 1, rr_leased = 1, rr_enqueued = 1, rr_duplicate = 0\<rparr>, st)"
  by (simp add: run_once_def run_schedule_def Let_def utc_ports_def knowledge_scheduler_def single_store_def
      sample_knowledge_def interval_runs count_outcome_def)

lemma sample_analysis_run:
  "\<exists>st oc. run_once utc_ports (analysis_scheduler id) (single_store sample_analysis) (Num 30000) (iso_string 0) (Num 25) 0 =
     (Inr \<lparr>rr_due = 1, rr_leased = 1, rr_enqueued = 1, rr_duplicate = 0\<rparr>, st) \<and> rn_occurrences st = [oc] \<and>
     oc_schedule oc = sample_analysis"
  by (simp add: run_once_def run_schedule_def Let_def utc_ports_def analysis_scheduler_def single_store_def
      sample_analysis_def interval_runs count_outcome_def is_pinned_schedule_def present_def)

theorem run_once_accounts_witness:
  "\<exists>res st. run_once utc_ports (knowledge_scheduler id) (single_store sample_knowledge) (Num 30000) (iso_string 0)
     (Num 25) 0 = (Inr res, st) \<and> length (rn_occurrences st) = 1 \<and> rr_leased res = rr_enqueued res + rr_duplicate res"
  using sample_knowledge_run run_once_accounts [where zone = utc_zone and digest = "\<lambda>s. 0" and
      sk = "knowledge_scheduler id" and store = "single_store sample_knowledge" and leaseMs = "Num 30000" and
      now = "iso_string 0" and limit = "Num 25" and s = 0]
  unfolding utc_ports_def by fastforce

section \<open>Pinned analyses\<close>

text \<open>The command of an occurrence carries the pins of its schedule.\<close>

definition pins_kept :: "(string \<Rightarrow> string) \<Rightarrow> (analysis_schedule, analysis_command) occurrence \<Rightarrow> bool" where
  "pins_kept sha256 oc \<longleftrightarrow>
     (let s = oc_schedule oc; cmd = oc_command oc in
      as_analysisTriggerVersionId s = Some (ak_triggerVersionId cmd) \<and> ak_triggerVersionId cmd \<noteq> [] \<and>
      as_connectorRegistrationId s = Some (ak_connectorRegistrationId cmd) \<and> ak_connectorRegistrationId cmd \<noteq> [] \<and>
      as_connectorConfigurationVersionId s = Some (ak_connectorConfigurationVersionId cmd) \<and>
      ak_connectorConfigurationVersionId cmd \<noteq> [] \<and>
      (case as_target s of
         None \<Rightarrow> False
       | Some t \<Rightarrow> ak_target cmd = Some t \<and>
           ct_connectorInstanceId t \<noteq> [] \<and> ct_resourceType t \<noteq> [] \<and> ct_externalId t \<noteq> []) \<and>
      present (as_automatedPrincipalId s) \<and>
      ak_workspaceId cmd = as_workspaceId s \<and> ak_triggerId cmd = as_triggerId s \<and>
      ak_occurrenceKey cmd = sha256 (analysis_payload s))"

lemma text_of_present: "present v \<Longrightarrow> v = Some (text_of v) \<and> text_of v \<noteq> []"
  by (cases v) (simp_all add: present_def text_of_def)

lemma pinned_occurrence:
  assumes "occurrence_ok tp (analysis_scheduler sha256) now oc"
  shows "pins_kept sha256 oc"
proof -
  let ?s = "oc_schedule oc"
  have p: "is_pinned_schedule ?s"
    and c: "oc_command oc = analysis_command_for ?s (sha256 (analysis_payload ?s))"
    using assms by (simp_all add: occurrence_ok_def analysis_scheduler_def Let_def)
  have v: "present (as_analysisTriggerVersionId ?s)" "present (as_connectorRegistrationId ?s)"
      "present (as_connectorConfigurationVersionId ?s)" "present (as_automatedPrincipalId ?s)"
    using p by (simp_all add: is_pinned_schedule_def)
  obtain t where t: "as_target ?s = Some t" "ct_connectorInstanceId t \<noteq> []" "ct_resourceType t \<noteq> []"
      "ct_externalId t \<noteq> []"
    using p by (cases "as_target ?s") (simp_all add: is_pinned_schedule_def)
  show ?thesis
    unfolding pins_kept_def c
    using text_of_present [OF v(1)] text_of_present [OF v(2)] text_of_present [OF v(3)] v(4) t
    by (simp add: Let_def analysis_command_for_def)
qed

text \<open>
  C29: an analysis is scheduled only with its pins.  Whatever the outcome of a run of the analysis
  scheduler, each command handed to the store carries the trigger version, the connector registration,
  the connector configuration version and the target that the schedule itself pins, none of them empty, under
  the workspace and trigger of the schedule.  A run succeeds only if every due schedule has all its pins.
\<close>

theorem analysis_commands_are_pinned:
  assumes "run_once tp (analysis_scheduler sha256) store leaseMs now limit s = (r, st)"
  shows "list_all (pins_kept sha256) (rn_occurrences st) \<and>
    (is_ok r \<longrightarrow> (\<exists>due. ss_findDue store s now (int_of limit) = Inr due \<and>
       list_all (\<lambda>sched. is_due (tp_date tp) (sk_timed (analysis_scheduler sha256) sched) now = Inr True \<longrightarrow>
         is_pinned_schedule sched) due))"
proof (intro conjI impI)
  note steps = run_once_steps [OF assms]
  show "list_all (pins_kept sha256) (rn_occurrences st)"
    using conjunct1 [OF steps] pinned_occurrence unfolding list_all_iff by blast
  have allowed: "sk_allowed (analysis_scheduler sha256) = is_pinned_schedule" by (simp add: analysis_scheduler_def)
  assume "is_ok r"
  then obtain res where "r = Inr res" by (auto simp: is_ok_iff)
  then show "\<exists>due. ss_findDue store s now (int_of limit) = Inr due \<and>
       list_all (\<lambda>sched. is_due (tp_date tp) (sk_timed (analysis_scheduler sha256) sched) now = Inr True \<longrightarrow>
         is_pinned_schedule sched) due"
    using steps unfolding list_all_iff allowed by auto
qed

theorem analysis_commands_are_pinned_witness:
  "\<exists>st oc. run_once utc_ports (analysis_scheduler id) (single_store sample_analysis) (Num 30000) (iso_string 0) (Num 25) 0 =
     (Inr \<lparr>rr_due = 1, rr_leased = 1, rr_enqueued = 1, rr_duplicate = 0\<rparr>, st) \<and> oc \<in> set (rn_occurrences st) \<and>
     ak_triggerVersionId (oc_command oc) = ''tv''"
proof -
  obtain st oc where run: "run_once utc_ports (analysis_scheduler id) (single_store sample_analysis) (Num 30000)
      (iso_string 0) (Num 25) 0 = (Inr \<lparr>rr_due = 1, rr_leased = 1, rr_enqueued = 1, rr_duplicate = 0\<rparr>, st)"
    "rn_occurrences st = [oc]" "oc_schedule oc = sample_analysis"
    using sample_analysis_run by blast
  have "ak_triggerVersionId (oc_command oc) = ''tv''"
  proof -
    have "as_analysisTriggerVersionId sample_analysis = Some (ak_triggerVersionId (oc_command oc))"
      using conjunct1 [OF analysis_commands_are_pinned [OF run(1)]]
      unfolding run(2) list.pred_inject pins_kept_def Let_def run(3) by blast
    then show ?thesis by (simp add: sample_analysis_def)
  qed
  then show ?thesis using run by auto
qed

section \<open>Occurrence keys\<close>

lemma split_at_colon:
  "\<lbrakk>c \<notin> set a; c \<notin> set b\<rbrakk> \<Longrightarrow> a @ c # r = b @ c # r' \<longleftrightarrow> a = b \<and> r = r'"
proof (induction a arbitrary: b)
  case Nil
  then show ?case by (cases b) auto
next
  case (Cons x a)
  then show ?case by (cases b) auto
qed

definition colon_free :: "string \<Rightarrow> bool" where
  "colon_free s \<longleftrightarrow> CHR '':'' \<notin> set s"

lemma join_Cons_Cons: "join sep (x # y # ys) = x @ sep @ join sep (y # ys)"
  by simp

lemma join_colon_cancel:
  "\<lbrakk>colon_free a; colon_free b\<rbrakk> \<Longrightarrow>
   join '':'' (a # x # xs) = join '':'' (b # y # ys) \<longleftrightarrow> a = b \<and> join '':'' (x # xs) = join '':'' (y # ys)"
  by (simp add: join_Cons_Cons colon_free_def split_at_colon)


text \<open>What makes a knowledge, an analysis or a discovery occurrence the same one.\<close>

definition knowledge_parts :: "knowledge_schedule \<Rightarrow> string list" where
  "knowledge_parts s = [ks_workspaceId s, ks_id s, ks_sourceConfigurationVersionId s, ks_connectorConfigurationVersionId s]"

definition analysis_parts :: "analysis_schedule \<Rightarrow> string list" where
  "analysis_parts s = [as_workspaceId s, as_id s, as_triggerId s, or_legacy (as_analysisTriggerVersionId s),
     or_legacy (map_option ct_connectorInstanceId (as_target s)),
     or_legacy (map_option ct_resourceType (as_target s)), or_legacy (map_option ct_externalId (as_target s))]"

definition discovery_parts :: "discovery_schedule \<Rightarrow> string list" where
  "discovery_parts s = [ds_workspaceId s, ds_id s, ds_configurationVersionId s, ds_triggerId s, ds_triggerVersionId s,
     ds_connectorRegistrationId s, ds_connectorConfigurationVersionId s]"

lemma list_all_colon_free_Cons: "list_all colon_free (x # xs) \<longleftrightarrow> colon_free x \<and> list_all colon_free xs"
  by simp

text \<open>
  an occurrence key identifies the schedule and the run.  If two schedules of one kind have the same
  occurrence payload (which is hashed into the key that makes enqueuing idempotent) and their
  identifiers contain no colon, they agree in every identifier of the payload and in the time of the run; for
  a knowledge schedule also in its kind.  The last field, the time, may contain colons.  Colons in an
  identifier can make two schedules collide: the identifiers are not escaped.
\<close>

theorem occurrence_payloads_distinct:
  "(list_all colon_free (knowledge_parts k @ knowledge_parts k') \<longrightarrow>
      (knowledge_payload k = knowledge_payload k' \<longleftrightarrow>
       knowledge_parts k = knowledge_parts k' \<and> ks_kind k = ks_kind k' \<and> ks_nextRunAt k = ks_nextRunAt k')) \<and>
   (list_all colon_free (analysis_parts a @ analysis_parts a') \<longrightarrow>
      (analysis_payload a = analysis_payload a' \<longleftrightarrow>
       analysis_parts a = analysis_parts a' \<and> as_nextRunAt a = as_nextRunAt a')) \<and>
   (list_all colon_free (discovery_parts d @ discovery_parts d') \<longrightarrow>
      (discovery_payload d = discovery_payload d' \<longleftrightarrow>
       discovery_parts d = discovery_parts d' \<and> ds_nextRunAt d = ds_nextRunAt d')) \<and>
   (\<exists>d d'. discovery_parts d \<noteq> discovery_parts d' \<and> discovery_payload d = discovery_payload d')"
proof (intro conjI impI)
  have kind: "colon_free (case x of Synchronize \<Rightarrow> ''synchronize'' | FullRescan \<Rightarrow> ''fullRescan'')"
      "(case x of Synchronize \<Rightarrow> ''synchronize'' | FullRescan \<Rightarrow> ''fullRescan'') =
       (case y of Synchronize \<Rightarrow> ''synchronize'' | FullRescan \<Rightarrow> ''fullRescan'') \<longleftrightarrow> x = y" for x y
    by (cases x; cases y; simp add: colon_free_def)+
  have prefix: "colon_free ''knowledge-schedule.v2''" "colon_free ''case-analysis-schedule.v2''"
      "colon_free ''case-discovery-schedule.v1''"
    by (simp_all add: colon_free_def)
  show "knowledge_payload k = knowledge_payload k' \<longleftrightarrow>
       knowledge_parts k = knowledge_parts k' \<and> ks_kind k = ks_kind k' \<and> ks_nextRunAt k = ks_nextRunAt k'"
    if "list_all colon_free (knowledge_parts k @ knowledge_parts k')"
    using that by (simp add: knowledge_payload_def knowledge_parts_def join_colon_cancel prefix kind
        del: join.simps(3))
  show "analysis_payload a = analysis_payload a' \<longleftrightarrow> analysis_parts a = analysis_parts a' \<and> as_nextRunAt a = as_nextRunAt a'"
    if "list_all colon_free (analysis_parts a @ analysis_parts a')"
    using that by (simp add: analysis_payload_def analysis_parts_def join_colon_cancel prefix del: join.simps(3))
  show "discovery_payload d = discovery_payload d' \<longleftrightarrow> discovery_parts d = discovery_parts d' \<and> ds_nextRunAt d = ds_nextRunAt d'"
    if "list_all colon_free (discovery_parts d @ discovery_parts d')"
    using that by (simp add: discovery_payload_def discovery_parts_def join_colon_cancel prefix del: join.simps(3))
  let ?d = "\<lambda>w i. \<lparr>ds_id = i, ds_workspaceId = w, ds_configurationVersionId = ''c'', ds_triggerId = ''t'',
    ds_triggerVersionId = ''v'', ds_automatedPrincipalId = ''p'', ds_connectorRegistrationId = ''r'',
    ds_connectorConfigurationVersionId = ''k'', ds_cadence = IntervalCadence (Num 1) None, ds_enabled = True,
    ds_nextRunAt = ''n''\<rparr>"
  show "\<exists>d d'. discovery_parts d \<noteq> discovery_parts d' \<and> discovery_payload d = discovery_payload d'"
    by (rule exI [of _ "?d ''a:b'' ''c''"], rule exI [of _ "?d ''a'' ''b:c''"])
      (simp add: discovery_parts_def discovery_payload_def)
qed

theorem occurrence_payloads_distinct_witness:
  "discovery_payload \<lparr>ds_id = ''i'', ds_workspaceId = ''w'', ds_configurationVersionId = ''c'', ds_triggerId = ''t'',
    ds_triggerVersionId = ''v'', ds_automatedPrincipalId = ''p'', ds_connectorRegistrationId = ''r'',
    ds_connectorConfigurationVersionId = ''k'', ds_cadence = IntervalCadence (Num 1) None, ds_enabled = True,
    ds_nextRunAt = ''n:1''\<rparr> \<noteq>
   discovery_payload \<lparr>ds_id = ''j'', ds_workspaceId = ''w'', ds_configurationVersionId = ''c'', ds_triggerId = ''t'',
    ds_triggerVersionId = ''v'', ds_automatedPrincipalId = ''p'', ds_connectorRegistrationId = ''r'',
    ds_connectorConfigurationVersionId = ''k'', ds_cadence = IntervalCadence (Num 1) None, ds_enabled = True,
    ds_nextRunAt = ''n:1''\<rparr>" (is "discovery_payload ?d \<noteq> discovery_payload ?d'")
proof -
  have "list_all colon_free (discovery_parts ?d @ discovery_parts ?d')" "discovery_parts ?d \<noteq> discovery_parts ?d'"
    by (simp_all add: discovery_parts_def colon_free_def)
  then show ?thesis using occurrence_payloads_distinct [of undefined undefined undefined undefined ?d ?d'] by blast
qed

end
