(* ===== verification/Metering.thy ===== *)
theory Metering
  imports Bindings Instants
begin

text \<open>
  The requests of the metered execution gateway and the accounting of repository agents, the
  functions at the top of \<open>packages/ai-execution/src/gateway.ts\<close>.
\<close>

section \<open>Requests\<close>

record agent_limits =
  al_maximumTurns :: jsnum
  al_maximumInputTokensPerTurn :: jsnum
  al_maximumOutputTokensPerTurn :: jsnum

text \<open>The request of each kind; \<open>'p\<close> is the rest of its content, which only the provider reads.\<close>

datatype 'p metered_kind =
    EmbeddingRequest 'p
  | VisionRequest 'p "string list"
  | GenerationRequest 'p
  | RerankerRequest 'p
  | RepositoryAgentRequest 'p agent_limits
  | RepositoryChangeRequest 'p agent_limits

fun kind_of :: "'p metered_kind \<Rightarrow> ai_operation_kind" where
  "kind_of (EmbeddingRequest p) = OpEmbedding"
| "kind_of (VisionRequest p images) = OpVision"
| "kind_of (GenerationRequest p) = OpGeneration"
| "kind_of (RerankerRequest p) = OpReranker"
| "kind_of (RepositoryAgentRequest p l) = OpRepositoryAgent"
| "kind_of (RepositoryChangeRequest p l) = OpRepositoryChange"

record op_attribution =
  oa_analysisJobId :: "string option"
  oa_connectorInstanceId :: "string option"
  oa_sourceId :: "string option"

record request_price_context =
  qc_providerRegion :: "string option"
  qc_serviceTier :: "string option"
  qc_batchMode :: "bool option"
  qc_contextTier :: "string option"
  qc_mediaType :: "string option"

record budget_request =
  bq_currency :: string
  bq_hard :: bool
  bq_allowUnknownPricing :: "bool option"
  bq_requireBudgetPolicy :: "bool option"

record 'p metered_request =
  mr_kind :: "'p metered_kind"
  mr_role :: ai_role
  mr_bindingVersionId :: "string option"
  mr_analysisId :: "string option"
  mr_attribution :: "op_attribution option"
  mr_requiredCapabilities :: "ai_capability list option"
  mr_maximumInputTokens :: "jsnum option"
  mr_maximumOutputTokens :: "jsnum option"
  mr_timeoutMs :: "jsnum option"
  mr_priceContext :: "request_price_context option"
  mr_budget :: budget_request

fun expected_role :: "ai_operation_kind \<Rightarrow> ai_role \<Rightarrow> bool" where
  "expected_role OpEmbedding r \<longleftrightarrow> r = RoleEmbedding"
| "expected_role OpVision r \<longleftrightarrow> r = RoleVision"
| "expected_role OpGeneration r \<longleftrightarrow> r = RoleAnalysis \<or> r = RoleChat \<or> r = RoleKeywordExtraction"
| "expected_role OpReranker r \<longleftrightarrow> r = RoleReranker"
| "expected_role OpRepositoryAgent r \<longleftrightarrow> r = RoleRepositoryAgent"
| "expected_role OpRepositoryAgentTurn r \<longleftrightarrow> r = RoleRepositoryAgent"
| "expected_role OpRepositoryChange r \<longleftrightarrow> r = RoleRepositoryAgent"
| "expected_role OpRepositoryChangeTurn r \<longleftrightarrow> r = RoleRepositoryAgent"

definition kinds_for :: "'p metered_kind \<Rightarrow> component_kind list" where
  "kinds_for k =
     (if kind_of k = OpEmbedding \<or> kind_of k = OpReranker then [KInput] else [KInput, KOutput]) @
     (if kind_of k = OpVision then [KImage] else [])"

definition requested_capabilities :: "'p metered_request \<Rightarrow> ai_capability list" where
  "requested_capabilities r =
     (let required = (case mr_requiredCapabilities r of None \<Rightarrow> [] | Some cs \<Rightarrow> cs);
          kind = kind_of (mr_kind r)
      in if kind = OpVision then required @ [CapVision]
         else if kind = OpRepositoryAgent \<or> kind = OpRepositoryChange then required @ [CapRepositoryAgent]
         else required)"

definition zero_if_absent :: "jsnum option \<Rightarrow> jsnum" where
  "zero_if_absent v = (case v of None \<Rightarrow> Num 0 | Some n \<Rightarrow> n)"

definition actual_usage :: "normalized_usage \<Rightarrow> usage_units" where
  "actual_usage u =
     \<lparr>uu_input = Some (zero_if_absent (nu_inputTokens u)), uu_output = Some (zero_if_absent (nu_outputTokens u)),
      uu_cacheRead = Some (zero_if_absent (nu_cacheReadInputTokens u)),
      uu_cacheCreation = Some (zero_if_absent (nu_cacheCreationInputTokens u)),
      uu_image = Some (zero_if_absent (nu_imageUnits u)), uu_audio = Some (zero_if_absent (nu_audioUnits u))\<rparr>"

section \<open>Repository agents\<close>

record token_bounds =
  tb_maximumTurns :: int
  tb_maximumInputTokensPerTurn :: int
  tb_maximumOutputTokensPerTurn :: int
  tb_maximumInputTokens :: int
  tb_maximumOutputTokens :: int

definition is_positive_integer :: "jsnum \<Rightarrow> bool" where
  "is_positive_integer n \<longleftrightarrow> is_safe_integer n \<and> 0 < int_of n"

definition repository_agent_token_bounds :: "agent_limits \<Rightarrow> bool \<Rightarrow> (ai_error, token_bounds) result" where
  "repository_agent_token_bounds l hard =
     (if \<not> is_positive_integer (al_maximumTurns l) \<or> \<not> is_positive_integer (al_maximumInputTokensPerTurn l) \<or>
         \<not> is_positive_integer (al_maximumOutputTokensPerTurn l)
      then Inl (if hard then HardBudgetError ''A hard-budget repository agent requires safe per-turn token limits.''
                else ConfigurationError ''Repository agents require safe per-turn token limits.'')
      else let turns = int_of (al_maximumTurns l);
               input = turns * int_of (al_maximumInputTokensPerTurn l);
               output = turns * int_of (al_maximumOutputTokensPerTurn l)
           in if \<not> safe_int input \<or> \<not> safe_int output
              then Inl (if hard
                then HardBudgetError ''A hard-budget repository agent requires safe aggregate token limits.''
                else ConfigurationError ''Repository-agent aggregate token limits exceed the safe integer range.'')
              else Inr \<lparr>tb_maximumTurns = turns,
                        tb_maximumInputTokensPerTurn = int_of (al_maximumInputTokensPerTurn l),
                        tb_maximumOutputTokensPerTurn = int_of (al_maximumOutputTokensPerTurn l),
                        tb_maximumInputTokens = input, tb_maximumOutputTokens = output\<rparr>)"

definition require_bounds :: "token_bounds option \<Rightarrow> (ai_error, token_bounds) result" where
  "require_bounds b =
     (case b of None \<Rightarrow> Inl (ConfigurationError ''Repository-agent token bounds were not initialized.'')
      | Some tb \<Rightarrow> Inr tb)"

definition agent_error :: "string \<Rightarrow> ai_error" where
  "agent_error m = ProviderError False m"

text \<open>The fields in the order of \<open>usageFields\<close>.\<close>

definition usage_values :: "normalized_usage \<Rightarrow> jsnum option list" where
  "usage_values u = [nu_inputTokens u, nu_outputTokens u, nu_cacheReadInputTokens u,
     nu_cacheCreationInputTokens u, nu_reasoningTokens u, nu_imageUnits u, nu_audioUnits u]"

definition valid_usage_value :: "jsnum option \<Rightarrow> bool" where
  "valid_usage_value v = (case v of None \<Rightarrow> True | Some n \<Rightarrow> is_safe_integer n \<and> \<not> int_of n < 0)"

definition assert_valid_usage :: "normalized_usage \<Rightarrow> (ai_error, unit) result" where
  "assert_valid_usage u =
     rall (\<lambda>v. rassert (valid_usage_value v) (agent_error ''Repository agent returned invalid usage.'')) (usage_values u)"

record agent_turn =
  tn_turn :: jsnum
  tn_usage :: normalized_usage
  tn_metadata :: "provider_response_metadata option"

text \<open>The running totals, one per usage field, and one turn added to them.\<close>

fun add_fields :: "int list \<Rightarrow> jsnum option list \<Rightarrow> (ai_error, int list) result" where
  "add_fields (t # ts) (v # vs) =
     (let s = t + int_of (zero_if_absent v) in
      if \<not> safe_int s then Inl (agent_error ''Repository agent usage exceeds the safe integer range.'')
      else rbind (add_fields ts vs) (\<lambda>r. Inr (s # r)))"
| "add_fields ts vs = Inr []"

definition add_turn :: "int list \<Rightarrow> agent_turn \<Rightarrow> (ai_error, int list) result" where
  "add_turn totals turn =
     rbind (assert_valid_usage (tn_usage turn)) (\<lambda>_. add_fields totals (usage_values (tn_usage turn)))"

definition usage_of_totals :: "int list \<Rightarrow> normalized_usage" where
  "usage_of_totals ts =
     \<lparr>nu_inputTokens = Some (Num (ts ! 0)), nu_outputTokens = Some (Num (ts ! 1)),
      nu_cacheReadInputTokens = Some (Num (ts ! 2)), nu_cacheCreationInputTokens = Some (Num (ts ! 3)),
      nu_reasoningTokens = Some (Num (ts ! 4)), nu_imageUnits = Some (Num (ts ! 5)),
      nu_audioUnits = Some (Num (ts ! 6))\<rparr>"

definition sum_repository_agent_usage :: "agent_turn list \<Rightarrow> (ai_error, normalized_usage) result" where
  "sum_repository_agent_usage turns =
     rbind (rfold add_turn [0, 0, 0, 0, 0, 0, 0] turns) (\<lambda>ts. Inr (usage_of_totals ts))"

definition same_usage :: "normalized_usage \<Rightarrow> normalized_usage \<Rightarrow> bool" where
  "same_usage l r \<longleftrightarrow>
     list_all2 (\<lambda>a b. zero_if_absent a = zero_if_absent b) (usage_values l) (usage_values r)"

definition assert_usage_within_bounds :: "normalized_usage \<Rightarrow> token_bounds \<Rightarrow> (ai_error, unit) result" where
  "assert_usage_within_bounds u b =
     rbind (assert_valid_usage u) (\<lambda>_.
       let val = (\<lambda>v. int_of (zero_if_absent v)) in
       rassert (\<not> (val (nu_inputTokens u) > tb_maximumInputTokens b \<or>
                   val (nu_outputTokens u) > tb_maximumOutputTokens b \<or>
                   val (nu_cacheReadInputTokens u) > tb_maximumInputTokens b \<or>
                   val (nu_cacheCreationInputTokens u) > tb_maximumInputTokens b \<or>
                   val (nu_reasoningTokens u) > tb_maximumOutputTokens b))
         (agent_error ''Repository agent exceeded its reserved aggregate token limit.''))"

text \<open>
  What the gateway finds when it inspects \<open>value.metering\<close> of an agent result at run time: no such
  object, \<open>null\<close> (which passes the \<open>typeof\<close> test, so that reading its mode raises a \<open>TypeError\<close>), one
  of the two modes (with a turn list that may not be an array), or something else.  An element of
  the turn list that is not an object with an object \<open>usage\<close> is \<open>InvalidTurn\<close>.
\<close>

datatype turn_candidate = InvalidTurn | Turn agent_turn

datatype metering_value =
    MeteringMissing | MeteringNull | MeteringAggregate
  | MeteringTurns "turn_candidate list option" | MeteringOther

record 'v provider_result =
  pv_value :: 'v
  pv_metering :: "metering_value option"
  pv_usage :: "normalized_usage option"
  pv_providerCost :: "provider_reported_cost option"
  pv_metadata :: provider_response_metadata

datatype metering_mode = ModeAggregate | ModeObservableTurns

record agent_accounting =
  ac_metering :: metering_mode
  ac_usage :: "normalized_usage option"
  ac_turns :: "agent_turn list"

fun check_turns :: "int \<Rightarrow> jsnum list \<Rightarrow> turn_candidate list \<Rightarrow> (ai_error, agent_turn list) result" where
  "check_turns maximum seen [] = Inr []"
| "check_turns maximum seen (InvalidTurn # cs) = Inl (agent_error ''Repository agent turn metadata is invalid.'')"
| "check_turns maximum seen (Turn t # cs) =
     (if \<not> is_safe_integer (tn_turn t) \<or> int_of (tn_turn t) < 1 \<or> int_of (tn_turn t) > maximum \<or>
         tn_turn t \<in> set seen
      then Inl (agent_error ''Repository agent turn metadata is invalid.'')
      else rbind (check_turns maximum (tn_turn t # seen) cs) (\<lambda>ts. Inr (t # ts)))"

definition repository_agent_accounting ::
  "'v provider_result \<Rightarrow> token_bounds \<Rightarrow> (ai_error, agent_accounting) result" where
  "repository_agent_accounting r b =
     (case pv_metering r of
        None \<Rightarrow> Inl (agent_error ''Repository agent returned an invalid result.'')
      | Some MeteringMissing \<Rightarrow> Inl (agent_error ''Repository agent omitted metering metadata.'')
      | Some MeteringNull \<Rightarrow> Inl (UnexpectedError ''TypeError'')
      | Some MeteringAggregate \<Rightarrow>
          rbind (case pv_usage r of None \<Rightarrow> Inr () | Some u \<Rightarrow> assert_usage_within_bounds u b) (\<lambda>_.
            Inr \<lparr>ac_metering = ModeAggregate, ac_usage = pv_usage r, ac_turns = []\<rparr>)
      | Some MeteringOther \<Rightarrow> Inl (agent_error ''Repository agent metering is invalid.'')
      | Some (MeteringTurns None) \<Rightarrow> Inl (agent_error ''Repository agent metering is invalid.'')
      | Some (MeteringTurns (Some cs)) \<Rightarrow>
          if length cs = 0 \<or> int (length cs) > tb_maximumTurns b
          then Inl (agent_error ''Repository agent reported an invalid number of observable turns.'')
          else rbind (check_turns (tb_maximumTurns b) [] cs) (\<lambda>turns.
            rbind (sum_repository_agent_usage turns) (\<lambda>usage.
            rbind (assert_usage_within_bounds usage b) (\<lambda>_.
              if (case pv_usage r of None \<Rightarrow> False | Some u \<Rightarrow> \<not> same_usage u usage)
              then Inl (agent_error ''Repository agent aggregate usage disagrees with its observable turns.'')
              else Inr \<lparr>ac_metering = ModeObservableTurns, ac_usage = Some usage, ac_turns = turns\<rparr>))))"

fun mode_name :: "metering_mode \<Rightarrow> string" where
  "mode_name ModeAggregate = ''aggregate''"
| "mode_name ModeObservableTurns = ''observableTurns''"

definition redacted :: "provider_response_metadata \<Rightarrow> json_record" where
  "redacted m = (case pm_rawRedacted m of None \<Rightarrow> [] | Some r \<Rightarrow> r)"

definition repository_agent_metadata ::
  "provider_response_metadata \<Rightarrow> agent_accounting option \<Rightarrow> provider_response_metadata" where
  "repository_agent_metadata m accounting =
     (case accounting of
        None \<Rightarrow> m
      | Some a \<Rightarrow>
          let n = length (ac_turns a) in
          m\<lparr>pm_rawRedacted := Some (assoc_set ''observableTurnCount'' (JNumber (Num (int n)) (Some (show_nat n)))
              (assoc_set ''repositoryAgentMetering'' (JText (mode_name (ac_metering a))) (redacted m)))\<rparr>)"

definition repository_agent_turn_metadata ::
  "provider_response_metadata option \<Rightarrow> jsnum \<Rightarrow> provider_response_metadata" where
  "repository_agent_turn_metadata m turn =
     (let base = (case m of
                    Some md \<Rightarrow> md
                  | None \<Rightarrow> \<lparr>pm_providerRequestId = None, pm_effectiveModel = None, pm_latencyMs = None,
                             pm_retryCount = 0, pm_rawRedacted = None\<rparr>)
      in base\<lparr>pm_rawRedacted := Some (assoc_set ''repositoryAgentTurn''
           (JNumber turn (Some (show_int (int_of turn)))) (redacted base))\<rparr>)"

end
