(* ===== verification/Gateway.thy ===== *)
theory Gateway
  imports Metering
begin

text \<open>
  The metered execution gateway, \<open>DefaultAiExecutionGateway\<close> of
  \<open>packages/ai-execution/src/gateway.ts\<close> with \<open>ports.ts\<close>.  Everything the gateway calls is an argument
  (\<open>gateway_ports\<close>): binding resolver, budget policy, secret resolver, provider dispatcher, the reading
  of a date text, and for the \<open>n\<close>-th call the clock, the id generator and the outcome of a
  transaction.  What the abort signal and the deadline timer show is asked at the two points where
  the code looks.  An execution returns its result and the events it caused, in order; the writes of
  a transaction become visible together, or not at all if it is rolled back.
\<close>

section \<open>Ledger and budget writes\<close>

datatype ai_operation_status =
    OpStarted | OpSucceeded | OpFailed | OpTimedOut | OpCancelled | OpSucceededUsageUnknown

record operation_start =
  os_operationId :: string
  os_parentOperationId :: "string option"
  os_workspaceId :: string
  os_role :: ai_role
  os_operationKind :: ai_operation_kind
  os_bindingVersionId :: string
  os_providerInstanceVersionId :: string
  os_catalogSnapshotId :: string
  os_configuredModel :: string
  os_attribution :: "op_attribution option"
  os_startedAt :: string
  os_pricing :: price_resolution
  os_reservation :: cost_calculation

record operation_finalization =
  of_operationId :: string
  of_workspaceId :: string
  of_status :: ai_operation_status
  of_finishedAt :: string
  of_usage :: "normalized_usage option"
  of_metadata :: "provider_response_metadata option"
  of_calculatedCost :: cost_calculation
  of_providerCost :: "provider_reported_cost option"
  of_error :: "(string \<times> bool) option"

record reservation_scope =
  sc_operationId :: string
  sc_analysisId :: "string option"
  sc_day :: string

record budget_reservation =
  br_operationId :: string
  br_workspaceId :: string
  br_scope :: reservation_scope
  br_currency :: string
  br_estimatedAmount :: "decimal_string option"
  br_calculationStatus :: resolution_status
  br_hard :: bool
  br_unknownPriceBypass :: bool
  br_occurredAt :: string

datatype reconciliation_status = Reconciled | Released | RetainedUncertain | ProviderOverage

record reconciliation_outcome =
  ro_status :: reconciliation_status
  ro_currency :: string
  ro_actualAmount :: "decimal_string option"
  ro_providerCost :: "provider_reported_cost option"

record budget_reconciliation =
  bk_operationId :: string
  bk_workspaceId :: string
  bk_actualAmount :: "decimal_string option"
  bk_currency :: string
  bk_status :: reconciliation_status
  bk_providerCost :: "provider_reported_cost option"
  bk_occurredAt :: string

datatype ledger_write =
    LedgerStart operation_start
  | LedgerFinalize operation_finalization
  | BudgetReserve budget_reservation
  | BudgetReconcile budget_reconciliation

section \<open>Ports and state\<close>

record policy_query =
  pq_workspaceId :: string
  pq_currency :: string
  pq_analysisId :: "string option"
  pq_occurredAt :: string

datatype dispatch_method =
    Embed | AnalyzeVision | Generate | Rerank | RunRepositoryAgent | RunRepositoryChange

text \<open>The two places where the code looks at the signal and the deadline.\<close>

datatype signal_point = AfterSecret | WhenCaught

record ('p, 'v) gateway_ports =
  gp_resolve :: "resolution_request \<Rightarrow> (ai_error, immutable_binding) result"
  gp_policy :: "(policy_query \<Rightarrow> (ai_error, bool) result) option"
  gp_secret :: "string \<Rightarrow> (ai_error, string) result"
  gp_dispatch :: "dispatch_method \<Rightarrow> immutable_binding \<Rightarrow> string \<Rightarrow> 'p metered_kind \<Rightarrow>
    (ai_error, 'v provider_result) result"
  gp_date :: "string \<Rightarrow> int option"
  gp_clock :: "nat \<Rightarrow> string"
  gp_id :: "nat \<Rightarrow> string"
  gp_commit :: "nat \<Rightarrow> ledger_write list \<Rightarrow> ai_error option"
  gp_deadline :: "signal_point \<Rightarrow> bool"
  gp_aborted :: "signal_point \<Rightarrow> bool"

datatype gateway_event =
    Committed "ledger_write list"
  | RolledBack "ledger_write list"
  | SecretRequested string
  | Dispatched dispatch_method

record gateway_state =
  gs_events :: "gateway_event list"
  gs_clock :: nat
  gs_ids :: nat
  gs_transactions :: nat

definition initial_state :: gateway_state where
  "initial_state = \<lparr>gs_events = [], gs_clock = 0, gs_ids = 0, gs_transactions = 0\<rparr>"

definition emit :: "gateway_event \<Rightarrow> gateway_state \<Rightarrow> gateway_state" where
  "emit e st = st\<lparr>gs_events := gs_events st @ [e]\<rparr>"

text \<open>\<open>unitOfWork.transaction\<close>: the outcome of the \<open>n\<close>-th transaction, given what it writes.\<close>

definition run_transaction ::
  "('p, 'v) gateway_ports \<Rightarrow> ledger_write list \<Rightarrow> gateway_state \<Rightarrow> (ai_error, unit) result \<times> gateway_state" where
  "run_transaction p writes st =
     (let st' = st\<lparr>gs_transactions := gs_transactions st + 1\<rparr> in
      (case gp_commit p (gs_transactions st) writes of
         None \<Rightarrow> (Inr (), emit (Committed writes) st')
       | Some e \<Rightarrow> (Inl e, emit (RolledBack writes) st')))"

section \<open>The plan\<close>

record execution_plan =
  ep_binding :: immutable_binding
  ep_repositoryBounds :: "token_bounds option"
  ep_startedAt :: string
  ep_maximumInputTokens :: jsnum
  ep_maximumOutputTokens :: jsnum
  ep_pricing :: price_resolution
  ep_conservativeCost :: cost_calculation

definition is_agent_kind :: "ai_operation_kind \<Rightarrow> bool" where
  "is_agent_kind k \<longleftrightarrow> k = OpRepositoryAgent \<or> k = OpRepositoryChange"

fun plan_bounds :: "'p metered_kind \<Rightarrow> bool \<Rightarrow> (ai_error, token_bounds option) result" where
  "plan_bounds (RepositoryAgentRequest p l) hard = rbind (repository_agent_token_bounds l hard) (\<lambda>b. Inr (Some b))"
| "plan_bounds (RepositoryChangeRequest p l) hard = rbind (repository_agent_token_bounds l hard) (\<lambda>b. Inr (Some b))"
| "plan_bounds _ hard = Inr None"

text \<open>\<open>a ?? b\<close>\<close>

definition or_else :: "'a option \<Rightarrow> 'a option \<Rightarrow> 'a option" where
  "or_else a b = (case a of None \<Rightarrow> b | Some x \<Rightarrow> Some x)"

definition plan_input_limit :: "token_bounds option \<Rightarrow> 'p metered_request \<Rightarrow> immutable_binding \<Rightarrow> jsnum option" where
  "plan_input_limit bounds req b =
     or_else (map_option (\<lambda>tb. Num (tb_maximumInputTokens tb)) bounds)
       (or_else (mr_maximumInputTokens req) (ib_maximumInputTokens b))"

definition plan_output_limit :: "token_bounds option \<Rightarrow> 'p metered_request \<Rightarrow> immutable_binding \<Rightarrow> jsnum option" where
  "plan_output_limit bounds req b =
     (let kind = kind_of (mr_kind req) in
      if is_agent_kind kind then map_option (\<lambda>tb. Num (tb_maximumOutputTokens tb)) bounds
      else if kind = OpEmbedding \<or> kind = OpReranker then Some (Num 0)
      else or_else (mr_maximumOutputTokens req) (ib_maximumOutputTokens b))"

fun image_units :: "'p metered_kind \<Rightarrow> int" where
  "image_units (VisionRequest p images) = int (length images)"
| "image_units _ = 0"

definition plan_price_context :: "'p metered_request \<Rightarrow> string \<Rightarrow> jsnum \<Rightarrow> resolution_context" where
  "plan_price_context req startedAt input =
     (let get = (\<lambda>f. case mr_priceContext req of None \<Rightarrow> None | Some c \<Rightarrow> f c);
          batch = (case mr_priceContext req of None \<Rightarrow> None | Some c \<Rightarrow> qc_batchMode c)
      in \<lparr>rc_at = startedAt, rc_currency = bq_currency (mr_budget req),
          rc_providerRegion = get qc_providerRegion, rc_serviceTier = get qc_serviceTier,
          rc_batchMode = batch, rc_contextTier = get qc_contextTier,
          rc_mediaType = get qc_mediaType, rc_inputTokenCount = Some input\<rparr>)"

definition plan_reservation_bounds ::
  "'p metered_request \<Rightarrow> immutable_binding \<Rightarrow> jsnum \<Rightarrow> jsnum \<Rightarrow> reservation_bounds" where
  "plan_reservation_bounds req b input output =
     \<lparr>rb_maximumInputTokens = input, rb_maximumOutputTokens = output,
      rb_mayUsePromptCache = (CapPromptCaching \<in> ib_capabilities b),
      rb_maximumImageUnits = Some (Num (image_units (mr_kind req))), rb_maximumAudioUnits = None\<rparr>"

definition plan_kinds :: "'p metered_request \<Rightarrow> immutable_binding \<Rightarrow> component_kind list" where
  "plan_kinds req b = kinds_for (mr_kind req) @
     (if CapPromptCaching \<in> ib_capabilities b then [KCacheRead, KCacheCreation] else [])"

definition binding_request :: "'p metered_request \<Rightarrow> string \<Rightarrow> token_bounds option \<Rightarrow> resolution_request" where
  "binding_request req workspace bounds =
     \<lparr>rr_workspaceId = workspace, rr_role = mr_role req, rr_bindingVersionId = mr_bindingVersionId req,
      rr_requiredCapabilities = Some (requested_capabilities req),
      rr_inputTokens = or_else (map_option (\<lambda>tb. Num (tb_maximumInputTokensPerTurn tb)) bounds)
        (mr_maximumInputTokens req),
      rr_outputTokens = or_else (map_option (\<lambda>tb. Num (tb_maximumOutputTokensPerTurn tb)) bounds)
        (mr_maximumOutputTokens req)\<rparr>"

definition resolve_plan ::
  "('p, 'v) gateway_ports \<Rightarrow> 'p metered_request \<Rightarrow> string \<Rightarrow> (ai_error, execution_plan) result" where
  "resolve_plan p req workspace =
     rbind (rassert (expected_role (kind_of (mr_kind req)) (mr_role req))
             (CapabilityError ''AI request kind does not match the selected role.'')) (\<lambda>_.
     rbind (plan_bounds (mr_kind req) (bq_hard (mr_budget req))) (\<lambda>bounds.
     let startedAt = gp_clock p 0; kind = kind_of (mr_kind req) in
     rbind (gp_resolve p (binding_request req workspace bounds)) (\<lambda>binding.
     let input = plan_input_limit bounds req binding; output = plan_output_limit bounds req binding in
     if input = None \<or> (kind \<noteq> OpEmbedding \<and> kind \<noteq> OpReranker \<and> output = None)
     then Inl (ConfigurationError
       ''A configured maximum input and output limit is required for metered execution.'')
     else let inTokens = (case input of None \<Rightarrow> Num 0 | Some n \<Rightarrow> n); outTokens = zero_if_absent output in
     rbind (with_pricing (resolve_prices (gp_date p) (ib_pricing binding) (plan_kinds req binding)
              (plan_price_context req startedAt inTokens))) (\<lambda>pricing.
     rbind (with_pricing (calculate_cost pricing (conservative_reservation_usage
              (plan_reservation_bounds req binding inTokens outTokens)))) (\<lambda>cost.
     Inr \<lparr>ep_binding = binding, ep_repositoryBounds = bounds, ep_startedAt = startedAt,
          ep_maximumInputTokens = inTokens, ep_maximumOutputTokens = outTokens,
          ep_pricing = pricing, ep_conservativeCost = cost\<rparr>)))))"

record ai_preflight =
  pf_bindingVersionId :: string
  pf_providerInstanceVersionId :: string
  pf_catalogSnapshotId :: string
  pf_configuredModel :: string
  pf_maximumInputTokens :: jsnum
  pf_maximumOutputTokens :: jsnum
  pf_pricing :: price_resolution
  pf_conservativeCost :: cost_calculation

definition preflight ::
  "('p, 'v) gateway_ports \<Rightarrow> 'p metered_request \<Rightarrow> string \<Rightarrow> (ai_error, ai_preflight) result" where
  "preflight p req workspace =
     rbind (resolve_plan p req workspace) (\<lambda>plan.
       let b = ep_binding plan in
       Inr \<lparr>pf_bindingVersionId = ib_bindingVersionId b,
            pf_providerInstanceVersionId = ib_providerInstanceVersionId b,
            pf_catalogSnapshotId = ib_catalogSnapshotId b, pf_configuredModel = ib_canonicalModel b,
            pf_maximumInputTokens = ep_maximumInputTokens plan,
            pf_maximumOutputTokens = ep_maximumOutputTokens plan,
            pf_pricing = ep_pricing plan, pf_conservativeCost = ep_conservativeCost plan\<rparr>)"

section \<open>Execution\<close>

definition reservation_scope_for ::
  "(string \<Rightarrow> int option) \<Rightarrow> string \<Rightarrow> string option \<Rightarrow> string \<Rightarrow> (ai_error, reservation_scope) result" where
  "reservation_scope_for date operationId analysisId occurredAt =
     (case date occurredAt of
        None \<Rightarrow> Inl (ConfigurationError ''The AI execution clock must return a valid UTC instant.'')
      | Some t \<Rightarrow> Inr \<lparr>sc_operationId = operationId, sc_analysisId = analysisId, sc_day = take 10 (iso_string t)\<rparr>)"

definition start_record :: "execution_plan \<Rightarrow> 'p metered_request \<Rightarrow> string \<Rightarrow> string \<Rightarrow> operation_start" where
  "start_record plan req workspace operationId =
     (let b = ep_binding plan in
      \<lparr>os_operationId = operationId, os_parentOperationId = None, os_workspaceId = workspace,
       os_role = mr_role req, os_operationKind = kind_of (mr_kind req),
       os_bindingVersionId = ib_bindingVersionId b,
       os_providerInstanceVersionId = ib_providerInstanceVersionId b,
       os_catalogSnapshotId = ib_catalogSnapshotId b, os_configuredModel = ib_canonicalModel b,
       os_attribution = mr_attribution req, os_startedAt = ep_startedAt plan,
       os_pricing = ep_pricing plan, os_reservation = ep_conservativeCost plan\<rparr>)"

definition bypass :: "'p metered_request \<Rightarrow> bool" where
  "bypass req \<longleftrightarrow> bq_allowUnknownPricing (mr_budget req) = Some True"

text \<open>The first transaction; an invalid clock reading is found after the ledger entry was written in it.\<close>

definition reserve ::
  "('p, 'v) gateway_ports \<Rightarrow> 'p metered_request \<Rightarrow> string \<Rightarrow> execution_plan \<Rightarrow> string \<Rightarrow> gateway_state \<Rightarrow>
   (ai_error, unit) result \<times> gateway_state" where
  "reserve p req workspace plan operationId st =
     (let start = start_record plan req workspace operationId; cost = ep_conservativeCost plan in
      (case reservation_scope_for (gp_date p) operationId (mr_analysisId req) (ep_startedAt plan) of
         Inl e \<Rightarrow> (Inl e, emit (RolledBack [LedgerStart start])
                           (st\<lparr>gs_transactions := gs_transactions st + 1\<rparr>))
       | Inr scope \<Rightarrow> run_transaction p
           [LedgerStart start,
            BudgetReserve \<lparr>br_operationId = operationId, br_workspaceId = workspace, br_scope = scope,
              br_currency = bq_currency (mr_budget req), br_estimatedAmount = cc_amount cost,
              br_calculationStatus = cc_status cost, br_hard = bq_hard (mr_budget req),
              br_unknownPriceBypass = bypass req, br_occurredAt = ep_startedAt plan\<rparr>] st))"

definition compose_abort_signal :: "jsnum option \<Rightarrow> (ai_error, unit) result" where
  "compose_abort_signal timeoutMs =
     (case timeoutMs of
        None \<Rightarrow> Inr ()
      | Some t \<Rightarrow> rassert (is_safe_integer t \<and> 1 \<le> int_of t)
                    (ConfigurationError ''AI timeout must be a positive integer.''))"

text \<open>Without a timeout there is no timer.\<close>

definition deadline_exceeded :: "('p, 'v) gateway_ports \<Rightarrow> 'p metered_request \<Rightarrow> signal_point \<Rightarrow> bool" where
  "deadline_exceeded p req pt \<longleftrightarrow> mr_timeoutMs req \<noteq> None \<and> gp_deadline p pt"

fun method_for :: "'p metered_kind \<Rightarrow> dispatch_method" where
  "method_for (EmbeddingRequest q) = Embed"
| "method_for (VisionRequest q images) = AnalyzeVision"
| "method_for (GenerationRequest q) = Generate"
| "method_for (RerankerRequest q) = Rerank"
| "method_for (RepositoryAgentRequest q l) = RunRepositoryAgent"
| "method_for (RepositoryChangeRequest q l) = RunRepositoryChange"

definition unknown_cost :: cost_calculation where
  "unknown_cost = \<lparr>cc_status = Unknown, cc_amount = None, cc_currency = None, cc_components = []\<rparr>"

definition success_reconciliation ::
  "cost_calculation \<Rightarrow> cost_calculation \<Rightarrow> provider_reported_cost option \<Rightarrow> normalized_usage option \<Rightarrow>
   string \<Rightarrow> (ai_error, reconciliation_outcome) result" where
  "success_reconciliation reservation calculated providerCost usage currency =
     (let retained = \<lparr>ro_status = RetainedUncertain, ro_currency = currency, ro_actualAmount = None,
                      ro_providerCost = providerCost\<rparr>;
          reconciled = \<lparr>ro_status = Reconciled, ro_currency = currency,
                        ro_actualAmount = cc_amount calculated, ro_providerCost = providerCost\<rparr>
      in if usage = None \<or> cc_status calculated \<noteq> Known then Inr retained
         else (case providerCost of
                 None \<Rightarrow> Inr reconciled
               | Some cost \<Rightarrow>
                   if prc_currency cost \<noteq> currency then Inr retained
                   else (case cc_amount reservation of
                     None \<Rightarrow> Inr reconciled
                   | Some reserved \<Rightarrow>
                       rbind (with_price (decimal (Text (prc_amount cost)))) (\<lambda>amount.
                       rbind (with_price (compare_decimals amount reserved)) (\<lambda>c.
                       Inr (if c > 0
                            then \<lparr>ro_status = ProviderOverage, ro_currency = currency,
                                  ro_actualAmount = Some amount, ro_providerCost = providerCost\<rparr>
                            else reconciled))))))"

definition turn_kind :: "'p metered_kind \<Rightarrow> ai_operation_kind" where
  "turn_kind k = (if kind_of k = OpRepositoryAgent then OpRepositoryAgentTurn else OpRepositoryChangeTurn)"

text \<open>The ledger writes of the observable turns, the \<open>n\<close>-th id going to the first of them.\<close>

fun child_writes ::
  "('p, 'v) gateway_ports \<Rightarrow> 'p metered_request \<Rightarrow> string \<Rightarrow> execution_plan \<Rightarrow> string \<Rightarrow> string \<Rightarrow> nat \<Rightarrow>
   agent_turn list \<Rightarrow> (ai_error, ledger_write list) result" where
  "child_writes p req workspace plan operationId finishedAt n [] = Inr []"
| "child_writes p req workspace plan operationId finishedAt n (t # ts) =
     rbind (with_pricing (calculate_cost (ep_pricing plan) (actual_usage (tn_usage t)))) (\<lambda>cost.
     rbind (child_writes p req workspace plan operationId finishedAt (n + 1) ts) (\<lambda>ws.
     Inr (LedgerStart ((start_record plan req workspace (gp_id p n))
            \<lparr>os_parentOperationId := Some operationId, os_operationKind := turn_kind (mr_kind req),
             os_reservation := cost\<rparr>) #
          LedgerFinalize \<lparr>of_operationId = gp_id p n, of_workspaceId = workspace, of_status = OpSucceeded,
            of_finishedAt = finishedAt, of_usage = Some (tn_usage t),
            of_metadata = Some (repository_agent_turn_metadata (tn_metadata t) (tn_turn t)),
            of_calculatedCost = cost, of_providerCost = None, of_error = None\<rparr> # ws)))"

record 'v metered_result =
  rs_operationId :: string
  rs_value :: 'v
  rs_usage :: "normalized_usage option"
  rs_providerCost :: "provider_reported_cost option"
  rs_calculatedCost :: cost_calculation

definition final_writes ::
  "operation_finalization \<Rightarrow> reconciliation_outcome \<Rightarrow> ledger_write list \<Rightarrow> ledger_write list" where
  "final_writes f r children = children @
     [LedgerFinalize f,
      BudgetReconcile \<lparr>bk_operationId = of_operationId f, bk_workspaceId = of_workspaceId f,
        bk_actualAmount = ro_actualAmount r, bk_currency = ro_currency r, bk_status = ro_status r,
        bk_providerCost = ro_providerCost r, bk_occurredAt = of_finishedAt f\<rparr>]"

text \<open>What follows a provider result: the accounting, and the writes and result of a success.\<close>

definition settle ::
  "('p, 'v) gateway_ports \<Rightarrow> 'p metered_request \<Rightarrow> string \<Rightarrow> execution_plan \<Rightarrow> string \<Rightarrow> string \<Rightarrow> nat \<Rightarrow>
   'v provider_result \<Rightarrow> (ai_error, ledger_write list \<times> 'v metered_result) result" where
  "settle p req workspace plan operationId finishedAt nextId r =
     rbind (if is_agent_kind (kind_of (mr_kind req))
            then rbind (require_bounds (ep_repositoryBounds plan)) (\<lambda>b.
                   rbind (repository_agent_accounting r b) (\<lambda>a. Inr (Some a)))
            else Inr None) (\<lambda>accounting.
     let usage = or_else (case accounting of None \<Rightarrow> None | Some a \<Rightarrow> ac_usage a) (pv_usage r) in
     rbind (case usage of
              None \<Rightarrow> Inr unknown_cost
            | Some u \<Rightarrow> with_pricing (calculate_cost (ep_pricing plan) (actual_usage u))) (\<lambda>cost.
     rbind (success_reconciliation (ep_conservativeCost plan) cost (pv_providerCost r) usage
              (bq_currency (mr_budget req))) (\<lambda>reconciliation.
     rbind (child_writes p req workspace plan operationId finishedAt nextId
              (case accounting of None \<Rightarrow> [] | Some a \<Rightarrow> ac_turns a)) (\<lambda>children.
     Inr (final_writes
            \<lparr>of_operationId = operationId, of_workspaceId = workspace,
             of_status = (if usage = None then OpSucceededUsageUnknown else OpSucceeded),
             of_finishedAt = finishedAt, of_usage = usage,
             of_metadata = Some (repository_agent_metadata (pv_metadata r) accounting),
             of_calculatedCost = cost, of_providerCost = pv_providerCost r, of_error = None\<rparr>
            reconciliation children,
          \<lparr>rs_operationId = operationId, rs_value = pv_value r, rs_usage = usage,
           rs_providerCost = pv_providerCost r, rs_calculatedCost = cost\<rparr>)))))"

text \<open>The \<open>try\<close> block: its outcome, whether the request was dispatched, and the state it leaves.\<close>

definition attempt ::
  "('p, 'v) gateway_ports \<Rightarrow> 'p metered_request \<Rightarrow> string \<Rightarrow> execution_plan \<Rightarrow> string \<Rightarrow> gateway_state \<Rightarrow>
   (ai_error, 'v metered_result) result \<times> bool \<times> gateway_state" where
  "attempt p req workspace plan operationId st =
     (let st1 = emit (SecretRequested (ib_secretReference (ep_binding plan))) st in
      case gp_secret p (ib_secretReference (ep_binding plan)) of
        Inl e \<Rightarrow> (Inl e, False, st1)
      | Inr secret \<Rightarrow>
          if deadline_exceeded p req AfterSecret
          then (Inl (TimeoutError (zero_if_absent (mr_timeoutMs req))), False, st1)
          else if gp_aborted p AfterSecret then (Inl CancelledError, False, st1)
          else let st2 = emit (Dispatched (method_for (mr_kind req))) st1 in
            (case gp_dispatch p (method_for (mr_kind req)) (ep_binding plan) secret (mr_kind req) of
               Inl e \<Rightarrow> (Inl e, True, st2)
             | Inr r \<Rightarrow>
                 let finishedAt = gp_clock p (gs_clock st2);
                     st3 = st2\<lparr>gs_clock := gs_clock st2 + 1\<rparr> in
                 (case settle p req workspace plan operationId finishedAt (gs_ids st3) r of
                    Inl e \<Rightarrow> (Inl e, True, st3)
                  | Inr (writes, res) \<Rightarrow>
                      (case run_transaction p writes st3 of
                         (Inl e, st4) \<Rightarrow> (Inl e, True, st4)
                       | (Inr u, st4) \<Rightarrow> (Inr res, True, st4)))))"

fun failure_status :: "ai_error \<Rightarrow> ai_operation_status" where
  "failure_status (TimeoutError t) = OpTimedOut"
| "failure_status CancelledError = OpCancelled"
| "failure_status _ = OpFailed"

text \<open>The \<open>catch\<close> block.\<close>

definition recover ::
  "('p, 'v) gateway_ports \<Rightarrow> 'p metered_request \<Rightarrow> string \<Rightarrow> string \<Rightarrow> ai_error \<Rightarrow> bool \<Rightarrow> gateway_state \<Rightarrow>
   (ai_error, 'v metered_result) result \<times> gateway_state" where
  "recover p req workspace operationId caught dispatched st =
     (let e = (if deadline_exceeded p req WhenCaught then TimeoutError (zero_if_absent (mr_timeoutMs req))
               else if gp_aborted p WhenCaught then CancelledError else caught);
          writes = final_writes
            \<lparr>of_operationId = operationId, of_workspaceId = workspace, of_status = failure_status e,
             of_finishedAt = gp_clock p (gs_clock st), of_usage = None, of_metadata = None,
             of_calculatedCost = unknown_cost, of_providerCost = None,
             of_error = Some (error_code e, error_retryable e)\<rparr>
            \<lparr>ro_status = (if dispatched then RetainedUncertain else Released),
             ro_currency = bq_currency (mr_budget req), ro_actualAmount = None, ro_providerCost = None\<rparr> []
      in (case run_transaction p writes (st\<lparr>gs_clock := gs_clock st + 1\<rparr>) of
            (Inl e2, st') \<Rightarrow> (Inl e2, st')
          | (Inr u, st') \<Rightarrow> (Inl e, st')))"

definition policy_required :: "'p metered_request \<Rightarrow> bool" where
  "policy_required req \<longleftrightarrow> bq_requireBudgetPolicy (mr_budget req) = Some True"

definition has_policy ::
  "('p, 'v) gateway_ports \<Rightarrow> 'p metered_request \<Rightarrow> string \<Rightarrow> execution_plan \<Rightarrow> (ai_error, bool) result" where
  "has_policy p req workspace plan =
     (case gp_policy p of
        None \<Rightarrow> Inr False
      | Some ask \<Rightarrow> ask \<lparr>pq_workspaceId = workspace, pq_currency = bq_currency (mr_budget req),
                         pq_analysisId = mr_analysisId req, pq_occurredAt = ep_startedAt plan\<rparr>)"

definition run_reserved ::
  "('p, 'v) gateway_ports \<Rightarrow> 'p metered_request \<Rightarrow> string \<Rightarrow> execution_plan \<Rightarrow> string \<Rightarrow> gateway_state \<Rightarrow>
   (ai_error, 'v metered_result) result \<times> gateway_state" where
  "run_reserved p req workspace plan operationId st =
     (case compose_abort_signal (mr_timeoutMs req) of
        Inl e \<Rightarrow> (Inl e, st)
      | Inr u \<Rightarrow>
          (case attempt p req workspace plan operationId st of
             (Inr res, dispatched, st') \<Rightarrow> (Inr res, st')
           | (Inl e, dispatched, st') \<Rightarrow> recover p req workspace operationId e dispatched st'))"

definition execute ::
  "('p, 'v) gateway_ports \<Rightarrow> 'p metered_request \<Rightarrow> string \<Rightarrow>
   (ai_error, 'v metered_result) result \<times> gateway_state" where
  "execute p req workspace =
     (let st = initial_state\<lparr>gs_clock := 1\<rparr> in
      case resolve_plan p req workspace of
        Inl e \<Rightarrow> (Inl e, st)
      | Inr plan \<Rightarrow>
          if bq_hard (mr_budget req) \<and> cc_status (ep_conservativeCost plan) \<noteq> Known \<and> \<not> bypass req
          then (Inl (HardBudgetError ''A hard budget cannot execute with unknown or incomplete pricing.''), st)
          else (case (if policy_required req then has_policy p req workspace plan else Inr True) of
             Inl e \<Rightarrow> (Inl e, st)
           | Inr ok \<Rightarrow>
               if \<not> ok
               then (Inl (HardBudgetError ''This AI request requires an applicable budget policy.''), st)
               else let operationId = gp_id p 0 in
                 (case reserve p req workspace plan operationId (st\<lparr>gs_ids := 1\<rparr>) of
                    (Inl e, st') \<Rightarrow> (Inl e, st')
                  | (Inr u, st') \<Rightarrow> run_reserved p req workspace plan operationId st')))"

end
