(* ===== verification/Retrieval.thy ===== *)
theory Retrieval
  imports Complex_Main Gateway "HOL-Library.Product_Lexorder" "HOL-Library.Sublist"
begin

text \<open>
  Hybrid retrieval, \<open>packages/retrieval/src/service.ts\<close> with \<open>contracts.ts\<close>: profile checks, embedding
  of the query through the execution gateway, reciprocal rank fusion, quotas, reranking, budgets
  and the snapshot.  Finite numbers are rationals; a result of the floating-point arithmetic is the exact
  result passed through the rounding of the number format, the argument \<open>rnd\<close> of the fusion.  The gateway,
  the search, the token counter, the snapshot store and the abort signal are arguments
  (\<open>retrieval_ports\<close>).  A retrieval returns its result and the calls it made, in order.
\<close>

section \<open>Contracts\<close>

datatype js_float = Finite rat | NotFinite

datatype filter_value = FilterText string | FilterNumber js_float | FilterBool bool | FilterNull

record ai_budget_policy =
  ab_currency :: string
  ab_hard :: bool
  ab_allowUnknownPricing :: "bool option"

record retrieval_collection =
  rc_id :: string
  rc_embeddingBindingVersionId :: string
  rc_embeddingProfileVersion :: string
  rc_dimensions :: jsnum

record quota_limits =
  ql_maximumCandidates :: jsnum
  ql_maximumFinalResults :: jsnum

record source_quota = quota_limits +
  sq_sourceId :: string

record retrieval_policy =
  ry_rankConstant :: jsnum
  ry_lexicalWeight :: js_float
  ry_vectorWeight :: js_float
  ry_maximumFinalResults :: jsnum
  ry_maximumCharacters :: jsnum
  ry_maximumTokens :: jsnum
  ry_defaultSourceQuota :: quota_limits
  ry_sourceQuotas :: "source_quota list"

record query_embedding_policy =
  qe_maximumInputTokens :: jsnum
  qe_budget :: ai_budget_policy

record reranker_policy =
  rk_bindingVersionId :: string
  rk_maximumCandidates :: jsnum
  rk_maximumInputTokens :: jsnum
  rk_timeoutMs :: "jsnum option"
  rk_budget :: ai_budget_policy

record retrieval_profile =
  rf_id :: string
  rf_version :: string
  rf_contextTokenBindingVersionId :: string
  rf_collections :: "retrieval_collection list"
  rf_policy :: retrieval_policy
  rf_queryEmbedding :: query_embedding_policy
  rf_reranker :: "reranker_policy option"

type_synonym metadata_filters = "(string \<times> filter_value list) list"

record retrieval_request =
  rq_workspaceId :: string
  rq_query :: string
  rq_profile :: retrieval_profile
  rq_authorizedSourceIds :: "string list"
  rq_metadataFilters :: "metadata_filters option"
  rq_snapshotId :: string
  rq_analysisId :: "string option"
  rq_capturedAt :: string
  rq_attribution :: "op_attribution option"

record query_embedding =
  qv_embeddingBindingVersionId :: string
  qv_embeddingProfileVersion :: string
  qv_dimensions :: jsnum
  qv_collectionIds :: "string list"
  qv_vector :: "js_float list"

record search_input =
  si_workspaceId :: string
  si_query :: string
  si_collections :: "retrieval_collection list"
  si_vectorQueries :: "query_embedding list"
  si_authorizedSourceIds :: "string list"
  si_metadataFilters :: "metadata_filters option"
  si_maximumCandidatesPerSource :: jsnum

record retrieval_candidate =
  ca_collectionId :: string
  ca_sourceId :: string
  ca_sourceRevisionId :: string
  ca_chunkId :: string
  ca_location :: string
  ca_sourceUrl :: "string option"
  ca_content :: string
  ca_activeRevision :: bool
  ca_lexicalRank :: "jsnum option"
  ca_vectorRank :: "jsnum option"
  ca_accessMetadata :: "(string \<times> filter_value) list"

datatype token_purpose = ForEmbedding | ForReranking | ForContext

record evidence_scores =
  es_fusedRrf :: rat
  es_lexicalRrf :: rat
  es_vectorRrf :: rat
  es_reranker :: "rat option"

record retrieval_evidence =
  re_collectionId :: string
  re_sourceId :: string
  re_sourceRevisionId :: string
  re_chunkId :: string
  re_location :: string
  re_sourceUrl :: "string option"
  re_content :: string
  re_accessMetadata :: "(string \<times> filter_value) list"
  re_scores :: evidence_scores
  re_characterCount :: int
  re_tokenCount :: int

record retrieval_snapshot =
  sn_id :: string
  sn_workspaceId :: string
  sn_analysisId :: "string option"
  sn_capturedAt :: string
  sn_query :: string
  sn_profileId :: string
  sn_profileVersion :: string
  sn_queryEmbeddingOperationIds :: "(string \<times> string) list"
  sn_rerankerOperationId :: "string option"
  sn_evidence :: "retrieval_evidence list"

section \<open>Errors and checks\<close>

datatype retrieval_code = RetrievalCancelled | InvalidConfiguration | InvalidCandidate | InvalidAiResult

datatype retrieval_error = RetrievalError retrieval_code string | GatewayError ai_error | PortError string

definition require_non_empty :: "string \<Rightarrow> string \<Rightarrow> (retrieval_error, unit) result" where
  "require_non_empty value description =
     rassert (value \<noteq> []) (RetrievalError InvalidConfiguration (description @ '' must not be empty.''))"

definition require_positive_integer :: "jsnum \<Rightarrow> string \<Rightarrow> (retrieval_error, unit) result" where
  "require_positive_integer value description =
     rassert (is_safe_integer value \<and> 1 \<le> int_of value)
       (RetrievalError InvalidConfiguration (description @ '' must be a positive safe integer.''))"

definition require_non_negative_integer :: "jsnum \<Rightarrow> string \<Rightarrow> (retrieval_error, unit) result" where
  "require_non_negative_integer value description =
     rassert (is_safe_integer value \<and> 0 \<le> int_of value)
       (RetrievalError InvalidConfiguration (description @ '' must be a non-negative safe integer.''))"

fun checks :: "(retrieval_error, unit) result list \<Rightarrow> (retrieval_error, unit) result" where
  "checks [] = Inr ()"
| "checks (c # cs) = rbind c (\<lambda>_. checks cs)"

definition validate_candidate :: "retrieval_candidate \<Rightarrow> (retrieval_error, unit) result" where
  "validate_candidate c = checks
     [require_non_empty (ca_collectionId c) ''Candidate collection ID'',
      require_non_empty (ca_sourceId c) ''Candidate source ID'',
      require_non_empty (ca_sourceRevisionId c) ''Candidate source revision ID'',
      require_non_empty (ca_chunkId c) ''Candidate chunk ID'',
      require_non_empty (ca_location c) ''Candidate location'',
      rassert (ca_content c \<noteq> []) (RetrievalError InvalidCandidate ''Candidate content must not be empty.''),
      rassert (ca_lexicalRank c \<noteq> None \<or> ca_vectorRank c \<noteq> None)
        (RetrievalError InvalidCandidate ''A candidate must have a lexical or vector rank.''),
      (case ca_lexicalRank c of None \<Rightarrow> Inr () | Some r \<Rightarrow> require_positive_integer r ''Candidate lexical rank''),
      (case ca_vectorRank c of None \<Rightarrow> Inr () | Some r \<Rightarrow> require_positive_integer r ''Candidate vector rank'')]"

definition validate_collection :: "string list \<Rightarrow> retrieval_collection \<Rightarrow> (retrieval_error, string list) result" where
  "validate_collection ids c =
     rbind (checks
       [require_non_empty (rc_id c) ''Collection ID'',
        require_non_empty (rc_embeddingBindingVersionId c) ''Embedding binding version ID'',
        require_non_empty (rc_embeddingProfileVersion c) ''Embedding profile version'',
        require_positive_integer (rc_dimensions c) ''Embedding dimensions'',
        rassert (rc_id c \<notin> set ids)
          (RetrievalError InvalidConfiguration ''A retrieval profile cannot select a collection more than once.'')])
     (\<lambda>_. Inr (rc_id c # ids))"

definition validate_quota :: "string list \<Rightarrow> source_quota \<Rightarrow> (retrieval_error, string list) result" where
  "validate_quota sources q =
     rbind (checks
       [require_non_empty (sq_sourceId q) ''Source quota source ID'',
        require_positive_integer (ql_maximumCandidates q) ''Source candidate quota'',
        require_positive_integer (ql_maximumFinalResults q) ''Source final-result quota'',
        rassert (sq_sourceId q \<notin> set sources)
          (RetrievalError InvalidConfiguration ''A source may only have one retrieval quota override.'')])
     (\<lambda>_. Inr (sq_sourceId q # sources))"

definition valid_weight :: "js_float \<Rightarrow> bool" where
  "valid_weight w = (case w of Finite q \<Rightarrow> 0 \<le> q | NotFinite \<Rightarrow> False)"

definition validate_weights :: "retrieval_policy \<Rightarrow> (retrieval_error, unit) result" where
  "validate_weights p =
     rassert (valid_weight (ry_lexicalWeight p) \<and> valid_weight (ry_vectorWeight p) \<and>
              \<not> (ry_lexicalWeight p = Finite 0 \<and> ry_vectorWeight p = Finite 0))
       (RetrievalError InvalidConfiguration ''At least one non-negative RRF weight must be positive.'')"

definition validate_reranker :: "reranker_policy \<Rightarrow> (retrieval_error, unit) result" where
  "validate_reranker r = checks
     [require_non_empty (rk_bindingVersionId r) ''Reranker binding version ID'',
      require_positive_integer (rk_maximumCandidates r) ''Reranker maximum candidates'',
      require_positive_integer (rk_maximumInputTokens r) ''Reranker maximum input tokens'',
      (case rk_timeoutMs r of
         None \<Rightarrow> Inr ()
       | Some t \<Rightarrow> rassert (is_safe_integer t \<and> 1 \<le> int_of t)
           (RetrievalError InvalidConfiguration ''Reranker timeout must be a positive safe integer.'')),
      require_non_empty (ab_currency (rk_budget r)) ''Reranker currency'']"

definition validate_profile :: "retrieval_profile \<Rightarrow> (retrieval_error, unit) result" where
  "validate_profile f = (let p = rf_policy f in
     rbind (checks
       [require_non_empty (rf_id f) ''Retrieval profile ID'',
        require_non_empty (rf_version f) ''Retrieval profile version'',
        require_non_empty (rf_contextTokenBindingVersionId f) ''Context token binding version ID'',
        rassert (rf_collections f \<noteq> [])
          (RetrievalError InvalidConfiguration ''A retrieval profile must select at least one collection.'')]) (\<lambda>_.
     rbind (rfold validate_collection [] (rf_collections f)) (\<lambda>_.
     rbind (checks
       [require_positive_integer (ry_rankConstant p) ''RRF rank constant'',
        validate_weights p,
        require_positive_integer (ry_maximumFinalResults p) ''Maximum final results'',
        require_non_negative_integer (ry_maximumCharacters p) ''Maximum characters'',
        require_non_negative_integer (ry_maximumTokens p) ''Maximum tokens'',
        require_positive_integer (ql_maximumCandidates (ry_defaultSourceQuota p)) ''Default source candidate quota'',
        require_positive_integer (ql_maximumFinalResults (ry_defaultSourceQuota p))
          ''Default source final-result quota'']) (\<lambda>_.
     rbind (rfold validate_quota [] (ry_sourceQuotas p)) (\<lambda>_.
     checks
       [require_positive_integer (qe_maximumInputTokens (rf_queryEmbedding f)) ''Query embedding maximum input tokens'',
        require_non_empty (ab_currency (qe_budget (rf_queryEmbedding f))) ''Embedding currency'',
        (case rf_reranker f of None \<Rightarrow> Inr () | Some r \<Rightarrow> validate_reranker r)])))))"

section \<open>Embedding groups\<close>

record embedding_group =
  eg_bindingVersionId :: string
  eg_embeddingProfileVersion :: string
  eg_dimensions :: jsnum
  eg_collections :: "retrieval_collection list"

definition group_step ::
  "(string \<times> embedding_group) list \<Rightarrow> retrieval_collection \<Rightarrow> (retrieval_error, (string \<times> embedding_group) list) result" where
  "group_step grouped c =
     (case map_of grouped (rc_embeddingBindingVersionId c) of
        None \<Rightarrow> Inr (assoc_set (rc_embeddingBindingVersionId c)
          \<lparr>eg_bindingVersionId = rc_embeddingBindingVersionId c,
           eg_embeddingProfileVersion = rc_embeddingProfileVersion c,
           eg_dimensions = rc_dimensions c, eg_collections = [c]\<rparr> grouped)
      | Some current \<Rightarrow>
          if eg_embeddingProfileVersion current \<noteq> rc_embeddingProfileVersion c \<or>
             eg_dimensions current \<noteq> rc_dimensions c
          then Inl (RetrievalError InvalidConfiguration
            ''Collections sharing an embedding binding must have a compatible profile and dimensions.'')
          else Inr (assoc_set (rc_embeddingBindingVersionId c)
            (current\<lparr>eg_collections := eg_collections current @ [c]\<rparr>) grouped))"

definition groups_for :: "retrieval_profile \<Rightarrow> (retrieval_error, embedding_group list) result" where
  "groups_for f =
     rbind (rfold group_step [] (rf_collections f)) (\<lambda>grouped.
     Inr (sort_by (\<lambda>l r. eg_bindingVersionId l \<le> eg_bindingVersionId r) (map snd grouped)))"

section \<open>Reciprocal rank fusion\<close>

record ranked_candidate =
  dc_candidate :: retrieval_candidate
  dc_lexicalRank :: "int option"
  dc_vectorRank :: "int option"

record fused_candidate = ranked_candidate +
  fc_lexicalRrf :: rat
  fc_vectorRrf :: rat
  fc_fusedRrf :: rat
  fc_rerankerScore :: "rat option"

definition candidate_key :: "retrieval_candidate \<Rightarrow> string" where
  "candidate_key c =
     join [char_of (0 :: nat)] [ca_collectionId c, ca_sourceId c, ca_sourceRevisionId c, ca_chunkId c]"

definition compare_text :: "string \<Rightarrow> string \<Rightarrow> int" where
  "compare_text l r = (if l < r then - 1 else if r < l then 1 else 0)"

text \<open>The sign of the floating-point difference \<open>right - left\<close>, which is zero only for equal numbers.\<close>

definition descending :: "rat \<Rightarrow> rat \<Rightarrow> int" where
  "descending l r = (if r < l then - 1 else if l < r then 1 else 0)"

definition compare_fused :: "'a fused_candidate_scheme \<Rightarrow> 'a fused_candidate_scheme \<Rightarrow> int" where
  "compare_fused l r =
     (let score = descending (fc_fusedRrf l) (fc_fusedRrf r);
          collection = compare_text (ca_collectionId (dc_candidate l)) (ca_collectionId (dc_candidate r));
          source = compare_text (ca_sourceId (dc_candidate l)) (ca_sourceId (dc_candidate r));
          revision = compare_text (ca_sourceRevisionId (dc_candidate l)) (ca_sourceRevisionId (dc_candidate r))
      in if score \<noteq> 0 then score
         else if collection \<noteq> 0 then collection
         else if source \<noteq> 0 then source
         else if revision \<noteq> 0 then revision
         else compare_text (ca_chunkId (dc_candidate l)) (ca_chunkId (dc_candidate r)))"

definition score_or_zero :: "rat option \<Rightarrow> rat" where
  "score_or_zero s = (case s of None \<Rightarrow> 0 | Some q \<Rightarrow> q)"

definition compare_ranked :: "fused_candidate \<Rightarrow> fused_candidate \<Rightarrow> int" where
  "compare_ranked l r =
     (let reranker = descending (score_or_zero (fc_rerankerScore l)) (score_or_zero (fc_rerankerScore r))
      in if reranker \<noteq> 0 then reranker else compare_fused l r)"

definition accepted :: "string list \<Rightarrow> string list \<Rightarrow> retrieval_candidate \<Rightarrow> bool" where
  "accepted authorized selected c \<longleftrightarrow>
     ca_activeRevision c \<and> ca_sourceId c \<in> set authorized \<and> ca_collectionId c \<in> set selected"

definition better_rank :: "int option \<Rightarrow> int option \<Rightarrow> int option" where
  "better_rank fresh existing =
     (case fresh of
        None \<Rightarrow> existing
      | Some r \<Rightarrow> (case existing of None \<Rightarrow> Some r | Some e \<Rightarrow> if r < e then Some r else Some e))"

definition same_evidence :: "retrieval_candidate \<Rightarrow> retrieval_candidate \<Rightarrow> bool" where
  "same_evidence a b \<longleftrightarrow>
     ca_content a = ca_content b \<and> ca_location a = ca_location b \<and> ca_sourceUrl a = ca_sourceUrl b"

definition fuse_step ::
  "string list \<Rightarrow> string list \<Rightarrow> (string \<times> ranked_candidate) list \<Rightarrow> retrieval_candidate \<Rightarrow>
   (retrieval_error, (string \<times> ranked_candidate) list) result" where
  "fuse_step authorized selected m c =
     rbind (validate_candidate c) (\<lambda>_.
       if \<not> accepted authorized selected c then Inr m
       else let lexical = map_option int_of (ca_lexicalRank c); vector = map_option int_of (ca_vectorRank c) in
         (case map_of m (candidate_key c) of
            None \<Rightarrow> Inr (assoc_set (candidate_key c)
              \<lparr>dc_candidate = c, dc_lexicalRank = lexical, dc_vectorRank = vector\<rparr> m)
          | Some existing \<Rightarrow>
              if \<not> same_evidence (dc_candidate existing) c
              then Inl (RetrievalError InvalidCandidate
                ''Duplicate candidate identities must contain identical immutable evidence.'')
              else Inr (assoc_set (candidate_key c)
                (existing\<lparr>dc_lexicalRank := better_rank lexical (dc_lexicalRank existing),
                          dc_vectorRank := better_rank vector (dc_vectorRank existing)\<rparr>) m)))"

definition finite_value :: "js_float \<Rightarrow> rat" where
  "finite_value w = (case w of Finite q \<Rightarrow> q | NotFinite \<Rightarrow> 0)"

definition rrf :: "(rat \<Rightarrow> rat) \<Rightarrow> js_float \<Rightarrow> jsnum \<Rightarrow> int option \<Rightarrow> rat" where
  "rrf rnd weight rankConstant rank =
     (case rank of
        None \<Rightarrow> 0
      | Some r \<Rightarrow> rnd (finite_value weight / rnd (of_int (int_of rankConstant + r))))"

definition fused_of :: "(rat \<Rightarrow> rat) \<Rightarrow> retrieval_policy \<Rightarrow> ranked_candidate \<Rightarrow> fused_candidate" where
  "fused_of rnd p item =
     (let lexical = rrf rnd (ry_lexicalWeight p) (ry_rankConstant p) (dc_lexicalRank item);
          vector = rrf rnd (ry_vectorWeight p) (ry_rankConstant p) (dc_vectorRank item)
      in \<lparr>dc_candidate = dc_candidate item, dc_lexicalRank = dc_lexicalRank item, dc_vectorRank = dc_vectorRank item,
          fc_lexicalRrf = lexical, fc_vectorRrf = vector, fc_fusedRrf = rnd (lexical + vector),
          fc_rerankerScore = None\<rparr>)"

definition fuse ::
  "(rat \<Rightarrow> rat) \<Rightarrow> retrieval_candidate list \<Rightarrow> retrieval_profile \<Rightarrow> string list \<Rightarrow> string list \<Rightarrow>
   (retrieval_error, fused_candidate list) result" where
  "fuse rnd candidates f authorized selected =
     rbind (rfold (fuse_step authorized selected) [] candidates) (\<lambda>m.
     Inr (sort_by (\<lambda>l r. compare_fused l r \<le> 0) (map (\<lambda>e. fused_of rnd (rf_policy f) (snd e)) m)))"

section \<open>Quotas, reranking and budgets\<close>

definition quota_for :: "retrieval_profile \<Rightarrow> string \<Rightarrow> quota_limits" where
  "quota_for f sourceId =
     (case find (\<lambda>q. sq_sourceId q = sourceId) (ry_sourceQuotas (rf_policy f)) of
        None \<Rightarrow> ry_defaultSourceQuota (rf_policy f)
      | Some q \<Rightarrow> quota_limits.truncate q)"

definition source_count :: "(string \<times> int) list \<Rightarrow> string \<Rightarrow> int" where
  "source_count counts s = (case map_of counts s of None \<Rightarrow> 0 | Some n \<Rightarrow> n)"

fun quota_filter :: "retrieval_profile \<Rightarrow> (string \<times> int) list \<Rightarrow> fused_candidate list \<Rightarrow> fused_candidate list" where
  "quota_filter f counts [] = []"
| "quota_filter f counts (c # cs) =
     (let source = ca_sourceId (dc_candidate c); n = source_count counts source in
      if int_of (ql_maximumCandidates (quota_for f source)) \<le> n then quota_filter f counts cs
      else c # quota_filter f (assoc_set source (n + 1) counts) cs)"

definition apply_candidate_quotas :: "fused_candidate list \<Rightarrow> retrieval_profile \<Rightarrow> fused_candidate list" where
  "apply_candidate_quotas cs f = quota_filter f [] cs"

datatype retrieval_payload =
    EmbeddingPayload "string list" jsnum
  | RerankerPayload string "string list"

datatype retrieval_value = VectorsValue "js_float list list" | ScoresValue "js_float list"

type_synonym ai_call = "retrieval_payload metered_request"

record retrieval_ports =
  rp_count :: "string \<Rightarrow> string \<Rightarrow> token_purpose \<Rightarrow> jsnum"
  rp_ai :: "nat \<Rightarrow> string \<Rightarrow> ai_call \<Rightarrow> (ai_error, retrieval_value metered_result) result"
  rp_first :: "retrieval_error list \<Rightarrow> nat"
  rp_search :: "search_input \<Rightarrow> (retrieval_error, retrieval_candidate list) result"
  rp_persist :: "retrieval_snapshot \<Rightarrow> retrieval_error option"
  rp_aborted :: "nat \<Rightarrow> bool"
  rp_round :: "rat \<Rightarrow> rat"

datatype retrieval_event = AiCalled string ai_call | Searched search_input | Persisted retrieval_snapshot

definition count_tokens ::
  "retrieval_ports \<Rightarrow> string \<Rightarrow> string \<Rightarrow> token_purpose \<Rightarrow> (retrieval_error, int) result" where
  "count_tokens p text binding purpose =
     (let n = rp_count p text binding purpose in
      rbind (require_non_negative_integer n ''Token count'') (\<lambda>_. Inr (int_of n)))"

definition budget_of :: "ai_budget_policy \<Rightarrow> budget_request" where
  "budget_of b = \<lparr>bq_currency = ab_currency b, bq_hard = ab_hard b,
     bq_allowUnknownPricing = ab_allowUnknownPricing b, bq_requireBudgetPolicy = None\<rparr>"

text \<open>The candidates that fit into the token limit, with the tokens they add.\<close>

fun rerank_bounded ::
  "retrieval_ports \<Rightarrow> reranker_policy \<Rightarrow> int \<Rightarrow> fused_candidate list \<Rightarrow> (retrieval_error, fused_candidate list) result" where
  "rerank_bounded p policy consumed [] = Inr []"
| "rerank_bounded p policy consumed (c # cs) =
     rbind (count_tokens p (ca_content (dc_candidate c)) (rk_bindingVersionId policy) ForReranking) (\<lambda>n.
       if consumed + n > int_of (rk_maximumInputTokens policy) then rerank_bounded p policy consumed cs
       else rbind (rerank_bounded p policy (consumed + n) cs) (\<lambda>rest. Inr (c # rest)))"

definition reranker_call :: "retrieval_request \<Rightarrow> reranker_policy \<Rightarrow> fused_candidate list \<Rightarrow> ai_call" where
  "reranker_call req policy bounded =
     \<lparr>mr_kind = RerankerRequest (RerankerPayload (rq_query req) (map (\<lambda>c. ca_content (dc_candidate c)) bounded)),
      mr_role = RoleReranker, mr_bindingVersionId = Some (rk_bindingVersionId policy),
      mr_analysisId = rq_analysisId req, mr_attribution = rq_attribution req,
      mr_requiredCapabilities = Some [CapReranking],
      mr_maximumInputTokens = Some (rk_maximumInputTokens policy), mr_maximumOutputTokens = None,
      mr_timeoutMs = rk_timeoutMs policy, mr_priceContext = None, mr_budget = budget_of (rk_budget policy)\<rparr>"

definition scores_of :: "retrieval_value \<Rightarrow> js_float list" where
  "scores_of v = (case v of ScoresValue s \<Rightarrow> s | VectorsValue vs \<Rightarrow> [])"

definition is_finite :: "js_float \<Rightarrow> bool" where
  "is_finite x = (case x of Finite q \<Rightarrow> True | NotFinite \<Rightarrow> False)"

definition rerank ::
  "retrieval_ports \<Rightarrow> nat \<Rightarrow> retrieval_request \<Rightarrow> fused_candidate list \<Rightarrow>
   (retrieval_error, fused_candidate list \<times> string option) result \<times> retrieval_event list" where
  "rerank p callIndex req candidates =
     (case rf_reranker (rq_profile req) of
        None \<Rightarrow> (Inr (candidates, None), [])
      | Some policy \<Rightarrow>
          (case rbind (count_tokens p (rq_query req) (rk_bindingVersionId policy) ForReranking) (\<lambda>queryTokens.
                  if queryTokens > int_of (rk_maximumInputTokens policy)
                  then Inl (RetrievalError InvalidConfiguration
                    ''The retrieval query exceeds the configured reranker token limit.'')
                  else rerank_bounded p policy queryTokens
                    (take (nat (int_of (rk_maximumCandidates policy))) candidates)) of
             Inl e \<Rightarrow> (Inl e, [])
           | Inr bounded \<Rightarrow>
               if bounded = [] then (Inr ([], None), [])
               else let call = reranker_call req policy bounded; ev = [AiCalled (rq_workspaceId req) call] in
                 (case rp_ai p callIndex (rq_workspaceId req) call of
                    Inl e \<Rightarrow> (Inl (GatewayError e), ev)
                  | Inr r \<Rightarrow> let scores = scores_of (rs_value r) in
                      if length scores \<noteq> length bounded \<or> \<not> list_all is_finite scores
                      then (Inl (RetrievalError InvalidAiResult ''The reranker gateway returned an invalid score set.''), ev)
                      else (Inr (sort_by (\<lambda>l r. compare_ranked l r \<le> 0)
                              (map (\<lambda>(c, s). c\<lparr>fc_rerankerScore := Some (finite_value s)\<rparr>) (zip bounded scores)),
                            Some (rs_operationId r)), ev))))"

definition immutable_evidence :: "fused_candidate \<Rightarrow> int \<Rightarrow> retrieval_evidence" where
  "immutable_evidence f tokenCount = (let c = dc_candidate f in
     \<lparr>re_collectionId = ca_collectionId c, re_sourceId = ca_sourceId c, re_sourceRevisionId = ca_sourceRevisionId c,
      re_chunkId = ca_chunkId c, re_location = ca_location c, re_sourceUrl = ca_sourceUrl c, re_content = ca_content c,
      re_accessMetadata = ca_accessMetadata c,
      re_scores = \<lparr>es_fusedRrf = fc_fusedRrf f, es_lexicalRrf = fc_lexicalRrf f, es_vectorRrf = fc_vectorRrf f,
        es_reranker = fc_rerankerScore f\<rparr>,
      re_characterCount = int (length (ca_content c)), re_tokenCount = tokenCount\<rparr>)"

record budget_state =
  bs_sources :: "(string \<times> int) list"
  bs_characters :: int
  bs_tokens :: int
  bs_evidence :: "retrieval_evidence list"

fun final_budgets ::
  "retrieval_ports \<Rightarrow> retrieval_profile \<Rightarrow> budget_state \<Rightarrow> fused_candidate list \<Rightarrow> (retrieval_error, retrieval_evidence list) result" where
  "final_budgets p f st [] = Inr (bs_evidence st)"
| "final_budgets p f st (c # cs) =
     (if int (length (bs_evidence st)) \<ge> int_of (ry_maximumFinalResults (rf_policy f)) then Inr (bs_evidence st)
      else let source = ca_sourceId (dc_candidate c); n = source_count (bs_sources st) source in
        if n \<ge> int_of (ql_maximumFinalResults (quota_for f source)) then final_budgets p f st cs
        else let characters = int (length (ca_content (dc_candidate c))) in
          rbind (count_tokens p (ca_content (dc_candidate c)) (rf_contextTokenBindingVersionId f) ForContext) (\<lambda>tokens.
            if bs_characters st + characters > int_of (ry_maximumCharacters (rf_policy f)) \<or>
               bs_tokens st + tokens > int_of (ry_maximumTokens (rf_policy f))
            then final_budgets p f st cs
            else final_budgets p f
              \<lparr>bs_sources = assoc_set source (n + 1) (bs_sources st), bs_characters = bs_characters st + characters,
               bs_tokens = bs_tokens st + tokens, bs_evidence = bs_evidence st @ [immutable_evidence c tokens]\<rparr> cs))"

definition apply_final_budgets ::
  "retrieval_ports \<Rightarrow> fused_candidate list \<Rightarrow> retrieval_profile \<Rightarrow> (retrieval_error, retrieval_evidence list) result" where
  "apply_final_budgets p cs f =
     final_budgets p f \<lparr>bs_sources = [], bs_characters = 0, bs_tokens = 0, bs_evidence = []\<rparr> cs"

section \<open>The query embedding\<close>

definition embedding_call :: "retrieval_request \<Rightarrow> embedding_group \<Rightarrow> ai_call" where
  "embedding_call req g =
     \<lparr>mr_kind = EmbeddingRequest (EmbeddingPayload [rq_query req] (eg_dimensions g)), mr_role = RoleEmbedding,
      mr_bindingVersionId = Some (eg_bindingVersionId g), mr_analysisId = rq_analysisId req,
      mr_attribution = rq_attribution req, mr_requiredCapabilities = None,
      mr_maximumInputTokens = Some (qe_maximumInputTokens (rf_queryEmbedding (rq_profile req))),
      mr_maximumOutputTokens = None, mr_timeoutMs = None, mr_priceContext = None,
      mr_budget = budget_of (qe_budget (rf_queryEmbedding (rq_profile req)))\<rparr>"

definition vectors_of :: "retrieval_value \<Rightarrow> js_float list list" where
  "vectors_of v = (case v of VectorsValue vs \<Rightarrow> vs | ScoresValue s \<Rightarrow> [])"

definition embedding_result ::
  "embedding_group \<Rightarrow> retrieval_value metered_result \<Rightarrow> (retrieval_error, query_embedding \<times> string) result" where
  "embedding_result g r =
     (case vectors_of (rs_value r) of
        [vector] \<Rightarrow>
          if Num (int (length vector)) \<noteq> eg_dimensions g \<or> \<not> list_all is_finite vector
          then Inl (RetrievalError InvalidAiResult ''The embedding gateway returned an incompatible query vector.'')
          else Inr (\<lparr>qv_embeddingBindingVersionId = eg_bindingVersionId g,
                     qv_embeddingProfileVersion = eg_embeddingProfileVersion g, qv_dimensions = eg_dimensions g,
                     qv_collectionIds = sort_by (\<le>) (map rc_id (eg_collections g)), qv_vector = vector\<rparr>,
                    rs_operationId r)
      | _ \<Rightarrow> Inl (RetrievalError InvalidAiResult ''The embedding gateway returned an incompatible query vector.''))"

text \<open>One callback of \<open>Promise.all\<close>: it counts the tokens, then calls the gateway.\<close>

definition embed_group ::
  "retrieval_ports \<Rightarrow> retrieval_request \<Rightarrow> nat \<Rightarrow> embedding_group \<Rightarrow>
   (retrieval_error, query_embedding \<times> string) result \<times> retrieval_event list" where
  "embed_group p req callIndex g =
     (case count_tokens p (rq_query req) (eg_bindingVersionId g) ForEmbedding of
        Inl e \<Rightarrow> (Inl e, [])
      | Inr n \<Rightarrow>
          if n > int_of (qe_maximumInputTokens (rf_queryEmbedding (rq_profile req)))
          then (Inl (RetrievalError InvalidConfiguration
            ''The retrieval query exceeds the configured embedding token limit.''), [])
          else let call = embedding_call req g in
            ((case rp_ai p callIndex (rq_workspaceId req) call of
                Inl e \<Rightarrow> Inl (GatewayError e)
              | Inr r \<Rightarrow> embedding_result g r), [AiCalled (rq_workspaceId req) call]))"

definition errors_of :: "('e, 'a) result list \<Rightarrow> 'e list" where
  "errors_of rs = concat (map (\<lambda>r. case r of Inl e \<Rightarrow> [e] | Inr a \<Rightarrow> []) rs)"

definition values_of :: "('e, 'a) result list \<Rightarrow> 'a list" where
  "values_of rs = concat (map (\<lambda>r. case r of Inl e \<Rightarrow> [] | Inr a \<Rightarrow> [a]) rs)"

text \<open>
  \<open>Promise.all\<close> starts every callback; it rejects with the rejection that settles first, which
  the timing decides (\<open>rp_first\<close>).
\<close>

definition embed_query ::
  "retrieval_ports \<Rightarrow> retrieval_request \<Rightarrow> embedding_group list \<Rightarrow>
   (retrieval_error, (query_embedding \<times> string) list) result \<times> retrieval_event list" where
  "embed_query p req groups =
     (let outcomes = map (\<lambda>(i, g). embed_group p req i g) (zip [0..<length groups] groups);
          rs = map fst outcomes; ev = concat (map snd outcomes); errs = errors_of rs
      in if errs \<noteq> [] then (Inl (errs ! (rp_first p errs mod length errs)), ev)
         else (Inr (sort_by (\<lambda>l r. qv_embeddingBindingVersionId (fst l) \<le> qv_embeddingBindingVersionId (fst r))
                 (values_of rs)), ev))"

section \<open>Retrieval\<close>

definition assert_active :: "retrieval_ports \<Rightarrow> nat \<Rightarrow> (retrieval_error, unit) result" where
  "assert_active p point =
     rassert (\<not> rp_aborted p point) (RetrievalError RetrievalCancelled ''Retrieval was cancelled.'')"

definition retrieval_snapshot_for ::
  "retrieval_request \<Rightarrow> retrieval_evidence list \<Rightarrow> (string \<times> string) list \<Rightarrow> string option \<Rightarrow> retrieval_snapshot" where
  "retrieval_snapshot_for req evidence operationIds rerankerOperationId =
     \<lparr>sn_id = rq_snapshotId req, sn_workspaceId = rq_workspaceId req, sn_analysisId = rq_analysisId req,
      sn_capturedAt = rq_capturedAt req, sn_query = rq_query req, sn_profileId = rf_id (rq_profile req),
      sn_profileVersion = rf_version (rq_profile req), sn_queryEmbeddingOperationIds = operationIds,
      sn_rerankerOperationId = rerankerOperationId, sn_evidence = evidence\<rparr>"

definition persist_snapshot ::
  "retrieval_ports \<Rightarrow> retrieval_snapshot \<Rightarrow> retrieval_event list \<Rightarrow>
   (retrieval_error, retrieval_snapshot) result \<times> retrieval_event list" where
  "persist_snapshot p snapshot ev =
     ((case rp_persist p snapshot of None \<Rightarrow> Inr snapshot | Some e \<Rightarrow> Inl e), ev @ [Persisted snapshot])"

definition maximum_candidates :: "retrieval_policy \<Rightarrow> jsnum" where
  "maximum_candidates p =
     Num (foldl max (int_of (ql_maximumCandidates (ry_defaultSourceQuota p)))
       (map (\<lambda>q. int_of (ql_maximumCandidates q)) (ry_sourceQuotas p)))"

definition search_input_for :: "retrieval_request \<Rightarrow> query_embedding list \<Rightarrow> search_input" where
  "search_input_for req vectors =
     \<lparr>si_workspaceId = rq_workspaceId req, si_query = rq_query req,
      si_collections = sort_by (\<lambda>l r. rc_id l \<le> rc_id r) (rf_collections (rq_profile req)),
      si_vectorQueries = vectors, si_authorizedSourceIds = rq_authorizedSourceIds req,
      si_metadataFilters = rq_metadataFilters req,
      si_maximumCandidatesPerSource = maximum_candidates (rf_policy (rq_profile req))\<rparr>"

definition validate_request :: "retrieval_ports \<Rightarrow> retrieval_request \<Rightarrow> (retrieval_error, unit) result" where
  "validate_request p req =
     rbind (checks
       [assert_active p 0,
        require_non_empty (rq_workspaceId req) ''Workspace ID'',
        require_non_empty (rq_query req) ''Retrieval query'',
        require_non_empty (rq_snapshotId req) ''Retrieval snapshot ID'',
        require_non_empty (rq_capturedAt req) ''Retrieval snapshot timestamp'']) (\<lambda>_.
     validate_profile (rq_profile req))"

text \<open>Everything after the search: fusion, quotas, reranking, budgets and the snapshot.\<close>

definition select_evidence ::
  "retrieval_ports \<Rightarrow> retrieval_request \<Rightarrow> (query_embedding \<times> string) list \<Rightarrow> nat \<Rightarrow> retrieval_candidate list \<Rightarrow>
   retrieval_event list \<Rightarrow> (retrieval_error, retrieval_snapshot) result \<times> retrieval_event list" where
  "select_evidence p req embeddings callIndex candidates ev =
     (let f = rq_profile req in
      case fuse (rp_round p) candidates f (rq_authorizedSourceIds req) (map rc_id (rf_collections f)) of
        Inl e \<Rightarrow> (Inl e, ev)
      | Inr fused \<Rightarrow>
          (case rerank p callIndex req (apply_candidate_quotas fused f) of
             (Inl e, ev') \<Rightarrow> (Inl e, ev @ ev')
           | (Inr (ranked, operationId), ev') \<Rightarrow>
               (case apply_final_budgets p ranked f of
                  Inl e \<Rightarrow> (Inl e, ev @ ev')
                | Inr evidence \<Rightarrow> persist_snapshot p
                    (retrieval_snapshot_for req evidence
                      (map (\<lambda>(q, operation). (qv_embeddingBindingVersionId q, operation)) embeddings) operationId)
                    (ev @ ev'))))"

definition retrieve ::
  "retrieval_ports \<Rightarrow> retrieval_request \<Rightarrow> (retrieval_error, retrieval_snapshot) result \<times> retrieval_event list" where
  "retrieve p req =
     (case validate_request p req of
        Inl e \<Rightarrow> (Inl e, [])
      | Inr _ \<Rightarrow>
          if rq_authorizedSourceIds req = [] then persist_snapshot p (retrieval_snapshot_for req [] [] None) []
          else (case groups_for (rq_profile req) of
            Inl e \<Rightarrow> (Inl e, [])
          | Inr groups \<Rightarrow>
              (case embed_query p req groups of
                 (Inl e, ev) \<Rightarrow> (Inl e, ev)
               | (Inr embeddings, ev) \<Rightarrow>
                   (case assert_active p 1 of
                      Inl e \<Rightarrow> (Inl e, ev)
                    | Inr _ \<Rightarrow>
                        let input = search_input_for req (map fst embeddings); ev1 = ev @ [Searched input] in
                        (case rp_search p input of
                           Inl e \<Rightarrow> (Inl e, ev1)
                         | Inr candidates \<Rightarrow>
                             (case assert_active p 2 of
                                Inl e \<Rightarrow> (Inl e, ev1)
                              | Inr _ \<Rightarrow> select_evidence p req embeddings (length groups) candidates ev1))))))"

end
