(* ===== verification/Retrieval_Properties.thy ===== *)
theory Retrieval_Properties
  imports Retrieval
begin

text \<open>
  What a retrieval guarantees: the fusion agrees with a reference definition by groups and minima and is
  ordered strictly, the evidence of a snapshot stays within authorization, quotas and budgets, and the
  calls of a retrieval are those the profile allows.
\<close>

section \<open>The orders of the candidates\<close>

definition candidate_rank :: "retrieval_candidate \<Rightarrow> string \<times> string \<times> string \<times> string" where
  "candidate_rank c = (ca_collectionId c, ca_sourceId c, ca_sourceRevisionId c, ca_chunkId c)"

definition fused_rank :: "'a fused_candidate_scheme \<Rightarrow> rat \<times> string \<times> string \<times> string \<times> string" where
  "fused_rank f = (- fc_fusedRrf f, candidate_rank (dc_candidate f))"

definition reranked_rank :: "fused_candidate \<Rightarrow> rat \<times> rat \<times> string \<times> string \<times> string \<times> string" where
  "reranked_rank f = (- score_or_zero (fc_rerankerScore f), fused_rank f)"

lemma compare_text_signs:
  "compare_text l r \<le> 0 \<longleftrightarrow> l \<le> r" "compare_text l r = 0 \<longleftrightarrow> l = r" "compare_text l r < 0 \<longleftrightarrow> l < r"
  by (auto simp: compare_text_def)

lemma compare_fused_le: "compare_fused l r \<le> 0 \<longleftrightarrow> fused_rank l \<le> fused_rank r"
proof -
  have texts: "(if compare_text a b \<noteq> 0 then compare_text a b else x) \<le> 0 \<longleftrightarrow> a < b \<or> a = b \<and> x \<le> 0" for a b x
    by (auto simp: compare_text_def)
  have score: "(if descending a b \<noteq> 0 then descending a b else x) \<le> 0 \<longleftrightarrow> b < a \<or> a = b \<and> x \<le> 0" for a b x
    by (auto simp: descending_def)
  show ?thesis
    unfolding compare_fused_def Let_def score texts compare_text_signs(1) fused_rank_def candidate_rank_def
    by (auto simp: less_eq_prod_def less_prod_def)
qed

lemma compare_ranked_le: "compare_ranked l r \<le> 0 \<longleftrightarrow> reranked_rank l \<le> reranked_rank r"
proof -
  have score: "(if descending a b \<noteq> 0 then descending a b else x) \<le> 0 \<longleftrightarrow> b < a \<or> a = b \<and> x \<le> 0" for a b x
    by (auto simp: descending_def)
  show ?thesis
    unfolding compare_ranked_def Let_def score compare_fused_le reranked_rank_def
    by (auto simp: less_eq_prod_def)
qed

interpretation fusion_order: sort_order "\<lambda>l r :: fused_candidate. compare_fused l r \<le> 0"
  unfolding compare_fused_le by unfold_locales auto

interpretation rerank_order: sort_order "\<lambda>l r :: fused_candidate. compare_ranked l r \<le> 0"
  unfolding compare_ranked_le by unfold_locales auto

section \<open>The reference definition of the fusion\<close>

definition best_rank :: "int list \<Rightarrow> int option" where
  "best_rank rs = (if rs = [] then None else Some (Min (set rs)))"

definition ranks_of :: "(retrieval_candidate \<Rightarrow> jsnum option) \<Rightarrow> retrieval_candidate list \<Rightarrow> int list" where
  "ranks_of sel cs = concat (map (\<lambda>c. case sel c of None \<Rightarrow> [] | Some r \<Rightarrow> [int_of r]) cs)"

definition merged :: "retrieval_candidate list \<Rightarrow> string \<Rightarrow> ranked_candidate" where
  "merged cs key = (let same = filter (\<lambda>c. candidate_key c = key) cs in
     \<lparr>dc_candidate = hd same, dc_lexicalRank = best_rank (ranks_of ca_lexicalRank same),
      dc_vectorRank = best_rank (ranks_of ca_vectorRank same)\<rparr>)"

definition fuse_reference ::
  "(rat \<Rightarrow> rat) \<Rightarrow> retrieval_policy \<Rightarrow> retrieval_candidate list \<Rightarrow> fused_candidate list" where
  "fuse_reference rnd p cs =
     sort_by (\<lambda>l r. compare_fused l r \<le> 0) (map (\<lambda>key. fused_of rnd p (merged cs key)) (remdups (map candidate_key cs)))"

lemma best_rank_snoc: "best_rank (rs @ [r]) = better_rank (Some r) (best_rank rs)"
proof (cases "rs = []")
  case True
  then show ?thesis by (simp add: best_rank_def better_rank_def)
next
  case False
  then have "Min (insert r (set rs)) = min r (Min (set rs))" by simp
  moreover have "better_rank (Some r) (Some m) = Some (min r m)" for m by (simp add: better_rank_def)
  ultimately show ?thesis using False by (simp add: best_rank_def)
qed

lemma ranks_of_snoc:
  "best_rank (ranks_of sel (cs @ [c])) = better_rank (map_option int_of (sel c)) (best_rank (ranks_of sel cs))"
  by (cases "sel c") (simp_all add: ranks_of_def best_rank_snoc better_rank_def)

lemma merged_snoc:
  "merged (cs @ [c]) key =
     (if candidate_key c \<noteq> key then merged cs key
      else if key \<notin> set (map candidate_key cs)
      then \<lparr>dc_candidate = c, dc_lexicalRank = map_option int_of (ca_lexicalRank c),
            dc_vectorRank = map_option int_of (ca_vectorRank c)\<rparr>
      else (merged cs key)\<lparr>dc_lexicalRank := better_rank (map_option int_of (ca_lexicalRank c)) (dc_lexicalRank (merged cs key)),
                          dc_vectorRank := better_rank (map_option int_of (ca_vectorRank c)) (dc_vectorRank (merged cs key))\<rparr>)"
proof -
  have none: "best_rank (ranks_of sel [c]) = map_option int_of (sel c)" for sel
    by (cases "sel c") (simp_all add: ranks_of_def best_rank_def)
  have "filter (\<lambda>c. candidate_key c = key) cs = [] \<longleftrightarrow> key \<notin> set (map candidate_key cs)"
    by (auto simp: filter_empty_conv)
  then show ?thesis
    by (cases "filter (\<lambda>c. candidate_key c = key) cs = []")
      (simp_all add: merged_def Let_def ranks_of_snoc none)
qed

lemma merged_candidate:
  assumes "key \<in> set (map candidate_key cs)"
  shows "dc_candidate (merged cs key) \<in> set cs \<and> candidate_key (dc_candidate (merged cs key)) = key"
proof -
  have "filter (\<lambda>c. candidate_key c = key) cs \<noteq> []" using assms by (auto simp: filter_empty_conv)
  then have "hd (filter (\<lambda>c. candidate_key c = key) cs) \<in> set (filter (\<lambda>c. candidate_key c = key) cs)" by (rule hd_in_set)
  then show ?thesis by (simp add: merged_def Let_def)
qed

text \<open>Keys in the order in which they first occur, the order of the map.\<close>

definition key_order :: "retrieval_candidate list \<Rightarrow> string list" where
  "key_order cs = rev (remdups (rev (map candidate_key cs)))"

lemma key_order_snoc:
  "key_order (cs @ [c]) =
     (if candidate_key c \<in> set (map candidate_key cs) then key_order cs else key_order cs @ [candidate_key c])"
  by (simp add: key_order_def)

lemma set_key_order: "set (key_order cs) = set (map candidate_key cs)" by (simp add: key_order_def)

lemma distinct_key_order: "distinct (key_order cs)" by (simp add: key_order_def)

lemma map_of_keys: "map_of (map (\<lambda>k. (k, g k)) ks) k = (if k \<in> set ks then Some (g k) else None)"
  by (induction ks) auto

lemma assoc_set_keys:
  "distinct ks \<Longrightarrow> assoc_set k v (map (\<lambda>k. (k, g k)) ks) =
     (if k \<in> set ks then map (\<lambda>k'. (k', if k' = k then v else g k')) ks else map (\<lambda>k. (k, g k)) ks @ [(k, v)])"
  by (induction ks) auto

definition merged_map :: "retrieval_candidate list \<Rightarrow> (string \<times> ranked_candidate) list" where
  "merged_map cs = map (\<lambda>k. (k, merged cs k)) (key_order cs)"

text \<open>No two candidates with one identity carry different evidence.\<close>

definition consistent :: "retrieval_candidate list \<Rightarrow> bool" where
  "consistent cs \<longleftrightarrow> (\<forall>c \<in> set cs. \<forall>d \<in> set cs. candidate_key c = candidate_key d \<longrightarrow> same_evidence c d)"

lemma consistent_snoc:
  assumes "consistent cs"
  shows "consistent (cs @ [c]) \<longleftrightarrow>
    candidate_key c \<notin> set (map candidate_key cs) \<or> same_evidence (dc_candidate (merged cs (candidate_key c))) c"
proof (cases "candidate_key c \<in> set (map candidate_key cs)")
  case True
  let ?h = "dc_candidate (merged cs (candidate_key c))"
  have h: "?h \<in> set cs" "candidate_key ?h = candidate_key c" using merged_candidate [OF True] by simp_all
  have sym: "same_evidence a b = same_evidence b a" for a b by (auto simp: same_evidence_def)
  have trans: "same_evidence a b \<Longrightarrow> same_evidence b d \<Longrightarrow> same_evidence a d" for a b d by (simp add: same_evidence_def)
  have "same_evidence c d" if "same_evidence ?h c" "d \<in> set cs" "candidate_key d = candidate_key c" for d
  proof -
    have "same_evidence ?h d" using assms h that(2,3) unfolding consistent_def by metis
    then show ?thesis using that(1) sym trans by blast
  qed
  moreover have "same_evidence c c" by (simp add: same_evidence_def)
  ultimately show ?thesis using True assms h sym unfolding consistent_def by (auto; metis)
next
  case False
  moreover have "same_evidence c c" by (simp add: same_evidence_def)
  moreover have "candidate_key d \<noteq> candidate_key c" if "d \<in> set cs" for d
    using False that by (metis imageI list.set_map)
  ultimately show ?thesis using assms unfolding consistent_def by (auto simp: eq_commute)
qed

lemma fuse_step_merged:
  assumes "consistent cs"
  shows "fuse_step authorized selected (merged_map cs) c =
    rbind (validate_candidate c) (\<lambda>_.
      if \<not> accepted authorized selected c then Inr (merged_map cs)
      else if \<not> consistent (cs @ [c])
      then Inl (RetrievalError InvalidCandidate ''Duplicate candidate identities must contain identical immutable evidence.'')
      else Inr (merged_map (cs @ [c])))"
proof -
  let ?k = "candidate_key c"
  have look: "map_of (merged_map cs) ?k = (if ?k \<in> set (map candidate_key cs) then Some (merged cs ?k) else None)"
    unfolding merged_map_def map_of_keys set_key_order ..
  have set_fresh: "assoc_set ?k v (merged_map cs) = merged_map cs @ [(?k, v)]" if "?k \<notin> set (map candidate_key cs)" for v
    using that by (simp add: merged_map_def assoc_set_keys distinct_key_order set_key_order)
  have set_old: "assoc_set ?k v (merged_map cs) = map (\<lambda>k. (k, if k = ?k then v else merged cs k)) (key_order cs)"
    if "?k \<in> set (map candidate_key cs)" for v
    using that by (simp add: merged_map_def assoc_set_keys distinct_key_order set_key_order)
  have step: "merged_map (cs @ [c]) =
      (if ?k \<in> set (map candidate_key cs)
       then map (\<lambda>k. (k, if k = ?k then merged (cs @ [c]) ?k else merged cs k)) (key_order cs)
       else merged_map cs @ [(?k, merged (cs @ [c]) ?k)])"
    using set_key_order [of cs] unfolding merged_map_def key_order_snoc by (auto simp: merged_snoc)
  show ?thesis
  proof (cases "?k \<in> set (map candidate_key cs)")
    case True
    then have m: "merged (cs @ [c]) ?k = (merged cs ?k)
        \<lparr>dc_lexicalRank := better_rank (map_option int_of (ca_lexicalRank c)) (dc_lexicalRank (merged cs ?k)),
         dc_vectorRank := better_rank (map_option int_of (ca_vectorRank c)) (dc_vectorRank (merged cs ?k))\<rparr>"
      by (simp add: merged_snoc)
    then show ?thesis
      using True unfolding fuse_step_def look consistent_snoc [OF assms] step m
      by (simp add: set_old Let_def)
  next
    case False
    then show ?thesis
      unfolding fuse_step_def look consistent_snoc [OF assms] step
      by (simp add: set_fresh merged_snoc Let_def)
  qed
qed

lemma rbind_Inr_right: "rbind r Inr = r"
  by (cases r) simp_all

lemma rfold_snoc: "rfold f s (xs @ [x]) = rbind (rfold f s xs) (\<lambda>t. f t x)"
  by (simp add: rfold_append rbind_Inr_right)

lemma fuse_fold:
  "rfold (fuse_step authorized selected) [] cs = Inr m \<longleftrightarrow>
     (\<forall>c \<in> set cs. validate_candidate c = Inr ()) \<and> consistent (filter (accepted authorized selected) cs) \<and>
     m = merged_map (filter (accepted authorized selected) cs)"
proof (induction cs arbitrary: m rule: rev_induct)
  case Nil
  then show ?case by (auto simp: consistent_def merged_map_def key_order_def)
next
  case (snoc c cs)
  let ?acc = "filter (accepted authorized selected)"
  have sub: "consistent (?acc cs)" if "consistent (?acc (cs @ [c]))"
    using that by (auto simp: consistent_def split: if_splits)
  show ?case
  proof (cases "(\<forall>c \<in> set cs. validate_candidate c = Inr ()) \<and> consistent (?acc cs)")
    case True
    then have fold: "rfold (fuse_step authorized selected) [] cs = Inr (merged_map (?acc cs))" using snoc by blast
    show ?thesis
      unfolding rfold_snoc fold rbind.simps fuse_step_merged [OF conjunct2 [OF True]]
      using True by (auto simp: rbind_Inr_iff)
  next
    case False
    then have "\<not> (\<exists>m. rfold (fuse_step authorized selected) [] cs = Inr m)" using snoc by blast
    then show ?thesis
      using False sub unfolding rfold_snoc rbind_Inr_iff by auto
  qed
qed

lemma fused_rank_of: "fused_rank (fused_of rnd p item) = (- fc_fusedRrf (fused_of rnd p item), candidate_rank (dc_candidate item))"
  by (simp add: fused_rank_def fused_of_def Let_def)

lemma candidate_key_rank: "candidate_rank c = candidate_rank d \<Longrightarrow> candidate_key c = candidate_key d"
  by (simp add: candidate_rank_def candidate_key_def)

lemma fused_candidates_distinct:
  assumes "k \<in> set (map candidate_key cs)" and "k' \<in> set (map candidate_key cs)"
    and "fused_rank (fused_of rnd p (merged cs k)) = fused_rank (fused_of rnd p (merged cs k'))"
  shows "k = k'"
proof -
  have "candidate_rank (dc_candidate (merged cs k)) = candidate_rank (dc_candidate (merged cs k'))"
    using assms(3) unfolding fused_rank_of by (rule Pair_inject)
  then have "candidate_key (dc_candidate (merged cs k)) = candidate_key (dc_candidate (merged cs k'))"
    by (rule candidate_key_rank)
  then show ?thesis using merged_candidate [OF assms(1)] merged_candidate [OF assms(2)] by simp
qed

lemma fused_sorted_strictly:
  "sorted_wrt (\<lambda>l r. fused_rank l < fused_rank r) (fuse_reference rnd p cs)"
proof -
  let ?fs = "map (\<lambda>key. fused_of rnd p (merged cs key)) (remdups (map candidate_key cs))"
  have "sorted_wrt (\<lambda>l r. fused_rank l \<le> fused_rank r) (fuse_reference rnd p cs)"
    using fusion_order.sort_sorted [of ?fs] unfolding fuse_reference_def compare_fused_le .
  then have le: "sorted (map fused_rank (fuse_reference rnd p cs))" by (simp add: sorted_wrt_map)
  have inj: "inj_on (\<lambda>k. fused_rank (fused_of rnd p (merged cs k))) (set (map candidate_key cs))"
    by (rule inj_onI) (rule fused_candidates_distinct)
  have "distinct (map fused_rank ?fs)"
    unfolding map_map comp_def distinct_map set_remdups using inj by simp
  then have "distinct ?fs \<and> inj_on fused_rank (set ?fs)" unfolding distinct_map [of fused_rank] .
  then have "distinct (map fused_rank (fuse_reference rnd p cs))"
    unfolding distinct_map [of fused_rank] fuse_reference_def by (simp only: distinct_sort_by set_sort_by)
  then have "sorted_wrt (<) (map fused_rank (fuse_reference rnd p cs))"
    unfolding strict_sorted_iff using le by simp
  then show ?thesis by (simp add: sorted_wrt_map)
qed

lemma sort_merged_map:
  "sort_by (\<lambda>l r. compare_fused l r \<le> 0) (map (\<lambda>e. fused_of rnd p (snd e)) (merged_map cs)) = fuse_reference rnd p cs"
  unfolding fuse_reference_def
proof (rule fusion_order.sort_unique)
  let ?g = "\<lambda>k. fused_of rnd p (merged cs k)"
  have ms: "mset (key_order cs) = mset (remdups (map candidate_key cs))"
    by (rule set_eq_iff_mset_eq_distinct [THEN iffD1]) (simp_all add: distinct_key_order set_key_order)
  have eq: "map (\<lambda>e. fused_of rnd p (snd e)) (merged_map cs) = map ?g (key_order cs)"
    by (simp add: merged_map_def)
  show "mset (map (\<lambda>e. fused_of rnd p (snd e)) (merged_map cs)) = mset (map ?g (remdups (map candidate_key cs)))"
    unfolding eq mset_map ms ..
  show "x = y" if xy: "x \<in> set (map (\<lambda>e. fused_of rnd p (snd e)) (merged_map cs))"
    "y \<in> set (map (\<lambda>e. fused_of rnd p (snd e)) (merged_map cs))" "compare_fused x y \<le> 0" "compare_fused y x \<le> 0" for x y
  proof -
    obtain k k' where k: "x = ?g k" "k \<in> set (map candidate_key cs)" and k': "y = ?g k'" "k' \<in> set (map candidate_key cs)"
      using xy(1,2) unfolding eq set_map set_key_order [unfolded set_map] by auto
    have "fused_rank x = fused_rank y" using xy(3,4) unfolding compare_fused_le by (rule antisym)
    then show ?thesis using fused_candidates_distinct k k' by metis
  qed
qed

text \<open>
  C25: the incremental fusion agrees with its specification.  It succeeds exactly if every candidate is well
  formed and accepted candidates of one identity carry the same evidence, and then its result is the
  reference: one entry per identity of the accepted candidates (active, authorized source, selected
  collection), with the smallest lexical and the smallest vector rank of the group, scored by reciprocal rank fusion
  and strictly ordered by descending score and then by identity, so the order never depends on the order
  in which the database returned the candidates.
\<close>

theorem fusion_is_reference:
  "(fuse rnd cs f authorized selected = Inr fs \<longleftrightarrow>
      list_all (\<lambda>c. validate_candidate c = Inr ()) cs \<and> consistent (filter (accepted authorized selected) cs) \<and>
      fs = fuse_reference rnd (rf_policy f) (filter (accepted authorized selected) cs)) \<and>
   sorted_wrt (\<lambda>l r. fused_rank l < fused_rank r)
     (fuse_reference rnd (rf_policy f) (filter (accepted authorized selected) cs))"
  using fused_sorted_strictly
  by (auto simp: fuse_def rbind_Inr_iff fuse_fold sort_merged_map list_all_iff)

section \<open>Quotas and budgets\<close>

lemma checks_Inr: "checks cs = Inr u \<longleftrightarrow> list_all (\<lambda>c. c = Inr ()) cs"
  by (induction cs) (auto simp: rbind_Inr_iff)

lemma require_Inr:
  "require_positive_integer v d = Inr u \<longleftrightarrow> is_safe_integer v \<and> 1 \<le> int_of v"
  "require_non_negative_integer v d = Inr u \<longleftrightarrow> is_safe_integer v \<and> 0 \<le> int_of v"
  "require_non_empty s d = Inr u \<longleftrightarrow> s \<noteq> []"
  by (auto simp: require_positive_integer_def require_non_negative_integer_def require_non_empty_def rassert_def)

lemma count_tokens_Inr:
  "count_tokens p text binding purpose = Inr n \<Longrightarrow> n = int_of (rp_count p text binding purpose) \<and> 0 \<le> n"
  by (auto simp: count_tokens_def Let_def rbind_Inr_iff require_Inr)

lemma validated_quotas:
  "rfold validate_quota sources qs = Inr r \<Longrightarrow> q \<in> set qs \<Longrightarrow>
   1 \<le> int_of (ql_maximumCandidates q) \<and> 1 \<le> int_of (ql_maximumFinalResults q)"
  by (induction qs arbitrary: sources)
    (auto simp: validate_quota_def rbind_Inr_iff checks_Inr require_Inr)

lemma valid_profile_limits:
  assumes "validate_profile f = Inr u"
  shows "1 \<le> int_of (ry_maximumFinalResults (rf_policy f))" "0 \<le> int_of (ry_maximumCharacters (rf_policy f))"
    "0 \<le> int_of (ry_maximumTokens (rf_policy f))"
    "1 \<le> int_of (ql_maximumCandidates (quota_for f s))" "1 \<le> int_of (ql_maximumFinalResults (quota_for f s))"
proof -
  obtain r where q: "rfold validate_quota [] (ry_sourceQuotas (rf_policy f)) = Inr r"
    using assms by (auto simp: validate_profile_def Let_def rbind_Inr_iff)
  show "1 \<le> int_of (ry_maximumFinalResults (rf_policy f))" "0 \<le> int_of (ry_maximumCharacters (rf_policy f))"
    "0 \<le> int_of (ry_maximumTokens (rf_policy f))"
    using assms by (auto simp: validate_profile_def Let_def rbind_Inr_iff checks_Inr require_Inr)
  have default: "1 \<le> int_of (ql_maximumCandidates (ry_defaultSourceQuota (rf_policy f)))"
      "1 \<le> int_of (ql_maximumFinalResults (ry_defaultSourceQuota (rf_policy f)))"
    using assms by (auto simp: validate_profile_def Let_def rbind_Inr_iff checks_Inr require_Inr)
  have over: "find P (ry_sourceQuotas (rf_policy f)) = Some x \<Longrightarrow> x \<in> set (ry_sourceQuotas (rf_policy f))" for P x
    by (auto simp: find_Some_iff)
  show "1 \<le> int_of (ql_maximumCandidates (quota_for f s))" "1 \<le> int_of (ql_maximumFinalResults (quota_for f s))"
    using default validated_quotas [OF q over]
    by (auto simp: quota_for_def quota_limits.truncate_def split: option.splits)
qed

lemma quota_filter_subseq: "subseq (quota_filter f counts cs) cs"
  by (induction cs arbitrary: counts) (auto simp: Let_def)

lemma rerank_bounded_subseq: "rerank_bounded p policy n cs = Inr kept \<Longrightarrow> subseq kept cs"
  by (induction cs arbitrary: n kept) (auto simp: rbind_Inr_iff split: if_splits)

lemma zip_scores: "length ss = length cs \<Longrightarrow>
  map dc_candidate (map (\<lambda>(c, s). c\<lparr>fc_rerankerScore := Some (finite_value s)\<rparr>) (zip cs ss)) = map dc_candidate cs"
  by (induction cs ss rule: list_induct2') auto

lemma rerank_kept:
  assumes "rerank p n req cs = (Inr (ranked, operation), ev)"
  shows "\<exists>kept. subseq kept cs \<and> mset (map dc_candidate ranked) = mset (map dc_candidate kept)"
proof (cases "rf_reranker (rq_profile req)")
  case None
  then show ?thesis using assms by (auto simp: rerank_def)
next
  case (Some policy)
  let ?taken = "take (nat (int_of (rk_maximumCandidates policy))) cs"
  obtain n kept where kept: "rerank_bounded p policy n ?taken = Inr kept"
    and ranked: "ranked = [] \<and> kept = [] \<or> (\<exists>ss. length ss = length kept \<and>
      ranked = sort_by (\<lambda>l r. compare_ranked l r \<le> 0)
        (map (\<lambda>(c, s). c\<lparr>fc_rerankerScore := Some (finite_value s)\<rparr>) (zip kept ss)))"
    using assms Some unfolding rerank_def
    by (auto simp: rbind_Inr_iff Let_def split: sum.splits if_splits)
  have "subseq kept cs"
    using rerank_bounded_subseq [OF kept] subseq_order.trans prefix_imp_subseq take_is_prefix by blast
  moreover have "mset (map dc_candidate ranked) = mset (map dc_candidate kept)"
  proof -
    have sorted: "mset (map dc_candidate (sort_by le xs)) = mset (map dc_candidate xs)" for le and xs :: "fused_candidate list"
      by (simp only: mset_map mset_sort_by)
    from ranked show ?thesis
    proof (elim disjE exE conjE)
      fix ss
      assume "length ss = length kept" and "ranked = sort_by (\<lambda>l r. compare_ranked l r \<le> 0)
        (map (\<lambda>(c, s). c\<lparr>fc_rerankerScore := Some (finite_value s)\<rparr>) (zip kept ss))"
      then show ?thesis by (simp only: sorted zip_scores)
    qed simp
  qed
  ultimately show ?thesis by blast
qed

text \<open>The state of the budget loop, consistent with the evidence it has collected.\<close>

definition within_budgets :: "retrieval_ports \<Rightarrow> retrieval_profile \<Rightarrow> retrieval_evidence list \<Rightarrow> bool" where
  "within_budgets p f es \<longleftrightarrow>
     int (length es) \<le> int_of (ry_maximumFinalResults (rf_policy f)) \<and>
     (\<Sum>e\<leftarrow>es. int (length (re_content e))) \<le> int_of (ry_maximumCharacters (rf_policy f)) \<and>
     (\<Sum>e\<leftarrow>es. re_tokenCount e) \<le> int_of (ry_maximumTokens (rf_policy f)) \<and>
     list_all (\<lambda>e. re_tokenCount e = int_of (rp_count p (re_content e) (rf_contextTokenBindingVersionId f) ForContext) \<and>
       re_characterCount e = int (length (re_content e))) es \<and>
     (\<forall>source. int (length (filter (\<lambda>e. re_sourceId e = source) es)) \<le>
       int_of (ql_maximumFinalResults (quota_for f source)))"

definition budget_counts :: "budget_state \<Rightarrow> bool" where
  "budget_counts st \<longleftrightarrow>
     bs_characters st = (\<Sum>e\<leftarrow>bs_evidence st. int (length (re_content e))) \<and>
     bs_tokens st = (\<Sum>e\<leftarrow>bs_evidence st. re_tokenCount e) \<and>
     (\<forall>source. source_count (bs_sources st) source =
        int (length (filter (\<lambda>e. re_sourceId e = source) (bs_evidence st))))"

lemma source_count_set: "source_count (assoc_set s n counts) s' = (if s' = s then n else source_count counts s')"
  by (simp add: source_count_def map_of_assoc_set)

lemma immutable_evidence_fields:
  "re_content (immutable_evidence c n) = ca_content (dc_candidate c)"
  "re_sourceId (immutable_evidence c n) = ca_sourceId (dc_candidate c)"
  "re_tokenCount (immutable_evidence c n) = n"
  "re_characterCount (immutable_evidence c n) = int (length (ca_content (dc_candidate c)))"
  by (simp_all add: immutable_evidence_def Let_def)

lemma final_budgets_within:
  "\<lbrakk>final_budgets p f st cs = Inr es; budget_counts st; within_budgets p f (bs_evidence st)\<rbrakk> \<Longrightarrow>
   within_budgets p f es \<and>
   (\<exists>kept. subseq (map fst kept) cs \<and> es = bs_evidence st @ map (\<lambda>(c, n). immutable_evidence c n) kept)"
proof (induction p f st cs rule: final_budgets.induct)
  case (1 p f st)
  then show ?case by (intro conjI exI [of _ "[]"]) auto
next
  case (2 p f st c cs)
  let ?source = "ca_sourceId (dc_candidate c)"
  let ?n = "source_count (bs_sources st) ?source"
  let ?chars = "int (length (ca_content (dc_candidate c)))"
  show ?case
  proof (cases "int (length (bs_evidence st)) \<ge> int_of (ry_maximumFinalResults (rf_policy f))")
    case True
    then show ?thesis using "2.prems" by (intro conjI exI [of _ "[]"]) auto
  next
    case more: False
    show ?thesis
    proof (cases "?n \<ge> int_of (ql_maximumFinalResults (quota_for f ?source))")
      case True
      then have "final_budgets p f st cs = Inr es" using "2.prems"(1) more by (simp add: Let_def)
      then show ?thesis using "2.IH"(1) [OF more refl refl True _ "2.prems"(2,3)] by auto
    next
      case quota: False
      obtain k where k: "count_tokens p (ca_content (dc_candidate c)) (rf_contextTokenBindingVersionId f) ForContext = Inr k"
        using "2.prems"(1) more quota by (auto simp: Let_def rbind_Inr_iff)
      note kn = count_tokens_Inr [OF k]
      show ?thesis
      proof (cases "bs_characters st + ?chars > int_of (ry_maximumCharacters (rf_policy f)) \<or>
          bs_tokens st + k > int_of (ry_maximumTokens (rf_policy f))")
        case True
        then have "final_budgets p f st cs = Inr es" using "2.prems"(1) more quota k by (simp add: Let_def)
        then show ?thesis using "2.IH"(2) [OF more refl refl quota refl True _ "2.prems"(2,3)] by auto
      next
        case fits: False
        let ?st = "\<lparr>bs_sources = assoc_set ?source (?n + 1) (bs_sources st), bs_characters = bs_characters st + ?chars,
          bs_tokens = bs_tokens st + k, bs_evidence = bs_evidence st @ [immutable_evidence c k]\<rparr>"
        have rest: "final_budgets p f ?st cs = Inr es" using "2.prems"(1) more quota k fits by (simp add: Let_def)
        have counts: "budget_counts ?st"
          using "2.prems"(2) by (auto simp: budget_counts_def source_count_set immutable_evidence_fields)
        have within: "within_budgets p f (bs_evidence ?st)"
          using "2.prems"(2,3) more quota fits kn
          by (auto simp: within_budgets_def budget_counts_def immutable_evidence_fields)
        from "2.IH"(3) [OF more refl refl quota refl fits rest counts within]
        obtain kept where kept: "within_budgets p f es" "subseq (map fst kept) cs"
          "es = bs_evidence ?st @ map (\<lambda>(c, n). immutable_evidence c n) kept" by blast
        then show ?thesis by (intro conjI exI [of _ "(c, k) # kept"]) auto
      qed
    qed
  qed
qed

section \<open>The evidence of a snapshot\<close>

definition evidence_identity :: "retrieval_evidence \<Rightarrow> string \<times> string \<times> string \<times> string" where
  "evidence_identity e = (re_collectionId e, re_sourceId e, re_sourceRevisionId e, re_chunkId e)"

definition evidence_from :: "retrieval_candidate \<Rightarrow> retrieval_evidence \<Rightarrow> bool" where
  "evidence_from c e \<longleftrightarrow>
     evidence_identity e = candidate_rank c \<and> re_location e = ca_location c \<and> re_sourceUrl e = ca_sourceUrl c \<and>
     re_content e = ca_content c \<and> re_accessMetadata e = ca_accessMetadata c"

lemma immutable_evidence_from: "evidence_from (dc_candidate c) (immutable_evidence c n)"
  by (simp add: evidence_from_def evidence_identity_def candidate_rank_def immutable_evidence_def Let_def)

lemma fused_candidates:
  assumes "fuse rnd cs f authorized selected = Inr fs"
  shows "set (map dc_candidate fs) \<subseteq> set (filter (accepted authorized selected) cs)"
    and "distinct (map (candidate_rank \<circ> dc_candidate) fs)"
proof -
  let ?acc = "filter (accepted authorized selected) cs"
  let ?g = "\<lambda>key. fused_of rnd (rf_policy f) (merged ?acc key)"
  have fs: "fs = fuse_reference rnd (rf_policy f) ?acc"
    using assms by (auto simp: fuse_def rbind_Inr_iff fuse_fold sort_merged_map)
  have cand: "dc_candidate (?g k) = dc_candidate (merged ?acc k)" for k by (simp add: fused_of_def Let_def)
  show "set (map dc_candidate fs) \<subseteq> set ?acc"
    unfolding fs fuse_reference_def set_map set_sort_by set_remdups
    using merged_candidate [of _ ?acc] cand by auto
  have "inj_on (\<lambda>k. candidate_rank (dc_candidate (?g k))) (set (map candidate_key ?acc))"
    by (rule inj_onI) (metis cand candidate_key_rank merged_candidate)
  then have "distinct (map (candidate_rank \<circ> dc_candidate) (map ?g (remdups (map candidate_key ?acc))))"
    unfolding map_map distinct_map set_remdups by (simp add: comp_def)
  moreover have "mset (map (candidate_rank \<circ> dc_candidate) fs) =
      mset (map (candidate_rank \<circ> dc_candidate) (map ?g (remdups (map candidate_key ?acc))))"
    unfolding fs fuse_reference_def mset_map mset_sort_by ..
  ultimately show "distinct (map (candidate_rank \<circ> dc_candidate) fs)" using mset_eq_imp_distinct_iff by blast
qed

lemma subseq_distinct: "subseq xs ys \<Longrightarrow> distinct ys \<Longrightarrow> distinct xs"
  by (induction rule: list_emb.induct) (auto dest: list_emb_set)

lemma subseq_set: "subseq xs ys \<Longrightarrow> set xs \<subseteq> set ys"
  by (auto dest: list_emb_set)

lemma subseq_image: "subseq xs ys \<Longrightarrow> subseq (map g xs) (map g ys)"
  by (rule subseq_map)

lemma select_evidence_sound:
  assumes "select_evidence p req embeddings n cs ev0 = (Inr snap, ev)"
    and valid: "validate_profile (rq_profile req) = Inr u"
  shows "within_budgets p (rq_profile req) (sn_evidence snap) \<and> distinct (map evidence_identity (sn_evidence snap)) \<and>
    list_all (\<lambda>e. \<exists>c \<in> set cs. evidence_from c e \<and>
      accepted (rq_authorizedSourceIds req) (map rc_id (rf_collections (rq_profile req))) c) (sn_evidence snap) \<and>
    (\<exists>ev'. ev = ev0 @ ev')"
proof -
  let ?f = "rq_profile req"
  let ?accepted = "accepted (rq_authorizedSourceIds req) (map rc_id (rf_collections ?f))"
  obtain fs where fuse: "fuse (rp_round p) cs ?f (rq_authorizedSourceIds req) (map rc_id (rf_collections ?f)) = Inr fs"
    using assms(1) by (cases "fuse (rp_round p) cs ?f (rq_authorizedSourceIds req) (map rc_id (rf_collections ?f))")
      (auto simp: select_evidence_def Let_def)
  obtain ranked op ev' where rerank: "rerank p n req (apply_candidate_quotas fs ?f) = (Inr (ranked, op), ev')"
    using assms(1) fuse by (auto simp: select_evidence_def Let_def split: prod.splits sum.splits)
  obtain es where es: "apply_final_budgets p ranked ?f = Inr es"
    using assms(1) fuse rerank by (auto simp: select_evidence_def Let_def split: sum.splits)
  have snap: "sn_evidence snap = es" and ev: "\<exists>ev'. ev = ev0 @ ev'"
    using assms(1) fuse rerank es
    by (auto simp: select_evidence_def Let_def persist_snapshot_def retrieval_snapshot_for_def split: option.splits)
  let ?st = "\<lparr>bs_sources = [], bs_characters = 0, bs_tokens = 0, bs_evidence = []\<rparr>"
  have st: "budget_counts ?st" "within_budgets p ?f (bs_evidence ?st)"
    using valid_profile_limits [OF valid] by (auto simp: budget_counts_def source_count_def within_budgets_def intro: order.trans [of _ 1])
  obtain kept where within: "within_budgets p ?f es" and sub: "subseq (map fst kept) ranked"
    and es_kept: "es = map (\<lambda>(c, n). immutable_evidence c n) kept"
    using final_budgets_within [OF es [unfolded apply_final_budgets_def] st] by auto
  obtain kept2 where sub2: "subseq kept2 (apply_candidate_quotas fs ?f)"
    and perm: "mset (map dc_candidate ranked) = mset (map dc_candidate kept2)"
    using rerank_kept [OF rerank] by blast
  have sub3: "subseq kept2 fs"
    using sub2 quota_filter_subseq unfolding apply_candidate_quotas_def by (rule subseq_order.trans)
  have "distinct (map (candidate_rank \<circ> dc_candidate) kept2)"
    using subseq_distinct [OF subseq_image [OF sub3] fused_candidates(2) [OF fuse]] .
  moreover have "mset (map (candidate_rank \<circ> dc_candidate) ranked) = mset (map (candidate_rank \<circ> dc_candidate) kept2)"
    using arg_cong [OF perm, of "image_mset candidate_rank"] by (simp add: multiset.map_comp)
  ultimately have "distinct (map (candidate_rank \<circ> dc_candidate) ranked)" using mset_eq_imp_distinct_iff by blast
  then have distinct_kept: "distinct (map (candidate_rank \<circ> dc_candidate) (map fst kept))"
    using subseq_distinct [OF subseq_image [OF sub]] by blast
  have identity: "evidence_identity (immutable_evidence c n) = candidate_rank (dc_candidate c)" for c n
    using immutable_evidence_from by (simp add: evidence_from_def)
  have distinct: "distinct (map evidence_identity es)"
    using distinct_kept unfolding es_kept map_map by (simp add: comp_def case_prod_beta identity)
  have "set (map dc_candidate ranked) = set (map dc_candidate kept2)" using perm by (metis set_mset_mset)
  moreover have "set (map dc_candidate kept2) \<subseteq> set (map dc_candidate fs)"
    using subseq_set [OF sub3] by auto
  moreover have "set (map dc_candidate (map fst kept)) \<subseteq> set (map dc_candidate ranked)"
    unfolding set_map using image_mono [OF subseq_set [OF sub]] by simp
  ultimately have "set (map dc_candidate (map fst kept)) \<subseteq> set (filter ?accepted cs)"
    using fused_candidates(1) [OF fuse] by (blast intro: order.trans)
  then have members: "dc_candidate c \<in> set (filter ?accepted cs)" if "c \<in> set (map fst kept)" for c
    using that by auto
  show ?thesis
    unfolding snap
  proof (intro conjI)
    show "list_all (\<lambda>e. \<exists>c \<in> set cs. evidence_from c e \<and> ?accepted c) es"
      unfolding list_all_iff es_kept using members immutable_evidence_from by fastforce
  qed (fact within distinct ev)+
qed

section \<open>What a retrieval does\<close>

lemma validate_request_profile: "validate_request p req = Inr u \<Longrightarrow> validate_profile (rq_profile req) = Inr u"
  by (auto simp: validate_request_def rbind_Inr_iff)

text \<open>The steps of a successful retrieval that is authorized for some source.\<close>

lemma retrieve_steps:
  assumes "retrieve p req = (Inr snap, ev)" and "rq_authorizedSourceIds req \<noteq> []"
  obtains groups embeddings ev0 cs where "groups_for (rq_profile req) = Inr groups"
    "embed_query p req groups = (Inr embeddings, ev0)"
    "rp_search p (search_input_for req (map fst embeddings)) = Inr cs"
    "select_evidence p req embeddings (length groups) cs (ev0 @ [Searched (search_input_for req (map fst embeddings))]) =
       (Inr snap, ev)"
  using assms unfolding retrieve_def
  by (auto simp: Let_def split: sum.splits prod.splits if_splits)

text \<open>
  C24: the evidence of a retrieval stays within its authorization and its budgets.  The evidence of a
  snapshot keeps the limits on results, characters and context tokens and the final quota of every
  source, with the token count of the context binding; no revision chunk occurs twice; and every item copies
  a candidate that the search returned for this workspace, with an active revision, from an authorized source
  and a selected collection, whatever the search, the reranker and the gateway return.  Without an
  authorized source there is no evidence.
\<close>

theorem retrieved_evidence_sound:
  assumes "retrieve p req = (Inr snap, ev)"
  shows "within_budgets p (rq_profile req) (sn_evidence snap) \<and> distinct (map evidence_identity (sn_evidence snap)) \<and>
    sn_workspaceId snap = rq_workspaceId req \<and>
    (if rq_authorizedSourceIds req = [] then sn_evidence snap = [] \<and> ev = [Persisted snap]
     else \<exists>input cs. Searched input \<in> set ev \<and> si_workspaceId input = rq_workspaceId req \<and>
       si_authorizedSourceIds input = rq_authorizedSourceIds req \<and> rp_search p input = Inr cs \<and>
       list_all (\<lambda>e. \<exists>c \<in> set cs. evidence_from c e \<and> ca_activeRevision c \<and>
         re_sourceId e \<in> set (rq_authorizedSourceIds req) \<and>
         re_collectionId e \<in> set (map rc_id (rf_collections (rq_profile req)))) (sn_evidence snap))"
proof (cases "rq_authorizedSourceIds req = []")
  case True
  obtain u where valid: "validate_request p req = Inr u"
    using assms by (auto simp: retrieve_def split: sum.splits)
  then show ?thesis
    using assms True valid_profile_limits [OF validate_request_profile [OF valid]]
    by (auto simp: retrieve_def persist_snapshot_def retrieval_snapshot_for_def within_budgets_def
        split: option.splits intro: order.trans [of _ 1])
next
  case False
  obtain u where valid: "validate_request p req = Inr u"
    using assms by (auto simp: retrieve_def split: sum.splits)
  obtain groups embeddings ev0 cs where steps: "groups_for (rq_profile req) = Inr groups"
    "rp_search p (search_input_for req (map fst embeddings)) = Inr cs"
    "select_evidence p req embeddings (length groups) cs (ev0 @ [Searched (search_input_for req (map fst embeddings))]) =
       (Inr snap, ev)"
    using retrieve_steps [OF assms False] by metis
  let ?input = "search_input_for req (map fst embeddings)"
  note sound = select_evidence_sound [OF steps(3) validate_request_profile [OF valid]]
  have searched: "Searched ?input \<in> set ev" using sound by auto
  have workspace: "sn_workspaceId snap = rq_workspaceId req"
    using steps(3) by (auto simp: select_evidence_def Let_def persist_snapshot_def retrieval_snapshot_for_def
        split: sum.splits prod.splits option.splits)
  have "list_all (\<lambda>e. \<exists>c \<in> set cs. evidence_from c e \<and> ca_activeRevision c \<and>
         re_sourceId e \<in> set (rq_authorizedSourceIds req) \<and>
         re_collectionId e \<in> set (map rc_id (rf_collections (rq_profile req)))) (sn_evidence snap)"
    using sound unfolding list_all_iff
    by (fastforce simp: accepted_def evidence_from_def evidence_identity_def candidate_rank_def)
  then show ?thesis
    using sound searched workspace steps(2) False
    by (intro conjI) (auto simp: search_input_for_def intro!: exI [of _ ?input] exI [of _ cs])
qed

text \<open>A retrieval for the witness: one collection, one source, one candidate, no reranker.\<close>

definition sample_collection :: retrieval_collection where
  "sample_collection = \<lparr>rc_id = ''c'', rc_embeddingBindingVersionId = ''b'', rc_embeddingProfileVersion = ''1'',
     rc_dimensions = Num 1\<rparr>"

definition sample_profile :: retrieval_profile where
  "sample_profile =
     \<lparr>rf_id = ''p'', rf_version = ''1'', rf_contextTokenBindingVersionId = ''a'', rf_collections = [sample_collection],
      rf_policy = \<lparr>ry_rankConstant = Num 60, ry_lexicalWeight = Finite 1, ry_vectorWeight = Finite 1,
        ry_maximumFinalResults = Num 2, ry_maximumCharacters = Num 100, ry_maximumTokens = Num 100,
        ry_defaultSourceQuota = \<lparr>ql_maximumCandidates = Num 2, ql_maximumFinalResults = Num 1\<rparr>, ry_sourceQuotas = []\<rparr>,
      rf_queryEmbedding = \<lparr>qe_maximumInputTokens = Num 10,
        qe_budget = \<lparr>ab_currency = ''USD'', ab_hard = True, ab_allowUnknownPricing = None\<rparr>\<rparr>, rf_reranker = None\<rparr>"

definition sample_retrieval :: retrieval_request where
  "sample_retrieval =
     \<lparr>rq_workspaceId = ''w'', rq_query = ''q'', rq_profile = sample_profile, rq_authorizedSourceIds = [''s''],
      rq_metadataFilters = None, rq_snapshotId = ''n'', rq_analysisId = None, rq_capturedAt = ''t'', rq_attribution = None\<rparr>"

definition sample_candidate :: retrieval_candidate where
  "sample_candidate =
     \<lparr>ca_collectionId = ''c'', ca_sourceId = ''s'', ca_sourceRevisionId = ''r'', ca_chunkId = ''k'', ca_location = ''l'',
      ca_sourceUrl = None, ca_content = ''text'', ca_activeRevision = True, ca_lexicalRank = Some (Num 1),
      ca_vectorRank = None, ca_accessMetadata = []\<rparr>"

definition sample_retrieval_ports :: retrieval_ports where
  "sample_retrieval_ports =
     \<lparr>rp_count = (\<lambda>text binding purpose. Num (int (length text))),
      rp_ai = (\<lambda>n workspace call. Inr \<lparr>rs_operationId = ''o'', rs_value = VectorsValue [[Finite 1]], rs_usage = None,
        rs_providerCost = None, rs_calculatedCost = unknown_cost\<rparr>),
      rp_first = (\<lambda>es. 0), rp_search = (\<lambda>i. Inr [sample_candidate]), rp_persist = (\<lambda>s. None),
      rp_aborted = (\<lambda>n. False), rp_round = id\<rparr>"

lemma sample_valid: "validate_request sample_retrieval_ports sample_retrieval = Inr ()"
  by (simp add: validate_request_def validate_profile_def sample_retrieval_def sample_profile_def sample_collection_def
      sample_retrieval_ports_def assert_active_def require_non_empty_def require_positive_integer_def
      require_non_negative_integer_def rassert_def validate_collection_def validate_weights_def valid_weight_def
      safe_int_def max_safe_def Let_def)

lemma sample_embedding:
  "\<exists>groups embeddings ev. groups_for sample_profile = Inr groups \<and>
     embed_query sample_retrieval_ports sample_retrieval groups = (Inr embeddings, ev)"
  by (simp add: groups_for_def group_step_def sample_retrieval_def sample_profile_def sample_collection_def
      sample_retrieval_ports_def embed_query_def embed_group_def count_tokens_def require_non_negative_integer_def
      rassert_def safe_int_def max_safe_def Let_def vectors_of_def embedding_result_def errors_of_def values_of_def
      is_finite_def)

lemma sample_selection:
  "\<exists>snap ev'. select_evidence sample_retrieval_ports sample_retrieval embeddings n [sample_candidate] ev = (Inr snap, ev') \<and>
     length (sn_evidence snap) = 1"
  by (simp add: select_evidence_def fuse_def fuse_step_def validate_candidate_def sample_candidate_def sample_retrieval_def
      sample_profile_def sample_collection_def sample_retrieval_ports_def require_non_empty_def require_positive_integer_def
      rassert_def safe_int_def max_safe_def Let_def accepted_def fused_of_def apply_candidate_quotas_def source_count_def
      quota_for_def quota_limits.truncate_def rerank_def apply_final_budgets_def count_tokens_def
      require_non_negative_integer_def persist_snapshot_def retrieval_snapshot_for_def)

lemma sample_retrieved:
  "\<exists>snap ev. retrieve sample_retrieval_ports sample_retrieval = (Inr snap, ev) \<and> length (sn_evidence snap) = 1"
proof -
  obtain groups embeddings ev where e: "groups_for sample_profile = Inr groups"
    "embed_query sample_retrieval_ports sample_retrieval groups = (Inr embeddings, ev)" using sample_embedding by blast
  have f: "rq_profile sample_retrieval = sample_profile" "rq_authorizedSourceIds sample_retrieval \<noteq> []"
    "rp_search sample_retrieval_ports i = Inr [sample_candidate]" "assert_active sample_retrieval_ports k = Inr ()" for i k
    by (simp_all add: sample_retrieval_def sample_retrieval_ports_def assert_active_def rassert_def)
  show ?thesis using sample_selection unfolding retrieve_def by (simp add: sample_valid f e Let_def)
qed

theorem retrieved_evidence_sound_witness:
  "\<exists>snap ev e. retrieve sample_retrieval_ports sample_retrieval = (Inr snap, ev) \<and> sn_evidence snap = [e] \<and>
     re_sourceId e = ''s''"
proof -
  obtain snap ev where run: "retrieve sample_retrieval_ports sample_retrieval = (Inr snap, ev)"
    "length (sn_evidence snap) = 1" using sample_retrieved by blast
  then obtain e where e: "sn_evidence snap = [e]" by (cases "sn_evidence snap") auto
  have "rq_authorizedSourceIds sample_retrieval = [''s'']" by (simp add: sample_retrieval_def)
  then show ?thesis using retrieved_evidence_sound [OF run(1)] e run(1) by auto
qed

section \<open>The calls of a retrieval\<close>

definition embedding_allowed :: "retrieval_ports \<Rightarrow> retrieval_request \<Rightarrow> ai_call \<Rightarrow> bool" where
  "embedding_allowed p req call \<longleftrightarrow>
     (let f = rq_profile req in
      \<exists>c \<in> set (rf_collections f). mr_bindingVersionId call = Some (rc_embeddingBindingVersionId c) \<and>
        mr_kind call = EmbeddingRequest (EmbeddingPayload [rq_query req] (rc_dimensions c)) \<and>
        mr_budget call = budget_of (qe_budget (rf_queryEmbedding f)) \<and>
        int_of (rp_count p (rq_query req) (rc_embeddingBindingVersionId c) ForEmbedding) \<le>
          int_of (qe_maximumInputTokens (rf_queryEmbedding f)))"

definition reranking_allowed :: "retrieval_ports \<Rightarrow> retrieval_request \<Rightarrow> ai_call \<Rightarrow> bool" where
  "reranking_allowed p req call \<longleftrightarrow>
     (case rf_reranker (rq_profile req) of
        None \<Rightarrow> False
      | Some policy \<Rightarrow> \<exists>documents. mr_kind call = RerankerRequest (RerankerPayload (rq_query req) documents) \<and>
          mr_bindingVersionId call = Some (rk_bindingVersionId policy) \<and> mr_budget call = budget_of (rk_budget policy) \<and>
          documents \<noteq> [] \<and> length documents \<le> nat (int_of (rk_maximumCandidates policy)) \<and>
          (let count = (\<lambda>text. int_of (rp_count p text (rk_bindingVersionId policy) ForReranking)) in
           count (rq_query req) + (\<Sum>d\<leftarrow>documents. count d) \<le> int_of (rk_maximumInputTokens policy)))"

fun is_search :: "retrieval_event \<Rightarrow> bool" where
  "is_search (Searched i) = True" | "is_search (AiCalled w c) = False" | "is_search (Persisted s) = False"

definition group_ok :: "retrieval_collection list \<Rightarrow> embedding_group \<Rightarrow> bool" where
  "group_ok cs g \<longleftrightarrow> eg_collections g \<noteq> [] \<and>
     list_all (\<lambda>c. c \<in> set cs \<and> rc_embeddingBindingVersionId c = eg_bindingVersionId g \<and>
       rc_embeddingProfileVersion c = eg_embeddingProfileVersion g \<and> rc_dimensions c = eg_dimensions g) (eg_collections g)"

definition groups_ok :: "retrieval_collection list \<Rightarrow> (string \<times> embedding_group) list \<Rightarrow> bool" where
  "groups_ok cs m \<longleftrightarrow> distinct (map fst m) \<and> list_all (\<lambda>(k, g). eg_bindingVersionId g = k \<and> group_ok cs g) m"

lemma group_step_ok:
  assumes "groups_ok cs m" and "group_step m c = Inr m'"
  shows "groups_ok (cs @ [c]) m'"
proof -
  have mono: "group_ok (cs @ [c]) g" if "group_ok cs g" for g
    using that by (auto simp: group_ok_def list_all_iff)
  have add: "groups_ok (cs @ [c]) (assoc_set k g m)" if "eg_bindingVersionId g = k" "group_ok (cs @ [c]) g" for k g
  proof -
    have "(case x of (k, g) \<Rightarrow> eg_bindingVersionId g = k \<and> group_ok (cs @ [c]) g)"
      if "x \<in> insert (k, g) (set m)" for x
      using that assms(1) \<open>eg_bindingVersionId g = k\<close> \<open>group_ok (cs @ [c]) g\<close> mono
      unfolding groups_ok_def list_all_iff by auto
    then show ?thesis
      using assms(1) set_assoc_set [of k g m] distinct_assoc_set [of m k g]
      unfolding groups_ok_def list_all_iff by blast
  qed
  show ?thesis
  proof (cases "map_of m (rc_embeddingBindingVersionId c)")
    case None
    then show ?thesis using assms(2) by (auto simp: group_step_def group_ok_def intro!: add)
  next
    case (Some g)
    then have g: "eg_bindingVersionId g = rc_embeddingBindingVersionId c" "group_ok cs g"
      using assms(1) map_of_SomeD [OF Some] unfolding groups_ok_def list_all_iff by auto
    then show ?thesis
      using Some assms(2) mono [OF g(2)]
      by (auto simp: group_step_def group_ok_def list_all_iff split: if_splits intro!: add)
  qed
qed

lemma group_fold_ok: "rfold group_step [] cs = Inr m \<Longrightarrow> groups_ok cs m"
proof (induction cs arbitrary: m rule: rev_induct)
  case Nil
  then show ?case by (simp add: groups_ok_def)
next
  case (snoc c cs)
  then show ?case using group_step_ok by (auto simp: rfold_snoc rbind_Inr_iff)
qed

lemma groups_for_ok:
  assumes "groups_for f = Inr groups"
  shows "distinct (map eg_bindingVersionId groups)" and "list_all (group_ok (rf_collections f)) groups"
proof -
  obtain m where m: "rfold group_step [] (rf_collections f) = Inr m"
    and g: "groups = sort_by (\<lambda>l r. eg_bindingVersionId l \<le> eg_bindingVersionId r) (map snd m)"
    using assms by (auto simp: groups_for_def rbind_Inr_iff)
  note ok = group_fold_ok [OF m]
  have names: "map eg_bindingVersionId (map snd m) = map fst m"
    using ok by (auto simp: groups_ok_def list_all_iff)
  have "distinct (map eg_bindingVersionId (map snd m))" using ok unfolding names groups_ok_def by blast
  moreover have "mset (map eg_bindingVersionId groups) = mset (map eg_bindingVersionId (map snd m))"
    unfolding g mset_map mset_sort_by ..
  ultimately show "distinct (map eg_bindingVersionId groups)" using mset_eq_imp_distinct_iff by blast
  show "list_all (group_ok (rf_collections f)) groups"
    using ok unfolding g list_all_iff set_sort_by groups_ok_def by auto
qed

lemma embed_group_calls:
  assumes "group_ok (rf_collections (rq_profile req)) g"
  shows "snd (embed_group p req i g) = [] \<or>
    snd (embed_group p req i g) = [AiCalled (rq_workspaceId req) (embedding_call req g)] \<and>
    embedding_allowed p req (embedding_call req g)"
proof -
  obtain c cs where c: "eg_collections g = c # cs" "c \<in> set (rf_collections (rq_profile req))"
      "rc_embeddingBindingVersionId c = eg_bindingVersionId g" "rc_dimensions c = eg_dimensions g"
    using assms by (cases "eg_collections g") (auto simp: group_ok_def)
  have "embedding_allowed p req (embedding_call req g)"
    if "count_tokens p (rq_query req) (eg_bindingVersionId g) ForEmbedding = Inr n"
      "n \<le> int_of (qe_maximumInputTokens (rf_queryEmbedding (rq_profile req)))" for n
    unfolding embedding_allowed_def Let_def embedding_call_def
    using that(2) count_tokens_Inr [OF that(1)] c by (intro bexI [of _ c]) simp_all
  then show ?thesis
    by (auto simp: embed_group_def Let_def split: sum.splits)
qed

lemma embed_groups_calls:
  "\<lbrakk>list_all (group_ok (rf_collections (rq_profile req))) groups; distinct (map eg_bindingVersionId groups);
    length is = length groups\<rbrakk> \<Longrightarrow>
   \<exists>calls. concat (map snd (map (\<lambda>(i, g). embed_group p req i g) (zip is groups))) = map (AiCalled (rq_workspaceId req)) calls \<and>
     list_all (embedding_allowed p req) calls \<and> distinct (map mr_bindingVersionId calls) \<and>
     set (map mr_bindingVersionId calls) \<subseteq> Some ` set (map eg_bindingVersionId groups)"
proof (induction groups arbitrary: "is")
  case Nil
  then show ?case by (auto intro: exI [of _ "[]"])
next
  case (Cons g groups)
  then obtain i is' where is': "is = i # is'" "length is' = length groups" by (cases "is") auto
  obtain calls where calls: "concat (map snd (map (\<lambda>(i, g). embed_group p req i g) (zip is' groups))) =
      map (AiCalled (rq_workspaceId req)) calls" "list_all (embedding_allowed p req) calls"
      "distinct (map mr_bindingVersionId calls)"
      "set (map mr_bindingVersionId calls) \<subseteq> Some ` set (map eg_bindingVersionId groups)"
    using Cons.IH [OF _ _ is'(2)] Cons.prems by auto
  have "group_ok (rf_collections (rq_profile req)) g" using Cons.prems(1) by simp
  from embed_group_calls [OF this, of p i] show ?case
  proof (elim disjE conjE)
    assume "snd (embed_group p req i g) = []"
    then show ?thesis using calls is' by (intro exI [of _ calls]) auto
  next
    assume call: "snd (embed_group p req i g) = [AiCalled (rq_workspaceId req) (embedding_call req g)]"
      and allowed: "embedding_allowed p req (embedding_call req g)"
    have "Some (eg_bindingVersionId g) \<notin> set (map mr_bindingVersionId calls)"
      using calls(4) Cons.prems(2) by auto
    then show ?thesis using calls is' call allowed
      by (intro exI [of _ "embedding_call req g # calls"]) (auto simp: embedding_call_def)
  qed
qed

lemma rerank_bounded_tokens:
  "rerank_bounded p policy n cs = Inr kept \<Longrightarrow> n \<le> int_of (rk_maximumInputTokens policy) \<Longrightarrow>
   n + (\<Sum>c\<leftarrow>kept. int_of (rp_count p (ca_content (dc_candidate c)) (rk_bindingVersionId policy) ForReranking))
     \<le> int_of (rk_maximumInputTokens policy)"
proof (induction cs arbitrary: n kept)
  case Nil
  then show ?case by simp
next
  case (Cons c cs)
  obtain k where k: "count_tokens p (ca_content (dc_candidate c)) (rk_bindingVersionId policy) ForReranking = Inr k"
    using Cons.prems(1) by (auto simp: rbind_Inr_iff)
  show ?case
  proof (cases "n + k > int_of (rk_maximumInputTokens policy)")
    case True
    then show ?thesis using Cons k by simp
  next
    case False
    then obtain rest where rest: "rerank_bounded p policy (n + k) cs = Inr rest" "kept = c # rest"
      using Cons.prems(1) k by (auto simp: rbind_Inr_iff)
    then show ?thesis using Cons.IH [OF rest(1)] False count_tokens_Inr [OF k] by simp
  qed
qed

lemma rerank_calls:
  assumes "rerank p n req cs = (r, ev)"
  shows "ev = [] \<or> (\<exists>call. ev = [AiCalled (rq_workspaceId req) call] \<and> reranking_allowed p req call)"
proof (cases "rf_reranker (rq_profile req)")
  case None
  then show ?thesis using assms by (simp add: rerank_def)
next
  case (Some policy)
  let ?taken = "take (nat (int_of (rk_maximumCandidates policy))) cs"
  let ?bounded = "rbind (count_tokens p (rq_query req) (rk_bindingVersionId policy) ForReranking) (\<lambda>queryTokens.
                  if queryTokens > int_of (rk_maximumInputTokens policy)
                  then Inl (RetrievalError InvalidConfiguration
                    ''The retrieval query exceeds the configured reranker token limit.'')
                  else rerank_bounded p policy queryTokens ?taken)"
  show ?thesis
  proof (cases ?bounded)
    case (Inl e)
    then show ?thesis using assms Some by (simp add: rerank_def)
  next
    case (Inr bounded)
    then obtain q where q: "count_tokens p (rq_query req) (rk_bindingVersionId policy) ForReranking = Inr q"
        "q \<le> int_of (rk_maximumInputTokens policy)" "rerank_bounded p policy q ?taken = Inr bounded"
      by (auto simp: rbind_Inr_iff split: if_splits)
    show ?thesis
    proof (cases "bounded = []")
      case True
      then show ?thesis using assms Some Inr by (simp add: rerank_def)
    next
      case False
      have "length bounded \<le> nat (int_of (rk_maximumCandidates policy))"
        using list_emb_length [OF rerank_bounded_subseq [OF q(3)]] by simp
      then have "reranking_allowed p req (reranker_call req policy bounded)"
        using rerank_bounded_tokens [OF q(3,2)] count_tokens_Inr [OF q(1)] False Some
        by (simp add: reranking_allowed_def reranker_call_def Let_def comp_def)
      moreover have "ev = [AiCalled (rq_workspaceId req) (reranker_call req policy bounded)]"
        using assms Some Inr False by (auto simp: rerank_def Let_def split: sum.splits if_splits)
      ultimately show ?thesis by blast
    qed
  qed
qed

text \<open>The shape of the calls: embeddings, at most one search, at most one reranking, at most one snapshot.\<close>

definition retrieval_trace :: "retrieval_ports \<Rightarrow> retrieval_request \<Rightarrow> retrieval_event list \<Rightarrow> bool" where
  "retrieval_trace p req ev \<longleftrightarrow>
     (\<exists>embeddings searches rerankings snapshots.
        ev = map (AiCalled (rq_workspaceId req)) embeddings @ map Searched searches @
             map (AiCalled (rq_workspaceId req)) rerankings @ map Persisted snapshots \<and>
        list_all (embedding_allowed p req) embeddings \<and> distinct (map mr_bindingVersionId embeddings) \<and>
        length searches \<le> 1 \<and>
        list_all (\<lambda>i. si_workspaceId i = rq_workspaceId req \<and> si_authorizedSourceIds i = rq_authorizedSourceIds req) searches \<and>
        length rerankings \<le> 1 \<and> list_all (reranking_allowed p req) rerankings \<and>
        length snapshots \<le> 1 \<and> list_all (\<lambda>s. sn_workspaceId s = rq_workspaceId req) snapshots)"

lemma select_evidence_trace:
  assumes "select_evidence p req embeddings n cs ev0 = (r, ev)"
  shows "\<exists>rerankings snapshots. ev = ev0 @ map (AiCalled (rq_workspaceId req)) rerankings @ map Persisted snapshots \<and>
    length rerankings \<le> 1 \<and> list_all (reranking_allowed p req) rerankings \<and> length snapshots \<le> 1 \<and>
    list_all (\<lambda>s. sn_workspaceId s = rq_workspaceId req) snapshots \<and>
    (\<forall>snap. r = Inr snap \<longrightarrow> snapshots = [snap])"
proof -
  let ?f = "rq_profile req"
  let ?fuse = "fuse (rp_round p) cs ?f (rq_authorizedSourceIds req) (map rc_id (rf_collections ?f))"
  show ?thesis
  proof (cases ?fuse)
    case (Inl e)
    then show ?thesis using assms
      by (intro exI [of _ "[]"]) (auto simp: select_evidence_def Let_def)
  next
    case (Inr fs)
    obtain r1 ev1 where rerank: "rerank p n req (apply_candidate_quotas fs ?f) = (r1, ev1)" by fastforce
    obtain calls where calls: "ev1 = map (AiCalled (rq_workspaceId req)) calls" "length calls \<le> 1"
        "list_all (reranking_allowed p req) calls"
    proof -
      from rerank_calls [OF rerank] show ?thesis
      proof (elim disjE exE conjE)
        assume "ev1 = []"
        then show ?thesis using that [of "[]"] by simp
      next
        fix call assume "ev1 = [AiCalled (rq_workspaceId req) call]" "reranking_allowed p req call"
        then show ?thesis using that [of "[call]"] by simp
      qed
    qed
    have none: ?thesis if "ev = ev0 @ ev1" "\<And>snap. r \<noteq> Inr snap"
      using that calls by (intro exI [of _ calls] exI [of _ "[]"]) simp
    show ?thesis
    proof (cases r1)
      case (Inl e)
      then show ?thesis using assms \<open>?fuse = Inr fs\<close> rerank by (intro none) (auto simp: select_evidence_def Let_def)
    next
      case (Inr x)
      obtain ranked op where x: "x = (ranked, op)" by fastforce
      show ?thesis
      proof (cases "apply_final_budgets p ranked ?f")
        case (Inl e)
        then show ?thesis using assms \<open>?fuse = Inr fs\<close> rerank \<open>r1 = Inr x\<close> x
          by (intro none) (auto simp: select_evidence_def Let_def)
      next
        case (Inr es)
        let ?snap = "retrieval_snapshot_for req es
          (map (\<lambda>(q, operation). (qv_embeddingBindingVersionId q, operation)) embeddings) op"
        have "persist_snapshot p ?snap (ev0 @ ev1) = (r, ev)"
          using assms \<open>?fuse = Inr fs\<close> rerank \<open>r1 = Inr x\<close> x Inr by (simp add: select_evidence_def Let_def)
        then show ?thesis using calls
          by (intro exI [of _ calls] exI [of _ "[?snap]"])
            (auto simp: persist_snapshot_def retrieval_snapshot_for_def split: option.splits)
      qed
    qed
  qed
qed

lemma embed_query_calls:
  assumes "groups_for (rq_profile req) = Inr groups" and "embed_query p req groups = (r, ev)"
  shows "\<exists>calls. ev = map (AiCalled (rq_workspaceId req)) calls \<and> list_all (embedding_allowed p req) calls \<and>
    distinct (map mr_bindingVersionId calls)"
proof -
  have "ev = concat (map snd (map (\<lambda>(i, g). embed_group p req i g) (zip [0..<length groups] groups)))"
    using assms(2) by (auto simp: embed_query_def Let_def split: if_splits)
  then show ?thesis
    using embed_groups_calls [OF groups_for_ok(2) [OF assms(1)] groups_for_ok(1) [OF assms(1)],
        of "[0..<length groups]" p] by auto
qed

lemma retrieval_traceI:
  assumes "ev = map (AiCalled (rq_workspaceId req)) embeddings @ map Searched searches @
      map (AiCalled (rq_workspaceId req)) rerankings @ map Persisted snapshots"
    and "list_all (embedding_allowed p req) embeddings" "distinct (map mr_bindingVersionId embeddings)"
    and "length searches \<le> 1"
      "list_all (\<lambda>i. si_workspaceId i = rq_workspaceId req \<and> si_authorizedSourceIds i = rq_authorizedSourceIds req) searches"
    and "length rerankings \<le> 1" "list_all (reranking_allowed p req) rerankings"
    and "length snapshots \<le> 1" "list_all (\<lambda>s. sn_workspaceId s = rq_workspaceId req) snapshots"
  shows "retrieval_trace p req ev"
  unfolding retrieval_trace_def using assms by blast

lemma retrieve_cases:
  assumes "retrieve p req = (r, ev)"
  obtains (rejected) e where "r = Inl e" "ev = []"
  | (unauthorized) "persist_snapshot p (retrieval_snapshot_for req [] [] None) [] = (r, ev)"
  | (embedding_failed) groups e where "groups_for (rq_profile req) = Inr groups" "embed_query p req groups = (Inl e, ev)"
      "r = Inl e"
  | (search_failed) groups embeddings ev0 e where "groups_for (rq_profile req) = Inr groups"
      "embed_query p req groups = (Inr embeddings, ev0)" "r = Inl e"
      "ev = ev0 \<or> ev = ev0 @ [Searched (search_input_for req (map fst embeddings))]"
  | (selected) groups embeddings ev0 cs where "groups_for (rq_profile req) = Inr groups"
      "embed_query p req groups = (Inr embeddings, ev0)"
      "select_evidence p req embeddings (length groups) cs
         (ev0 @ [Searched (search_input_for req (map fst embeddings))]) = (r, ev)"
  using assms unfolding retrieve_def
  by (auto simp: Let_def split: sum.splits prod.splits if_splits)

text \<open>
  C26: a retrieval calls only what its profile allows.  Whatever its outcome, it makes, in this order: at most
  one embedding call per binding of a selected collection, each with the query alone, the dimensions of
  the collection, the embedding budget and a query within the token limit; at most one search, with the authorized
  sources of the request; at most one reranking call under the binding and the budget of the reranker policy,
  whose documents are few enough and together with the query within its token limit; and at most one
  snapshot, all for the workspace of the request.  If it succeeds, the last event is its snapshot.
\<close>

theorem retrieval_calls_allowed:
  "case retrieve p req of (r, ev) \<Rightarrow>
     retrieval_trace p req ev \<and> (case r of Inl e \<Rightarrow> True | Inr snap \<Rightarrow> ev \<noteq> [] \<and> last ev = Persisted snap)"
proof -
  obtain r ev where run: "retrieve p req = (r, ev)" by fastforce
  from run have "retrieval_trace p req ev \<and> (\<forall>snap. r = Inr snap \<longrightarrow> ev \<noteq> [] \<and> last ev = Persisted snap)"
  proof (cases rule: retrieve_cases)
    case (rejected e)
    then show ?thesis using retrieval_traceI [of ev req "[]" "[]" "[]" "[]" p] by simp
  next
    case unauthorized
    then have "ev = [Persisted (retrieval_snapshot_for req [] [] None)]" "\<forall>snap. r = Inr snap \<longrightarrow> snap = retrieval_snapshot_for req [] [] None"
      by (auto simp: persist_snapshot_def split: option.splits)
    moreover have "sn_workspaceId (retrieval_snapshot_for req [] [] None) = rq_workspaceId req"
      by (simp add: retrieval_snapshot_for_def)
    ultimately show ?thesis
      using retrieval_traceI [of ev req "[]" "[]" "[]" "[retrieval_snapshot_for req [] [] None]" p] by simp
  next
    case (embedding_failed groups e)
    then show ?thesis using embed_query_calls [OF embedding_failed(1,2)]
      retrieval_traceI [of ev req _ "[]" "[]" "[]" p] by auto
  next
    case (search_failed groups embeddings ev0 e)
    from embed_query_calls [OF search_failed(1,2)] search_failed(3,4) show ?thesis
      using retrieval_traceI [of ev req _ "[]" "[]" "[]" p]
        retrieval_traceI [of ev req _ "[search_input_for req (map fst embeddings)]" "[]" "[]" p]
      by (auto simp: search_input_for_def)
  next
    case (selected groups embeddings ev0 cs)
    obtain calls where calls: "ev0 = map (AiCalled (rq_workspaceId req)) calls"
        "list_all (embedding_allowed p req) calls" "distinct (map mr_bindingVersionId calls)"
      using embed_query_calls [OF selected(1,2)] by blast
    obtain rerankings snapshots where tail:
      "ev = (ev0 @ [Searched (search_input_for req (map fst embeddings))]) @
         map (AiCalled (rq_workspaceId req)) rerankings @ map Persisted snapshots"
      "length rerankings \<le> 1" "list_all (reranking_allowed p req) rerankings" "length snapshots \<le> 1"
      "list_all (\<lambda>s. sn_workspaceId s = rq_workspaceId req) snapshots"
      "\<forall>snap. r = Inr snap \<longrightarrow> snapshots = [snap]"
      using select_evidence_trace [OF selected(3)] by blast
    then show ?thesis
      using calls retrieval_traceI [of ev req calls "[search_input_for req (map fst embeddings)]" rerankings snapshots p]
      by (auto simp: search_input_for_def)
  qed
  then show ?thesis using run by (simp split: sum.splits)
qed

end
