(* ===== verification/Publication_Properties.thy ===== *)
theory Publication_Properties
  imports Publication
begin

text \<open>
  What the publication executor does, whatever its ports answer: the log of an execution, proved piece by piece
  (\<open>logs\<close>), and the effect of any sequence of executions on a destination that keeps the contract
  \<open>destination\<close>, which the in-memory destination of \<open>fakes.ts\<close> does.
\<close>

section \<open>Logs of actions\<close>

definition logs :: "('w, 'a) action \<Rightarrow> ((execution_error, 'a) result \<Rightarrow> publication_event list \<Rightarrow> bool) \<Rightarrow> bool" where
  "logs m P \<longleftrightarrow> (\<forall>s. \<exists>d. snd (snd (m s)) = snd s @ d \<and> P (fst (m s)) d)"

named_theorems log_rules \<open>the log of each construct\<close>

lemma logs_mono: "logs m P \<Longrightarrow> (\<And>r d. P r d \<Longrightarrow> Q r d) \<Longrightarrow> logs m Q"
  unfolding logs_def by meson

lemma logsD: "logs m P \<Longrightarrow> m s = (r, t) \<Longrightarrow> \<exists>d. snd t = snd s @ d \<and> P r d"
  unfolding logs_def by (metis fst_conv snd_conv)

lemma logs_ret [log_rules]: "logs (ret a) (\<lambda>r d. r = Inr a \<and> d = [])"
  by (simp add: logs_def ret_def)

lemma logs_throw [log_rules]: "logs (throw e) (\<lambda>r d. r = Inl e \<and> d = [])"
  by (simp add: logs_def throw_def)

lemma logs_note [log_rules]: "logs (note_event e) (\<lambda>r d. r = Inr () \<and> d = [e])"
  by (simp add: logs_def note_event_def)

lemma logs_lift [log_rules]: "logs (lift_result h x) (\<lambda>r d. d = [] \<and> (case x of Inl e \<Rightarrow> r = Inl (h e) | Inr a \<Rightarrow> r = Inr a))"
  by (auto simp: logs_def lift_result_def split: sum.splits)

lemma logs_aborted [log_rules]: "logs (throw_if_aborted p point) (\<lambda>r d. d = [] \<and> (r = Inr () \<or> r = Inl ExecutionCancelled))"
  by (simp add: logs_def throw_if_aborted_def throw_def ret_def)

definition call_log ::
  "('a \<Rightarrow> publication_event) \<Rightarrow> (execution_error, 'a) result \<Rightarrow> publication_event list \<Rightarrow> bool" where
  "call_log ev r d \<longleftrightarrow> (case r of Inr a \<Rightarrow> d = [ev a] | Inl e \<Rightarrow> d = [PortThrew])"

lemma call_log_simps [simp]: "call_log ev (Inr a) d \<longleftrightarrow> d = [ev a]" "call_log ev (Inl e) d \<longleftrightarrow> d = [PortThrew]"
  by (simp_all add: call_log_def)

lemma logs_call [log_rules]: "logs (call ev f) (call_log ev)"
  by (auto simp: logs_def call_def split: prod.splits sum.splits)

lemma logs_call_state: "logs (\<lambda>s. call ev (f s) s) (call_log ev)"
  by (auto simp: logs_def call_def split: prod.splits sum.splits)

lemma logs_bind:
  assumes m: "logs m P" and f: "\<And>a. logs (f a) (Q a)"
  shows "logs (abind m f) (\<lambda>r d. (\<exists>e. r = Inl e \<and> P (Inl e) d) \<or> (\<exists>a d1 d2. d = d1 @ d2 \<and> P (Inr a) d1 \<and> Q a r d2))"
  unfolding logs_def
proof
  fix s
  obtain r t where mt: "m s = (r, t)" by (cases "m s")
  obtain d1 where d1: "snd t = snd s @ d1" "P r d1" using logsD [OF m mt] by blast
  show "\<exists>d. snd (snd (abind m f s)) = snd s @ d \<and>
      ((\<exists>e. fst (abind m f s) = Inl e \<and> P (Inl e) d) \<or>
       (\<exists>a e1 e2. d = e1 @ e2 \<and> P (Inr a) e1 \<and> Q a (fst (abind m f s)) e2))"
  proof (cases r)
    case (Inl e)
    then show ?thesis using d1 mt by (auto simp: abind_def)
  next
    case (Inr a)
    obtain r2 t2 where ft: "f a t = (r2, t2)" by (cases "f a t")
    obtain d2 where "snd t2 = snd t @ d2" "Q a r2 d2" using logsD [OF f ft] by blast
    then have "snd (snd (abind m f s)) = snd s @ d1 @ d2" "Q a (fst (abind m f s)) d2"
      using d1 mt ft Inr by (simp_all add: abind_def)
    then show ?thesis using d1(2) Inr by blast
  qed
qed

text \<open>A transaction: committed, or rolled back with an error.\<close>

definition settled_log ::
  "((execution_error, 'a) result \<Rightarrow> publication_event list \<Rightarrow> bool) \<Rightarrow> (execution_error, 'a) result \<Rightarrow> publication_event list \<Rightarrow> bool" where
  "settled_log P r d \<longleftrightarrow> (case r of
      Inr a \<Rightarrow> (\<exists>b. d = b @ [Committed] \<and> P (Inr a) b)
    | Inl e \<Rightarrow> (\<exists>b. d = b @ [RolledBack] \<and> (P (Inl e) b \<or> (\<exists>a. P (Inr a) b))))"

lemma settled_log_simps [simp]:
  "settled_log P (Inr a) d \<longleftrightarrow> (\<exists>b. d = b @ [Committed] \<and> P (Inr a) b)"
  "settled_log P (Inl e) d \<longleftrightarrow> (\<exists>b. d = b @ [RolledBack] \<and> (P (Inl e) b \<or> (\<exists>a. P (Inr a) b)))"
  by (simp_all add: settled_log_def)

lemma logs_transaction:
  assumes "logs body P"
  shows "logs (transaction p body) (settled_log P)"
  unfolding logs_def
proof
  fix s
  obtain r w l where body: "body s = (r, (w, l))" by (cases "body s") auto
  obtain d where d: "l = snd s @ d" "P r d" using logsD [OF assms body] by auto
  show "\<exists>d. snd (snd (transaction p body s)) = snd s @ d \<and> settled_log P (fst (transaction p body s)) d"
  proof (cases r)
    case (Inl e)
    then show ?thesis using body d by (auto simp: transaction_def)
  next
    case (Inr a)
    obtain x w' where settle: "up_settle p True (fst s) w = (x, w')" by (cases "up_settle p True (fst s) w")
    then show ?thesis using body d Inr by (cases x) (auto simp: transaction_def)
  qed
qed

lemma logs_ensuring:
  assumes "logs body P" and "logs final Q"
  shows "logs (ensuring final body) (\<lambda>r d. \<exists>r1 d1 r2 d2. d = d1 @ d2 \<and> P r1 d1 \<and> Q r2 d2 \<and>
     r = (case r2 of Inl e \<Rightarrow> Inl e | Inr _ \<Rightarrow> r1))"
  unfolding logs_def
proof
  fix s
  obtain r1 t1 where body: "body s = (r1, t1)" by (cases "body s")
  obtain r2 t2 where final: "final t1 = (r2, t2)" by (cases "final t1")
  obtain d1 where d1: "snd t1 = snd s @ d1" "P r1 d1" using logsD [OF assms(1) body] by blast
  obtain d2 where d2: "snd t2 = snd t1 @ d2" "Q r2 d2" using logsD [OF assms(2) final] by blast
  have "ensuring final body s = (case r2 of Inl e \<Rightarrow> Inl e | Inr _ \<Rightarrow> r1, t2)"
    using body final by (cases r2) (simp_all add: ensuring_def)
  then show "\<exists>d. snd (snd (ensuring final body s)) = snd s @ d \<and> (\<exists>r1 d1 r2 d2. d = d1 @ d2 \<and> P r1 d1 \<and> Q r2 d2 \<and>
     fst (ensuring final body s) = (case r2 of Inl e \<Rightarrow> Inl e | Inr _ \<Rightarrow> r1))"
    using d1 d2 by auto
qed

section \<open>Logs of the operations\<close>

definition recorded_log ::
  "publication_event \<Rightarrow> (execution_error, unit) result \<Rightarrow> publication_event list \<Rightarrow> bool" where
  "recorded_log ev r d \<longleftrightarrow> r = Inr () \<and> d = [ev, Committed] \<or> (\<exists>e. r = Inl e) \<and> (d = [PortThrew, RolledBack] \<or> d = [ev, RolledBack])"

lemma logs_recorded:
  "logs (transaction p (\<lambda>s. call (\<lambda>_. ev) (f s) s)) (recorded_log ev)"
  "logs (transaction p (call (\<lambda>_. ev) g)) (recorded_log ev)"
proof -
  have "recorded_log ev r d" if "settled_log (call_log (\<lambda>_ :: unit. ev)) r d" for r d
    using that by (cases r) (auto simp: recorded_log_def)
  then show "logs (transaction p (\<lambda>s. call (\<lambda>_. ev) (f s) s)) (recorded_log ev)"
    "logs (transaction p (call (\<lambda>_. ev) g)) (recorded_log ev)"
    by (blast intro: logs_mono logs_transaction logs_call_state logs_call)+
qed

lemma logs_record_published: "logs (record_published p c a receipt) (recorded_log (PublishedRecorded a receipt))"
  unfolding record_published_def by (rule logs_recorded)

lemma logs_complete: "logs (transaction p (complete_lease p ws key token)) (recorded_log (LeaseCompleted ws key token))"
  unfolding complete_lease_def by (rule logs_recorded)

definition failure_log ::
  "string \<Rightarrow> ((execution_error, 'a) result \<Rightarrow> publication_event list \<Rightarrow> bool) \<Rightarrow> (execution_error, 'a) result \<Rightarrow> publication_event list \<Rightarrow> bool" where
  "failure_log a P r d \<longleftrightarrow> (\<exists>v. r = Inr v \<and> P (Inr v) d) \<or>
     (\<exists>e e' d1 d2 u. r = Inl e' \<and> P (Inl e) d1 \<and> d = d1 @ d2 \<and> recorded_log (FailureRecorded a (error_details e)) u d2 \<and>
        (u = Inr () \<longrightarrow> e' = e))"

lemma logs_recording_failure:
  assumes "logs body P"
  shows "logs (recording_failure p c a body) (failure_log a P)"
  unfolding logs_def
proof
  fix s
  obtain r t where body: "body s = (r, t)" by (cases "body s")
  obtain d where d: "snd t = snd s @ d" "P r d" using logsD [OF assms body] by blast
  show "\<exists>d. snd (snd (recording_failure p c a body s)) = snd s @ d \<and> failure_log a P (fst (recording_failure p c a body s)) d"
  proof (cases r)
    case (Inr v)
    then show ?thesis using body d by (auto simp: recording_failure_def failure_log_def)
  next
    case (Inl e)
    let ?rec = "transaction p (\<lambda>t. call (\<lambda>_. FailureRecorded a (error_details e))
        (up_recordFailure p c a (error_details e) (up_now p (fst t))) t)"
    obtain u t' where rec: "?rec t = (u, t')" by (cases "?rec t")
    obtain d2 where d2: "snd t' = snd t @ d2" "recorded_log (FailureRecorded a (error_details e)) u d2"
      using logsD [OF logs_recorded(1) rec] by blast
    have run: "recording_failure p c a body s = (case u of Inl e' \<Rightarrow> Inl e' | Inr _ \<Rightarrow> Inl e, t')"
      using body rec Inl by (cases u) (simp_all add: recording_failure_def abind_def throw_def)
    then have "snd (snd (recording_failure p c a body s)) = snd s @ d @ d2" using d d2 by simp
    moreover have "failure_log a P (fst (recording_failure p c a body s)) (d @ d2)"
      unfolding failure_log_def run using d d2 Inl by (cases u) auto
    ultimately show ?thesis by blast
  qed
qed

text \<open>The request of a candidate.\<close>

definition request_for :: "publication_candidate \<Rightarrow> publication_identity \<Rightarrow> publish_request \<Rightarrow> bool" where
  "request_for c i q \<longleftrightarrow> pq_target q = pc_target c \<and> pq_marker q = pc_marker c \<and> pq_idempotencyKey q = pi_idempotencyKey i \<and>
     pq_requestHash q = pi_requestHash i \<and> pq_requestId q = pc_intentId c \<and>
     render (pc_analysis c) (pc_profile c) = Inr (pq_publication q)"

definition sent_log ::
  "string \<Rightarrow> publish_request \<Rightarrow> (execution_error, bool) result \<Rightarrow> publication_event list \<Rightarrow> bool" where
  "sent_log a q r d \<longleftrightarrow> (\<exists>post. d = PublishRequested q # post \<and> (\<forall>q'. PublishRequested q' \<notin> set post) \<and>
     (case r of Inl e \<Rightarrow> True
      | Inr True \<Rightarrow> (\<exists>receipt. post = [PublishAnswered (PublishedResult receipt), PublishedRecorded a receipt, Committed])
      | Inr False \<Rightarrow> (\<exists>i. post = [PublishAnswered (OutcomeUnknownResult i), UnknownRecorded a, Committed])))"

lemma logs_send:
  "logs (abind (note_event (PublishRequested q)) (\<lambda>_. abind (call PublishAnswered (up_publish p dest q)) (\<lambda>result.
     case result of
       OutcomeUnknownResult i \<Rightarrow>
         abind (transaction p (\<lambda>s. call (\<lambda>_. UnknownRecorded a) (up_recordUnknown p c a (up_now p (fst s))) s)) (\<lambda>_. ret False)
     | PublishedResult receipt \<Rightarrow> abind (record_published p c a receipt) (\<lambda>_. ret True)))) (sent_log a q)"
proof -
  let ?after = "\<lambda>result r d. case result of
      OutcomeUnknownResult i \<Rightarrow> (case r of Inl e \<Rightarrow> \<forall>q'. PublishRequested q' \<notin> set d | Inr b \<Rightarrow> \<not> b \<and> d = [UnknownRecorded a, Committed])
    | PublishedResult receipt \<Rightarrow> (case r of Inl e \<Rightarrow> \<forall>q'. PublishRequested q' \<notin> set d | Inr b \<Rightarrow> b \<and> d = [PublishedRecorded a receipt, Committed])"
  have after: "logs (case result of
       OutcomeUnknownResult i \<Rightarrow>
         abind (transaction p (\<lambda>s. call (\<lambda>_. UnknownRecorded a) (up_recordUnknown p c a (up_now p (fst s))) s)) (\<lambda>_. ret False)
     | PublishedResult receipt \<Rightarrow> abind (record_published p c a receipt) (\<lambda>_. ret True)) (?after result)" for result
  proof (cases result)
    case (OutcomeUnknownResult i)
    have "logs (abind (transaction p (\<lambda>s. call (\<lambda>_. UnknownRecorded a) (up_recordUnknown p c a (up_now p (fst s))) s)) (\<lambda>_. ret False))
      (?after (OutcomeUnknownResult i))"
      by (rule logs_mono [OF logs_bind [OF logs_recorded(1) logs_ret]]) (auto simp: recorded_log_def)
    then show ?thesis using OutcomeUnknownResult by simp
  next
    case (PublishedResult receipt)
    have "logs (abind (record_published p c a receipt) (\<lambda>_. ret True)) (?after (PublishedResult receipt))"
      by (rule logs_mono [OF logs_bind [OF logs_record_published logs_ret]]) (auto simp: recorded_log_def)
    then show ?thesis using PublishedResult by simp
  qed
  show ?thesis
  proof (rule logs_mono [OF logs_bind [OF logs_note logs_bind [OF logs_call after]]], goal_cases)
    case (1 r d)
    then consider e where "r = Inl e" "d = [PublishRequested q, PortThrew]"
      | x d3 where "d = PublishRequested q # PublishAnswered x # d3" "?after x r d3"
      by (elim disjE exE conjE; clarsimp; blast)
    then show ?case
    proof cases
      case 1
      then show ?thesis by (simp add: sent_log_def)
    next
      case 2
      then show ?thesis by (cases x; cases r) (auto simp: sent_log_def split: bool.splits)
    qed
  qed
qed

definition delivered_log ::
  "publication_candidate \<Rightarrow> publication_identity \<Rightarrow> string \<Rightarrow> (execution_error, bool) result \<Rightarrow> publication_event list \<Rightarrow> bool" where
  "delivered_log c i a r d \<longleftrightarrow>
     (\<exists>dest q e. d = [DestinationResolved (pc_connectorRegistrationId c) (pc_connectorConfigurationVersionId c) (Some dest),
        PublicationSought (pc_target c) (pc_marker c) None] @ e \<and> request_for c i q \<and> sent_log a q r e) \<or>
     (\<exists>dest receipt. d = [DestinationResolved (pc_connectorRegistrationId c) (pc_connectorConfigurationVersionId c) (Some dest),
        PublicationSought (pc_target c) (pc_marker c) (Some (pr_reference receipt)), PublishedRecorded a receipt, Committed] \<and> r = Inr True) \<or>
     (\<exists>e. r = Inl e) \<and> (\<forall>q. PublishRequested q \<notin> set d)"

lemma logs_publish_part:
  "logs (abind (lift_result RenderRefused (render (pc_analysis c) (pc_profile c))) (\<lambda>publication.
     abind (throw_if_aborted p BeforePublish) (\<lambda>_.
     let request = \<lparr>pq_target = pc_target c, pq_marker = pc_marker c, pq_idempotencyKey = pi_idempotencyKey i,
           pq_requestHash = pi_requestHash i, pq_publication = publication, pq_requestId = pc_intentId c\<rparr> in
     abind (note_event (PublishRequested request)) (\<lambda>_. abind (call PublishAnswered (up_publish p dest request)) (\<lambda>result.
     case result of
       OutcomeUnknownResult i \<Rightarrow>
         abind (transaction p (\<lambda>s. call (\<lambda>_. UnknownRecorded a) (up_recordUnknown p c a (up_now p (fst s))) s)) (\<lambda>_. ret False)
     | PublishedResult receipt \<Rightarrow> abind (record_published p c a receipt) (\<lambda>_. ret True))))))
   (\<lambda>r d. (\<exists>q. request_for c i q \<and> sent_log a q r d) \<or> (\<exists>e. r = Inl e) \<and> d = [])"
  unfolding Let_def
  by (rule logs_mono [OF logs_bind [OF logs_lift logs_bind [OF logs_aborted logs_send]]])
    (cases "render (pc_analysis c) (pc_profile c)"; auto simp: request_for_def)

lemma logs_found_part:
  assumes "existing = Some (reference, marker)"
  shows "logs (abind (record_published p c a \<lparr>pr_reference = reference, pr_marker = marker, pr_requestId = Some (pc_intentId c)\<rparr>) (\<lambda>_. ret True))
    (\<lambda>r d. (\<exists>receipt. pr_reference receipt = reference \<and> r = Inr True \<and> d = [PublishedRecorded a receipt, Committed]) \<or>
       (\<exists>e. r = Inl e) \<and> (\<forall>q. PublishRequested q \<notin> set d))"
  by (rule logs_mono [OF logs_bind [OF logs_record_published logs_ret]]) (auto simp: recorded_log_def)

lemma logs_deliver: "logs (deliver p ws c i a) (delivered_log c i a)"
proof -
  let ?found = "\<lambda>(existing :: (external_reference \<times> string) option) r d. case existing of
      None \<Rightarrow> (\<exists>q. request_for c i q \<and> sent_log a q r d) \<or> (\<exists>e. r = Inl e) \<and> d = []
    | Some x \<Rightarrow> (\<exists>receipt. pr_reference receipt = fst x \<and> r = Inr True \<and> d = [PublishedRecorded a receipt, Committed]) \<or>
       (\<exists>e. r = Inl e) \<and> (\<forall>q. PublishRequested q \<notin> set d)"
  let ?search = "\<lambda>dest. abind (call (\<lambda>r. PublicationSought (pc_target c) (pc_marker c) (map_option fst r))
      (up_findPublication p dest (pc_target c) (pc_marker c) (pc_intentId c))) (\<lambda>existing.
     case existing of
       Some (reference, marker) \<Rightarrow>
         abind (record_published p c a \<lparr>pr_reference = reference, pr_marker = marker, pr_requestId = Some (pc_intentId c)\<rparr>) (\<lambda>_. ret True)
     | None \<Rightarrow> abind (lift_result RenderRefused (render (pc_analysis c) (pc_profile c))) (\<lambda>publication.
         abind (throw_if_aborted p BeforePublish) (\<lambda>_.
         let request = \<lparr>pq_target = pc_target c, pq_marker = pc_marker c, pq_idempotencyKey = pi_idempotencyKey i,
               pq_requestHash = pi_requestHash i, pq_publication = publication, pq_requestId = pc_intentId c\<rparr> in
         abind (note_event (PublishRequested request)) (\<lambda>_. abind (call PublishAnswered (up_publish p dest request)) (\<lambda>result.
         case result of
           OutcomeUnknownResult i \<Rightarrow>
             abind (transaction p (\<lambda>s. call (\<lambda>_. UnknownRecorded a) (up_recordUnknown p c a (up_now p (fst s))) s)) (\<lambda>_. ret False)
         | PublishedResult receipt \<Rightarrow> abind (record_published p c a receipt) (\<lambda>_. ret True))))))"
  let ?searched = "\<lambda>r d. (\<exists>e. r = Inl e) \<and> (\<forall>q. PublishRequested q \<notin> set d) \<or>
     (\<exists>q e. d = PublicationSought (pc_target c) (pc_marker c) None # e \<and> request_for c i q \<and> sent_log a q r e) \<or>
     (\<exists>receipt. r = Inr True \<and> d = [PublicationSought (pc_target c) (pc_marker c) (Some (pr_reference receipt)),
        PublishedRecorded a receipt, Committed])"
  have search: "logs (?search dest) ?searched" for dest
  proof (rule logs_mono [OF logs_bind [OF logs_call, where Q = ?found]], goal_cases)
    case (1 existing)
    show ?case by (cases existing) (auto intro!: logs_publish_part logs_found_part)
  next
    case (2 r d)
    then consider e where "r = Inl e" "d = [PortThrew]"
      | x e where "d = PublicationSought (pc_target c) (pc_marker c) (map_option fst x) # e" "?found x r e"
      by auto
    then show ?case
    proof cases
      case (2 x e)
      then show ?thesis by (cases x) auto
    qed simp
  qed
  have resolved: "logs (case destination of None \<Rightarrow> throw DestinationUnavailable | Some d \<Rightarrow> ?search d)
      (\<lambda>r d. case destination of None \<Rightarrow> r = Inl DestinationUnavailable \<and> d = [] | Some _ \<Rightarrow> ?searched r d)" for destination
    using search logs_throw by (cases destination) simp_all
  show ?thesis
    unfolding deliver_def
  proof (rule logs_mono [OF logs_bind [OF logs_aborted logs_bind [OF logs_call resolved]]], goal_cases)
    case (1 r d)
    then consider e where "r = Inl e" "\<forall>q. PublishRequested q \<notin> set d"
      | dest e where "d = DestinationResolved (pc_connectorRegistrationId c) (pc_connectorConfigurationVersionId c) (Some dest) # e" "?searched r e"
    proof -
      assume "\<And>e. r = Inl e \<Longrightarrow> \<forall>q. PublishRequested q \<notin> set d \<Longrightarrow> thesis"
        "\<And>dest e. d = DestinationResolved (pc_connectorRegistrationId c) (pc_connectorConfigurationVersionId c) (Some dest) # e \<Longrightarrow>
          ?searched r e \<Longrightarrow> thesis"
      then show ?thesis using 1 by (elim disjE exE conjE; clarsimp split: option.splits; blast?)
    qed
    then show ?case
    proof cases
      case (2 dest e)
      then show ?thesis unfolding delivered_log_def by (elim disjE exE conjE; force)
    qed (simp add: delivered_log_def)
  qed
qed

text \<open>An attempt prepared by a transaction that was committed.\<close>

fun committed_attempt :: "publication_event list \<Rightarrow> bool" where
  "committed_attempt (AttemptPrepared h m b (Some a) # Committed # d) \<longleftrightarrow> True"
| "committed_attempt (e # d) \<longleftrightarrow> committed_attempt d"
| "committed_attempt [] \<longleftrightarrow> False"

lemma committed_attempt_needs: "committed_attempt d \<Longrightarrow> Committed \<in> set d"
  by (induction d rule: committed_attempt.induct) auto

definition prepared_log ::
  "string \<Rightarrow> publication_candidate \<Rightarrow> bool \<Rightarrow> (execution_error, (string \<times> int) option) result \<Rightarrow> publication_event list \<Rightarrow> bool" where
  "prepared_log ws c allow r d \<longleftrightarrow> (\<forall>q. PublishRequested q \<notin> set d) \<and> (case r of
      Inl e \<Rightarrow> Committed \<notin> set d
    | Inr None \<Rightarrow> d = [LeaseAcquired ws (pc_identityHash c) None, Committed] \<or>
        (\<exists>token. d = [LeaseAcquired ws (pc_identityHash c) (Some token), AttemptPrepared (pc_identityHash c) (pc_marker c) allow None,
           LeaseCompleted ws (pc_identityHash c) token, Committed])
    | Inr (Some (a, token)) \<Rightarrow> d = [LeaseAcquired ws (pc_identityHash c) (Some token),
        AttemptPrepared (pc_identityHash c) (pc_marker c) allow (Some a), Committed])"

lemma logs_prepare: "logs (prepare_attempt p ws c allow) (prepared_log ws c allow)"
proof -
  let ?h = "pc_identityHash c"
  let ?body = "\<lambda>token r d. case r of
      Inl e \<Rightarrow> Committed \<notin> set d \<and> (\<forall>q. PublishRequested q \<notin> set d)
    | Inr None \<Rightarrow> d = [AttemptPrepared ?h (pc_marker c) allow None, LeaseCompleted ws ?h token]
    | Inr (Some (a, t)) \<Rightarrow> t = token \<and> d = [AttemptPrepared ?h (pc_marker c) allow (Some a)]"
  have final: "logs (case attempt of
        None \<Rightarrow> abind (complete_lease p ws ?h token) (\<lambda>_. ret None)
      | Some a \<Rightarrow> ret (Some (a, token)))
     (\<lambda>r d. case attempt of
        None \<Rightarrow> (case r of Inl e \<Rightarrow> d = [PortThrew] | Inr x \<Rightarrow> x = None \<and> d = [LeaseCompleted ws ?h token])
      | Some a \<Rightarrow> r = Inr (Some (a, token)) \<and> d = [])" for attempt token
  proof (cases attempt)
    case None
    have "logs (abind (complete_lease p ws ?h token) (\<lambda>_. ret None))
        (\<lambda>r d. case r of Inl e \<Rightarrow> d = [PortThrew] | Inr x \<Rightarrow> x = None \<and> d = [LeaseCompleted ws ?h token])"
      unfolding complete_lease_def by (rule logs_mono [OF logs_bind [OF logs_call logs_ret]]) auto
    then show ?thesis using None by simp
  qed (simp add: logs_ret)
  have step: "logs (abind (\<lambda>s. call (\<lambda>r. AttemptPrepared ?h (pc_marker c) allow r)
        (up_prepare p c ?h (pc_marker c) allow (up_now p (fst s))) s) (\<lambda>attempt. case attempt of
           None \<Rightarrow> abind (complete_lease p ws ?h token) (\<lambda>_. ret None)
         | Some a \<Rightarrow> ret (Some (a, token)))) (?body token)" for token
    by (rule logs_mono [OF logs_bind [OF logs_call_state final]])
      (auto split: option.splits sum.splits)
  have lease: "logs (case l of None \<Rightarrow> ret None | Some token \<Rightarrow>
        abind (\<lambda>s. call (\<lambda>r. AttemptPrepared ?h (pc_marker c) allow r)
          (up_prepare p c ?h (pc_marker c) allow (up_now p (fst s))) s) (\<lambda>attempt. case attempt of
             None \<Rightarrow> abind (complete_lease p ws ?h token) (\<lambda>_. ret None)
           | Some a \<Rightarrow> ret (Some (a, token))))
     (\<lambda>r d. case l of None \<Rightarrow> r = Inr None \<and> d = [] | Some token \<Rightarrow> ?body token r d)" for l
    using step logs_ret by (cases l) auto
  let ?shape = "\<lambda>x d. case x of
      None \<Rightarrow> d = [LeaseAcquired ws ?h None] \<or> (\<exists>token. d = [LeaseAcquired ws ?h (Some token),
        AttemptPrepared ?h (pc_marker c) allow None, LeaseCompleted ws ?h token])
    | Some (a, token) \<Rightarrow> d = [LeaseAcquired ws ?h (Some token), AttemptPrepared ?h (pc_marker c) allow (Some a)]"
  let ?unsettled = "\<lambda>r d. Committed \<notin> set d \<and> (\<forall>q. PublishRequested q \<notin> set d) \<and> (\<forall>x. r = Inr x \<longrightarrow> ?shape x d)"
  have body: "?body token r d \<Longrightarrow> ?unsettled r (LeaseAcquired ws ?h (Some token) # d)" for token r d
    by (cases r) (auto split: option.splits)
  have all: "logs (abind (call (LeaseAcquired ws ?h) (up_acquire p ws ?h (up_leaseMs p))) (\<lambda>l. case l of None \<Rightarrow> ret None | Some token \<Rightarrow>
        abind (\<lambda>s. call (\<lambda>r. AttemptPrepared ?h (pc_marker c) allow r)
          (up_prepare p c ?h (pc_marker c) allow (up_now p (fst s))) s) (\<lambda>attempt. case attempt of
             None \<Rightarrow> abind (complete_lease p ws ?h token) (\<lambda>_. ret None)
           | Some a \<Rightarrow> ret (Some (a, token))))) ?unsettled"
  proof (rule logs_mono [OF logs_bind [OF logs_call lease]], goal_cases)
    case (1 r d)
    then consider e where "r = Inl e" "d = [PortThrew]"
      | "r = Inr None" "d = [LeaseAcquired ws ?h None]"
      | token e where "d = LeaseAcquired ws ?h (Some token) # e" "?body token r e"
      by (auto split: option.splits)
    then show ?case
    proof cases
      case 3
      from body [OF 3(2)] show ?thesis unfolding 3(1) .
    qed simp_all
  qed
  have "prepared_log ws c allow r d" if "settled_log ?unsettled r d" for r d
    using that by (cases r) (auto simp: prepared_log_def split: option.splits)
  then show ?thesis
    unfolding prepare_attempt_def by (rule logs_mono [OF logs_transaction [OF all]])
qed

text \<open>An execution that has prepared an attempt: what went before, the delivery, the end of the lease.\<close>

definition attempted_log ::
  "'w publication_ports \<Rightarrow> publication_command \<Rightarrow> (execution_error, execution_result) result \<Rightarrow> publication_event list \<Rightarrow> bool" where
  "attempted_log p cmd r d \<longleftrightarrow> (\<exists>c i a token r1 e1 r2 e2.
     publication_delivery_identity (up_sha256 p) (pc_identityHash c) = Inr i \<and> pi_marker i = pc_marker c \<and>
     d = [CandidateRead (cm_workspaceId cmd) (cm_publicationIntentId cmd) (Some c), Committed,
          LeaseAcquired (cm_workspaceId cmd) (pc_identityHash c) (Some token),
          AttemptPrepared (pc_identityHash c) (pc_marker c) (cm_reconcile cmd) (Some a), Committed] @ e1 @ e2 \<and>
     failure_log a (delivered_log c i a) r1 e1 \<and>
     recorded_log (LeaseCompleted (cm_workspaceId cmd) (pc_identityHash c) token) r2 e2 \<and>
     r = (case r2 of Inl e \<Rightarrow> Inl e | Inr _ \<Rightarrow>
           (case r1 of Inl e \<Rightarrow> Inl e | Inr b \<Rightarrow> Inr \<lparr>xr_published = b, xr_attempted = True\<rparr>)))"

definition unattempted_log ::
  "(execution_error, execution_result) result \<Rightarrow> publication_event list \<Rightarrow> bool" where
  "unattempted_log r d \<longleftrightarrow> (\<forall>q. PublishRequested q \<notin> set d) \<and> \<not> committed_attempt d \<and>
     (case r of Inl e \<Rightarrow> True | Inr x \<Rightarrow> x = \<lparr>xr_published = False, xr_attempted = False\<rparr>)"

lemma logs_attempt:
  assumes "publication_delivery_identity (up_sha256 p) (pc_identityHash c) = Inr i" "pi_marker i = pc_marker c"
  shows "logs (abind (prepare_attempt p (cm_workspaceId cmd) c (cm_reconcile cmd)) (\<lambda>prepared. case prepared of
      None \<Rightarrow> ret \<lparr>xr_published = False, xr_attempted = False\<rparr>
    | Some (attempt, token) \<Rightarrow>
        abind (ensuring (transaction p (complete_lease p (cm_workspaceId cmd) (pc_identityHash c) token))
          (recording_failure p c attempt (deliver p (cm_workspaceId cmd) c i attempt)))
          (\<lambda>published. ret \<lparr>xr_published = published, xr_attempted = True\<rparr>)))
    (\<lambda>r d. unattempted_log r d \<or>
       attempted_log p cmd r (CandidateRead (cm_workspaceId cmd) (cm_publicationIntentId cmd) (Some c) # Committed # d))"
proof -
  let ?ws = "cm_workspaceId cmd" and ?h = "pc_identityHash c"
  let ?tail = "\<lambda>a token r d. \<exists>r1 e1 r2 e2. d = e1 @ e2 \<and> failure_log a (delivered_log c i a) r1 e1 \<and>
     recorded_log (LeaseCompleted ?ws ?h token) r2 e2 \<and>
     r = (case r2 of Inl e \<Rightarrow> Inl e | Inr _ \<Rightarrow>
           (case r1 of Inl e \<Rightarrow> Inl e | Inr b \<Rightarrow> Inr \<lparr>xr_published = b, xr_attempted = True\<rparr>))"
  have tail: "logs (abind (ensuring (transaction p (complete_lease p ?ws ?h token))
          (recording_failure p c attempt (deliver p ?ws c i attempt)))
          (\<lambda>published. ret \<lparr>xr_published = published, xr_attempted = True\<rparr>)) (?tail attempt token)" for attempt token
  proof (rule logs_mono [OF logs_bind [OF logs_ensuring [OF logs_recording_failure [OF logs_deliver] logs_complete] logs_ret]], goal_cases)
    case (1 r d)
    then show ?case
    proof (elim disjE exE conjE)
      fix e r1 d1 r2 d2
      assume a: "r = Inl e" "d = d1 @ d2" "failure_log attempt (delivered_log c i attempt) r1 d1"
        "recorded_log (LeaseCompleted ?ws ?h token) r2 d2" "Inl e = (case r2 of Inl e \<Rightarrow> Inl e | Inr _ \<Rightarrow> r1)"
      show ?thesis
        by (rule exI [of _ r1], rule exI [of _ d1], rule exI [of _ r2], rule exI [of _ d2])
          (use a in \<open>cases r2; cases r1; simp\<close>)
    next
      fix x e1 e2 r1 d1 r2 d2
      assume a: "d = e1 @ e2" "r = Inr \<lparr>xr_published = x, xr_attempted = True\<rparr>" "e2 = []" "e1 = d1 @ d2"
        "failure_log attempt (delivered_log c i attempt) r1 d1"
        "recorded_log (LeaseCompleted ?ws ?h token) r2 d2" "Inr x = (case r2 of Inl e \<Rightarrow> Inl e | Inr _ \<Rightarrow> r1)"
      show ?thesis
        by (rule exI [of _ r1], rule exI [of _ d1], rule exI [of _ r2], rule exI [of _ d2])
          (use a in \<open>cases r2; cases r1; simp\<close>)
    qed
  qed
  have after: "logs (case prepared of
      None \<Rightarrow> ret \<lparr>xr_published = False, xr_attempted = False\<rparr>
    | Some (attempt, token) \<Rightarrow>
        abind (ensuring (transaction p (complete_lease p ?ws ?h token))
          (recording_failure p c attempt (deliver p ?ws c i attempt)))
          (\<lambda>published. ret \<lparr>xr_published = published, xr_attempted = True\<rparr>))
     (\<lambda>r d. case prepared of None \<Rightarrow> r = Inr \<lparr>xr_published = False, xr_attempted = False\<rparr> \<and> d = [] | Some (a, token) \<Rightarrow> ?tail a token r d)"
    for prepared
    using tail logs_ret by (cases prepared) auto
  show ?thesis
  proof (rule logs_mono [OF logs_bind [OF logs_prepare after]], goal_cases)
    case (1 r d)
    then show ?case
    proof (elim disjE exE conjE)
      fix e assume "r = Inl e" "prepared_log ?ws c (cm_reconcile cmd) (Inl e) d"
      then show ?thesis using committed_attempt_needs [of d] by (auto simp: unattempted_log_def prepared_log_def)
    next
      fix x d1 d2 assume d: "d = d1 @ d2" "prepared_log ?ws c (cm_reconcile cmd) (Inr x) d1" and
        tail: "case x of None \<Rightarrow> r = Inr \<lparr>xr_published = False, xr_attempted = False\<rparr> \<and> d2 = [] | Some (a, token) \<Rightarrow> ?tail a token r d2"
      show ?thesis
      proof (cases x)
        case None
        then show ?thesis using d tail by (auto simp: unattempted_log_def prepared_log_def)
      next
        case (Some y)
        obtain a token where y: "y = (a, token)" by (cases y)
        have d1: "d1 = [LeaseAcquired ?ws ?h (Some token), AttemptPrepared ?h (pc_marker c) (cm_reconcile cmd) (Some a), Committed]"
          using d(2) Some y by (simp add: prepared_log_def)
        have "?tail a token r d2" using tail Some y by simp
        then show ?thesis unfolding attempted_log_def d(1) d1 using assms by (intro disjI2) auto
      qed
    qed
  qed
qed

lemma logs_execute:
  "logs (execute p cmd) (\<lambda>r d. unattempted_log r d \<or> attempted_log p cmd r d)"
proof -
  let ?ws = "cm_workspaceId cmd" and ?intent = "cm_publicationIntentId cmd"
  let ?rest = "\<lambda>c. abind (lift_result InvalidIdentity (publication_delivery_identity (up_sha256 p) (pc_identityHash c))) (\<lambda>identity.
         if pi_marker identity \<noteq> pc_marker c then throw InvalidMarker
         else abind (prepare_attempt p ?ws c (cm_reconcile cmd)) (\<lambda>prepared. case prepared of
           None \<Rightarrow> ret \<lparr>xr_published = False, xr_attempted = False\<rparr>
         | Some (attempt, token) \<Rightarrow>
             abind (ensuring (transaction p (complete_lease p ?ws (pc_identityHash c) token))
               (recording_failure p c attempt (deliver p ?ws c identity attempt)))
               (\<lambda>published. ret \<lparr>xr_published = published, xr_attempted = True\<rparr>)))"
  let ?done = "\<lambda>c r d. unattempted_log r d \<or> attempted_log p cmd r (CandidateRead ?ws ?intent (Some c) # Committed # d)"
  have rest: "logs (?rest c) (?done c)" for c
  proof (cases "publication_delivery_identity (up_sha256 p) (pc_identityHash c)")
    case (Inl e)
    then show ?thesis by (auto simp: logs_def abind_def lift_result_def unattempted_log_def)
  next
    case (Inr i)
    have run: "abind (lift_result InvalidIdentity (Inr i)) f = f i" for f :: "publication_identity \<Rightarrow> ('a, execution_result) action"
      by (rule ext) (simp add: abind_def lift_result_def)
    show ?thesis
    proof (cases "pi_marker i = pc_marker c")
      case True
      then show ?thesis unfolding Inr run using logs_attempt [OF Inr True] by simp
    next
      case False
      then show ?thesis unfolding Inr run by (auto simp: logs_def throw_def unattempted_log_def)
    qed
  qed
  have found: "logs (case found of None \<Rightarrow> ret \<lparr>xr_published = False, xr_attempted = False\<rparr> | Some c \<Rightarrow> ?rest c)
     (\<lambda>r d. case found of None \<Rightarrow> r = Inr \<lparr>xr_published = False, xr_attempted = False\<rparr> \<and> d = [] | Some c \<Rightarrow> ?done c r d)" for found
    using rest logs_ret by (cases found) auto
  show ?thesis
    unfolding execute_def
  proof (rule logs_mono [OF logs_bind [OF logs_aborted logs_bind [OF logs_transaction [OF logs_call] found]]], goal_cases)
    case (1 r d)
    then consider e where "r = Inl e" "\<forall>q. PublishRequested q \<notin> set d" "Committed \<notin> set d"
      | f d2 where "d = CandidateRead ?ws ?intent f # Committed # d2"
          "case f of None \<Rightarrow> r = Inr \<lparr>xr_published = False, xr_attempted = False\<rparr> \<and> d2 = [] | Some c \<Rightarrow> ?done c r d2"
      by (elim disjE exE conjE) force+
    then show ?case
    proof cases
      case (2 f d2)
      then show ?thesis by (cases f) (auto simp: unattempted_log_def)
    qed (use committed_attempt_needs [of d] in \<open>auto simp: unattempted_log_def\<close>)
  qed
qed

section \<open>The protocol\<close>

text \<open>The outcome of an attempt, recorded by a committed transaction.\<close>

definition outcome_recorded :: "string \<Rightarrow> publication_event list \<Rightarrow> bool" where
  "outcome_recorded a d \<longleftrightarrow> (\<exists>pre post ev. d = pre @ [ev, Committed] @ post \<and>
     ((\<exists>receipt. ev = PublishedRecorded a receipt) \<or> ev = UnknownRecorded a \<or> (\<exists>e. ev = FailureRecorded a e)))"

lemma outcome_recordedI:
  "outcome_recorded a (pre @ [PublishedRecorded a receipt, Committed] @ post)"
  "outcome_recorded a (pre @ [UnknownRecorded a, Committed] @ post)"
  "outcome_recorded a (pre @ [FailureRecorded a e, Committed] @ post)"
  unfolding outcome_recorded_def by blast+

lemma outcome_recorded_after: "outcome_recorded a d \<Longrightarrow> outcome_recorded a (e @ d)"
proof -
  assume "outcome_recorded a d"
  then obtain pre post ev where d: "d = pre @ [ev, Committed] @ post" and
    ev: "(\<exists>receipt. ev = PublishedRecorded a receipt) \<or> ev = UnknownRecorded a \<or> (\<exists>x. ev = FailureRecorded a x)"
    unfolding outcome_recorded_def by blast
  have "e @ d = (e @ pre) @ [ev, Committed] @ post" by (simp add: d)
  then show ?thesis using ev unfolding outcome_recorded_def by blast
qed

lemma delivered_outcome:
  assumes "delivered_log c i a (Inr b) d"
  shows "\<exists>pre. (b \<and> (\<exists>receipt. d = pre @ [PublishedRecorded a receipt, Committed])) \<or> (\<not> b \<and> d = pre @ [UnknownRecorded a, Committed])"
  using assms unfolding delivered_log_def
proof (elim disjE exE conjE)
  fix dest q e
  assume d: "d = [DestinationResolved (pc_connectorRegistrationId c) (pc_connectorConfigurationVersionId c) (Some dest),
      PublicationSought (pc_target c) (pc_marker c) None] @ e" and "sent_log a q (Inr b) e"
  then obtain x y where "e = [PublishRequested q, x, y, Committed]" "(b \<and> (\<exists>receipt. y = PublishedRecorded a receipt)) \<or> (\<not> b \<and> y = UnknownRecorded a)"
    by (cases b) (auto simp: sent_log_def)
  then show ?thesis
    using d by (intro exI [of _ "take 4 d"]) auto
next
  fix dest receipt
  assume "d = [DestinationResolved (pc_connectorRegistrationId c) (pc_connectorConfigurationVersionId c) (Some dest),
      PublicationSought (pc_target c) (pc_marker c) (Some (pr_reference receipt)), PublishedRecorded a receipt, Committed]" "Inr b = Inr True"
  then show ?thesis by (intro exI [of _ "take 2 d"]) auto
qed auto

lemma failure_outcome:
  assumes "failure_log a (delivered_log c i a) r d"
  shows "outcome_recorded a (d @ e) \<or> (\<exists>x. r = Inl x) \<and> RolledBack \<in> set d"
  using assms unfolding failure_log_def
proof (elim disjE exE conjE)
  fix v assume "r = Inr v" "delivered_log c i a (Inr v) d"
  then obtain pre where "(v \<and> (\<exists>receipt. d = pre @ [PublishedRecorded a receipt, Committed])) \<or> (\<not> v \<and> d = pre @ [UnknownRecorded a, Committed])"
    using delivered_outcome by blast
  then show ?thesis using outcome_recordedI(1) [of a pre _ e] outcome_recordedI(2) [of a pre e] by auto
next
  fix x x' d1 d2 u
  assume "r = Inl x'" "d = d1 @ d2" "recorded_log (FailureRecorded a (error_details x)) u d2"
  then show ?thesis using outcome_recordedI(3) [of a d1 "error_details x" e] by (auto simp: recorded_log_def)
qed

lemma delivered_requests:
  assumes "delivered_log c i a r d" "PublishRequested q \<in> set d"
  shows "\<exists>dest post. d = [DestinationResolved (pc_connectorRegistrationId c) (pc_connectorConfigurationVersionId c) (Some dest),
      PublicationSought (pc_target c) (pc_marker c) None, PublishRequested q] @ post \<and> request_for c i q \<and>
      (\<forall>q'. PublishRequested q' \<notin> set post)"
  using assms unfolding delivered_log_def sent_log_def by (elim disjE exE conjE) auto

lemma failure_requests:
  assumes "failure_log a (delivered_log c i a) r d" "PublishRequested q \<in> set d"
  shows "\<exists>dest post. d = [DestinationResolved (pc_connectorRegistrationId c) (pc_connectorConfigurationVersionId c) (Some dest),
      PublicationSought (pc_target c) (pc_marker c) None, PublishRequested q] @ post \<and> request_for c i q \<and>
      (\<forall>q'. PublishRequested q' \<notin> set post)"
  using assms(1) unfolding failure_log_def
proof (elim disjE exE conjE)
  fix v assume "delivered_log c i a (Inr v) d"
  then show ?thesis using delivered_requests assms(2) by blast
next
  fix x x' d1 d2 u
  assume d: "delivered_log c i a (Inl x) d1" "d = d1 @ d2" "recorded_log (FailureRecorded a (error_details x)) u d2"
  have none: "PublishRequested q' \<notin> set d2" for q' using d(3) by (auto simp: recorded_log_def)
  then have "PublishRequested q \<in> set d1" using assms(2) d(2) by auto
  from delivered_requests [OF d(1) this] show ?thesis using none d(2) by fastforce
qed

text \<open>
  C18: the publication protocol.  Whatever the ports answer or throw, an execution asks its destination to publish
  at most once, and only after it has read the candidate, checked its marker against its identity hash, acquired
  the lease of that hash and prepared an attempt in a committed transaction, resolved the destination and been told
  that the marker is not there yet; the request carries the candidate's target and marker, the derived idempotency
  key and request hash, and the rendered analysis.  If an attempt was prepared, the execution ends by completing its
  lease (or with an error of the completing transaction), and the outcome of the attempt was recorded unless a
  transaction was rolled back.  It reports a publication as published only if that was recorded.
\<close>

theorem publication_protocol:
  assumes "execute p cmd (w, []) = (r, (w', trail))"
  shows "(\<forall>q. PublishRequested q \<in> set trail \<longrightarrow>
      (\<exists>c i token a dest post. publication_delivery_identity (up_sha256 p) (pc_identityHash c) = Inr i \<and>
         pi_marker i = pc_marker c \<and> request_for c i q \<and> (\<forall>q'. PublishRequested q' \<notin> set post) \<and>
         trail = [CandidateRead (cm_workspaceId cmd) (cm_publicationIntentId cmd) (Some c), Committed,
           LeaseAcquired (cm_workspaceId cmd) (pc_identityHash c) (Some token),
           AttemptPrepared (pc_identityHash c) (pc_marker c) (cm_reconcile cmd) (Some a), Committed,
           DestinationResolved (pc_connectorRegistrationId c) (pc_connectorConfigurationVersionId c) (Some dest),
           PublicationSought (pc_target c) (pc_marker c) None, PublishRequested q] @ post)) \<and>
    (committed_attempt trail \<longrightarrow> (\<exists>a h token pre e.
       LeaseAcquired (cm_workspaceId cmd) h (Some token) \<in> set pre \<and>
       AttemptPrepared h (''caseweaver.publication.v1.'' @ to_lower h) (cm_reconcile cmd) (Some a) \<in> set pre \<and>
       (trail = pre @ [LeaseCompleted (cm_workspaceId cmd) h token, Committed] \<or>
        r = Inl e \<and> (trail = pre @ [LeaseCompleted (cm_workspaceId cmd) h token, RolledBack] \<or> trail = pre @ [PortThrew, RolledBack])) \<and>
       (outcome_recorded a trail \<or> (\<exists>x. r = Inl x) \<and> RolledBack \<in> set trail))) \<and>
    (case r of Inl e \<Rightarrow> True | Inr x \<Rightarrow>
       (xr_attempted x \<longleftrightarrow> committed_attempt trail) \<and> (xr_published x \<longrightarrow> xr_attempted x) \<and>
       (xr_attempted x \<longrightarrow> (\<exists>a receipt pre l. trail = pre @ [if xr_published x then PublishedRecorded a receipt else UnknownRecorded a,
          Committed, l, Committed])))"
proof -
  have "unattempted_log r trail \<or> attempted_log p cmd r trail"
    using logsD [OF logs_execute assms] by simp
  then show ?thesis
  proof
    assume "unattempted_log r trail"
    then show ?thesis by (cases r) (auto simp: unattempted_log_def)
  next
    assume "attempted_log p cmd r trail"
    then obtain c i a token r1 e1 r2 e2 where
      identity: "publication_delivery_identity (up_sha256 p) (pc_identityHash c) = Inr i" "pi_marker i = pc_marker c" and
      trail: "trail = [CandidateRead (cm_workspaceId cmd) (cm_publicationIntentId cmd) (Some c), Committed,
          LeaseAcquired (cm_workspaceId cmd) (pc_identityHash c) (Some token),
          AttemptPrepared (pc_identityHash c) (pc_marker c) (cm_reconcile cmd) (Some a), Committed] @ e1 @ e2" and
      e1: "failure_log a (delivered_log c i a) r1 e1" and
      e2: "recorded_log (LeaseCompleted (cm_workspaceId cmd) (pc_identityHash c) token) r2 e2" and
      r: "r = (case r2 of Inl e \<Rightarrow> Inl e | Inr _ \<Rightarrow>
           (case r1 of Inl e \<Rightarrow> Inl e | Inr b \<Rightarrow> Inr \<lparr>xr_published = b, xr_attempted = True\<rparr>))"
      unfolding attempted_log_def by blast
    let ?start = "[CandidateRead (cm_workspaceId cmd) (cm_publicationIntentId cmd) (Some c), Committed,
          LeaseAcquired (cm_workspaceId cmd) (pc_identityHash c) (Some token),
          AttemptPrepared (pc_identityHash c) (pc_marker c) (cm_reconcile cmd) (Some a), Committed]"
    have marker: "pc_marker c = ''caseweaver.publication.v1.'' @ to_lower (pc_identityHash c)"
      using identity by (auto simp: publication_delivery_identity_def result_simps sha256_digest_def split: if_splits)
    have committed: "committed_attempt trail" by (simp add: trail)
    have no2: "PublishRequested q \<notin> set e2" for q using e2 by (auto simp: recorded_log_def)
    have requests: "\<exists>c i token a dest post. publication_delivery_identity (up_sha256 p) (pc_identityHash c) = Inr i \<and>
         pi_marker i = pc_marker c \<and> request_for c i q \<and> (\<forall>q'. PublishRequested q' \<notin> set post) \<and>
         trail = [CandidateRead (cm_workspaceId cmd) (cm_publicationIntentId cmd) (Some c), Committed,
           LeaseAcquired (cm_workspaceId cmd) (pc_identityHash c) (Some token),
           AttemptPrepared (pc_identityHash c) (pc_marker c) (cm_reconcile cmd) (Some a), Committed,
           DestinationResolved (pc_connectorRegistrationId c) (pc_connectorConfigurationVersionId c) (Some dest),
           PublicationSought (pc_target c) (pc_marker c) None, PublishRequested q] @ post" if q: "PublishRequested q \<in> set trail" for q
    proof -
      have "PublishRequested q \<in> set e1" using q no2 by (auto simp: trail)
      then obtain dest post where "e1 = [DestinationResolved (pc_connectorRegistrationId c) (pc_connectorConfigurationVersionId c) (Some dest),
          PublicationSought (pc_target c) (pc_marker c) None, PublishRequested q] @ post" "request_for c i q"
        "\<forall>q'. PublishRequested q' \<notin> set post"
        using failure_requests [OF e1] by blast
      then show ?thesis
        using identity no2 by (intro exI [of _ c] exI [of _ i] exI [of _ token] exI [of _ a] exI [of _ dest] exI [of _ "post @ e2"])
          (simp add: trail)
    qed
    have outcome: "outcome_recorded a trail \<or> (\<exists>x. r = Inl x) \<and> RolledBack \<in> set trail"
    proof -
      have "outcome_recorded a trail" if "outcome_recorded a (e1 @ e2)"
        unfolding trail by (rule outcome_recorded_after [OF that])
      then show ?thesis
        using failure_outcome [OF e1, of e2] r by (auto simp: trail split: sum.splits)
    qed
    have final: "\<exists>e. trail = (?start @ e1) @ [LeaseCompleted (cm_workspaceId cmd) (pc_identityHash c) token, Committed] \<or>
        r = Inl e \<and> (trail = (?start @ e1) @ [LeaseCompleted (cm_workspaceId cmd) (pc_identityHash c) token, RolledBack] \<or>
          trail = (?start @ e1) @ [PortThrew, RolledBack])"
      using e2 r unfolding trail recorded_log_def by auto
    have result: "case r of Inl e \<Rightarrow> True | Inr x \<Rightarrow>
       (xr_attempted x \<longleftrightarrow> committed_attempt trail) \<and> (xr_published x \<longrightarrow> xr_attempted x) \<and>
       (xr_attempted x \<longrightarrow> (\<exists>a receipt pre l. trail = pre @ [if xr_published x then PublishedRecorded a receipt else UnknownRecorded a,
          Committed, l, Committed]))"
    proof (cases r)
      case (Inr x)
      then obtain b where b: "r1 = Inr b" "x = \<lparr>xr_published = b, xr_attempted = True\<rparr>" "r2 = Inr ()"
        using r by (cases r2; cases r1) auto
      have "delivered_log c i a (Inr b) e1" using e1 b(1) by (auto simp: failure_log_def)
      then obtain pre where pre: "(b \<and> (\<exists>receipt. e1 = pre @ [PublishedRecorded a receipt, Committed])) \<or> (\<not> b \<and> e1 = pre @ [UnknownRecorded a, Committed])"
        using delivered_outcome by blast
      have e2': "e2 = [LeaseCompleted (cm_workspaceId cmd) (pc_identityHash c) token, Committed]" using e2 b(3) by (auto simp: recorded_log_def)
      have "\<exists>receipt. trail = (?start @ pre) @ [if b then PublishedRecorded a receipt else UnknownRecorded a, Committed,
          LeaseCompleted (cm_workspaceId cmd) (pc_identityHash c) token, Committed]"
        using pre by (auto simp: trail e2')
      then show ?thesis using Inr b(2) committed by auto
    qed simp
    obtain e where e: "trail = (?start @ e1) @ [LeaseCompleted (cm_workspaceId cmd) (pc_identityHash c) token, Committed] \<or>
        r = Inl e \<and> (trail = (?start @ e1) @ [LeaseCompleted (cm_workspaceId cmd) (pc_identityHash c) token, RolledBack] \<or>
          trail = (?start @ e1) @ [PortThrew, RolledBack])"
      using final by blast
    have ends: "\<exists>a h token pre e.
       LeaseAcquired (cm_workspaceId cmd) h (Some token) \<in> set pre \<and>
       AttemptPrepared h (''caseweaver.publication.v1.'' @ to_lower h) (cm_reconcile cmd) (Some a) \<in> set pre \<and>
       (trail = pre @ [LeaseCompleted (cm_workspaceId cmd) h token, Committed] \<or>
        r = Inl e \<and> (trail = pre @ [LeaseCompleted (cm_workspaceId cmd) h token, RolledBack] \<or> trail = pre @ [PortThrew, RolledBack])) \<and>
       (outcome_recorded a trail \<or> (\<exists>x. r = Inl x) \<and> RolledBack \<in> set trail)"
      by (rule exI [of _ a], rule exI [of _ "pc_identityHash c"], rule exI [of _ token], rule exI [of _ "?start @ e1"], rule exI [of _ e])
        (intro conjI e outcome, simp_all add: marker)
    show ?thesis using requests ends result by blast
  qed
qed

section \<open>One publication per target and marker\<close>

text \<open>
  What the executor relies on in a destination, with \<open>created\<close> counting the publications made for a
  target and marker: a search that finds nothing means that there is none, and a request to publish makes at
  most one, for its own target and marker, whether it answers, throws or does not know the outcome.
\<close>

locale destination =
  fixes created :: "'w \<Rightarrow> external_reference \<times> string \<Rightarrow> nat"
    and find :: "external_reference \<Rightarrow> string \<Rightarrow> 'w \<Rightarrow> (port_error, (external_reference \<times> string) option) result \<times> 'w"
    and publish :: "publish_request \<Rightarrow> 'w \<Rightarrow> (port_error, publish_result) result \<times> 'w"
  assumes find_keeps: "created (snd (find t m w)) = created w"
    and find_sees: "fst (find t m w) = Inr None \<Longrightarrow> created w (t, m) = 0"
    and publish_adds: "created (snd (publish q w)) k \<le> created w k + (if k = (pq_target q, pq_marker q) then 1 else 0)"
begin

lemma search_then_publish:
  assumes "find (pq_target q) (pq_marker q) w = (Inr None, w1)" "created w2 = created w1" "\<forall>k. created w k \<le> 1"
  shows "created (snd (publish q w2)) k \<le> 1"
proof -
  have "created w2 = created w" "created w (pq_target q, pq_marker q) = 0"
    using assms(1,2) find_keeps [of "pq_target q" "pq_marker q" w] find_sees [of "pq_target q" "pq_marker q" w] by simp_all
  then show ?thesis
    using publish_adds [of q w2 k] spec [OF assms(3), of k] by (cases "k = (pq_target q, pq_marker q)") simp_all
qed

end

definition memory_created :: "memory_destination \<Rightarrow> external_reference \<times> string \<Rightarrow> nat" where
  "memory_created m k = length (filter (\<lambda>(t, marker, reference). (t, marker) = k) (md_publications m))"

lemma memory_lookup_None:
  "memory_lookup m t marker = None \<longleftrightarrow> (\<forall>(t', marker', reference) \<in> set (md_publications m). target_key t' marker' \<noteq> target_key t marker)"
  by (auto simp: memory_lookup_def find_None_iff)

interpretation memory: destination memory_created memory_find memory_publish
proof
  show "memory_created (snd (memory_find t m w)) = memory_created w" for t m w
    by (simp add: memory_find_def memory_created_def fun_eq_iff Let_def)
  show "memory_created w (t, m) = 0" if "fst (memory_find t m w) = Inr None" for t m w
  proof -
    have "memory_lookup w t m = None" using that by (simp add: memory_find_def memory_lookup_def Let_def)
    then show ?thesis by (auto simp: memory_created_def memory_lookup_None filter_empty_conv)
  qed
  show "memory_created (snd (memory_publish q w)) k \<le> memory_created w k + (if k = (pq_target q, pq_marker q) then 1 else 0)" for q w k
    by (auto simp: memory_publish_def memory_created_def Let_def split: option.splits)
qed

definition keeps :: "('w \<Rightarrow> 'c) \<Rightarrow> ('w \<Rightarrow> 'r \<times> 'w) \<Rightarrow> bool" where
  "keeps created f \<longleftrightarrow> (\<forall>w. created (snd (f w)) = created w)"

text \<open>The other ports touch the database only.\<close>

definition database_only :: "'w publication_ports \<Rightarrow> ('w \<Rightarrow> 'c) \<Rightarrow> bool" where
  "database_only p created \<longleftrightarrow>
     (\<forall>b w w'. created (snd (up_settle p b w w')) = created w') \<and>
     (\<forall>ws i. keeps created (up_findCandidate p ws i)) \<and>
     (\<forall>ws key ms. keeps created (up_acquire p ws key ms)) \<and>
     (\<forall>ws key token. keeps created (up_complete p ws key token)) \<and>
     (\<forall>c h m allow now. keeps created (up_prepare p c h m allow now)) \<and>
     (\<forall>c a receipt now. keeps created (up_recordPublished p c a receipt now)) \<and>
     (\<forall>c a now. keeps created (up_recordUnknown p c a now)) \<and>
     (\<forall>c a e now. keeps created (up_recordFailure p c a e now)) \<and>
     (\<forall>ws reg cfg. keeps created (up_resolve p ws reg cfg)) \<and>
     (\<forall>ws n. keeps created (up_findUnknown p ws n))"

definition same :: "('w \<Rightarrow> 'c) \<Rightarrow> ('w, 'a) action \<Rightarrow> bool" where
  "same created m \<longleftrightarrow> (\<forall>s. created (fst (snd (m s))) = created (fst s))"

definition stays :: "('w \<Rightarrow> bool) \<Rightarrow> ('w, 'a) action \<Rightarrow> bool" where
  "stays I m \<longleftrightarrow> (\<forall>s. I (fst s) \<longrightarrow> I (fst (snd (m s))))"

lemma same_basic:
  "same created (ret a)" "same created (throw e)" "same created (note_event ev)" "same created (lift_result h x)"
  "same created (throw_if_aborted p point)"
  by (simp_all add: same_def ret_def throw_def note_event_def lift_result_def throw_if_aborted_def split: sum.splits)

lemma same_call: "keeps created f \<Longrightarrow> same created (call ev f)"
  by (auto simp: same_def call_def keeps_def split: prod.splits sum.splits) (metis snd_conv)+

lemma same_call_state: "(\<And>s. keeps created (f s)) \<Longrightarrow> same created (\<lambda>s. call ev (f s) s)"
  using same_call unfolding same_def by blast

lemma same_bind: "same created m \<Longrightarrow> (\<And>a. same created (f a)) \<Longrightarrow> same created (abind m f)"
  unfolding same_def abind_def by (auto split: prod.splits sum.splits) (metis fst_conv snd_conv)+

lemma same_transaction:
  assumes "\<And>b w w'. created (snd (up_settle p b w w')) = created w'" "same created body"
  shows "same created (transaction p body)"
  unfolding same_def
proof
  fix s
  obtain r w l where body: "body s = (r, (w, l))" by (cases "body s") auto
  then have w: "created w = created (fst s)" using assms(2) unfolding same_def by (metis fst_conv snd_conv)
  have settle: "created (snd (up_settle p b (fst s) w)) = created w" for b by (rule assms(1))
  show "created (fst (snd (transaction p body s))) = created (fst s)"
    using settle [of True] settle [of False] w by (auto simp: transaction_def body split: sum.splits prod.splits option.splits)
qed

lemma same_stays: "same created m \<Longrightarrow> (\<And>w w'. created w = created w' \<Longrightarrow> I w = I w') \<Longrightarrow> stays I m"
  unfolding same_def stays_def by blast

lemma stays_bind: "stays I m \<Longrightarrow> (\<And>a. stays I (f a)) \<Longrightarrow> stays I (abind m f)"
  unfolding stays_def abind_def by (auto split: prod.splits sum.splits) (metis fst_conv snd_conv)+

lemma stays_ensuring: "stays I body \<Longrightarrow> stays I final \<Longrightarrow> stays I (ensuring final body)"
  unfolding stays_def ensuring_def by (auto split: prod.splits sum.splits) (metis fst_conv snd_conv)+

definition holds :: "('w \<Rightarrow> bool) \<Rightarrow> ('w, 'a) action \<Rightarrow> ((execution_error, 'a) result \<Rightarrow> 'w \<Rightarrow> bool) \<Rightarrow> bool" where
  "holds P m R \<longleftrightarrow> (\<forall>s. P (fst s) \<longrightarrow> R (fst (m s)) (fst (snd (m s))))"

lemma holds_bind:
  fixes P :: "'w \<Rightarrow> bool"
  assumes "holds P m R" "\<And>a. holds (R (Inr a)) (f a) Q" "\<And>e w. R (Inl e) w \<Longrightarrow> Q (Inl e) w"
  shows "holds P (abind m f) Q"
  unfolding holds_def
proof (intro allI impI)
  fix s :: "'w pstate" assume P: "P (fst s)"
  obtain r t where m: "m s = (r, t)" by (cases "m s")
  have R: "R r (fst t)" using assms(1) P m unfolding holds_def by (metis fst_conv snd_conv)
  show "Q (fst (abind m f s)) (fst (snd (abind m f s)))"
  proof (cases r)
    case (Inl e)
    then show ?thesis using assms(3) R m by (simp add: abind_def)
  next
    case (Inr a)
    then show ?thesis using assms(2) [of a] R m by (cases t) (simp add: abind_def holds_def)
  qed
qed

lemma holds_same: "same created m \<Longrightarrow> (\<And>w w'. created w = created w' \<Longrightarrow> P w \<Longrightarrow> P w') \<Longrightarrow> holds P m (\<lambda>_. P)"
  unfolding same_def holds_def by metis

text \<open>The two calls of a destination, one after the other.\<close>

lemma deliver_stays:
  assumes dest: "\<And>d i. destination created (\<lambda>t m. up_findPublication p d t m i) (up_publish p d)"
    and db: "database_only p created"
  shows "stays (\<lambda>w. \<forall>k. created w k \<le> 1) (deliver p ws c i a)"
proof -
  let ?I = "\<lambda>w. \<forall>k. created w k \<le> 1" and ?k = "(pc_target c, pc_marker c)"
  let ?J = "\<lambda>w. ?I w \<and> created w ?k = 0"
  have tx: "same created (transaction p (\<lambda>s. call ev (f s) s))" if "\<And>s. keeps created (f s)" for f :: "'a pstate \<Rightarrow> 'a \<Rightarrow> (port_error, unit) result \<times> 'a" and ev
    using db that by (intro same_transaction same_call_state) (simp_all add: database_only_def)
  have published: "same created (record_published p c a receipt)" for receipt
    unfolding record_published_def using db by (intro tx) (simp add: database_only_def)
  have unknown: "same created (transaction p (\<lambda>s. call (\<lambda>_. UnknownRecorded a) (up_recordUnknown p c a (up_now p (fst s))) s))"
    using db by (intro tx) (simp add: database_only_def)
  have keepI: "holds ?I m (\<lambda>_. ?I)" and keepJ: "holds ?J m (\<lambda>_. ?J)" if "same created m" for m :: "('a, 'b) action"
    using that by (auto intro!: holds_same [of created])
  have publish: "holds ?J (call PublishAnswered (up_publish p d q)) (\<lambda>_. ?I)" if "pq_target q = pc_target c" "pq_marker q = pc_marker c" for d q
    unfolding holds_def
  proof (intro allI impI)
    fix s :: "'a pstate" and k assume J: "?J (fst s)"
    have "created (snd (up_publish p d q (fst s))) k \<le> created (fst s) k + (if k = ?k then 1 else 0)"
      using destination.publish_adds [OF dest, of d q "fst s" k] that by simp
    moreover have "created (fst s) k \<le> 1" using J by blast
    ultimately have "created (snd (up_publish p d q (fst s))) k \<le> 1" using J by (cases "k = ?k") simp_all
    then show "created (fst (snd (call PublishAnswered (up_publish p d q) s))) k \<le> 1"
      by (auto simp: call_def split: prod.splits sum.splits)
  qed
  have answered: "holds ?I (case result of
       OutcomeUnknownResult i \<Rightarrow>
         abind (transaction p (\<lambda>s. call (\<lambda>_. UnknownRecorded a) (up_recordUnknown p c a (up_now p (fst s))) s)) (\<lambda>_. ret False)
     | PublishedResult receipt \<Rightarrow> abind (record_published p c a receipt) (\<lambda>_. ret True)) (\<lambda>_. ?I)" for result
    by (cases result; simp only: publish_result.case) (rule keepI, intro same_bind same_basic published unknown)+
  let ?send = "\<lambda>d publication. let request = \<lparr>pq_target = pc_target c, pq_marker = pc_marker c, pq_idempotencyKey = pi_idempotencyKey i,
        pq_requestHash = pi_requestHash i, pq_publication = publication, pq_requestId = pc_intentId c\<rparr> in
     abind (note_event (PublishRequested request)) (\<lambda>_. abind (call PublishAnswered (up_publish p d request)) (\<lambda>result.
       case result of
         OutcomeUnknownResult i \<Rightarrow>
           abind (transaction p (\<lambda>s. call (\<lambda>_. UnknownRecorded a) (up_recordUnknown p c a (up_now p (fst s))) s)) (\<lambda>_. ret False)
       | PublishedResult receipt \<Rightarrow> abind (record_published p c a receipt) (\<lambda>_. ret True)))"
  have send: "holds ?J (?send d publication) (\<lambda>_. ?I)" for d publication
    unfolding Let_def
    by (rule holds_bind [OF keepJ [OF same_basic(3)]], rule holds_bind [OF publish], simp, simp, rule answered) simp_all
  have fresh: "holds ?J (abind (lift_result RenderRefused (render (pc_analysis c) (pc_profile c))) (\<lambda>publication.
      abind (throw_if_aborted p BeforePublish) (\<lambda>_. ?send d publication))) (\<lambda>_. ?I)" for d
    by (rule holds_bind [OF keepJ [OF same_basic(4)]], rule holds_bind [OF keepJ [OF same_basic(5)]], rule send) simp_all
  have search: "holds ?I (call (\<lambda>r. PublicationSought (pc_target c) (pc_marker c) (map_option fst r))
      (up_findPublication p d (pc_target c) (pc_marker c) (pc_intentId c))) (\<lambda>r w. if r = Inr None then ?J w else ?I w)" for d
    unfolding holds_def
  proof (intro allI impI)
    fix s :: "'a pstate" assume I: "?I (fst s)"
    let ?find = "up_findPublication p d (pc_target c) (pc_marker c) (pc_intentId c) (fst s)"
    have "created (snd ?find) = created (fst s)" "fst ?find = Inr None \<Longrightarrow> created (fst s) ?k = 0"
      using destination.find_keeps [OF dest [of d "pc_intentId c"]] destination.find_sees [OF dest [of d "pc_intentId c"]] by auto
    then show "if fst (call (\<lambda>r. PublicationSought (pc_target c) (pc_marker c) (map_option fst r))
        (up_findPublication p d (pc_target c) (pc_marker c) (pc_intentId c)) s) = Inr None
      then ?J (fst (snd (call (\<lambda>r. PublicationSought (pc_target c) (pc_marker c) (map_option fst r))
        (up_findPublication p d (pc_target c) (pc_marker c) (pc_intentId c)) s)))
      else ?I (fst (snd (call (\<lambda>r. PublicationSought (pc_target c) (pc_marker c) (map_option fst r))
        (up_findPublication p d (pc_target c) (pc_marker c) (pc_intentId c)) s)))"
      using I by (auto simp: call_def split: prod.splits sum.splits)
  qed
  have "holds ?I (deliver p ws c i a) (\<lambda>_. ?I)"
    unfolding deliver_def
  proof (rule holds_bind [OF keepI [OF same_basic(5)]], rule holds_bind [OF keepI [OF same_call]], goal_cases)
    case 1
    then show ?case using db by (simp add: database_only_def)
  next
    case (2 u destination)
    show ?case
    proof (cases destination)
      case None
      show ?thesis unfolding None option.case by (rule keepI, rule same_basic(2))
    next
      case (Some d)
      have "holds (\<lambda>w. if Inr existing = (Inr None :: (execution_error, (external_reference \<times> string) option) result) then ?J w else ?I w)
        (case existing of
           Some (reference, marker) \<Rightarrow>
             abind (record_published p c a \<lparr>pr_reference = reference, pr_marker = marker, pr_requestId = Some (pc_intentId c)\<rparr>) (\<lambda>_. ret True)
         | None \<Rightarrow> abind (lift_result RenderRefused (render (pc_analysis c) (pc_profile c))) (\<lambda>publication.
             abind (throw_if_aborted p BeforePublish) (\<lambda>_. ?send d publication))) (\<lambda>_. ?I)" for existing
      proof (cases existing)
        case None
        then show ?thesis using fresh [of d] by simp
      next
        case (Some x)
        obtain reference marker where x: "x = (reference, marker)" by (cases x)
        have "holds ?I (abind (record_published p c a \<lparr>pr_reference = reference, pr_marker = marker, pr_requestId = Some (pc_intentId c)\<rparr>) (\<lambda>_. ret True)) (\<lambda>_. ?I)"
          by (rule keepI, intro same_bind same_basic published)
        then show ?thesis using Some x by simp
      qed
      then show ?thesis unfolding Some option.case by (rule holds_bind [OF search]) simp
    qed
  qed simp_all
  then show ?thesis by (simp add: holds_def stays_def)
qed

lemma database_onlyD:
  assumes "database_only p created"
  shows "created (snd (up_settle p b w w')) = created w'" "keeps created (up_findCandidate p ws i)"
    "keeps created (up_acquire p ws key ms)" "keeps created (up_complete p ws key token)"
    "keeps created (up_prepare p c h m allow now)" "keeps created (up_recordFailure p c a e now)"
  using assms by (cases e; simp add: database_only_def)+

lemma same_ports:
  assumes "database_only p created"
  shows "same created (transaction p (complete_lease p ws key token))"
    "same created (prepare_attempt p ws c allow)"
    "same created (transaction p (call ev (up_findCandidate p ws i)))"
    "same created (transaction p (\<lambda>t. call (\<lambda>_. ev') (up_recordFailure p c a e (up_now p (fst t))) t))"
proof -
  note db = database_onlyD [OF assms]
  have complete: "same created (complete_lease p ws key token)" for ws key token
    unfolding complete_lease_def by (intro same_call db)
  show "same created (transaction p (complete_lease p ws key token))"
    by (intro same_transaction complete db)
  show "same created (transaction p (call ev (up_findCandidate p ws i)))"
    by (intro same_transaction same_call db)
  show "same created (transaction p (\<lambda>t. call (\<lambda>_. ev') (up_recordFailure p c a e (up_now p (fst t))) t))"
    by (intro same_transaction same_call_state db)
  have attempt: "same created (case attempt of None \<Rightarrow> abind (complete_lease p ws (pc_identityHash c) token) (\<lambda>_. ret None)
      | Some a \<Rightarrow> ret (Some (a, token)))" for attempt :: "string option" and token
    by (cases attempt; simp only: option.case) (intro same_bind complete same_basic)+
  have prepare: "same created (\<lambda>s. call f (up_prepare p c h m b (up_now p (fst s))) s)" for f h m b
    by (intro same_call_state db)
  have lease: "same created (case lease of None \<Rightarrow> ret None | Some token \<Rightarrow>
      abind (\<lambda>s. call (\<lambda>r. AttemptPrepared (pc_identityHash c) (pc_marker c) allow r)
        (up_prepare p c (pc_identityHash c) (pc_marker c) allow (up_now p (fst s))) s) (\<lambda>attempt. case attempt of
          None \<Rightarrow> abind (complete_lease p ws (pc_identityHash c) token) (\<lambda>_. ret None)
        | Some a \<Rightarrow> ret (Some (a, token))))" for lease
    by (cases lease; simp only: option.case) (intro same_bind prepare attempt same_basic)+
  have acquire: "same created (call (\<lambda>r. LeaseAcquired ws (pc_identityHash c) r) (up_acquire p ws (pc_identityHash c) (up_leaseMs p)))"
    by (intro same_call db)
  show "same created (prepare_attempt p ws c allow)"
    unfolding prepare_attempt_def by (intro same_transaction same_bind acquire lease db)
qed

lemma recording_failure_stays:
  assumes "database_only p created" "stays (\<lambda>w. \<forall>k. created w k \<le> 1) body"
  shows "stays (\<lambda>w. \<forall>k. created w k \<le> 1) (recording_failure p c a body)"
proof -
  let ?rec = "\<lambda>e. abind (transaction p (\<lambda>t. call (\<lambda>_. FailureRecorded a (error_details e))
      (up_recordFailure p c a (error_details e) (up_now p (fst t))) t)) (\<lambda>_. throw e)"
  have "stays (\<lambda>w. \<forall>k. created w k \<le> 1) (abind (transaction p (\<lambda>t. call (\<lambda>_. FailureRecorded a (error_details e))
      (up_recordFailure p c a (error_details e) (up_now p (fst t))) t)) (\<lambda>_. throw e))" for e
    by (rule same_stays [of created], intro same_bind same_ports(4) [OF assms(1)] same_basic) simp
  then have recorded: "stays (\<lambda>w. \<forall>k. created w k \<le> 1) (?rec e)" for e .
  show ?thesis
    unfolding stays_def
  proof (intro allI impI)
    fix s :: "'a pstate" and k assume I: "\<forall>k. created (fst s) k \<le> 1"
    obtain r t where body: "body s = (r, t)" by (cases "body s")
    have t: "\<forall>k. created (fst t) k \<le> 1" using assms(2) [unfolded stays_def, rule_format, of s] I by (simp add: body)
    show "created (fst (snd (recording_failure p c a body s))) k \<le> 1"
    proof (cases r)
      case (Inl e)
      then have "recording_failure p c a body s = ?rec e t" by (simp add: recording_failure_def body)
      then show ?thesis using recorded [of e, unfolded stays_def, rule_format, of t k] t by simp
    next
      case (Inr b)
      then show ?thesis using t by (simp add: recording_failure_def body)
    qed
  qed
qed

lemma execute_stays:
  assumes dest: "\<And>d i. destination created (\<lambda>t m. up_findPublication p d t m i) (up_publish p d)"
    and db: "database_only p created"
  shows "stays (\<lambda>w. \<forall>k. created w k \<le> 1) (execute p cmd)"
proof -
  let ?I = "\<lambda>w. \<forall>k. created w k \<le> 1"
  have stay: "stays ?I m" if "same created m" for m :: "('a, 'b) action"
    using that by (rule same_stays) simp
  have prepared: "stays ?I (case prepared of
      None \<Rightarrow> ret \<lparr>xr_published = False, xr_attempted = False\<rparr>
    | Some (attempt, token) \<Rightarrow>
        abind (ensuring (transaction p (complete_lease p (cm_workspaceId cmd) (pc_identityHash c) token))
          (recording_failure p c attempt (deliver p (cm_workspaceId cmd) c i attempt)))
          (\<lambda>published. ret \<lparr>xr_published = published, xr_attempted = True\<rparr>))" for prepared c i
  proof (cases prepared)
    case None
    show ?thesis unfolding None option.case by (rule stay, rule same_basic)
  next
    case (Some x)
    obtain attempt token where x: "x = (attempt, token)" by (cases x)
    show ?thesis
      unfolding Some x option.case prod.case
      by (intro stays_bind stays_ensuring recording_failure_stays deliver_stays dest db stay same_ports(1) same_basic)
  qed
  have found: "stays ?I (case found of
      None \<Rightarrow> ret \<lparr>xr_published = False, xr_attempted = False\<rparr>
    | Some c \<Rightarrow> abind (lift_result InvalidIdentity (publication_delivery_identity (up_sha256 p) (pc_identityHash c))) (\<lambda>identity.
         if pi_marker identity \<noteq> pc_marker c then throw InvalidMarker
         else abind (prepare_attempt p (cm_workspaceId cmd) c (cm_reconcile cmd)) (\<lambda>prepared. case prepared of
           None \<Rightarrow> ret \<lparr>xr_published = False, xr_attempted = False\<rparr>
         | Some (attempt, token) \<Rightarrow>
             abind (ensuring (transaction p (complete_lease p (cm_workspaceId cmd) (pc_identityHash c) token))
               (recording_failure p c attempt (deliver p (cm_workspaceId cmd) c identity attempt)))
               (\<lambda>published. ret \<lparr>xr_published = published, xr_attempted = True\<rparr>))))" for found
  proof (cases found)
    case None
    show ?thesis unfolding None option.case by (rule stay, rule same_basic)
  next
    case (Some c)
    have "stays ?I (if pi_marker identity \<noteq> pc_marker c then throw InvalidMarker
         else abind (prepare_attempt p (cm_workspaceId cmd) c (cm_reconcile cmd)) (\<lambda>prepared. case prepared of
           None \<Rightarrow> ret \<lparr>xr_published = False, xr_attempted = False\<rparr>
         | Some (attempt, token) \<Rightarrow>
             abind (ensuring (transaction p (complete_lease p (cm_workspaceId cmd) (pc_identityHash c) token))
               (recording_failure p c attempt (deliver p (cm_workspaceId cmd) c identity attempt)))
               (\<lambda>published. ret \<lparr>xr_published = published, xr_attempted = True\<rparr>)))" for identity
    proof (cases "pi_marker identity \<noteq> pc_marker c")
      case True
      show ?thesis unfolding if_P [OF True] by (rule stay, rule same_basic)
    next
      case False
      show ?thesis unfolding if_not_P [OF False] by (intro stays_bind prepared stay same_ports(2) db)
    qed
    then show ?thesis unfolding Some option.case by (rule stays_bind [OF stay [OF same_basic(4)]])
  qed
  show ?thesis
    unfolding execute_def by (intro stays_bind found stay same_basic same_ports(3) db)
qed

text \<open>Executions one after the other, whatever each returns or throws.\<close>

fun run_all :: "'w publication_ports \<Rightarrow> publication_command list \<Rightarrow> 'w pstate \<Rightarrow> 'w pstate" where
  "run_all p [] s = s"
| "run_all p (cmd # cmds) s = run_all p cmds (snd (execute p cmd s))"

text \<open>
  C19: retries do not publish twice.  Let the destination keep the contract (a search that finds nothing means
  there is nothing for the target and marker; a request publishes at most once for its own) and the other ports not
  publish.  Then, after any sequence of executions and reconciliations, of any intents, ended by results, errors,
  unknown outcomes, failed commits or cancellation, there is at most one publication per target and marker.
\<close>

theorem publications_not_repeated:
  assumes "\<And>d i. destination created (\<lambda>t m. up_findPublication p d t m i) (up_publish p d)"
    and "database_only p created"
    and "\<forall>k. created w k \<le> 1"
  shows "created (fst (run_all p cmds (w, []))) k \<le> 1"
proof -
  have "\<forall>k. created (fst (run_all p cmds s)) k \<le> 1" if "\<forall>k. created (fst s) k \<le> 1" for s
    using that
  proof (induction cmds arbitrary: s)
    case (Cons cmd cmds)
    have "\<forall>k. created (fst (snd (execute p cmd s))) k \<le> 1"
      using execute_stays [OF assms(1,2), of cmd] Cons.prems unfolding stays_def by blast
    then show ?case unfolding run_all.simps by (rule Cons.IH)
  qed simp
  from this [of "(w, [])"] assms(3) show ?thesis unfolding fst_conv by blast
qed

text \<open>An executor on the in-memory destination, with a database that always grants the lease and an attempt.\<close>

definition memory_ports :: "publication_candidate \<Rightarrow> memory_destination publication_ports" where
  "memory_ports c = \<lparr>up_leaseMs = Num 1000, up_settle = (\<lambda>b w w'. (None, w')), up_findCandidate = (\<lambda>ws i w. (Inr (Some c), w)),
     up_acquire = (\<lambda>ws key ms w. (Inr (Some 1), w)), up_complete = (\<lambda>ws key token w. (Inr (), w)),
     up_prepare = (\<lambda>c h m allow now w. (Inr (Some ''a''), w)), up_recordPublished = (\<lambda>c a receipt now w. (Inr (), w)),
     up_recordUnknown = (\<lambda>c a now w. (Inr (), w)), up_recordFailure = (\<lambda>c a e now w. (Inr (), w)),
     up_resolve = (\<lambda>ws reg cfg w. (Inr (Some ''d''), w)), up_findPublication = (\<lambda>d t m i. memory_find t m),
     up_publish = (\<lambda>d. memory_publish), up_findUnknown = (\<lambda>ws n w. (Inr [], w)), up_now = (\<lambda>w. ''now''),
     up_aborted = (\<lambda>point w. False), up_sha256 = (\<lambda>s. replicate 64 CHR ''0'')\<rparr>"

definition sample_candidate :: publication_candidate where
  "sample_candidate = \<lparr>pc_intentId = ''i'', pc_analysisResultId = ''r'', pc_identityHash = replicate 64 CHR ''0'',
     pc_marker = ''caseweaver.publication.v1.'' @ replicate 64 CHR ''0'', pc_analysis = sample_analysis,
     pc_profile = sample_profile HtmlFormat, pc_connectorRegistrationId = ''g'', pc_connectorConfigurationVersionId = ''v'',
     pc_target = \<lparr>er_connectorInstanceId = ''c'', er_resourceType = ''case'', er_externalId = ''1''\<rparr>\<rparr>"

definition empty_destination :: memory_destination where
  "empty_destination = \<lparr>md_publications = [], md_findRequests = 0, md_publishRequests = [], md_nextUnknown = False\<rparr>"

theorem publication_protocol_witness:
  "\<exists>r w trail. execute (memory_ports sample_candidate) \<lparr>cm_reconcile = False, cm_workspaceId = ''w'', cm_publicationIntentId = ''i''\<rparr>
      (empty_destination, []) = (r, (w, trail)) \<and>
     (case r of Inl e \<Rightarrow> True | Inr x \<Rightarrow> xr_attempted x \<longleftrightarrow> committed_attempt trail)" (is "\<exists>r w trail. ?run = _ \<and> _ r trail")
proof -
  obtain r w trail where run: "?run = (r, (w, trail))" by (cases ?run) auto
  show ?thesis
    using publication_protocol [OF run] run by (cases r) auto
qed

theorem publications_not_repeated_witness:
  "memory_created (fst (run_all (memory_ports sample_candidate)
      [\<lparr>cm_reconcile = False, cm_workspaceId = ''w'', cm_publicationIntentId = ''i''\<rparr>,
       \<lparr>cm_reconcile = True, cm_workspaceId = ''w'', cm_publicationIntentId = ''i''\<rparr>] (empty_destination, [])))
     (pc_target sample_candidate, pc_marker sample_candidate) \<le> 1"
proof (rule publications_not_repeated)
  show "destination memory_created (\<lambda>t m. up_findPublication (memory_ports sample_candidate) d t m i)
      (up_publish (memory_ports sample_candidate) d)" for d i
    using memory.destination_axioms by (simp add: memory_ports_def)
  show "database_only (memory_ports sample_candidate) memory_created"
    by (simp add: database_only_def keeps_def memory_ports_def)
  show "\<forall>k. memory_created empty_destination k \<le> 1"
    by (simp add: memory_created_def empty_destination_def)
qed

end
