(* ===== verification/Publication_Rendering.thy ===== *)
theory Publication_Rendering
  imports Publication
begin

text \<open>
  What the renderer writes: an HTML body, read back by a reader of tags and escaped text, is the document of
  headings, paragraphs and lists that the analysis and the notices of the profile describe.
\<close>

section \<open>Escaping\<close>

definition html_special :: "char set" where
  "html_special = {CHR ''&'', CHR ''<'', CHR ''>'', CHR 0x22, CHR 0x27}"

lemma escape_html_append [simp]: "escape_html (s @ t) = escape_html s @ escape_html t"
  by (simp add: escape_html_def)

lemma escape_html_Nil [simp]: "escape_html [] = []"
  by (simp add: escape_html_def)

definition escape_char :: "char \<Rightarrow> string" where
  "escape_char c = (if c = CHR ''&'' then ''&amp;'' else if c = CHR ''<'' then ''&lt;'' else if c = CHR ''>'' then ''&gt;''
     else if c = CHR 0x22 then ''&quot;'' else if c = CHR 0x27 then ''&#39;'' else [c])"

lemma escape_html_Cons: "escape_html (c # s) = escape_char c @ escape_html s"
proof -
  have "escape_html [c] = escape_char c" by (simp add: escape_html_def escape_char_def)
  then show ?thesis using escape_html_append [of "[c]" s] by simp
qed

lemma escape_html_plain: "set s \<inter> html_special = {} \<Longrightarrow> escape_html s = s"
  by (induction s) (auto simp: escape_html_Cons escape_char_def html_special_def)

lemma escape_html_chars: "set (escape_html s) \<inter> {CHR ''<'', CHR ''>'', CHR 0x22, CHR 0x27} = {}"
  by (induction s) (auto simp: escape_html_Cons escape_char_def)

lemma escape_html_eq_Nil [simp]: "escape_html s = [] \<longleftrightarrow> s = []"
  by (cases s) (simp_all add: escape_html_Cons escape_char_def)

section \<open>A reader of tags and text\<close>

datatype html_token = Tag string | Txt string

function unescape_html :: "string \<Rightarrow> string" where
  "unescape_html [] = []"
| "unescape_html (c # s) =
     (if c \<noteq> CHR ''&'' then c # unescape_html s
      else if starts_with s ''amp;'' then CHR ''&'' # unescape_html (drop 4 s)
      else if starts_with s ''lt;'' then CHR ''<'' # unescape_html (drop 3 s)
      else if starts_with s ''gt;'' then CHR ''>'' # unescape_html (drop 3 s)
      else if starts_with s ''quot;'' then CHR 0x22 # unescape_html (drop 5 s)
      else if starts_with s ''#39;'' then CHR 0x27 # unescape_html (drop 4 s)
      else c # unescape_html s)"
  by pat_completeness auto
termination by (relation "measure length") auto

function read_html :: "string \<Rightarrow> html_token list" where
  "read_html [] = []"
| "read_html (c # s) =
     (if c = CHR ''<'' then Tag (takeWhile (\<lambda>x. x \<noteq> CHR ''>'') s) # read_html (drop 1 (dropWhile (\<lambda>x. x \<noteq> CHR ''>'') s))
      else Txt (unescape_html (takeWhile (\<lambda>x. x \<noteq> CHR ''<'') (c # s))) # read_html (dropWhile (\<lambda>x. x \<noteq> CHR ''<'') s))"
  by pat_completeness auto
termination
  by (relation "measure length") (auto intro: le_less_trans [OF diff_le_self] simp: length_dropWhile_le le_imp_less_Suc)

lemma unescape_escape: "unescape_html (escape_html s) = s"
proof (induction s)
  case (Cons c s)
  have "unescape_html (escape_char c @ r) = c # unescape_html r" for r
    by (auto simp: escape_char_def starts_with_def)
  then show ?case using Cons by (simp add: escape_html_Cons)
qed simp

definition opens_tag :: "string \<Rightarrow> bool" where
  "opens_tag r \<longleftrightarrow> r = [] \<or> hd r = CHR ''<''"

definition reads :: "string \<Rightarrow> html_token list \<Rightarrow> bool" where
  "reads s ts \<longleftrightarrow> (\<forall>r. opens_tag r \<longrightarrow> read_html (s @ r) = ts @ read_html r)"

definition text_tokens :: "string \<Rightarrow> html_token list" where
  "text_tokens s = (if s = [] then [] else [Txt s])"

definition element :: "string \<Rightarrow> html_token list \<Rightarrow> html_token list" where
  "element tag ts = [Tag tag] @ ts @ [Tag (CHR ''/'' # tag)]"

lemma read_tag: "CHR ''>'' \<notin> set t \<Longrightarrow> read_html (CHR ''<'' # t @ CHR ''>'' # r) = Tag t # read_html r"
proof -
  assume "CHR ''>'' \<notin> set t"
  then have "takeWhile (\<lambda>x. x \<noteq> CHR ''>'') (t @ CHR ''>'' # r) = t" "dropWhile (\<lambda>x. x \<noteq> CHR ''>'') (t @ CHR ''>'' # r) = CHR ''>'' # r"
    by (induction t) auto
  then show ?thesis by simp
qed

lemma reads_Nil: "reads [] []"
  by (simp add: reads_def)

lemma reads_text: "reads (escape_html s) (text_tokens s)"
  unfolding reads_def
proof (intro allI impI)
  fix r assume r: "opens_tag r"
  show "read_html (escape_html s @ r) = text_tokens s @ read_html r"
  proof (cases "escape_html s")
    case (Cons c t)
    have no: "x \<noteq> CHR ''<''" if "x \<in> set (c # t)" for x using that escape_html_chars [of s] Cons by auto
    have r': "takeWhile (\<lambda>x. x \<noteq> CHR ''<'') r = []" "dropWhile (\<lambda>x. x \<noteq> CHR ''<'') r = r"
      using r by (cases r; simp add: opens_tag_def)+
    have "takeWhile (\<lambda>x. x \<noteq> CHR ''<'') ((c # t) @ r) = c # t" "dropWhile (\<lambda>x. x \<noteq> CHR ''<'') (t @ r) = r"
      using no r' by (simp_all add: takeWhile_append dropWhile_append)
    then have "read_html (escape_html s @ r) = Txt (unescape_html (c # t)) # read_html r"
      using no [of c] by (simp add: Cons)
    moreover have "unescape_html (c # t) = s" "s \<noteq> []" using Cons unescape_escape [of s] by auto
    ultimately show ?thesis by (simp add: text_tokens_def)
  qed (simp add: text_tokens_def)
qed

lemma reads_plain: "set s \<inter> html_special = {} \<Longrightarrow> reads s (text_tokens s)"
  using reads_text [of s] by (simp add: escape_html_plain)

lemma reads_append: "reads s ts \<Longrightarrow> reads t us \<Longrightarrow> opens_tag t \<Longrightarrow> reads (s @ t) (ts @ us)"
  unfolding reads_def opens_tag_def by (auto simp: hd_append)

lemma reads_tag: "CHR ''>'' \<notin> set t \<Longrightarrow> reads (CHR ''<'' # t @ ''>'') [Tag t]"
  using read_tag by (simp add: reads_def)

lemma reads_element:
  assumes "reads s ts" "CHR ''>'' \<notin> set tag"
  shows "reads (CHR ''<'' # tag @ CHR ''>'' # s @ CHR ''<'' # CHR ''/'' # tag @ ''>'') (element tag ts)"
proof -
  have "reads (s @ CHR ''<'' # (CHR ''/'' # tag) @ ''>'') (ts @ [Tag (CHR ''/'' # tag)])"
    using assms(2) by (intro reads_append assms(1) reads_tag) (simp_all add: opens_tag_def)
  then have "read_html (s @ CHR ''<'' # (CHR ''/'' # tag) @ CHR ''>'' # r) = ts @ Tag (CHR ''/'' # tag) # read_html r" if "opens_tag r" for r
    using that by (simp add: reads_def)
  then show ?thesis
    unfolding reads_def element_def using read_tag [OF assms(2)] by simp
qed

lemma reads_concat:
  assumes "list_all2 reads ss tss" "list_all opens_tag ss"
  shows "reads (concat ss) (concat tss) \<and> opens_tag (concat ss)"
  using assms
proof (induction rule: list_all2_induct)
  case (Cons s ss ts tss)
  then show ?case by (auto intro!: reads_append) (cases s; auto simp: opens_tag_def)
qed (simp add: reads_Nil opens_tag_def)

section \<open>The document of a publication\<close>

definition heading_tokens :: "string \<Rightarrow> html_token list" where
  "heading_tokens title = element ''h2'' (text_tokens title)"

definition list_tokens :: "string \<Rightarrow> string list \<Rightarrow> html_token list" where
  "list_tokens title values = (if values = [] then []
     else heading_tokens title @ element ''ul'' (concat (map (\<lambda>v. element ''li'' (text_tokens v)) values)))"

fun notice_tokens :: "string list \<Rightarrow> html_token list" where
  "notice_tokens [] = []"
| "notice_tokens [n] = text_tokens n"
| "notice_tokens (n # m # ns) = text_tokens n @ Tag ''br'' # notice_tokens (m # ns)"

definition document_tokens :: "case_analysis \<Rightarrow> publication_profile \<Rightarrow> html_token list" where
  "document_tokens a p =
     heading_tokens ''Analysis summary'' @ element ''p'' (text_tokens (co_summary a)) @
     heading_tokens ''Confidence'' @ element ''p'' (text_tokens (confidence_name (co_confidence a))) @
     list_tokens ''Probable causes'' (map cl_statement (co_probableCauses a)) @
     list_tokens ''Investigation'' (map st_step (co_investigation a)) @
     list_tokens ''Recommended actions'' (map cl_statement (co_recommendedActions a)) @
     list_tokens ''Unanswered questions'' (co_unansweredQuestions a) @
     (if notices_of p = [] then [] else Tag ''hr'' # element ''p'' (notice_tokens (notices_of p)))"

lemma reads_heading: "set title \<inter> html_special = {} \<Longrightarrow> reads (''<h2>'' @ title @ ''</h2>'') (heading_tokens title)"
  using reads_element [OF reads_plain, of title "''h2''"] by (simp add: heading_tokens_def)

lemma reads_html_list: "reads (html_list values) (element ''ul'' (concat (map (\<lambda>v. element ''li'' (text_tokens v)) values)))"
proof -
  have item: "reads (''<li>'' @ escape_html v @ ''</li>'') (element ''li'' (text_tokens v))" for v
    using reads_element [OF reads_text [of v], of "''li''"] by simp
  have "reads (concat (map (\<lambda>v. ''<li>'' @ escape_html v @ ''</li>'') values)) (concat (map (\<lambda>v. element ''li'' (text_tokens v)) values))"
  proof (rule conjunct1 [OF reads_concat])
    show "list_all2 reads (map (\<lambda>v. ''<li>'' @ escape_html v @ ''</li>'') values) (map (\<lambda>v. element ''li'' (text_tokens v)) values)"
      using item by (simp only: list_all2_map1 list_all2_map2 list_all2_same) simp
    show "list_all opens_tag (map (\<lambda>v. ''<li>'' @ escape_html v @ ''</li>'') values)"
      by (simp add: list_all_iff opens_tag_def)
  qed
  from reads_element [OF this, of "''ul''"] show ?thesis by (simp add: html_list_def)
qed

lemma reads_html_block:
  "set title \<inter> html_special = {} \<Longrightarrow> reads (concat (html_block title values)) (list_tokens title values) \<and> opens_tag (concat (html_block title values))"
proof (cases "values = []")
  case False
  assume title: "set title \<inter> html_special = {}"
  have "reads ((''<h2>'' @ title @ ''</h2>'') @ html_list values) (list_tokens title values)"
    using False reads_append [OF reads_heading [OF title] reads_html_list] by (simp add: list_tokens_def html_list_def opens_tag_def)
  then show ?thesis using False by (simp add: html_block_def opens_tag_def)
qed (simp add: html_block_def list_tokens_def reads_Nil opens_tag_def)

lemma reads_notices: "reads (join ''<br>'' (map escape_html ns)) (notice_tokens ns)"
proof (induction ns rule: notice_tokens.induct)
  case (3 n m ns)
  have "reads (escape_html n @ (CHR ''<'' # ''br'' @ ''>'') @ join ''<br>'' (map escape_html (m # ns)))
      (text_tokens n @ [Tag ''br''] @ notice_tokens (m # ns))"
  proof (rule reads_append [OF reads_text])
    show "reads ((CHR ''<'' # ''br'' @ ''>'') @ join ''<br>'' (map escape_html (m # ns))) ([Tag ''br''] @ notice_tokens (m # ns))"
      using 3 read_tag [of "''br''"] by (simp add: reads_def)
  qed (simp add: opens_tag_def)
  then show ?case by simp
qed (simp_all add: reads_Nil reads_text)

lemma reads_html_body: "reads (html_body (sections_of a))
  (heading_tokens ''Analysis summary'' @ element ''p'' (text_tokens (co_summary a)) @
   heading_tokens ''Confidence'' @ element ''p'' (text_tokens (confidence_name (co_confidence a))) @
   list_tokens ''Probable causes'' (map cl_statement (co_probableCauses a)) @
   list_tokens ''Investigation'' (map st_step (co_investigation a)) @
   list_tokens ''Recommended actions'' (map cl_statement (co_recommendedActions a)) @
   list_tokens ''Unanswered questions'' (co_unansweredQuestions a))"
proof -
  have para: "reads (''<p>'' @ escape_html v @ ''</p>'') (element ''p'' (text_tokens v))" for v
    using reads_element [OF reads_text [of v], of "''p''"] by simp
  have titles: "set ''Analysis summary'' \<inter> html_special = {}" "set ''Confidence'' \<inter> html_special = {}"
    "set ''Probable causes'' \<inter> html_special = {}" "set ''Investigation'' \<inter> html_special = {}"
    "set ''Recommended actions'' \<inter> html_special = {}" "set ''Unanswered questions'' \<inter> html_special = {}"
    by (simp_all add: html_special_def)
  note blocks = titles(3-6) [THEN reads_html_block, THEN conjunct1]
  note opens = titles(3-6) [THEN reads_html_block, THEN conjunct2]
  have opens_append: "opens_tag s \<Longrightarrow> opens_tag t \<Longrightarrow> opens_tag (s @ t)" for s t
    by (auto simp: opens_tag_def hd_append)
  have first: "opens_tag (''<h2>'' @ t)" "opens_tag (''<p>'' @ t)" for t
    by (simp_all add: opens_tag_def)
  have "html_body (sections_of a) =
      (''<h2>'' @ ''Analysis summary'' @ ''</h2>'') @ (''<p>'' @ escape_html (co_summary a) @ ''</p>'') @
      (''<h2>'' @ ''Confidence'' @ ''</h2>'') @ (''<p>'' @ escape_html (confidence_name (co_confidence a)) @ ''</p>'') @
      concat (html_block ''Probable causes'' (map cl_statement (co_probableCauses a))) @
      concat (html_block ''Investigation'' (map st_step (co_investigation a))) @
      concat (html_block ''Recommended actions'' (map cl_statement (co_recommendedActions a))) @
      concat (html_block ''Unanswered questions'' (co_unansweredQuestions a))"
    by (simp add: html_body_def sections_of_def)
  moreover have "reads (\<dots>) (heading_tokens ''Analysis summary'' @ element ''p'' (text_tokens (co_summary a)) @
     heading_tokens ''Confidence'' @ element ''p'' (text_tokens (confidence_name (co_confidence a))) @
     list_tokens ''Probable causes'' (map cl_statement (co_probableCauses a)) @
     list_tokens ''Investigation'' (map st_step (co_investigation a)) @
     list_tokens ''Recommended actions'' (map cl_statement (co_recommendedActions a)) @
     list_tokens ''Unanswered questions'' (co_unansweredQuestions a))"
    by (intro reads_append reads_heading titles para blocks opens opens_append first)
  ultimately show ?thesis by simp
qed

lemma reads_document:
  assumes "pf_format p = HtmlFormat"
  shows "read_html (append_notices (html_body (sections_of a)) p) = document_tokens a p"
proof (cases "notices_of p = []")
  case True
  then show ?thesis
    using reads_html_body [of a] by (simp add: append_notices_def document_tokens_def reads_def) (metis append_Nil2 opens_tag_def read_html.simps(1))
next
  case False
  have "reads (''<p>'' @ join ''<br>'' (map escape_html (notices_of p)) @ ''</p>'') (element ''p'' (notice_tokens (notices_of p)))"
    using reads_element [OF reads_notices, of "''p''"] by simp
  then have "read_html (CHR ''<'' # ''hr'' @ CHR ''>'' # (''<p>'' @ join ''<br>'' (map escape_html (notices_of p)) @ ''</p>'') @ []) =
      Tag ''hr'' # element ''p'' (notice_tokens (notices_of p)) @ read_html []"
    unfolding reads_def by (subst read_tag) (simp_all add: opens_tag_def)
  moreover have "opens_tag (CHR ''<'' # ''hr'' @ CHR ''>'' # (''<p>'' @ join ''<br>'' (map escape_html (notices_of p)) @ ''</p>'') @ [])"
    by (simp add: opens_tag_def)
  ultimately show ?thesis
    using reads_html_body [of a] False assms unfolding reads_def append_notices_def document_tokens_def Let_def by simp
qed

lemma render_ok:
  "render a p = Inr pub \<longleftrightarrow> valid_publication_profile p \<and> valid_analysis a \<and>
     (\<exists>body. body = append_notices (case pf_format p of PlainTextFormat \<Rightarrow> plain_text_body (sections_of a)
          | MarkdownFormat \<Rightarrow> markdown_body (sections_of a) | HtmlFormat \<Rightarrow> html_body (sections_of a)) p \<and>
        int (length body) \<le> int_of (pf_maximumBodyCharacters p) \<and>
        pub = \<lparr>rp_format = pf_format p, rp_body = body, rp_visibility = ''internal''\<rparr>)"
  by (auto simp: render_def Let_def valid_publication_profile_def)

lemma render_no_visibility_error: "render a p \<noteq> Inl UnsupportedVisibility"
  by (auto simp: render_def Let_def valid_publication_profile_def)

text \<open>
  C23: what is published.  A rendered publication is internal, has the profile's format, comes from a valid profile
  and a valid analysis and keeps the profile's limit, at most a million characters; the visibility error is never
  raised, since the schema already refuses any other visibility.  An HTML body, read as tags and escaped text, is
  exactly the document of headings, paragraphs, list items and notices of the analysis: no text of the model opens or
  closes a tag.  A Markdown body has no such protection: each text alone passes the test for tags, their lines
  together need not.
\<close>

theorem rendered_publication_sound:
  "(\<forall>a p pub. render a p = Inr pub \<longrightarrow>
      valid_publication_profile p \<and> valid_analysis a \<and> rp_visibility pub = ''internal'' \<and> rp_format pub = pf_format p \<and>
      int (length (rp_body pub)) \<le> int_of (pf_maximumBodyCharacters p) \<and> length (rp_body pub) \<le> 1000000 \<and>
      (rp_format pub = HtmlFormat \<longrightarrow> read_html (rp_body pub) = document_tokens a p)) \<and>
   (\<forall>a p. render a p \<noteq> Inl UnsupportedVisibility) \<and>
   (\<exists>a p pub. render a p = Inr pub \<and> rp_format pub = MarkdownFormat \<and>
      \<not> has_html (co_summary a) \<and> list_all (\<lambda>q. \<not> has_html q) (co_unansweredQuestions a) \<and> has_html (rp_body pub))"
proof (intro conjI allI impI)
  fix a p pub assume ok: "render a p = Inr pub"
  then show "valid_publication_profile p" "valid_analysis a" "rp_visibility pub = ''internal''" "rp_format pub = pf_format p"
    "int (length (rp_body pub)) \<le> int_of (pf_maximumBodyCharacters p)"
    by (auto simp: render_ok)
  then show "length (rp_body pub) \<le> 1000000" by (simp add: valid_publication_profile_def)
  show "read_html (rp_body pub) = document_tokens a p" if "rp_format pub = HtmlFormat"
    using ok that reads_document [of p a] by (auto simp: render_ok)
next
  show "render a p \<noteq> Inl UnsupportedVisibility" for a p by (rule render_no_visibility_error)
next
  let ?a = "sample_analysis\<lparr>co_unansweredQuestions := [''<b'', ''x>'']\<rparr>" and ?p = "sample_profile MarkdownFormat"
  have profile: "valid_publication_profile ?p"
    by (simp add: valid_publication_profile_def sample_profile_def bounded_text_def safe_int_def max_safe_def)
  have analysis: "valid_analysis ?a"
    by (simp add: valid_analysis_def sample_analysis_def plain_text_def tag_rest_def Let_def)
  have body: "append_notices (markdown_body (sections_of ?a)) ?p =
      ''## Analysis summary'' @ [newline, newline] @ ''s'' @ [newline, newline] @ ''## Confidence'' @ [newline, newline] @ ''low'' @
      [newline, newline] @ ''## Unanswered questions'' @ [newline, newline] @ ''- '' @ ''<b'' @ [newline] @ ''- x>'' @ [newline, newline] @ ''AI & you''"
    by (simp add: append_notices_def notices_of_def markdown_body_def sections_of_def sample_analysis_def sample_profile_def
      markdown_block_def bullet_list_def paragraphs_def)
  obtain pub where pub: "render ?a ?p = Inr pub" "rp_format pub = MarkdownFormat" "rp_body pub = append_notices (markdown_body (sections_of ?a)) ?p"
  proof -
    have "pf_format ?p = MarkdownFormat" "pf_maximumBodyCharacters ?p = Num 1000" by (simp_all add: sample_profile_def)
    then have "render ?a ?p = Inr \<lparr>rp_format = MarkdownFormat, rp_body = append_notices (markdown_body (sections_of ?a)) ?p, rp_visibility = ''internal''\<rparr>"
      unfolding render_ok using profile analysis body by simp
    from that [OF this] show ?thesis by simp
  qed
  have append_html: "has_html t \<Longrightarrow> has_html (s @ t)" for s t by (induction s) simp_all
  have "has_html (''<b'' @ [newline] @ ''- x>'' @ [newline, newline] @ ''AI & you'')"
    by (simp add: tag_rest_def is_space_def is_letter_def newline_def Let_def)
  then have "has_html (rp_body pub)" unfolding pub(3) body by (simp only: append_html)
  then show "\<exists>a p pub. render a p = Inr pub \<and> rp_format pub = MarkdownFormat \<and>
      \<not> has_html (co_summary a) \<and> list_all (\<lambda>q. \<not> has_html q) (co_unansweredQuestions a) \<and> has_html (rp_body pub)"
    using pub(1,2) by (intro exI [of _ ?a] exI [of _ ?p] exI [of _ pub]) (simp add: sample_analysis_def tag_rest_def Let_def)
qed

theorem rendered_publication_sound_witness:
  "\<exists>pub. render sample_analysis (sample_profile HtmlFormat) = Inr pub \<and>
     read_html (rp_body pub) = document_tokens sample_analysis (sample_profile HtmlFormat)"
proof -
  have profile: "valid_publication_profile (sample_profile HtmlFormat)"
    by (simp add: valid_publication_profile_def sample_profile_def bounded_text_def safe_int_def max_safe_def)
  have analysis: "valid_analysis sample_analysis"
    by (simp add: valid_analysis_def sample_analysis_def plain_text_def tag_rest_def Let_def)
  have "length (append_notices (html_body (sections_of sample_analysis)) (sample_profile HtmlFormat)) \<le> 1000"
    by (simp add: append_notices_def notices_of_def html_body_def sections_of_def sample_analysis_def sample_profile_def
      html_block_def html_list_def escape_html_Cons escape_char_def)
  moreover have "pf_format (sample_profile HtmlFormat) = HtmlFormat" "pf_maximumBodyCharacters (sample_profile HtmlFormat) = Num 1000"
    by (simp_all add: sample_profile_def)
  ultimately obtain pub where pub: "render sample_analysis (sample_profile HtmlFormat) = Inr pub" "rp_format pub = HtmlFormat"
    unfolding render_ok using profile analysis by auto
  then show ?thesis using rendered_publication_sound by blast
qed

end
