(* ===== verification/Catalog.thy ===== *)
theory Catalog
  imports Bindings
begin

text \<open>
  The import of a LiteLLM price catalog, \<open>packages/ai-config/src/catalog.ts\<close>.  The SHA-256 digest (of
  the bytes and of a text) and the decoding and parsing of the bytes are arguments; a parsed object is
  the list of its entries in the order of \<open>Object.entries\<close>, keys distinct.
\<close>

section \<open>The code\<close>

definition price_fields :: "(string \<times> component_kind) list" where
  "price_fields = [(''input_cost_per_token'', KInput), (''output_cost_per_token'', KOutput),
     (''cache_read_input_token_cost'', KCacheRead), (''cache_creation_input_token_cost'', KCacheCreation)]"

record 'bytes litellm_input =
  li_snapshotId :: string
  li_rawBytes :: 'bytes
  li_upstreamUrl :: string
  li_upstreamCommitSha :: string
  li_fetchedAt :: string
  li_verifiedSha256 :: string

record catalog_snapshot =
  cs_id :: string
  cs_upstreamUrl :: string
  cs_upstreamCommitSha :: string
  cs_fetchedAt :: string
  cs_sha256 :: string
  cs_rawEntries :: json_record
  cs_models :: "catalog_model list"

fun as_string :: "json option \<Rightarrow> string option" where
  "as_string (Some (JText s)) = (if s \<noteq> [] then Some s else None)"
| "as_string _ = None"

fun as_positive_integer :: "json option \<Rightarrow> jsnum option" where
  "as_positive_integer (Some (JNumber n t)) = (if is_safe_integer n \<and> int_of n > 0 then Some n else None)"
| "as_positive_integer _ = None"

definition roles_for :: "json_record \<Rightarrow> ai_role set" where
  "roles_for entry =
     (let mode = as_string (map_of entry ''mode'') in
      (if mode = Some ''embedding'' then {RoleEmbedding}
       else if mode = Some ''rerank'' then {RoleReranker}
       else {RoleAnalysis, RoleChat, RoleKeywordExtraction}) \<union>
      (if map_of entry ''supports_vision'' = Some (JBool True) then {RoleVision} else {}))"

definition capabilities_for :: "json_record \<Rightarrow> ai_capability set" where
  "capabilities_for entry =
     (let on = (\<lambda>key. map_of entry key = Some (JBool True)) in
      (if on ''supports_vision'' then {CapVision} else {}) \<union>
      (if on ''supports_prompt_caching'' then {CapPromptCaching} else {}) \<union>
      (if on ''supports_response_schema'' \<or> on ''supports_json_schema'' then {CapStructuredOutput} else {}) \<union>
      (if on ''supports_function_calling'' then {CapTools} else {}) \<union>
      (if on ''supports_reranking'' then {CapReranking} else {}))"

definition is_upper :: "char \<Rightarrow> bool" where
  "is_upper c \<longleftrightarrow> (let n = of_char c :: nat in 65 \<le> n \<and> n \<le> 90)"

definition parse_currency :: "json_record \<Rightarrow> (ai_error, string) result" where
  "parse_currency entry =
     (let currency =
        (case as_string (map_of entry ''cost_currency'') of
           Some c \<Rightarrow> c
         | None \<Rightarrow> (case as_string (map_of entry ''currency'') of Some c \<Rightarrow> c | None \<Rightarrow> ''USD''))
      in if length currency = 3 \<and> list_all is_upper currency then Inr currency
         else Inl (ConfigurationError ''LiteLLM price currency must be an ISO code.''))"

fun kind_name :: "component_kind \<Rightarrow> string" where
  "kind_name KInput = ''input''"
| "kind_name KOutput = ''output''"
| "kind_name KCacheRead = ''cacheRead''"
| "kind_name KCacheCreation = ''cacheCreation''"
| "kind_name KImage = ''image''"
| "kind_name KAudio = ''audio''"

definition epoch :: string where
  "epoch = ''1970-01-01T00:00:00.000Z''"

fun raw_price :: "json \<Rightarrow> price_input option" where
  "raw_price (JNumber n t) = Some (Number t)"
| "raw_price (JText s) = Some (Text s)"
| "raw_price _ = None"

text \<open>One round of the loop over the price fields.\<close>

definition component_field ::
  "json_record \<Rightarrow> string \<Rightarrow> string \<Rightarrow> price_component list \<Rightarrow> string \<times> component_kind \<Rightarrow>
   (ai_error, price_component list) result" where
  "component_field entry sourceId currency components fk =
     (case map_of entry (fst fk) of
        None \<Rightarrow> Inr components
      | Some raw \<Rightarrow>
          (case raw_price raw of
             None \<Rightarrow> Inl (ConfigurationError (''LiteLLM '' @ fst fk @ '' must be a finite decimal price.''))
           | Some v \<Rightarrow>
               rbind (with_price (storable_decimal v)) (\<lambda>stored.
                 case stored of
                   None \<Rightarrow> Inr components
                 | Some amount \<Rightarrow>
                     if starts_with amount ''-''
                     then Inl (ConfigurationError (''LiteLLM '' @ fst fk @ '' cannot be negative.''))
                     else Inr (components @
                       [\<lparr>pc_id = sourceId @ '':'' @ kind_name (snd fk), pc_kind = snd fk, pc_unit = UToken,
                         pc_amount = amount, pc_currency = currency, pc_effectiveFrom = epoch,
                         pc_effectiveTo = None, pc_sourceId = sourceId, pc_conditions = []\<rparr>]))))"

definition components_for :: "json_record \<Rightarrow> string \<Rightarrow> (ai_error, price_component list) result" where
  "components_for entry sourceId =
     rbind (parse_currency entry) (\<lambda>currency. rfold (component_field entry sourceId currency) [] price_fields)"

definition catalog_model_id :: "(string \<Rightarrow> string) \<Rightarrow> string \<Rightarrow> string \<Rightarrow> string" where
  "catalog_model_id sha256 snapshotId canonicalModel =
     ''catalog-model-'' @ sha256 (snapshotId @ '':'' @ canonicalModel)"

text \<open>One round of the loop over the entries of the root object.\<close>

definition import_entry ::
  "(string \<Rightarrow> string) \<Rightarrow> string \<Rightarrow> catalog_model list \<Rightarrow> string \<times> json \<Rightarrow>
   (ai_error, catalog_model list) result" where
  "import_entry sha256 snapshotId models e =
     (if fst e = ''sample_spec'' then Inr models
      else (case snd e of
              JObject entry \<Rightarrow>
                (case as_string (map_of entry ''litellm_provider'') of
                   None \<Rightarrow> Inr models
                 | Some provider \<Rightarrow>
                     let sourceId = catalog_model_id sha256 snapshotId (fst e) in
                     rbind (components_for entry sourceId) (\<lambda>components.
                       Inr (models @
                         [\<lparr>cm_id = sourceId, cm_snapshotId = snapshotId, cm_canonicalModel = fst e,
                           cm_provider = provider, cm_supportedRoles = roles_for entry,
                           cm_capabilities = capabilities_for entry,
                           cm_maximumInputTokens = as_positive_integer (map_of entry ''max_input_tokens''),
                           cm_maximumOutputTokens = as_positive_integer (map_of entry ''max_output_tokens''),
                           cm_priceComponents = components, cm_rawEntry = entry\<rparr>])))
            | _ \<Rightarrow> Inr models))"

definition is_hex :: "char \<Rightarrow> bool" where
  "is_hex c \<longleftrightarrow> is_digit c \<or> lower_char c \<in> {CHR ''a'', CHR ''b'', CHR ''c'', CHR ''d'', CHR ''e'', CHR ''f''}"

definition import_litellm_catalog ::
  "('bytes \<Rightarrow> string) \<Rightarrow> (string \<Rightarrow> string) \<Rightarrow> ('bytes \<Rightarrow> json option) \<Rightarrow> 'bytes litellm_input \<Rightarrow>
   (ai_error, catalog_snapshot) result" where
  "import_litellm_catalog sha256_bytes sha256 parse_json i =
     rbind (rassert (starts_with (li_upstreamUrl i) ''https://'')
             (ConfigurationError ''LiteLLM upstream URL must be HTTPS.'')) (\<lambda>_.
     rbind (rassert (7 \<le> length (li_upstreamCommitSha i) \<and> length (li_upstreamCommitSha i) \<le> 64 \<and>
                     list_all is_hex (li_upstreamCommitSha i))
             (ConfigurationError ''LiteLLM source commit SHA is invalid.'')) (\<lambda>_.
     let actual = sha256_bytes (li_rawBytes i) in
     rbind (rassert (actual = to_lower (li_verifiedSha256 i))
             (ConfigurationError ''LiteLLM content SHA-256 verification failed.'')) (\<lambda>_.
     (case parse_json (li_rawBytes i) of
        None \<Rightarrow> Inl (ConfigurationError ''LiteLLM catalog is not valid JSON.'')
      | Some (JObject entries) \<Rightarrow>
          rbind (rfold (import_entry sha256 (li_snapshotId i)) [] entries) (\<lambda>models.
            Inr \<lparr>cs_id = li_snapshotId i, cs_upstreamUrl = li_upstreamUrl i,
                 cs_upstreamCommitSha = li_upstreamCommitSha i, cs_fetchedAt = li_fetchedAt i,
                 cs_sha256 = actual, cs_rawEntries = entries, cs_models = models\<rparr>)
      | Some _ \<Rightarrow> Inl (ConfigurationError ''LiteLLM catalog root must be an object.'')))))"

section \<open>What an imported catalog looks like\<close>

text \<open>
  A component list as the import writes it: at most one component per kind, all unconditional, in
  force since the epoch without end, in one currency, and none negative.
\<close>

definition well_priced :: "string \<Rightarrow> price_component list \<Rightarrow> bool" where
  "well_priced sourceId cs \<longleftrightarrow>
     distinct (map pc_kind cs) \<and>
     (\<exists>currency. list_all (\<lambda>c. pc_currency c = currency) cs) \<and>
     list_all (\<lambda>c. pc_id c = sourceId @ '':'' @ kind_name (pc_kind c) \<and> pc_sourceId c = sourceId \<and>
        pc_conditions c = [] \<and> pc_effectiveFrom c = epoch \<and> pc_effectiveTo c = None \<and>
        0 \<le> dval (pc_amount c)) cs"

lemma stored_non_negative:
  assumes "storable_decimal v = Inr (Some d)" and "\<not> starts_with d ''-''"
  shows "0 \<le> dval d"
proof -
  obtain p where d: "d = format_decimal (coefficient p) (scale p)" and v: "dval d = value_of p"
    using storable_value [OF assms(1)] by metis
  have "0 \<le> coefficient p"
    using assms(2) unfolding d by (auto simp: format_decimal_def starts_with_def split: if_splits)
  then show ?thesis using v powi_pos [of "- scale p"] by (simp add: value_of_def)
qed

lemma component_field_step:
  assumes "component_field entry src cur cs fk = Inr cs'"
  shows "cs' = cs \<or> (\<exists>amount. 0 \<le> dval amount \<and>
    cs' = cs @ [\<lparr>pc_id = src @ '':'' @ kind_name (snd fk), pc_kind = snd fk, pc_unit = UToken,
      pc_amount = amount, pc_currency = cur, pc_effectiveFrom = epoch, pc_effectiveTo = None,
      pc_sourceId = src, pc_conditions = []\<rparr>])"
  using assms stored_non_negative
  by (fastforce simp: component_field_def rbind_Inr_iff split: option.splits if_splits)

lemma component_fields_priced:
  assumes "rfold (component_field entry src cur) cs fks = Inr cs'"
    and "list_all (\<lambda>c. pc_currency c = cur) cs" and "well_priced src cs"
    and "distinct (map snd fks)" and "pc_kind ` set cs \<inter> snd ` set fks = {}"
  shows "well_priced src cs'"
  using assms
proof (induction fks arbitrary: cs)
  case Nil
  then show ?case by simp
next
  case (Cons fk fks)
  obtain ds where step: "component_field entry src cur cs fk = Inr ds"
    and rest: "rfold (component_field entry src cur) ds fks = Inr cs'"
    using Cons.prems(1) by (auto simp: rbind_Inr_iff)
  from component_field_step [OF step] show ?case
  proof (elim disjE exE conjE)
    assume "ds = cs"
    then show ?case using Cons.IH rest Cons.prems by auto
  next
    fix amount
    assume "0 \<le> dval amount" and ds: "ds = cs @ [\<lparr>pc_id = src @ '':'' @ kind_name (snd fk),
      pc_kind = snd fk, pc_unit = UToken, pc_amount = amount, pc_currency = cur,
      pc_effectiveFrom = epoch, pc_effectiveTo = None, pc_sourceId = src, pc_conditions = []\<rparr>]"
    then have "well_priced src ds"
      using Cons.prems(2,3,5) by (auto simp: well_priced_def)
    moreover have "pc_kind ` set ds \<inter> snd ` set fks = {}"
      using Cons.prems(4,5) ds by auto
    ultimately show ?case
      using Cons.IH [OF rest] Cons.prems(2,4) ds by simp
  qed
qed

lemma components_for_priced:
  assumes "components_for entry src = Inr cs"
  shows "well_priced src cs"
proof -
  obtain cur where "rfold (component_field entry src cur) [] price_fields = Inr cs"
    using assms by (auto simp: components_for_def rbind_Inr_iff)
  then show ?thesis
    by (rule component_fields_priced) (simp_all add: well_priced_def price_fields_def)
qed

definition imported_model :: "json_record \<Rightarrow> (string \<Rightarrow> string) \<Rightarrow> string \<Rightarrow> catalog_model \<Rightarrow> bool" where
  "imported_model entries sha256 snapshot m \<longleftrightarrow>
     (cm_canonicalModel m, JObject (cm_rawEntry m)) \<in> set entries \<and> cm_snapshotId m = snapshot \<and>
     cm_id m = catalog_model_id sha256 snapshot (cm_canonicalModel m) \<and> well_priced (cm_id m) (cm_priceComponents m)"

lemma import_entry_step:
  assumes "import_entry sha256 snap ms e = Inr ms'" and "e \<in> set entries"
  shows "ms' = ms \<or> (\<exists>m. ms' = ms @ [m] \<and> imported_model entries sha256 snap m \<and> cm_canonicalModel m = fst e)"
  using assms components_for_priced
  by (cases e) (fastforce simp: import_entry_def imported_model_def rbind_Inr_iff Let_def
      split: if_splits json.splits option.splits)

lemma import_entries:
  assumes "rfold (import_entry sha256 snap) ms es = Inr ms'" and "set es \<subseteq> set entries"
    and "list_all (imported_model entries sha256 snap) ms" and "distinct (map cm_canonicalModel ms)"
    and "distinct (map fst es)" and "cm_canonicalModel ` set ms \<inter> fst ` set es = {}"
  shows "list_all (imported_model entries sha256 snap) ms' \<and> distinct (map cm_canonicalModel ms')"
  using assms
proof (induction es arbitrary: ms)
  case Nil
  then show ?case by simp
next
  case (Cons e es)
  obtain ns where step: "import_entry sha256 snap ms e = Inr ns"
    and rest: "rfold (import_entry sha256 snap) ns es = Inr ms'"
    using Cons.prems(1) by (auto simp: rbind_Inr_iff)
  have "e \<in> set entries" using Cons.prems(2) by simp
  from import_entry_step [OF step this] show ?case
  proof (elim disjE exE conjE)
    assume "ns = ms"
    then show ?case using Cons.IH rest Cons.prems by auto
  next
    fix m
    assume "ns = ms @ [m]" "imported_model entries sha256 snap m" "cm_canonicalModel m = fst e"
    then show ?case using Cons.IH [OF rest] Cons.prems(2-6) by auto
  qed
qed

lemma import_parts:
  assumes "import_litellm_catalog sha_b sha pj i = Inr s"
  obtains entries where "pj (li_rawBytes i) = Some (JObject entries)" "cs_rawEntries s = entries"
    "rfold (import_entry sha (li_snapshotId i)) [] entries = Inr (cs_models s)"
    "sha_b (li_rawBytes i) = to_lower (li_verifiedSha256 i)" "cs_sha256 s = sha_b (li_rawBytes i)"
    "starts_with (li_upstreamUrl i) ''https://''" "cs_id s = li_snapshotId i"
  using assms
  by (auto simp: import_litellm_catalog_def result_simps Let_def split: option.splits json.splits)

lemma import_models:
  assumes "import_litellm_catalog sha_b sha pj i = Inr s" and "distinct (map fst (cs_rawEntries s))"
  shows "list_all (imported_model (cs_rawEntries s) sha (cs_id s)) (cs_models s)"
    and "distinct (map cm_canonicalModel (cs_models s))"
proof -
  obtain entries where "cs_rawEntries s = entries" "cs_id s = li_snapshotId i"
      "rfold (import_entry sha (li_snapshotId i)) [] entries = Inr (cs_models s)"
    using import_parts [OF assms(1)] by metis
  then show "list_all (imported_model (cs_rawEntries s) sha (cs_id s)) (cs_models s)"
    and "distinct (map cm_canonicalModel (cs_models s))"
    using import_entries [of sha "li_snapshotId i" "[]" entries "cs_models s" entries] assms(2) by simp_all
qed

text \<open>
  C37: an imported catalog is what its source says.  A snapshot is imported only over HTTPS and when the
  digest of its bytes is the one given; its models are entries of the parsed root object, one per name,
  each identified by the digest of snapshot and name; and the prices of a model are at most one per
  kind, unconditional, open-ended, in one currency, and never negative.
\<close>

theorem imported_catalog_sound:
  assumes "import_litellm_catalog sha_b sha pj i = Inr s" and "distinct (map fst (cs_rawEntries s))"
  shows "starts_with (li_upstreamUrl i) ''https://'' \<and> cs_sha256 s = to_lower (li_verifiedSha256 i) \<and>
    pj (li_rawBytes i) = Some (JObject (cs_rawEntries s)) \<and>
    list_all (imported_model (cs_rawEntries s) sha (cs_id s)) (cs_models s) \<and>
    distinct (map cm_canonicalModel (cs_models s))"
proof -
  obtain entries where "pj (li_rawBytes i) = Some (JObject entries)" "cs_rawEntries s = entries"
    "sha_b (li_rawBytes i) = to_lower (li_verifiedSha256 i)" "cs_sha256 s = sha_b (li_rawBytes i)"
    "starts_with (li_upstreamUrl i) ''https://''"
    using import_parts [OF assms(1)] by metis
  then show ?thesis using import_models [OF assms] by simp
qed

lemma distinct_kind_filter:
  assumes "distinct (map pc_kind cs)"
  shows "filter (\<lambda>c. pc_kind c = k) cs = (case find (\<lambda>c. pc_kind c = k) cs of None \<Rightarrow> [] | Some c \<Rightarrow> [c])"
  using assms
proof (induction cs)
  case Nil
  then show ?case by simp
next
  case (Cons c cs)
  show ?case
  proof (cases "pc_kind c = k")
    case True
    then have "filter (\<lambda>c. pc_kind c = k) cs = []" using Cons.prems by (simp add: filter_empty_conv) (metis image_eqI)
    then show ?thesis using True by simp
  next
    case False
    then show ?thesis using Cons by simp
  qed
qed

lemma well_priced_select:
  assumes priced: "well_priced src cs" and epoch: "date epoch = Some 0"
    and now: "date (rc_at ctx) = Some t" "0 \<le> t"
  shows "select_from_scope date cs kind ctx = Inr (case find (\<lambda>c. pc_kind c = kind) cs of
      None \<Rightarrow> None
    | Some c \<Rightarrow> Some (if pc_currency c = rc_currency ctx
        then \<lparr>rp_kind = kind, rp_component = Some c, rp_status = Known, rp_reason = None\<rparr>
        else \<lparr>rp_kind = kind, rp_component = None, rp_status = Incomplete, rp_reason = Some ''foreignCurrency''\<rparr>))"
proof -
  have plain: "pc_conditions c = [] \<and> active date c t" if "c \<in> set cs" for c
    using that priced epoch now by (auto simp: well_priced_def active_def list_all_iff)
  then have "filter (applies date ctx kind) cs = filter (\<lambda>c. pc_kind c = kind) cs"
    using now by (auto simp: applies_def in_force_def condition_match_def intro!: filter_cong)
  also have "\<dots> = (case find (\<lambda>c. pc_kind c = kind) cs of None \<Rightarrow> [] | Some c \<Rightarrow> [c])"
    using priced by (auto simp: well_priced_def intro: distinct_kind_filter)
  finally have apps: "filter (applies date ctx kind) cs =
      (case find (\<lambda>c. pc_kind c = kind) cs of None \<Rightarrow> [] | Some c \<Rightarrow> [c])" .
  have "\<not> (\<exists>c \<in> set cs. in_force date ctx kind c \<and> condition_match (pc_conditions c) ctx = Undecidable)"
    using plain by (auto simp: condition_match_def)
  then show ?thesis
    by (simp add: select_from_scope_def now(1) scan_candidates_char [where date = date and ctx = ctx, OF now(1)]
        apps split: option.splits)
qed

text \<open>
  imported prices resolve without ambiguity.  For a model of an imported catalog, selecting the
  price of a kind from its components at any instant since the epoch succeeds: it is the model's one
  component of that kind, unknown if there is none, incomplete if it is in another currency.  Tied or
  undecidable prices cannot come from an import.
\<close>

theorem imported_prices_resolve:
  assumes "import_litellm_catalog sha_b sha pj i = Inr s" and "distinct (map fst (cs_rawEntries s))"
    and "m \<in> set (cs_models s)" and "date epoch = Some 0" and "date (rc_at ctx) = Some t" and "0 \<le> t"
  shows "select_from_scope date (cm_priceComponents m) kind ctx =
    Inr (case find (\<lambda>c. pc_kind c = kind) (cm_priceComponents m) of
      None \<Rightarrow> None
    | Some c \<Rightarrow> Some (if pc_currency c = rc_currency ctx
        then \<lparr>rp_kind = kind, rp_component = Some c, rp_status = Known, rp_reason = None\<rparr>
        else \<lparr>rp_kind = kind, rp_component = None, rp_status = Incomplete, rp_reason = Some ''foreignCurrency''\<rparr>))"
proof -
  have "well_priced (cm_id m) (cm_priceComponents m)"
    using import_models(1) [OF assms(1,2)] assms(3) by (auto simp: list_all_iff imported_model_def)
  then show ?thesis by (rule well_priced_select) (fact assms)+
qed

section \<open>Witnesses\<close>

text \<open>A catalog with one model, the digest and the parser given by simple functions.\<close>

definition sample_entry :: json_record where
  "sample_entry = [(''litellm_provider'', JText ''openai''), (''input_cost_per_token'', JText ''0.5'')]"

definition sample_import :: "unit litellm_input" where
  "sample_import = \<lparr>li_snapshotId = ''s'', li_rawBytes = (), li_upstreamUrl = ''https://x'',
     li_upstreamCommitSha = ''0123abc'', li_fetchedAt = ''t'', li_verifiedSha256 = ''AB''\<rparr>"

definition sample_price :: price_component where
  "sample_price = \<lparr>pc_id = ''catalog-model-s:gpt:input'', pc_kind = KInput, pc_unit = UToken, pc_amount = ''0.5'',
     pc_currency = ''USD'', pc_effectiveFrom = epoch, pc_effectiveTo = None,
     pc_sourceId = ''catalog-model-s:gpt'', pc_conditions = []\<rparr>"

definition sample_catalog_model :: catalog_model where
  "sample_catalog_model = \<lparr>cm_id = ''catalog-model-s:gpt'', cm_snapshotId = ''s'', cm_canonicalModel = ''gpt'',
     cm_provider = ''openai'', cm_supportedRoles = {RoleAnalysis, RoleChat, RoleKeywordExtraction},
     cm_capabilities = {}, cm_maximumInputTokens = None, cm_maximumOutputTokens = None,
     cm_priceComponents = [sample_price], cm_rawEntry = sample_entry\<rparr>"

definition sample_snapshot :: catalog_snapshot where
  "sample_snapshot = \<lparr>cs_id = ''s'', cs_upstreamUrl = ''https://x'', cs_upstreamCommitSha = ''0123abc'',
     cs_fetchedAt = ''t'', cs_sha256 = ''ab'', cs_rawEntries = [(''gpt'', JObject sample_entry)],
     cs_models = [sample_catalog_model]\<rparr>"

lemma sample_half: "storable_decimal (Text ''0.5'') = Inr (Some ''0.5'')"
proof -
  have "format_decimal 5 1 = ''0.5''" by (simp add: format_eval)
  moreover have "fraction_digits ''0.5'' = ''5''" "significant_digits ''0.5'' = ''5''" by code_simp+
  ultimately show ?thesis by (simp add: storable_decimal_def sample_parses)
qed

lemma sample_components: "components_for sample_entry ''catalog-model-s:gpt'' = Inr [sample_price]"
  by (simp add: components_for_def parse_currency_def sample_entry_def price_fields_def component_field_def
      sample_half starts_with_def sample_price_def is_upper_def)

lemma sample_imported:
  "import_litellm_catalog (\<lambda>_. ''ab'') (\<lambda>t. t) (\<lambda>_. Some (JObject [(''gpt'', JObject sample_entry)])) sample_import =
    Inr sample_snapshot"
proof -
  have guards: "starts_with ''https://x'' ''https://''" "list_all is_hex ''0123abc''" "to_lower ''AB'' = ''ab''"
    by code_simp+
  have "import_entry (\<lambda>t. t) ''s'' [] (''gpt'', JObject sample_entry) = Inr [sample_catalog_model]"
  proof -
    have "as_string (map_of sample_entry ''litellm_provider'') = Some ''openai''"
      "roles_for sample_entry = {RoleAnalysis, RoleChat, RoleKeywordExtraction}"
      "capabilities_for sample_entry = {}" "as_positive_integer (map_of sample_entry ''max_input_tokens'') = None"
      "as_positive_integer (map_of sample_entry ''max_output_tokens'') = None"
      by (simp_all add: sample_entry_def roles_for_def capabilities_for_def)
    then show ?thesis
      by (simp add: import_entry_def catalog_model_id_def sample_components sample_catalog_model_def)
  qed
  then show ?thesis
    using guards by (simp add: import_litellm_catalog_def sample_import_def rassert_def sample_snapshot_def)
qed

theorem imported_catalog_sound_witness:
  "imported_model [(''gpt'', JObject sample_entry)] (\<lambda>t. t) ''s'' sample_catalog_model"
  using imported_catalog_sound [OF sample_imported] by (simp add: sample_snapshot_def)

definition epoch_date :: "string \<Rightarrow> int option" where
  "epoch_date t = (if t = epoch then Some 0 else sample_date t)"

theorem imported_prices_resolve_witness:
  "select_from_scope epoch_date [sample_price] KInput sample_context = Inr (Some (known_input sample_price))"
proof -
  have "epoch_date (rc_at sample_context) = Some 1769904000000"
    by (simp add: epoch_date_def sample_context_def epoch_def sample_date_eval)
  from imported_prices_resolve [where date = epoch_date and ctx = sample_context and m = sample_catalog_model
      and kind = KInput, OF sample_imported _ _ _ this]
  show ?thesis
    by (simp add: sample_snapshot_def epoch_date_def sample_catalog_model_def sample_price_def sample_context_def
        known_input_def)
qed

end
