(* ===== verification/Gateway_Properties.thy ===== *)
theory Gateway_Properties
  imports Gateway
begin

text \<open>
  What the metered gateway guarantees: nothing is dispatched without a committed reservation, every
  reservation is settled exactly once and released only if nothing was dispatched, a hard budget is
  not spent on unknown prices.  The events of an execution are followed block by block
  (\<open>reserve\<close>, \<open>attempt\<close>, \<open>recover\<close>).
\<close>

section \<open>The blocks of an execution\<close>

fun is_dispatch :: "gateway_event \<Rightarrow> bool" where
  "is_dispatch (Dispatched m) = True"
| "is_dispatch _ = False"

fun is_transaction :: "gateway_event \<Rightarrow> bool" where
  "is_transaction (Committed ws) = True"
| "is_transaction (RolledBack ws) = True"
| "is_transaction _ = False"

fun reserves :: "ledger_write \<Rightarrow> bool" where
  "reserves (BudgetReserve b) = True"
| "reserves _ = False"

lemma run_transaction_cases:
  assumes "run_transaction p ws st = (r, st')"
  shows "(r = Inr () \<and> gs_events st' = gs_events st @ [Committed ws]) \<or>
    ((\<exists>e. r = Inl e) \<and> gs_events st' = gs_events st @ [RolledBack ws] \<and> (\<exists>n e. gp_commit p n ws = Some e))"
  using assms by (auto simp: run_transaction_def emit_def Let_def split: option.splits)

lemma success_reconciliation_status:
  "success_reconciliation res cost pc u cur = Inr ro \<Longrightarrow> ro_status ro \<noteq> Released \<and> ro_currency ro = cur"
  by (auto simp: success_reconciliation_def Let_def rbind_Inr_iff split: if_splits option.splits)

text \<open>The writes that record turns: no reservation, no settlement, and every start names its parent.\<close>

fun child_write :: "string \<Rightarrow> ledger_write \<Rightarrow> bool" where
  "child_write operationId (LedgerStart s) \<longleftrightarrow> os_parentOperationId s = Some operationId"
| "child_write operationId (LedgerFinalize f) \<longleftrightarrow> True"
| "child_write operationId _ \<longleftrightarrow> False"

lemma child_writes_children:
  "child_writes p req w plan op fin n ts = Inr ws \<Longrightarrow> list_all (child_write op) ws"
  by (induction ts arbitrary: n ws) (auto simp: rbind_Inr_iff)

lemma settle_writes:
  assumes "settle p req w plan op fin n r = Inr (ws, res)"
  obtains f ro children where "ws = final_writes f ro children" "of_operationId f = op" "of_workspaceId f = w"
    "of_status f \<in> {OpSucceeded, OpSucceededUsageUnknown}" "ro_status ro \<noteq> Released"
    "list_all (child_write op) children"
proof -
  obtain a usage cost ro children where
      rec: "success_reconciliation (ep_conservativeCost plan) cost (pv_providerCost r) usage
        (bq_currency (mr_budget req)) = Inr ro"
    and ch: "child_writes p req w plan op fin n (case a of None \<Rightarrow> [] | Some a \<Rightarrow> ac_turns a) = Inr children"
    and ws: "ws = final_writes
            \<lparr>of_operationId = op, of_workspaceId = w,
             of_status = (if usage = None then OpSucceededUsageUnknown else OpSucceeded),
             of_finishedAt = fin, of_usage = usage,
             of_metadata = Some (repository_agent_metadata (pv_metadata r) a),
             of_calculatedCost = cost, of_providerCost = pv_providerCost r, of_error = None\<rparr> ro children"
    using assms by (auto simp: settle_def rbind_Inr_iff Let_def)
  show ?thesis
    by (rule that [OF ws]) (use success_reconciliation_status [OF rec] child_writes_children [OF ch] in auto)
qed

text \<open>How a \<open>try\<close> block can end.\<close>

lemma attempt_cases:
  assumes "attempt p req w plan op st = (r, d, st')"
  obtains
    (not_dispatched) e where "r = Inl e" "\<not> d"
      "gs_events st' = gs_events st @ [SecretRequested (ib_secretReference (ep_binding plan))]"
  | (failed) e where "r = Inl e" "d"
      "gs_events st' = gs_events st @ [SecretRequested (ib_secretReference (ep_binding plan)),
         Dispatched (method_for (mr_kind req))]"
  | (rolled_back) e ws n e' f ro children where "r = Inl e" "d" "gp_commit p n ws = Some e'"
      "ws = final_writes f ro children" "of_operationId f = op" "list_all (child_write op) children"
      "gs_events st' = gs_events st @ [SecretRequested (ib_secretReference (ep_binding plan)),
         Dispatched (method_for (mr_kind req)), RolledBack ws]"
  | (completed) res ws f ro children where "r = Inr res" "d"
      "gs_events st' = gs_events st @ [SecretRequested (ib_secretReference (ep_binding plan)),
         Dispatched (method_for (mr_kind req)), Committed ws]"
      "ws = final_writes f ro children" "of_operationId f = op" "of_workspaceId f = w"
      "of_status f \<in> {OpSucceeded, OpSucceededUsageUnknown}" "ro_status ro \<noteq> Released"
      "list_all (child_write op) children"
proof -
  define st1 where "st1 = emit (SecretRequested (ib_secretReference (ep_binding plan))) st"
  define st2 where "st2 = emit (Dispatched (method_for (mr_kind req))) st1"
  define st3 where "st3 = st2\<lparr>gs_clock := gs_clock st2 + 1\<rparr>"
  have ev1: "gs_events st1 = gs_events st @ [SecretRequested (ib_secretReference (ep_binding plan))]"
    and ev2: "gs_events st2 = gs_events st @ [SecretRequested (ib_secretReference (ep_binding plan)),
       Dispatched (method_for (mr_kind req))]" and ev3: "gs_events st3 = gs_events st2"
    by (simp_all add: st1_def st2_def st3_def emit_def)
  note att = assms [unfolded attempt_def Let_def, folded st1_def, folded st2_def, folded st3_def]
  show ?thesis
  proof (cases "gp_secret p (ib_secretReference (ep_binding plan))")
    case (Inl e)
    then show ?thesis using att ev1 by (auto intro: not_dispatched)
  next
    case secret: (Inr secret)
    show ?thesis
    proof (cases "deadline_exceeded p req AfterSecret \<or> gp_aborted p AfterSecret")
      case True
      then show ?thesis using att secret ev1 by (auto intro: not_dispatched split: if_splits)
    next
      case False
      note att2 = att [unfolded secret]
      show ?thesis
      proof (cases "gp_dispatch p (method_for (mr_kind req)) (ep_binding plan) secret (mr_kind req)")
        case (Inl e)
        then show ?thesis using att2 False ev2 by (auto intro: failed)
      next
        case disp: (Inr pr)
        show ?thesis
        proof (cases "settle p req w plan op (gp_clock p (gs_clock st2)) (gs_ids st3) pr")
          case (Inl e)
          then show ?thesis using att2 False disp ev2 ev3 by (auto intro: failed)
        next
          case settled: (Inr wr)
          obtain ws res where wr: "wr = (ws, res)" by (cases wr)
          obtain q st4 where run: "run_transaction p ws st3 = (q, st4)" by (cases "run_transaction p ws st3")
          have fin: "(r, d, st') = (case q of Inl e \<Rightarrow> Inl e | Inr u \<Rightarrow> Inr res, True, st4)"
            using att2 False disp settled wr run by (cases q) auto
          from settled have "settle p req w plan op (gp_clock p (gs_clock st2)) (gs_ids st3) pr = Inr (ws, res)"
            by (simp add: wr)
          then obtain f ro children where *: "ws = final_writes f ro children" "of_operationId f = op"
              "of_workspaceId f = w" "of_status f \<in> {OpSucceeded, OpSucceededUsageUnknown}"
              "ro_status ro \<noteq> Released" "list_all (child_write op) children"
            by (rule settle_writes)
          from run_transaction_cases [OF run] show ?thesis
          proof (elim disjE conjE exE)
            assume q: "q = Inr ()" and ev: "gs_events st4 = gs_events st3 @ [Committed ws]"
            show ?thesis
              by (rule completed [of res ws f ro children]) (use * fin q ev ev2 ev3 in auto)
          next
            fix e n e'
            assume "q = Inl e" "gs_events st4 = gs_events st3 @ [RolledBack ws]" "gp_commit p n ws = Some e'"
            then show ?thesis
              by (intro rolled_back [of e n ws e' f ro children]) (use * fin ev2 ev3 in auto)
          qed
        qed
      qed
    qed
  qed
qed

lemma recover_cases:
  assumes "recover p req w op caught d st = (r, st')"
  obtains e f ro where "of_operationId f = op" "of_workspaceId f = w"
    "of_status f = failure_status e" "ro_status ro = (if d then RetainedUncertain else Released)"
    "(r = Inl e \<and> gs_events st' = gs_events st @ [Committed (final_writes f ro [])]) \<or>
     ((\<exists>e'. r = Inl e') \<and> gs_events st' = gs_events st @ [RolledBack (final_writes f ro [])] \<and>
       (\<exists>n e. gp_commit p n (final_writes f ro []) = Some e))"
proof -
  define e where "e = (if deadline_exceeded p req WhenCaught then TimeoutError (zero_if_absent (mr_timeoutMs req))
               else if gp_aborted p WhenCaught then CancelledError else caught)"
  define f where "f = \<lparr>of_operationId = op, of_workspaceId = w, of_status = failure_status e,
             of_finishedAt = gp_clock p (gs_clock st), of_usage = None, of_metadata = None,
             of_calculatedCost = unknown_cost, of_providerCost = None,
             of_error = Some (error_code e, error_retryable e)\<rparr>"
  define ro where "ro = \<lparr>ro_status = (if d then RetainedUncertain else Released),
             ro_currency = bq_currency (mr_budget req), ro_actualAmount = None, ro_providerCost = None\<rparr>"
  obtain q st1 where run: "run_transaction p (final_writes f ro []) (st\<lparr>gs_clock := gs_clock st + 1\<rparr>) = (q, st1)"
    by (cases "run_transaction p (final_writes f ro []) (st\<lparr>gs_clock := gs_clock st + 1\<rparr>)")
  have fin: "(r, st') = (case q of Inl e2 \<Rightarrow> Inl e2 | Inr u \<Rightarrow> Inl e, st1)"
    using assms run unfolding recover_def Let_def e_def [symmetric] f_def [symmetric] ro_def [symmetric]
    by (auto split: sum.splits)
  have f: "of_operationId f = op" "of_workspaceId f = w" "of_status f = failure_status e"
    and ro: "ro_status ro = (if d then RetainedUncertain else Released)"
    by (simp_all add: f_def ro_def)
  have ev: "gs_events (st\<lparr>gs_clock := gs_clock st + 1\<rparr>) = gs_events st" by simp
  have "(r = Inl e \<and> gs_events st' = gs_events st @ [Committed (final_writes f ro [])]) \<or>
     ((\<exists>e'. r = Inl e') \<and> gs_events st' = gs_events st @ [RolledBack (final_writes f ro [])] \<and>
       (\<exists>n e. gp_commit p n (final_writes f ro []) = Some e))"
    using run_transaction_cases [OF run] fin unfolding ev by (cases q) auto
  from that [OF f ro this] show ?thesis .
qed

lemma reserve_cases:
  assumes "reserve p req w plan op st = (r, st')"
  obtains
    (refused) e ws where "r = Inl e" "gs_events st' = gs_events st @ [RolledBack ws]"
  | (reserved) b where "r = Inr ()" "br_operationId b = op" "br_workspaceId b = w"
      "br_estimatedAmount b = cc_amount (ep_conservativeCost plan)"
      "br_calculationStatus b = cc_status (ep_conservativeCost plan)"
      "gs_events st' = gs_events st @ [Committed [LedgerStart (start_record plan req w op), BudgetReserve b]]"
proof (cases "reservation_scope_for (gp_date p) op (mr_analysisId req) (ep_startedAt plan)")
  case (Inl e)
  then show ?thesis using assms by (auto simp: reserve_def Let_def emit_def intro: refused)
next
  case (Inr scope)
  define b where "b = \<lparr>br_operationId = op, br_workspaceId = w, br_scope = scope,
      br_currency = bq_currency (mr_budget req), br_estimatedAmount = cc_amount (ep_conservativeCost plan),
      br_calculationStatus = cc_status (ep_conservativeCost plan), br_hard = bq_hard (mr_budget req),
      br_unknownPriceBypass = bypass req, br_occurredAt = ep_startedAt plan\<rparr>"
  have "run_transaction p [LedgerStart (start_record plan req w op), BudgetReserve b] st = (r, st')"
    using assms Inr by (simp add: reserve_def Let_def b_def)
  from run_transaction_cases [OF this] show ?thesis
    by (elim disjE conjE exE) (auto simp: b_def intro: refused reserved [of b])
qed

text \<open>
  What follows the reservation: nothing, if the timeout is invalid; otherwise at most one dispatch,
  and at the end one transaction of \<open>final_writes\<close>, possibly after one that was rolled back.
\<close>

definition settles :: "string \<Rightarrow> ledger_write list \<Rightarrow> operation_finalization \<Rightarrow> reconciliation_outcome \<Rightarrow> bool" where
  "settles op ws f ro \<longleftrightarrow> of_operationId f = op \<and>
     (\<exists>children. ws = final_writes f ro children \<and> list_all (child_write op) children)"

lemma final_writes_quiet:
  "settles op ws f ro \<Longrightarrow> list_all (\<lambda>x. \<not> reserves x) ws"
proof -
  assume "settles op ws f ro"
  then obtain children where ws: "ws = final_writes f ro children" and ch: "list_all (child_write op) children"
    by (auto simp: settles_def)
  have "\<not> reserves x" if "child_write op x" for x
    using that by (cases x) auto
  then show ?thesis using ch by (auto simp: ws final_writes_def list_all_iff)
qed

lemma run_reserved_cases:
  assumes "run_reserved p req w plan op st = (r, st')" and "compose_abort_signal (mr_timeoutMs req) = Inr ()"
  obtains early final ws f ro where
    "gs_events st' = gs_events st @ early @ [final]" "settles op ws f ro"
    "final = Committed ws \<or> final = RolledBack ws \<and> (\<exists>n e. gp_commit p n ws = Some e) \<and> (\<exists>e. r = Inl e)"
    "length (filter is_dispatch early) \<le> 1"
    "filter is_transaction early = [] \<or>
       (\<exists>us n e f ro. filter is_transaction early = [RolledBack us] \<and> gp_commit p n us = Some e \<and> settles op us f ro)"
    "ro_status ro = Released \<longleftrightarrow> filter is_dispatch early = []"
    "final = Committed ws \<Longrightarrow>
      (case r of Inl e \<Rightarrow> of_status f = failure_status e \<and> ro_status ro \<in> {Released, RetainedUncertain}
       | Inr v \<Rightarrow> of_status f \<in> {OpSucceeded, OpSucceededUsageUnknown} \<and> filter is_dispatch early \<noteq> [])"
proof -
  note found = that
  obtain q d st1 where att: "attempt p req w plan op st = (q, d, st1)" by (metis prod_cases3)
  note run = assms(1) [unfolded run_reserved_def assms(2) att sum.case prod.case]
  have ended_badly: thesis
    if q: "q = Inl e" and ev: "gs_events st1 = gs_events st @ mid" and mid: "length (filter is_dispatch mid) \<le> 1"
      "d \<longleftrightarrow> filter is_dispatch mid \<noteq> []"
      "filter is_transaction mid = [] \<or> (\<exists>us n e f ro. filter is_transaction mid = [RolledBack us] \<and>
        gp_commit p n us = Some e \<and> settles op us f ro)"
    for e mid
  proof -
    have "recover p req w op e d st1 = (r, st')" using run q by simp
    then show thesis
    proof (rule recover_cases)
      fix e' f ro
      assume *: "of_operationId f = op" "of_status f = failure_status e'"
        "ro_status ro = (if d then RetainedUncertain else Released)"
        "(r = Inl e' \<and> gs_events st' = gs_events st1 @ [Committed (final_writes f ro [])]) \<or>
         ((\<exists>e'. r = Inl e') \<and> gs_events st' = gs_events st1 @ [RolledBack (final_writes f ro [])] \<and>
           (\<exists>n e. gp_commit p n (final_writes f ro []) = Some e))"
      have s: "settles op (final_writes f ro []) f ro" using *(1) by (auto simp: settles_def)
      from *(4) show thesis
      proof (elim disjE conjE)
        assume "r = Inl e'" "gs_events st' = gs_events st1 @ [Committed (final_writes f ro [])]"
        then show thesis
          by (intro found [of mid "Committed (final_writes f ro [])" "final_writes f ro []" f ro])
            (use s mid ev * in auto)
      next
        assume "\<exists>e'. r = Inl e'" "gs_events st' = gs_events st1 @ [RolledBack (final_writes f ro [])]"
          "\<exists>n e. gp_commit p n (final_writes f ro []) = Some e"
        then show thesis
          by (intro found [of mid "RolledBack (final_writes f ro [])" "final_writes f ro []" f ro])
            (use s mid ev * in auto)
      qed
    qed
  qed
  from att show thesis
  proof (cases rule: attempt_cases)
    case (not_dispatched e)
    then show ?thesis by (intro ended_badly) auto
  next
    case (failed e)
    then show ?thesis by (intro ended_badly) auto
  next
    case (rolled_back e ws n e' f ro children)
    then have "settles op ws f ro" by (auto simp: settles_def)
    then show ?thesis using rolled_back by (intro ended_badly) auto
  next
    case (completed res ws f ro children)
    have "r = Inr res" "st' = st1" using run completed(1) by auto
    then show ?thesis
      by (intro found [of "[SecretRequested (ib_secretReference (ep_binding plan)), Dispatched (method_for (mr_kind req))]"
            "Committed ws" ws f ro])
        (use completed in \<open>auto simp: settles_def\<close>)
  qed
qed

lemma execute_cases:
  assumes "execute p req w = (r, st)"
  obtains
    (nothing) e where "r = Inl e" "gs_events st = []"
  | (refused) e ws where "r = Inl e" "gs_events st = [RolledBack ws]"
  | (reserved) plan b st1 where "resolve_plan p req w = Inr plan"
      "bq_hard (mr_budget req) \<Longrightarrow> cc_status (ep_conservativeCost plan) = Known \<or> bypass req"
      "policy_required req \<Longrightarrow> has_policy p req w plan = Inr True"
      "br_operationId b = gp_id p 0" "br_workspaceId b = w"
      "br_estimatedAmount b = cc_amount (ep_conservativeCost plan)"
      "gs_events st1 = [Committed [LedgerStart (start_record plan req w (gp_id p 0)), BudgetReserve b]]"
      "run_reserved p req w plan (gp_id p 0) st1 = (r, st)"
proof -
  note done_refused = refused and done_reserved = reserved
  define st0 where "st0 = initial_state\<lparr>gs_clock := 1\<rparr>"
  have ev0: "gs_events st0 = []" "gs_events (st0\<lparr>gs_ids := 1\<rparr>) = []" by (simp_all add: st0_def initial_state_def)
  note ex = assms [unfolded execute_def Let_def, folded st0_def]
  show ?thesis
  proof (cases "resolve_plan p req w")
    case (Inl e)
    then have "r = Inl e" "gs_events st = []" using ex ev0 by auto
    then show ?thesis by (rule nothing)
  next
    case plan: (Inr plan)
    let ?hard = "bq_hard (mr_budget req) \<and> cc_status (ep_conservativeCost plan) \<noteq> Known \<and> \<not> bypass req"
    let ?policy = "if policy_required req then has_policy p req w plan else Inr True"
    show ?thesis
    proof (cases "?hard \<or> ?policy \<noteq> Inr True")
      case True
      then obtain e where "r = Inl e" "gs_events st = []" using ex plan ev0 by (auto split: if_splits sum.splits)
      then show ?thesis by (rule nothing)
    next
      case False
      obtain q st1 where res: "reserve p req w plan (gp_id p 0) (st0\<lparr>gs_ids := 1\<rparr>) = (q, st1)"
        by (cases "reserve p req w plan (gp_id p 0) (st0\<lparr>gs_ids := 1\<rparr>)")
      have fin: "(r, st) = (case q of Inl e \<Rightarrow> (Inl e, st1) | Inr u \<Rightarrow> run_reserved p req w plan (gp_id p 0) st1)"
        using ex plan False res by (cases q) (auto split: if_splits)
      from res show ?thesis
      proof (cases rule: reserve_cases)
        case (refused e ws)
        then have "r = Inl e" "gs_events st = [RolledBack ws]" using fin ev0 by simp_all
        then show ?thesis by (rule done_refused)
      next
        case (reserved b)
        have run: "run_reserved p req w plan (gp_id p 0) st1 = (r, st)" using fin reserved(1) by simp
        have ev: "gs_events st1 = [Committed [LedgerStart (start_record plan req w (gp_id p 0)), BudgetReserve b]]"
          using reserved(6) ev0 by simp
        show ?thesis
          by (rule done_reserved [OF plan _ _ reserved(2,3,4) ev run]) (use False in \<open>auto split: if_splits\<close>)
      qed
    qed
  qed
qed

section \<open>Properties\<close>

text \<open>
  C1: nothing is dispatched without a committed reservation.  If an execution reaches the provider, its
  first event is the commit of the ledger entry and the budget reservation of its operation, for the
  conservative cost of the plan, which is known if the budget is hard (or unknown prices were
  allowed); the provider is called once, and no other reservation is ever written.
\<close>

theorem dispatch_is_reserved:
  assumes "execute p req w = (r, st)" and "list_ex is_dispatch (gs_events st)"
  shows "\<exists>plan b rest. resolve_plan p req w = Inr plan \<and>
    gs_events st = Committed [LedgerStart (start_record plan req w (gp_id p 0)), BudgetReserve b] # rest \<and>
    br_operationId b = gp_id p 0 \<and> br_workspaceId b = w \<and>
    br_estimatedAmount b = cc_amount (ep_conservativeCost plan) \<and>
    \<not> (bq_hard (mr_budget req) \<and> cc_status (ep_conservativeCost plan) \<noteq> Known \<and> \<not> bypass req) \<and>
    length (filter is_dispatch rest) = 1 \<and>
    (\<forall>ws. Committed ws \<in> set rest \<or> RolledBack ws \<in> set rest \<longrightarrow> list_all (\<lambda>x. \<not> reserves x) ws)"
  using assms(1)
proof (cases rule: execute_cases)
  case (nothing e)
  then show ?thesis using assms(2) by simp
next
  case (refused e ws)
  then show ?thesis using assms(2) by simp
next
  case (reserved plan b st1)
  show ?thesis
  proof (cases "compose_abort_signal (mr_timeoutMs req)")
    case (Inl e)
    then have "st = st1" using reserved(8) by (simp add: run_reserved_def)
    then show ?thesis using reserved(7) assms(2) by simp
  next
    case (Inr u)
    then have "compose_abort_signal (mr_timeoutMs req) = Inr ()" by simp
    from run_reserved_cases [OF reserved(8) this] obtain early final ws f ro where
        ev: "gs_events st = gs_events st1 @ early @ [final]" and s: "settles (gp_id p 0) ws f ro"
      and fin: "final = Committed ws \<or> final = RolledBack ws"
      and one: "length (filter is_dispatch early) \<le> 1"
      and tr: "filter is_transaction early = [] \<or>
        (\<exists>us n e f ro. filter is_transaction early = [RolledBack us] \<and> settles (gp_id p 0) us f ro)"
      by (metis (no_types, lifting))
    have some: "filter is_dispatch early \<noteq> []"
      using assms(2) fin unfolding ev reserved(7) by (auto simp: filter_empty_conv list_ex_iff)
    have quiet: "list_all (\<lambda>x. \<not> reserves x) us"
      if us: "Committed us \<in> set (early @ [final]) \<or> RolledBack us \<in> set (early @ [final])" for us
    proof (cases "Committed us = final \<or> RolledBack us = final")
      case True
      then show ?thesis using fin final_writes_quiet [OF s] by auto
    next
      case False
      then have "Committed us \<in> set (filter is_transaction early) \<or> RolledBack us \<in> set (filter is_transaction early)"
        using us by auto
      then show ?thesis using tr final_writes_quiet by (auto simp del: set_filter)
    qed
    have "length (filter is_dispatch (early @ [final])) = 1"
      using one some fin by (cases "filter is_dispatch early") auto
    then show ?thesis
      using reserved(1,2,4,5,6,7) ev quiet
      by (intro exI [of _ plan], intro exI [of _ b], intro exI [of _ "early @ [final]"]) auto
  qed
qed

text \<open>
  C2: every reservation is settled once.  If the timeout of the request is valid and transactions
  commit, an execution whose reservation was committed ends with one transaction that finalizes and
  reconciles exactly that operation, and no other transaction lies between; the money is released
  if and only if the provider was never called; after a failure it is released or retained, never
  reconciled; and the status in the ledger is the one of the error raised, or a success status if a
  result is returned.
\<close>

theorem reservation_settled_once:
  assumes "execute p req w = (r, st)" and "compose_abort_signal (mr_timeoutMs req) = Inr ()"
    and "gp_commit p = (\<lambda>n ws. None)" and "gs_events st = Committed start # rest"
  shows "\<exists>early ws f ro. rest = early @ [Committed ws] \<and> settles (gp_id p 0) ws f ro \<and>
    filter is_transaction early = [] \<and>
    (ro_status ro = Released \<longleftrightarrow> \<not> list_ex is_dispatch rest) \<and>
    (case r of Inl e \<Rightarrow> of_status f = failure_status e \<and> ro_status ro \<in> {Released, RetainedUncertain}
     | Inr v \<Rightarrow> of_status f \<in> {OpSucceeded, OpSucceededUsageUnknown} \<and> list_ex is_dispatch rest)"
  using assms(1)
proof (cases rule: execute_cases)
  case (nothing e)
  then show ?thesis using assms(4) by simp
next
  case (refused e ws)
  then show ?thesis using assms(4) by simp
next
  case (reserved plan b st1)
  from reserved(8) assms(2) show ?thesis
  proof (cases rule: run_reserved_cases)
    case (1 early final ws f ro)
    have final: "final = Committed ws" and quiet: "filter is_transaction early = []"
      using 1(3,5) by (simp_all add: assms(3))
    have rest: "rest = early @ [Committed ws]" using 1(1) assms(4) reserved(7) final by simp
    have disp: "list_ex is_dispatch rest \<longleftrightarrow> filter is_dispatch early \<noteq> []"
      by (auto simp: rest list_ex_iff filter_empty_conv)
    have "case r of Inl e \<Rightarrow> of_status f = failure_status e \<and> ro_status ro \<in> {Released, RetainedUncertain}
       | Inr v \<Rightarrow> of_status f \<in> {OpSucceeded, OpSucceededUsageUnknown} \<and> list_ex is_dispatch rest"
      using 1(7) [OF final] unfolding disp .
    moreover have "ro_status ro = Released \<longleftrightarrow> \<not> list_ex is_dispatch rest" using 1(6) disp by simp
    ultimately show ?thesis using rest 1(2) quiet by blast
  qed
qed

text \<open>
  C40: an invalid timeout leaks its reservation.  The timeout is checked after the reservation is
  committed and outside the block that settles it: with a timeout that is not a positive integer,
  the execution fails with a configuration error, and if the reservation was committed it is the only
  event, so the operation stays started and its money reserved.
\<close>

theorem invalid_timeout_leaks:
  assumes "execute p req w = (r, st)" and "mr_timeoutMs req = Some t"
    and "\<not> (is_safe_integer t \<and> 1 \<le> int_of t)" and "gs_events st = Committed ws # rest"
  shows "rest = [] \<and> list_ex reserves ws \<and> r = Inl (ConfigurationError ''AI timeout must be a positive integer.'')"
  using assms(1)
proof (cases rule: execute_cases)
  case (nothing e)
  then show ?thesis using assms(4) by simp
next
  case (refused e ws)
  then show ?thesis using assms(4) by simp
next
  case (reserved plan b st1)
  have "compose_abort_signal (mr_timeoutMs req) =
      Inl (ConfigurationError ''AI timeout must be a positive integer.'')"
    using assms(2,3) by (auto simp: compose_abort_signal_def rassert_def)
  then have "st = st1 \<and> r = Inl (ConfigurationError ''AI timeout must be a positive integer.'')"
    using reserved(8) by (simp add: run_reserved_def)
  then show ?thesis using reserved(7) assms(4) by auto
qed

section \<open>Plans stay within their binding\<close>

text \<open>The client side of the resolver contract.\<close>

context binding_resolver
begin

lemma plan_scope:
  assumes "gp_resolve p = resolve" and "resolve_plan p req w = Inr plan"
  shows "ib_workspaceId (ep_binding plan) = w" and "ib_role (ep_binding plan) = mr_role req"
    and "set (requested_capabilities req) \<subseteq> ib_capabilities (ep_binding plan)"
    and "ep_repositoryBounds plan = None \<Longrightarrow>
      \<not> exceeds (Some (ep_maximumInputTokens plan)) (ib_maximumInputTokens (ep_binding plan))"
    and "ep_repositoryBounds plan = Some b \<Longrightarrow>
      \<not> exceeds (Some (Num (tb_maximumInputTokensPerTurn b))) (ib_maximumInputTokens (ep_binding plan)) \<and>
      \<not> exceeds (Some (Num (tb_maximumOutputTokensPerTurn b))) (ib_maximumOutputTokens (ep_binding plan))"
proof -
  let ?r = "binding_request req w (ep_repositoryBounds plan)"
  have r: "resolve ?r = Inr (ep_binding plan)"
    and input: "plan_input_limit (ep_repositoryBounds plan) req (ep_binding plan) = Some (ep_maximumInputTokens plan)"
    using assms by (auto simp: resolve_plan_def rbind_Inr_iff Let_def split: if_splits)
  show "ib_workspaceId (ep_binding plan) = w" "ib_role (ep_binding plan) = mr_role req"
    using resolve_scope [OF r] by (simp_all add: binding_request_def)
  show "set (requested_capabilities req) \<subseteq> ib_capabilities (ep_binding plan)"
    using resolve_capable [OF r] by (simp add: binding_request_def)
  show "\<not> exceeds (Some (ep_maximumInputTokens plan)) (ib_maximumInputTokens (ep_binding plan))"
    if "ep_repositoryBounds plan = None"
    using resolve_limits [OF r] input that
    by (auto simp: binding_request_def plan_input_limit_def or_else_def exceeds_def split: option.splits jsnum.splits)
  show "\<not> exceeds (Some (Num (tb_maximumInputTokensPerTurn b))) (ib_maximumInputTokens (ep_binding plan)) \<and>
      \<not> exceeds (Some (Num (tb_maximumOutputTokensPerTurn b))) (ib_maximumOutputTokens (ep_binding plan))"
    if "ep_repositoryBounds plan = Some b"
    using resolve_limits [OF r] that by (simp add: binding_request_def or_else_def)
qed

end

text \<open>
  a call stays within its workspace and binding.  With the in-memory resolver, the plan of every
  request uses a binding of the caller's workspace and of the requested role that has all requested
  capabilities, and the reserved input tokens (per turn, for agents) are within the limit of the binding.
\<close>

theorem plan_in_scope:
  assumes "gp_resolve p = resolve_binding (new_resolver bs ds)" and "resolve_plan p req w = Inr plan"
  shows "ib_workspaceId (ep_binding plan) = w \<and> ib_role (ep_binding plan) = mr_role req \<and>
    set (requested_capabilities req) \<subseteq> ib_capabilities (ep_binding plan) \<and>
    (case ep_repositoryBounds plan of
       None \<Rightarrow> \<not> exceeds (Some (ep_maximumInputTokens plan)) (ib_maximumInputTokens (ep_binding plan))
     | Some b \<Rightarrow>
         \<not> exceeds (Some (Num (tb_maximumInputTokensPerTurn b))) (ib_maximumInputTokens (ep_binding plan)) \<and>
         \<not> exceeds (Some (Num (tb_maximumOutputTokensPerTurn b))) (ib_maximumOutputTokens (ep_binding plan)))"
  using memory_resolver.plan_scope [OF assms] by (auto split: option.splits)

section \<open>Witnesses\<close>

definition sample_result :: "unit provider_result" where
  "sample_result = \<lparr>pv_value = (), pv_metering = None, pv_usage = None, pv_providerCost = None,
     pv_metadata = \<lparr>pm_providerRequestId = None, pm_effectiveModel = None, pm_latencyMs = None,
       pm_retryCount = 0, pm_rawRedacted = None\<rparr>\<rparr>"

definition sample_ports :: "(unit, unit) gateway_ports" where
  "sample_ports = \<lparr>gp_resolve = (\<lambda>r. Inr (sample_binding ''b'' 1)), gp_policy = None,
     gp_secret = (\<lambda>r. Inr ''k''), gp_dispatch = (\<lambda>m b s k. Inr sample_result), gp_date = sample_date,
     gp_clock = (\<lambda>n. ''2026-01-01T00:00:00Z''), gp_id = (\<lambda>n. replicate n CHR ''x''),
     gp_commit = (\<lambda>n ws. None), gp_deadline = (\<lambda>pt. False), gp_aborted = (\<lambda>pt. False)\<rparr>"

definition sample_call :: "jsnum option \<Rightarrow> unit metered_request" where
  "sample_call timeout = \<lparr>mr_kind = GenerationRequest (), mr_role = RoleAnalysis, mr_bindingVersionId = None,
     mr_analysisId = None, mr_attribution = None, mr_requiredCapabilities = None,
     mr_maximumInputTokens = Some (Num 10), mr_maximumOutputTokens = Some (Num 10), mr_timeoutMs = timeout,
     mr_priceContext = None,
     mr_budget = \<lparr>bq_currency = ''USD'', bq_hard = False, bq_allowUnknownPricing = None, bq_requireBudgetPolicy = None\<rparr>\<rparr>"

definition sample_plan :: execution_plan where
  "sample_plan = \<lparr>ep_binding = sample_binding ''b'' 1, ep_repositoryBounds = None,
     ep_startedAt = ''2026-01-01T00:00:00Z'', ep_maximumInputTokens = Num 10, ep_maximumOutputTokens = Num 10,
     ep_pricing = \<lparr>pr_status = Unknown, pr_components =
       [\<lparr>rp_kind = KInput, rp_component = None, rp_status = Unknown, rp_reason = None\<rparr>,
        \<lparr>rp_kind = KOutput, rp_component = None, rp_status = Unknown, rp_reason = None\<rparr>]\<rparr>,
     ep_conservativeCost = \<lparr>cc_status = Unknown, cc_amount = None, cc_currency = None, cc_components =
       [\<lparr>cl_kind = KInput, cl_units = 10, cl_amount = None\<rparr>, \<lparr>cl_kind = KOutput, cl_units = 10, cl_amount = None\<rparr>]\<rparr>\<rparr>"

lemma sample_call_fields:
  "mr_kind (sample_call t) = GenerationRequest ()" "mr_role (sample_call t) = RoleAnalysis"
  "mr_maximumInputTokens (sample_call t) = Some (Num 10)" "mr_maximumOutputTokens (sample_call t) = Some (Num 10)"
  "mr_timeoutMs (sample_call t) = t" "bq_hard (mr_budget (sample_call t)) = False"
  "bq_requireBudgetPolicy (mr_budget (sample_call t)) = None"
  by (simp_all add: sample_call_def)

lemma sample_planned: "resolve_plan sample_ports (sample_call t) ''w'' = Inr sample_plan"
proof -
  have caps: "CapPromptCaching \<notin> ib_capabilities (sample_binding ''b'' 1)" by (simp add: sample_binding_def)
  have none: "price_scopes (ib_pricing (sample_binding ''b'' 1)) = [[], [], [], []]"
    by (simp add: sample_binding_def price_scopes_def)
  have "plan_kinds (sample_call t) (sample_binding ''b'' 1) = [KInput, KOutput]"
    using caps by (simp add: plan_kinds_def kinds_for_def sample_call_def)
  moreover have "select_from_scope sample_date [] k (plan_price_context (sample_call t) ''2026-01-01T00:00:00Z'' (Num 10)) =
      Inr None" for k
    by (simp add: select_from_scope_def plan_price_context_def Let_def sample_date_eval)
  ultimately have pricing: "resolve_prices sample_date (ib_pricing (sample_binding ''b'' 1))
      (plan_kinds (sample_call t) (sample_binding ''b'' 1))
      (plan_price_context (sample_call t) ''2026-01-01T00:00:00Z'' (Num 10)) = Inr (ep_pricing sample_plan)"
    by (simp add: resolve_prices_def none sample_plan_def)
  have cost: "calculate_cost (ep_pricing sample_plan) (conservative_reservation_usage
      (plan_reservation_bounds (sample_call t) (sample_binding ''b'' 1) (Num 10) (Num 10))) =
      Inr (ep_conservativeCost sample_plan)"
    by (simp add: calculate_cost_def decimal_zero sample_plan_def units_for_def conservative_reservation_usage_def
        Let_def plan_reservation_bounds_def safe_int_def max_safe_def)
  show ?thesis
    by (simp add: resolve_plan_def rassert_def sample_ports_def plan_input_limit_def plan_output_limit_def
        or_else_def is_agent_kind_def zero_if_absent_def pricing cost sample_call_fields)
      (simp add: sample_plan_def Let_def)
qed

lemma sample_reserve:
  "\<exists>b st'. reserve sample_ports (sample_call t) ''w'' sample_plan op st = (Inr (), st') \<and>
     gs_events st' = gs_events st @ [Committed [LedgerStart (start_record sample_plan (sample_call t) ''w'' op), BudgetReserve b]]"
  by (simp add: reserve_def Let_def reservation_scope_for_def sample_plan_def sample_ports_def sample_date_eval
      run_transaction_def emit_def)

lemma sample_execute:
  "\<exists>b st1. gs_events st1 = [Committed [LedgerStart (start_record sample_plan (sample_call t) ''w'' []), BudgetReserve b]] \<and>
     execute sample_ports (sample_call t) ''w'' = run_reserved sample_ports (sample_call t) ''w'' sample_plan [] st1"
proof -
  obtain b st1 where r: "reserve sample_ports (sample_call t) ''w'' sample_plan []
      (initial_state\<lparr>gs_clock := 1, gs_ids := 1\<rparr>) = (Inr (), st1)"
    and ev: "gs_events st1 = gs_events (initial_state\<lparr>gs_clock := 1, gs_ids := 1\<rparr>) @
      [Committed [LedgerStart (start_record sample_plan (sample_call t) ''w'' []), BudgetReserve b]]"
    using sample_reserve by blast
  have "gp_id sample_ports 0 = []" by (simp add: sample_ports_def)
  then have "execute sample_ports (sample_call t) ''w'' = run_reserved sample_ports (sample_call t) ''w'' sample_plan [] st1"
    using r by (simp add: execute_def sample_planned sample_call_fields policy_required_def Let_def)
  then show ?thesis using ev by (auto simp: initial_state_def)
qed

lemma sample_completed:
  assumes "gs_events st1 = [Committed start]"
  shows "\<exists>v st ws. run_reserved sample_ports (sample_call None) ''w'' sample_plan [] st1 = (Inr v, st) \<and>
    gs_events st = [Committed start, SecretRequested ''k'', Dispatched Generate, Committed ws]"
proof -
  have ports: "gp_secret sample_ports s = Inr ''k''" "gp_dispatch sample_ports m b s k = Inr sample_result"
    "gp_commit sample_ports n ws = None" "gp_aborted sample_ports pt = False"
    "gp_clock sample_ports n = ''2026-01-01T00:00:00Z''" for s m b k n ws pt
    by (simp_all add: sample_ports_def)
  have key: "ib_secretReference (ep_binding sample_plan) = ''k''" by (simp add: sample_plan_def sample_binding_def)
  obtain ws v where settled: "settle sample_ports (sample_call None) ''w'' sample_plan [] ''2026-01-01T00:00:00Z''
      (gs_ids st1) sample_result = Inr (ws, v)"
    by (simp add: settle_def sample_call_fields is_agent_kind_def sample_result_def or_else_def
        success_reconciliation_def)
  have "\<exists>st. run_reserved sample_ports (sample_call None) ''w'' sample_plan [] st1 = (Inr v, st) \<and>
      gs_events st = [Committed start, SecretRequested ''k'', Dispatched Generate, Committed ws]"
    using assms settled
    by (simp add: run_reserved_def attempt_def compose_abort_signal_def sample_call_fields ports key
        deadline_exceeded_def emit_def run_transaction_def Let_def)
  then show ?thesis by blast
qed

theorem dispatch_is_reserved_witness:
  "\<exists>r st b rest. execute sample_ports (sample_call None) ''w'' = (r, st) \<and>
    gs_events st = Committed [LedgerStart (start_record sample_plan (sample_call None) ''w'' []), BudgetReserve b] # rest"
proof -
  obtain b st1 where st1: "gs_events st1 =
      [Committed [LedgerStart (start_record sample_plan (sample_call None) ''w'' []), BudgetReserve b]]"
    and ex: "execute sample_ports (sample_call None) ''w'' =
      run_reserved sample_ports (sample_call None) ''w'' sample_plan [] st1"
    using sample_execute by blast
  obtain v st ws where run: "run_reserved sample_ports (sample_call None) ''w'' sample_plan [] st1 = (Inr v, st)"
      "gs_events st = [Committed [LedgerStart (start_record sample_plan (sample_call None) ''w'' []), BudgetReserve b],
        SecretRequested ''k'', Dispatched Generate, Committed ws]"
    using sample_completed [OF st1] by blast
  have exec: "execute sample_ports (sample_call None) ''w'' = (Inr v, st)" using ex run(1) by simp
  have op: "gp_id sample_ports 0 = []" by (simp add: sample_ports_def)
  from dispatch_is_reserved [OF exec] obtain b' rest where
      "gs_events st = Committed [LedgerStart (start_record sample_plan (sample_call None) ''w'' []), BudgetReserve b'] # rest"
    using run(2) by (auto simp: sample_planned op)
  then show ?thesis using exec by blast
qed

theorem reservation_settled_once_witness:
  "\<exists>v st start early ws f ro. execute sample_ports (sample_call None) ''w'' = (Inr v, st) \<and>
    gs_events st = Committed start # early @ [Committed ws] \<and> settles [] ws f ro \<and> ro_status ro \<noteq> Released"
proof -
  obtain b st1 where st1: "gs_events st1 =
      [Committed [LedgerStart (start_record sample_plan (sample_call None) ''w'' []), BudgetReserve b]]"
    and ex: "execute sample_ports (sample_call None) ''w'' =
      run_reserved sample_ports (sample_call None) ''w'' sample_plan [] st1"
    using sample_execute by blast
  obtain v st ws where run: "run_reserved sample_ports (sample_call None) ''w'' sample_plan [] st1 = (Inr v, st)"
      "gs_events st = [Committed [LedgerStart (start_record sample_plan (sample_call None) ''w'' []), BudgetReserve b],
        SecretRequested ''k'', Dispatched Generate, Committed ws]"
    using sample_completed [OF st1] by blast
  have ex: "execute sample_ports (sample_call None) ''w'' = (Inr v, st)" using ex run(1) by simp
  have timeout: "compose_abort_signal (mr_timeoutMs (sample_call None)) = Inr ()"
    by (simp add: compose_abort_signal_def sample_call_fields)
  have commits: "gp_commit sample_ports = (\<lambda>n ws. None)" and op: "gp_id sample_ports 0 = []"
    by (simp_all add: sample_ports_def)
  from reservation_settled_once [OF ex timeout commits run(2)] obtain early ws' f ro where
      "[SecretRequested ''k'', Dispatched Generate, Committed ws] = early @ [Committed ws']" "settles [] ws' f ro"
      "ro_status ro \<noteq> Released"
    unfolding op by auto
  then show ?thesis using ex run(2) by metis
qed

theorem invalid_timeout_leaks_witness:
  "\<exists>st ws. execute sample_ports (sample_call (Some (Num 0))) ''w'' =
      (Inl (ConfigurationError ''AI timeout must be a positive integer.''), st) \<and>
    gs_events st = [Committed ws] \<and> list_ex reserves ws"
proof -
  obtain b st1 where st1: "gs_events st1 =
      [Committed [LedgerStart (start_record sample_plan (sample_call (Some (Num 0))) ''w'' []), BudgetReserve b]]"
    and ex: "execute sample_ports (sample_call (Some (Num 0))) ''w'' =
      run_reserved sample_ports (sample_call (Some (Num 0))) ''w'' sample_plan [] st1"
    using sample_execute by blast
  obtain r st where run: "execute sample_ports (sample_call (Some (Num 0))) ''w'' = (r, st)"
    by (cases "execute sample_ports (sample_call (Some (Num 0))) ''w''")
  have "run_reserved sample_ports (sample_call (Some (Num 0))) ''w'' sample_plan [] st1 =
      (Inl (ConfigurationError ''AI timeout must be a positive integer.''), st1)"
    by (simp add: run_reserved_def compose_abort_signal_def rassert_def sample_call_fields)
  then have ev: "gs_events st = Committed
      [LedgerStart (start_record sample_plan (sample_call (Some (Num 0))) ''w'' []), BudgetReserve b] # []"
    using run ex st1 by simp
  show ?thesis
    using invalid_timeout_leaks [OF run _ _ ev, of "Num 0"] run ev by (simp add: sample_call_fields)
qed

definition scoped_ports :: "(unit, unit) gateway_ports" where
  "scoped_ports = sample_ports\<lparr>gp_resolve := resolve_binding (new_resolver [sample_binding ''b'' 1]
     [\<lparr>db_workspaceId = ''w'', db_role = RoleAnalysis, db_bindingVersionId = ''b:1''\<rparr>])\<rparr>"

theorem plan_in_scope_witness:
  "ib_workspaceId (ep_binding sample_plan) = ''w'' \<and> gp_resolve scoped_ports (binding_request (sample_call None) ''w'' None) =
    Inr (ep_binding sample_plan)"
proof -
  have version: "ib_bindingVersionId (sample_binding ''b'' 1) = ''b:1''"
    by (simp add: sample_binding_def show_int_def show_nat.simps)
  have fields: "ib_workspaceId (sample_binding ''b'' 1) = ''w''" "ib_role (sample_binding ''b'' 1) = RoleAnalysis"
    "ib_maximumInputTokens (sample_binding ''b'' 1) = Some (Num 50)" "ib_maximumOutputTokens (sample_binding ''b'' 1) = None"
    by (simp_all add: sample_binding_def)
  have resolved: "gp_resolve scoped_ports (binding_request (sample_call None) ''w'' None) = Inr (sample_binding ''b'' 1)"
    by (simp add: scoped_ports_def binding_request_def sample_call_fields requested_capabilities_def
        resolve_binding_def new_resolver_def default_key_def version or_else_def)
      (simp add: sample_call_def default_key_def rassert_def exceeds_def fields)
  have ports: "gp_clock scoped_ports = gp_clock sample_ports" "gp_date scoped_ports = gp_date sample_ports"
    "gp_resolve sample_ports r = Inr (sample_binding ''b'' 1)" for r
    by (simp_all add: scoped_ports_def) (simp add: sample_ports_def)
  have same: "resolve_plan scoped_ports (sample_call None) ''w'' = resolve_plan sample_ports (sample_call None) ''w''"
    using resolved by (simp add: resolve_plan_def sample_call_fields ports Let_def cong: if_cong)
  have plan: "resolve_plan scoped_ports (sample_call None) ''w'' = Inr sample_plan"
    unfolding same by (rule sample_planned)
  have "gp_resolve scoped_ports = resolve_binding (new_resolver [sample_binding ''b'' 1]
      [\<lparr>db_workspaceId = ''w'', db_role = RoleAnalysis, db_bindingVersionId = ''b:1''\<rparr>])"
    by (simp add: scoped_ports_def)
  from plan_in_scope [OF this plan] show ?thesis using resolved by (simp add: sample_plan_def)
qed

end
