(* ===== verification/Agent_Costs.thy ===== *)
theory Agent_Costs
  imports Gateway
begin

text \<open>
  The cost of repository agents: the accounting accepts only usage within the bounds the plan
  reserved for, so a successful agent run never costs more than its reservation, and the costs of its
  observable turns add up to its own.
\<close>

section \<open>Usage\<close>

lemma safe_zero: "safe_int 0"
  by (simp add: safe_int_def max_safe_def)

text \<open>The units of a kind in the usage of a provider.\<close>

fun usage_index :: "component_kind \<Rightarrow> nat" where
  "usage_index KInput = 0"
| "usage_index KOutput = 1"
| "usage_index KCacheRead = 2"
| "usage_index KCacheCreation = 3"
| "usage_index KImage = 5"
| "usage_index KAudio = 6"

definition usage_count :: "normalized_usage \<Rightarrow> component_kind \<Rightarrow> int" where
  "usage_count u k = int_of (zero_if_absent (usage_values u ! usage_index k))"

lemma valid_units:
  assumes "assert_valid_usage u = Inr ()"
  shows "units_for k (actual_usage u) = Inr (usage_count u k)" and "0 \<le> usage_count u k"
proof -
  have v: "valid_usage_value v" if "v \<in> set (usage_values u)" for v
    using assms that by (auto simp: assert_valid_usage_def result_simps)
  have w: "valid_usage_value v \<Longrightarrow> is_safe_integer (zero_if_absent v) \<and> 0 \<le> int_of (zero_if_absent v)" for v
    by (auto simp: valid_usage_value_def zero_if_absent_def safe_zero split: option.splits)
  show "units_for k (actual_usage u) = Inr (usage_count u k)" and "0 \<le> usage_count u k"
    by (cases k; use v [unfolded usage_values_def] w in
        \<open>force simp: units_for_def actual_usage_def usage_count_def usage_values_def Let_def not_less\<close>)+
qed

lemma within_bounds_facts:
  assumes "assert_usage_within_bounds u b = Inr ()"
  shows "assert_valid_usage u = Inr ()" and "usage_count u KInput \<le> tb_maximumInputTokens b"
    and "usage_count u KOutput \<le> tb_maximumOutputTokens b"
    and "usage_count u KCacheRead \<le> tb_maximumInputTokens b"
    and "usage_count u KCacheCreation \<le> tb_maximumInputTokens b"
  using assms by (auto simp: assert_usage_within_bounds_def result_simps Let_def usage_count_def usage_values_def)

lemma accounting_within_bounds:
  assumes "repository_agent_accounting r b = Inr a" and "or_else (ac_usage a) (pv_usage r) = Some u"
  shows "assert_usage_within_bounds u b = Inr ()"
  using assms
  by (auto simp: repository_agent_accounting_def result_simps or_else_def
      split: option.splits metering_value.splits if_splits)

section \<open>The reservation covers the run\<close>

lemma token_bounds_safe:
  assumes "repository_agent_token_bounds l hard = Inr b"
  shows "safe_int (tb_maximumInputTokens b) \<and> safe_int (tb_maximumOutputTokens b) \<and>
    0 \<le> tb_maximumInputTokens b \<and> 0 \<le> tb_maximumOutputTokens b"
  using assms
  by (auto simp: repository_agent_token_bounds_def Let_def is_positive_integer_def split: if_splits)

lemma plan_parts:
  assumes "resolve_plan p req w = Inr plan" and "is_agent_kind (kind_of (mr_kind req))"
  obtains b where "ep_repositoryBounds plan = Some b" "safe_int (tb_maximumInputTokens b)"
    "safe_int (tb_maximumOutputTokens b)" "0 \<le> tb_maximumInputTokens b" "0 \<le> tb_maximumOutputTokens b"
    "resolve_prices (gp_date p) (ib_pricing (ep_binding plan)) (plan_kinds req (ep_binding plan))
       (plan_price_context req (ep_startedAt plan) (ep_maximumInputTokens plan)) = Inr (ep_pricing plan)"
    "calculate_cost (ep_pricing plan) (conservative_reservation_usage (plan_reservation_bounds req (ep_binding plan)
       (Num (tb_maximumInputTokens b)) (Num (tb_maximumOutputTokens b)))) = Inr (ep_conservativeCost plan)"
proof -
  obtain l q where kind: "mr_kind req = RepositoryAgentRequest q l \<or> mr_kind req = RepositoryChangeRequest q l"
    using assms(2) by (cases "mr_kind req") (auto simp: is_agent_kind_def)
  obtain b where b: "repository_agent_token_bounds l (bq_hard (mr_budget req)) = Inr b"
    and bounds: "plan_bounds (mr_kind req) (bq_hard (mr_budget req)) = Inr (Some b)"
    using assms(1) kind by (auto simp: resolve_plan_def rbind_Inr_iff)
  have "resolve_prices (gp_date p) (ib_pricing (ep_binding plan)) (plan_kinds req (ep_binding plan))
       (plan_price_context req (ep_startedAt plan) (ep_maximumInputTokens plan)) = Inr (ep_pricing plan) \<and>
    ep_repositoryBounds plan = Some b \<and>
    calculate_cost (ep_pricing plan) (conservative_reservation_usage (plan_reservation_bounds req (ep_binding plan)
       (Num (tb_maximumInputTokens b)) (Num (tb_maximumOutputTokens b)))) = Inr (ep_conservativeCost plan)"
    using assms bounds
    by (auto simp: resolve_plan_def rbind_Inr_iff Let_def plan_input_limit_def plan_output_limit_def or_else_def
        zero_if_absent_def split: if_splits)
  then show ?thesis using that token_bounds_safe [OF b] by blast
qed

lemma resolve_kind_kind: "resolve_kind date ctx k scopes = Inr r \<Longrightarrow> rp_kind r = k"
proof (induction scopes)
  case Nil
  then show ?case by auto
next
  case (Cons s scopes)
  have "select_from_scope date s k ctx = Inr (Some r) \<Longrightarrow> rp_kind r = k" for r
    by (auto simp: select_from_scope_def split: option.splits prod.splits list.splits if_splits)
  then show ?case using Cons by (auto simp: rbind_Inr_iff split: option.splits)
qed

lemma priced_kinds:
  assumes "resolve_prices date s kinds ctx = Inr res" and "r \<in> set (pr_components res)"
  shows "rp_kind r \<in> set kinds"
  using resolve_prices_component [OF assms] resolve_kind_kind by blast

lemma agent_kinds:
  assumes "is_agent_kind (kind_of (mr_kind req))" and "k \<in> set (plan_kinds req b)"
  shows "k = KInput \<or> k = KOutput \<or> (k = KCacheRead \<or> k = KCacheCreation) \<and> CapPromptCaching \<in> ib_capabilities b"
  using assms by (auto simp: plan_kinds_def kinds_for_def is_agent_kind_def split: if_splits)

lemma agent_usage_within:
  assumes agent: "is_agent_kind (kind_of (mr_kind req))" and k: "k \<in> set (plan_kinds req bd)"
    and u: "assert_usage_within_bounds u b = Inr ()"
    and safe: "safe_int (tb_maximumInputTokens b)" "safe_int (tb_maximumOutputTokens b)"
      "0 \<le> tb_maximumInputTokens b" "0 \<le> tb_maximumOutputTokens b"
  shows "usage_within (actual_usage u) (conservative_reservation_usage (plan_reservation_bounds req bd
       (Num (tb_maximumInputTokens b)) (Num (tb_maximumOutputTokens b)))) k"
  using agent_kinds [OF agent k] valid_units [OF within_bounds_facts(1) [OF u], of k] within_bounds_facts(2-5) [OF u] safe
  by (auto simp: usage_within_def units_for_def conservative_reservation_usage_def plan_reservation_bounds_def Let_def)

text \<open>
  C3: an agent never costs more than was reserved.  When a repository agent run returns a result with
  usage, the conservative cost of its plan was known, and its prices are not negative, then its
  calculated cost is known and at most the amount reserved.
\<close>

theorem agent_cost_within_reservation:
  assumes plan: "resolve_plan p req w = Inr plan" and agent: "is_agent_kind (kind_of (mr_kind req))"
    and settled: "settle p req w plan op fin n r = Inr (ws, v)" and usage: "rs_usage v \<noteq> None"
    and known: "cc_status (ep_conservativeCost plan) = Known"
    and prices: "list_all (\<lambda>c. \<forall>pc. known_component c = Some pc \<longrightarrow> 0 \<le> dval (pc_amount pc))
      (pr_components (ep_pricing plan))"
  shows "cc_status (rs_calculatedCost v) = Known \<and>
    (\<exists>t worst. cc_amount (rs_calculatedCost v) = Some t \<and> cc_amount (ep_conservativeCost plan) = Some worst \<and>
      dval t \<le> dval worst)"
proof -
  obtain b where b: "ep_repositoryBounds plan = Some b" "safe_int (tb_maximumInputTokens b)"
    "safe_int (tb_maximumOutputTokens b)" "0 \<le> tb_maximumInputTokens b" "0 \<le> tb_maximumOutputTokens b"
    and pricing: "resolve_prices (gp_date p) (ib_pricing (ep_binding plan)) (plan_kinds req (ep_binding plan))
       (plan_price_context req (ep_startedAt plan) (ep_maximumInputTokens plan)) = Inr (ep_pricing plan)"
    and cost: "calculate_cost (ep_pricing plan) (conservative_reservation_usage (plan_reservation_bounds req
       (ep_binding plan) (Num (tb_maximumInputTokens b)) (Num (tb_maximumOutputTokens b)))) = Inr (ep_conservativeCost plan)"
    using plan_parts [OF plan agent] by metis
  obtain a u where a: "repository_agent_accounting r b = Inr a" "or_else (ac_usage a) (pv_usage r) = Some u"
    and actual: "calculate_cost (ep_pricing plan) (actual_usage u) = Inr (rs_calculatedCost v)"
    using settled agent b(1) usage
    by (auto simp: settle_def require_bounds_def rbind_Inr_iff Let_def split: option.splits)
  have "usage_within (actual_usage u) (conservative_reservation_usage (plan_reservation_bounds req
       (ep_binding plan) (Num (tb_maximumInputTokens b)) (Num (tb_maximumOutputTokens b)))) (rp_kind c)"
    if "c \<in> set (pr_components (ep_pricing plan))" for c
    by (rule agent_usage_within [OF agent priced_kinds [OF pricing that] accounting_within_bounds [OF a] b(2-5)])
  then show ?thesis
    using conservative_cost [OF cost known _ prices actual] by (simp add: list_all_iff)
qed

section \<open>Turns add up\<close>

lemma add_fields_nth:
  "add_fields ts vs = Inr rs \<Longrightarrow> length ts = length vs \<Longrightarrow>
   length rs = length vs \<and> (\<forall>i < length vs. rs ! i = ts ! i + int_of (zero_if_absent (vs ! i)))"
proof (induction ts vs arbitrary: rs rule: add_fields.induct)
  case (1 t ts v vs)
  obtain qs where qs: "add_fields ts vs = Inr qs" and rs: "rs = (t + int_of (zero_if_absent v)) # qs"
    using "1.prems"(1) by (auto simp: Let_def rbind_Inr_iff split: if_splits)
  have nth: "length qs = length vs" "\<forall>i < length vs. qs ! i = ts ! i + int_of (zero_if_absent (vs ! i))"
    using "1.IH" [OF refl _ qs] "1.prems" by (auto simp: Let_def split: if_splits)
  have "rs ! i = (t # ts) ! i + int_of (zero_if_absent ((v # vs) ! i))" if "i < length (v # vs)" for i
    using that nth rs by (cases i) auto
  then show ?case using nth(1) rs by simp
qed auto

lemma length_usage_values [simp]: "length (usage_values u) = 7"
  by (simp add: usage_values_def)

lemma add_turns:
  assumes "rfold add_turn ts turns = Inr rs" and "length ts = 7"
  shows "length rs = 7 \<and> list_all (\<lambda>t. assert_valid_usage (tn_usage t) = Inr ()) turns \<and>
    (\<forall>i < 7. rs ! i = ts ! i + (\<Sum>t\<leftarrow>turns. int_of (zero_if_absent (usage_values (tn_usage t) ! i))))"
  using assms
proof (induction turns arbitrary: ts)
  case Nil
  then show ?case by simp
next
  case (Cons t turns)
  obtain qs where step: "add_turn ts t = Inr qs" and rest: "rfold add_turn qs turns = Inr rs"
    using Cons.prems(1) by (auto simp: rbind_Inr_iff)
  have v: "assert_valid_usage (tn_usage t) = Inr ()" and qs: "add_fields ts (usage_values (tn_usage t)) = Inr qs"
    using step by (auto simp: add_turn_def rbind_Inr_iff)
  have "length qs = 7" "\<forall>i < 7. qs ! i = ts ! i + int_of (zero_if_absent (usage_values (tn_usage t) ! i))"
    using add_fields_nth [OF qs] Cons.prems(2) by simp_all
  then show ?case using Cons.IH [OF rest] v by (simp add: algebra_simps)
qed

lemma sum_usage_counts:
  assumes "sum_repository_agent_usage turns = Inr u"
  shows "usage_count u k = (\<Sum>t\<leftarrow>turns. usage_count (tn_usage t) k)"
    and "list_all (\<lambda>t. assert_valid_usage (tn_usage t) = Inr ()) turns"
proof -
  obtain rs where rs: "rfold add_turn [0, 0, 0, 0, 0, 0, 0] turns = Inr rs" and u: "u = usage_of_totals rs"
    using assms by (auto simp: sum_repository_agent_usage_def rbind_Inr_iff)
  have add: "list_all (\<lambda>t. assert_valid_usage (tn_usage t) = Inr ()) turns"
    "\<forall>i < 7. rs ! i = [0, 0, 0, 0, 0, 0, 0] ! i + (\<Sum>t\<leftarrow>turns. int_of (zero_if_absent (usage_values (tn_usage t) ! i)))"
    using add_turns [OF rs] by simp_all
  have idx: "usage_index k < 7" "[0, 0, 0, 0, 0, 0, 0 :: int] ! usage_index k = 0" by (cases k; simp)+
  have "usage_count u k = rs ! usage_index k"
    by (cases k) (simp_all add: u usage_count_def usage_of_totals_def usage_values_def zero_if_absent_def)
  then show "usage_count u k = (\<Sum>t\<leftarrow>turns. usage_count (tn_usage t) k)"
    using add(2) idx by (simp add: usage_count_def)
  show "list_all (\<lambda>t. assert_valid_usage (tn_usage t) = Inr ()) turns" by (rule add(1))
qed

lemma check_turns_distinct:
  "check_turns m seen cs = Inr ts \<Longrightarrow>
   length ts = length cs \<and> distinct (map tn_turn ts) \<and> tn_turn ` set ts \<inter> set seen = {} \<and>
   list_all (\<lambda>t. 1 \<le> int_of (tn_turn t) \<and> int_of (tn_turn t) \<le> m) ts"
proof (induction m seen cs arbitrary: ts rule: check_turns.induct)
  case (3 m seen t cs)
  then show ?case by (fastforce simp: rbind_Inr_iff split: if_splits)
qed auto

lemma line_price_valid:
  assumes "assert_valid_usage u = Inr ()"
  shows "line_price (actual_usage u) r =
    (case known_component r of None \<Rightarrow> 0 | Some c \<Rightarrow> dval (pc_amount c) * of_int (usage_count u (rp_kind r)))"
  using valid_units [OF assms, of "rp_kind r"] by (auto simp: line_price_def split: option.splits)

lemma sum_list_exchange:
  fixes f :: "'a \<Rightarrow> 'b \<Rightarrow> rat"
  shows "(\<Sum>x\<leftarrow>xs. \<Sum>y\<leftarrow>ys. f x y) = (\<Sum>y\<leftarrow>ys. \<Sum>x\<leftarrow>xs. f x y)"
  by (induction xs) (simp_all add: sum_list_addf)

lemma of_int_sum_list: "of_int (\<Sum>x\<leftarrow>xs. f x) = (\<Sum>x\<leftarrow>xs. (of_int (f x) :: rat))"
  by (induction xs) auto

lemma turn_prices:
  assumes "sum_repository_agent_usage turns = Inr u" and "assert_valid_usage u = Inr ()"
  shows "line_price (actual_usage u) r = (\<Sum>t\<leftarrow>turns. line_price (actual_usage (tn_usage t)) r)"
proof -
  have "(\<Sum>t\<leftarrow>turns. line_price (actual_usage (tn_usage t)) r) =
      (\<Sum>t\<leftarrow>turns. case known_component r of None \<Rightarrow> 0
         | Some c \<Rightarrow> dval (pc_amount c) * of_int (usage_count (tn_usage t) (rp_kind r)))"
    using sum_usage_counts(2) [OF assms(1)] line_price_valid
    by (intro arg_cong [of _ _ sum_list] map_cong) (auto simp: list_all_iff)
  then show ?thesis
    unfolding line_price_valid [OF assms(2)] sum_usage_counts(1) [OF assms(1)] of_int_sum_list
    by (cases "known_component r") (simp_all add: sum_list_const_mult [symmetric])
qed

lemma known_amount:
  assumes "calculate_cost res usage = Inr k" and "cc_status k = Known"
  obtains t where "cc_amount k = Some t" "dval t = (\<Sum>r\<leftarrow>pr_components res. line_price usage r)"
    "list_all (billable usage (cc_currency k)) (pr_components res)"
  using assms cost_loop_known [of usage "pr_components res" "''0''" None "[]" k]
  by (auto simp: calculate_cost_def decimal_zero dval_zero)

lemma sub_usage_known:
  assumes "calculate_cost res whole = Inr k" and "cc_status k = Known"
    and "\<And>r. r \<in> set (pr_components res) \<Longrightarrow> usage_within part whole (rp_kind r)"
    and "calculate_cost res part = Inr m"
  shows "cc_status m = Known"
proof -
  have "list_all (billable part (cc_currency k)) (pr_components res)"
    using known_amount [OF assms(1,2)] assms(3) within_billable by (metis (no_types, lifting) list_all_iff)
  then have "list_all (billable part (Some (case cc_currency k of None \<Rightarrow> [] | Some c \<Rightarrow> c))) (pr_components res)"
    by (auto simp: list_all_iff billable_def split: sum.splits) fastforce
  moreover have "cost_loop part (pr_components res) Known ''0'' None [] = Inr m"
    using assms(4) by (simp add: calculate_cost_def decimal_zero)
  ultimately show ?thesis using cost_loop_billable by blast
qed

lemma member_le_sum_list:
  fixes f :: "'a \<Rightarrow> int"
  assumes "x \<in> set xs" and "\<And>y. y \<in> set xs \<Longrightarrow> 0 \<le> f y"
  shows "f x \<le> (\<Sum>y\<leftarrow>xs. f y)"
  using assms
proof (induction xs)
  case (Cons y ys)
  have "0 \<le> (\<Sum>y\<leftarrow>ys. f y)" using Cons.prems(2) by (intro sum_list_nonneg) auto
  moreover have "0 \<le> f y" using Cons.prems(2) by simp
  moreover have "x = y \<or> f x \<le> (\<Sum>y\<leftarrow>ys. f y)" using Cons.IH Cons.prems by auto
  ultimately show ?case by auto
qed simp

lemma turn_within:
  assumes "sum_repository_agent_usage turns = Inr u" and "assert_valid_usage u = Inr ()" and "t \<in> set turns"
  shows "usage_within (actual_usage (tn_usage t)) (actual_usage u) k"
proof -
  have valid: "assert_valid_usage (tn_usage t) = Inr ()" if "t \<in> set turns" for t
    using sum_usage_counts(2) [OF assms(1)] that by (simp add: list_all_iff)
  have "usage_count (tn_usage t) k \<le> usage_count u k"
    unfolding sum_usage_counts(1) [OF assms(1)]
    by (rule member_le_sum_list [where f = "\<lambda>t. usage_count (tn_usage t) k", OF assms(3)])
      (rule valid_units(2) [OF valid])
  then show ?thesis
    using valid_units(1) [OF valid [OF assms(3)], of k] valid_units(1) [OF assms(2), of k]
    by (simp add: usage_within_def)
qed

definition amount_of :: "cost_calculation \<Rightarrow> rat" where
  "amount_of c = (case cc_amount c of None \<Rightarrow> 0 | Some t \<Rightarrow> dval t)"

lemma turn_sum:
  assumes "sum_repository_agent_usage turns = Inr u" and "assert_valid_usage u = Inr ()"
    and "calculate_cost res (actual_usage u) = Inr k" and "cc_status k = Known"
    and "list_all2 (\<lambda>t c. calculate_cost res (actual_usage (tn_usage t)) = Inr c) turns cs"
  shows "list_all (\<lambda>c. cc_status c = Known) cs \<and> amount_of k = (\<Sum>c\<leftarrow>cs. amount_of c)"
proof -
  have known: "cc_status c = Known \<and>
      amount_of c = (\<Sum>r\<leftarrow>pr_components res. line_price (actual_usage (tn_usage t)) r)"
    if "t \<in> set turns" "calculate_cost res (actual_usage (tn_usage t)) = Inr c" for t c
  proof -
    have "cc_status c = Known"
      by (rule sub_usage_known [OF assms(3,4) turn_within [OF assms(1,2) that(1)] that(2)])
    then show ?thesis using known_amount [OF that(2)] by (metis amount_of_def option.simps(5))
  qed
  have "list_all2 (\<lambda>t c. cc_status c = Known \<and>
      amount_of c = (\<Sum>r\<leftarrow>pr_components res. line_price (actual_usage (tn_usage t)) r)) turns cs"
    using assms(5) known unfolding list_all2_conv_all_nth by (metis nth_mem)
  then have cs: "list_all (\<lambda>c. cc_status c = Known) cs"
      "(\<Sum>c\<leftarrow>cs. amount_of c) = (\<Sum>t\<leftarrow>turns. \<Sum>r\<leftarrow>pr_components res. line_price (actual_usage (tn_usage t)) r)"
    by (induction rule: list_all2_induct) auto
  have "amount_of k = (\<Sum>r\<leftarrow>pr_components res. line_price (actual_usage u) r)"
    using known_amount [OF assms(3,4)] by (metis amount_of_def option.simps(5))
  also have "\<dots> = (\<Sum>r\<leftarrow>pr_components res. \<Sum>t\<leftarrow>turns. line_price (actual_usage (tn_usage t)) r)"
    by (simp add: turn_prices [OF assms(1,2)])
  also have "\<dots> = (\<Sum>c\<leftarrow>cs. amount_of c)" unfolding cs(2) by (rule sum_list_exchange)
  finally show ?thesis using cs(1) by simp
qed

text \<open>
  the turns of an agent account for its cost.  When the accounting accepts observable turns, they are
  at most the turns allowed, with distinct turn numbers in range, and if the cost of the whole run is
  known, so is the cost of every turn, and the amounts of the turns add up to the amount of the run.
\<close>

theorem turn_costs_add_up:
  assumes "repository_agent_accounting r b = Inr a" and "ac_metering a = ModeObservableTurns"
    and "ac_usage a = Some u" and "calculate_cost res (actual_usage u) = Inr k" and "cc_status k = Known"
    and "list_all2 (\<lambda>t c. calculate_cost res (actual_usage (tn_usage t)) = Inr c) (ac_turns a) cs"
  shows "distinct (map tn_turn (ac_turns a)) \<and> int (length (ac_turns a)) \<le> tb_maximumTurns b \<and>
    list_all (\<lambda>c. cc_status c = Known) cs \<and> amount_of k = (\<Sum>c\<leftarrow>cs. amount_of c)"
proof -
  obtain cands where cands: "check_turns (tb_maximumTurns b) [] cands = Inr (ac_turns a)"
      "int (length cands) \<le> tb_maximumTurns b" "sum_repository_agent_usage (ac_turns a) = Inr u"
      "assert_usage_within_bounds u b = Inr ()"
    using assms(1-3) by (auto simp: repository_agent_accounting_def result_simps not_less
        split: option.splits metering_value.splits if_splits)
  have "distinct (map tn_turn (ac_turns a))" "int (length (ac_turns a)) \<le> tb_maximumTurns b"
    using check_turns_distinct [OF cands(1)] cands(2) by simp_all
  then show ?thesis
    using turn_sum [OF cands(3) within_bounds_facts(1) [OF cands(4)] assms(4-6)] by simp
qed

section \<open>Witnesses\<close>

text \<open>An agent with two turns, priced at half a dollar per input token.\<close>

definition turn_usage :: "int \<Rightarrow> normalized_usage" where
  "turn_usage n = \<lparr>nu_inputTokens = Some (Num n), nu_outputTokens = None, nu_cacheReadInputTokens = None,
     nu_cacheCreationInputTokens = None, nu_reasoningTokens = None, nu_imageUnits = None, nu_audioUnits = None\<rparr>"

definition sample_turn :: "int \<Rightarrow> int \<Rightarrow> agent_turn" where
  "sample_turn i n = \<lparr>tn_turn = Num i, tn_usage = turn_usage n, tn_metadata = None\<rparr>"

definition agent_result :: "unit provider_result" where
  "agent_result = \<lparr>pv_value = (), pv_metering = Some (MeteringTurns (Some [Turn (sample_turn 1 3), Turn (sample_turn 2 1)])),
     pv_usage = None, pv_providerCost = None,
     pv_metadata = \<lparr>pm_providerRequestId = None, pm_effectiveModel = None, pm_latencyMs = None,
       pm_retryCount = 0, pm_rawRedacted = None\<rparr>\<rparr>"

definition sample_bounds :: token_bounds where
  "sample_bounds = \<lparr>tb_maximumTurns = 2, tb_maximumInputTokensPerTurn = 2, tb_maximumOutputTokensPerTurn = 1,
     tb_maximumInputTokens = 4, tb_maximumOutputTokens = 2\<rparr>"

definition sample_total :: normalized_usage where
  "sample_total = usage_of_totals [4, 0, 0, 0, 0, 0, 0]"

definition sample_accounting :: agent_accounting where
  "sample_accounting = \<lparr>ac_metering = ModeObservableTurns, ac_usage = Some sample_total,
     ac_turns = [sample_turn 1 3, sample_turn 2 1]\<rparr>"

lemma sample_accounted: "repository_agent_accounting agent_result sample_bounds = Inr sample_accounting"
proof -
  have small: "safe_int 1" "safe_int 2" "safe_int 3" "safe_int 4" "safe_int 0"
    by (simp_all add: safe_int_def max_safe_def)
  have valid: "assert_valid_usage (turn_usage n) = Inr ()" if "safe_int n" "0 \<le> n" for n
    using that by (simp add: assert_valid_usage_def usage_values_def turn_usage_def rassert_def valid_usage_value_def)
  have "check_turns 2 [] [Turn (sample_turn 1 3), Turn (sample_turn 2 1)] = Inr [sample_turn 1 3, sample_turn 2 1]"
    by (simp add: sample_turn_def small)
  moreover have "sum_repository_agent_usage [sample_turn 1 3, sample_turn 2 1] = Inr sample_total"
    by (simp add: sum_repository_agent_usage_def add_turn_def sample_turn_def valid small sample_total_def)
      (simp add: usage_values_def turn_usage_def zero_if_absent_def small)
  moreover have "assert_usage_within_bounds sample_total sample_bounds = Inr ()"
    by (simp add: assert_usage_within_bounds_def assert_valid_usage_def sample_total_def usage_of_totals_def
        usage_values_def rassert_def valid_usage_value_def small zero_if_absent_def sample_bounds_def)
  moreover have "tb_maximumTurns sample_bounds = 2" by (simp add: sample_bounds_def)
  ultimately show ?thesis
    by (simp add: repository_agent_accounting_def agent_result_def sample_accounting_def del: check_turns.simps)
qed

lemma half_parses: "parse_text ''1'' = Inr \<lparr>coefficient = 1, scale = 0\<rparr>"
  "parse_text ''3'' = Inr \<lparr>coefficient = 3, scale = 0\<rparr>"
  by code_simp+

lemma half_formats: "format_decimal 5 1 = ''0.5''" "format_decimal 10 1 = ''1''" "format_decimal 1 0 = ''1''"
  "format_decimal 3 0 = ''3''"
  by (simp_all add: format_eval)

lemma half_stored: "decimal (Text ''0.5'') = Inr ''0.5''" "decimal (Text ''1'') = Inr ''1''" "decimal (Text ''3'') = Inr ''3''"
proof -
  have "fraction_digits ''0.5'' = ''5''" "significant_digits ''0.5'' = ''5''" "fraction_digits ''1'' = []"
    "significant_digits ''1'' = ''1''" "fraction_digits ''3'' = []" "significant_digits ''3'' = ''3''" by code_simp+
  then show "decimal (Text ''0.5'') = Inr ''0.5''" "decimal (Text ''1'') = Inr ''1''" "decimal (Text ''3'') = Inr ''3''"
    by (simp_all add: decimal_def storable_decimal_def sample_parses half_parses half_formats)
qed

lemma half_amounts:
  "multiply_decimal_by_integer ''0.5'' (Num 1) = Inr ''0.5''" "add_decimals ''0'' ''0.5'' = Inr ''0.5''"
  "multiply_decimal_by_integer ''0.5'' (Num 2) = Inr ''1''" "add_decimals ''2'' ''1'' = Inr ''3''"
  by (simp_all add: multiply_decimal_by_integer_def add_decimals_def sample_parses half_parses half_stored
      half_formats safe_int_def max_safe_def scaled_coefficient_def)

definition input_cost :: "int \<Rightarrow> decimal_string \<Rightarrow> cost_calculation" where
  "input_cost n t = \<lparr>cc_status = Known, cc_amount = Some t, cc_currency = Some ''USD'',
     cc_components = [\<lparr>cl_kind = KInput, cl_units = n, cl_amount = Some t\<rparr>]\<rparr>"

lemma sample_turn_costs:
  "calculate_cost sample_resolution (actual_usage (turn_usage 3)) = Inr (input_cost 3 ''1.5'')"
  "calculate_cost sample_resolution (actual_usage (turn_usage 1)) = Inr (input_cost 1 ''0.5'')"
  "calculate_cost sample_resolution (actual_usage sample_total) = Inr (input_cost 4 ''2'')"
  by (simp_all add: calculate_cost_def sample_resolution_def decimal_zero units_for_def turn_usage_def actual_usage_def
      zero_if_absent_def known_input_def sample_component_def safe_int_def max_safe_def sample_amounts half_amounts
      input_cost_def sample_total_def usage_of_totals_def)

theorem turn_costs_add_up_witness:
  "amount_of (input_cost 4 ''2'') = (\<Sum>c\<leftarrow>[input_cost 3 ''1.5'', input_cost 1 ''0.5'']. amount_of c)"
proof -
  have acc: "ac_metering sample_accounting = ModeObservableTurns" "ac_usage sample_accounting = Some sample_total"
    by (simp_all add: sample_accounting_def)
  have known: "cc_status (input_cost 4 ''2'') = Known" by (simp add: input_cost_def)
  have costs: "list_all2 (\<lambda>t c. calculate_cost sample_resolution (actual_usage (tn_usage t)) = Inr c)
      (ac_turns sample_accounting) [input_cost 3 ''1.5'', input_cost 1 ''0.5'']"
    by (simp add: sample_accounting_def sample_turn_def sample_turn_costs)
  show ?thesis using turn_costs_add_up [OF sample_accounted acc sample_turn_costs(3) known costs] by simp
qed

definition agent_binding :: immutable_binding where
  "agent_binding = (sample_binding ''b'' 1)\<lparr>ib_role := RoleRepositoryAgent, ib_capabilities := {CapRepositoryAgent},
     ib_pricing := sample_sources [sample_component ''i'' ''2026-01-01T00:00:00Z'' ''0.5'',
       (sample_component ''o'' ''2026-01-01T00:00:00Z'' ''0.5'')\<lparr>pc_kind := KOutput\<rparr>]\<rparr>"

definition agent_ports :: "(unit, unit) gateway_ports" where
  "agent_ports = \<lparr>gp_resolve = (\<lambda>r. Inr agent_binding), gp_policy = None,
     gp_secret = (\<lambda>r. Inr ''k''), gp_dispatch = (\<lambda>m b s k. Inr agent_result), gp_date = sample_date,
     gp_clock = (\<lambda>n. ''2026-01-01T00:00:00Z''), gp_id = (\<lambda>n. replicate n CHR ''x''),
     gp_commit = (\<lambda>n ws. None), gp_deadline = (\<lambda>pt. False), gp_aborted = (\<lambda>pt. False)\<rparr>"

definition agent_call :: "unit metered_request" where
  "agent_call = \<lparr>mr_kind = RepositoryAgentRequest () \<lparr>al_maximumTurns = Num 2, al_maximumInputTokensPerTurn = Num 2,
       al_maximumOutputTokensPerTurn = Num 1\<rparr>, mr_role = RoleRepositoryAgent, mr_bindingVersionId = None,
     mr_analysisId = None, mr_attribution = None, mr_requiredCapabilities = None, mr_maximumInputTokens = None,
     mr_maximumOutputTokens = None, mr_timeoutMs = None, mr_priceContext = None,
     mr_budget = \<lparr>bq_currency = ''USD'', bq_hard = True, bq_allowUnknownPricing = None, bq_requireBudgetPolicy = None\<rparr>\<rparr>"

definition agent_pricing :: price_resolution where
  "agent_pricing = \<lparr>pr_status = Known, pr_components =
     [known_input (sample_component ''i'' ''2026-01-01T00:00:00Z'' ''0.5''),
      \<lparr>rp_kind = KOutput, rp_component =
         Some ((sample_component ''o'' ''2026-01-01T00:00:00Z'' ''0.5'')\<lparr>pc_kind := KOutput\<rparr>),
       rp_status = Known, rp_reason = None\<rparr>]\<rparr>"

definition agent_plan :: execution_plan where
  "agent_plan = \<lparr>ep_binding = agent_binding, ep_repositoryBounds = Some sample_bounds,
     ep_startedAt = ''2026-01-01T00:00:00Z'', ep_maximumInputTokens = Num 4, ep_maximumOutputTokens = Num 2,
     ep_pricing = agent_pricing, ep_conservativeCost = \<lparr>cc_status = Known, cc_amount = Some ''3'',
       cc_currency = Some ''USD'', cc_components = [\<lparr>cl_kind = KInput, cl_units = 4, cl_amount = Some ''2''\<rparr>,
         \<lparr>cl_kind = KOutput, cl_units = 2, cl_amount = Some ''1''\<rparr>]\<rparr>\<rparr>"

lemma agent_planned: "resolve_plan agent_ports agent_call ''w'' = Inr agent_plan"
proof -
  have caps: "CapPromptCaching \<notin> ib_capabilities agent_binding" by (simp add: agent_binding_def)
  have bounds: "plan_bounds (mr_kind agent_call) True = Inr (Some sample_bounds)"
    by (simp add: agent_call_def repository_agent_token_bounds_def is_positive_integer_def safe_int_def max_safe_def
        sample_bounds_def)
  have kinds: "plan_kinds agent_call agent_binding = [KInput, KOutput]"
    using caps by (simp add: plan_kinds_def kinds_for_def agent_call_def)
  have "resolve_prices sample_date (ib_pricing agent_binding) [KInput, KOutput]
      (plan_price_context agent_call ''2026-01-01T00:00:00Z'' (Num 4)) = Inr agent_pricing"
    by (simp add: resolve_prices_def select_from_scope_def price_scopes_def agent_binding_def sample_sources_def
        plan_price_context_def agent_call_def sample_component_def sample_date_eval active_def condition_match_def
        agent_pricing_def known_input_def Let_def)
  moreover have "calculate_cost agent_pricing (conservative_reservation_usage
      (plan_reservation_bounds agent_call agent_binding (Num 4) (Num 2))) = Inr (ep_conservativeCost agent_plan)"
    by (simp add: calculate_cost_def decimal_zero agent_pricing_def known_input_def sample_component_def units_for_def
        conservative_reservation_usage_def Let_def plan_reservation_bounds_def safe_int_def max_safe_def
        sample_amounts half_amounts agent_plan_def)
  moreover have "expected_role (kind_of (mr_kind agent_call)) (mr_role agent_call)" "bq_hard (mr_budget agent_call)"
    "kind_of (mr_kind agent_call) = OpRepositoryAgent" by (simp_all add: agent_call_def)
  moreover have "gp_resolve agent_ports r = Inr agent_binding" "gp_date agent_ports = sample_date"
    "gp_clock agent_ports n = ''2026-01-01T00:00:00Z''" for r n by (simp_all add: agent_ports_def)
  moreover have "tb_maximumInputTokens sample_bounds = 4" "tb_maximumOutputTokens sample_bounds = 2"
    by (simp_all add: sample_bounds_def)
  ultimately show ?thesis
    by (simp add: resolve_plan_def rassert_def bounds kinds plan_input_limit_def plan_output_limit_def or_else_def
        is_agent_kind_def zero_if_absent_def Let_def)
      (simp add: agent_plan_def)
qed

lemma agent_settled:
  "\<exists>ws v. settle agent_ports agent_call ''w'' agent_plan [] fin 1 agent_result = Inr (ws, v) \<and>
     rs_usage v = Some sample_total \<and> amount_of (rs_calculatedCost v) = dval ''2''"
proof -
  have plan: "ep_repositoryBounds agent_plan = Some sample_bounds" "ep_pricing agent_plan = agent_pricing"
    by (simp_all add: agent_plan_def)
  have kind: "is_agent_kind (kind_of (mr_kind agent_call))" by (simp add: agent_call_def is_agent_kind_def)
  have no_cost: "pv_providerCost agent_result = None" by (simp add: agent_result_def)
  have acc: "ac_usage sample_accounting = Some sample_total" "ac_turns sample_accounting = [sample_turn 1 3, sample_turn 2 1]"
    by (simp_all add: sample_accounting_def)
  have "\<exists>c. calculate_cost agent_pricing (actual_usage (turn_usage n)) = Inr c" if "n = 3 \<or> n = 1" for n
    using that by (auto simp: calculate_cost_def agent_pricing_def decimal_zero units_for_def turn_usage_def
        actual_usage_def zero_if_absent_def known_input_def sample_component_def safe_int_def max_safe_def
        sample_amounts half_amounts)
  then obtain c3 c1 where c: "calculate_cost agent_pricing (actual_usage (turn_usage 3)) = Inr c3"
      "calculate_cost agent_pricing (actual_usage (turn_usage 1)) = Inr c1" by blast
  have total: "calculate_cost agent_pricing (actual_usage sample_total) = Inr \<lparr>cc_status = Known,
      cc_amount = Some ''2'', cc_currency = Some ''USD'', cc_components =
        [\<lparr>cl_kind = KInput, cl_units = 4, cl_amount = Some ''2''\<rparr>, \<lparr>cl_kind = KOutput, cl_units = 0, cl_amount = None\<rparr>]\<rparr>"
    by (simp add: calculate_cost_def agent_pricing_def decimal_zero units_for_def sample_total_def usage_of_totals_def
        actual_usage_def zero_if_absent_def known_input_def sample_component_def safe_int_def max_safe_def
        sample_amounts)
  have turns: "tn_usage (sample_turn i n) = turn_usage n" for i n by (simp add: sample_turn_def)
  show ?thesis
    by (simp add: settle_def plan kind require_bounds_def sample_accounted acc or_else_def total no_cost
        success_reconciliation_def turns c amount_of_def Let_def)
qed

theorem agent_cost_within_reservation_witness: "dval ''2'' \<le> dval ''3''"
proof -
  obtain ws v where settled: "settle agent_ports agent_call ''w'' agent_plan [] [] 1 agent_result = Inr (ws, v)"
    and v: "rs_usage v = Some sample_total" "amount_of (rs_calculatedCost v) = dval ''2''"
    using agent_settled by blast
  have kind: "is_agent_kind (kind_of (mr_kind agent_call))" by (simp add: agent_call_def is_agent_kind_def)
  have known: "cc_status (ep_conservativeCost agent_plan) = Known"
    and worst: "cc_amount (ep_conservativeCost agent_plan) = Some ''3''" by (simp_all add: agent_plan_def)
  have prices: "list_all (\<lambda>c. \<forall>pc. known_component c = Some pc \<longrightarrow> 0 \<le> dval (pc_amount pc))
      (pr_components (ep_pricing agent_plan))"
    by (simp add: agent_plan_def agent_pricing_def known_input_def sample_component_def dval_def sample_parses value_of_def)
  obtain t where "cc_amount (rs_calculatedCost v) = Some t" "dval t \<le> dval ''3''"
    using agent_cost_within_reservation [OF agent_planned kind settled _ known prices] v(1) worst by auto
  then show ?thesis using v(2) by (simp add: amount_of_def)
qed

end
