(* ===== verification/Spec2Isabelle.thy ===== *)
theory Spec2Isabelle
  imports Access_Policy Analysis_Claims Analysis_Stages Domain_States Request_Properties Outbox_Delivery Leases Schedulers
    Retrieval_Properties Publication_Properties Publication_Rendering Catalog Gateway_Properties Agent_Costs
begin

text \<open>
  CaseWeaver: verification of the core of a system that analyses support cases with language models.

  \<^bold>\<open>The program.\<close>  An operator, a schedule or a webhook requests an analysis of a case snapshot
  (\<open>packages/application\<close>, \<open>packages/scheduling\<close>).  The request commits a job and a command to an outbox in one
  transaction (\<open>infrastructure/postgres\<close>); a relay moves the command to a queue (\<open>infrastructure/queue-postgres\<close>); a
  worker retrieves evidence (\<open>packages/retrieval\<close>), builds a prompt and checks the structured answer
  (\<open>packages/prompts\<close>), pays for every model call through a metered gateway (\<open>packages/ai-execution\<close>) on bindings and
  prices (\<open>packages/ai-config\<close>), and publishes the result once (\<open>packages/publication\<close>).  Who may do what is decided
  by \<open>packages/security\<close> and the tables of \<open>packages/administration\<close>.

  \<^bold>\<open>Conventions.\<close>  A thrown error is \<open>Inl\<close> of an error datatype with one constructor per message or class
  (\<open>result\<close>, \<open>rbind\<close>, \<open>rmapM\<close> in Prelude); an asynchronous operation is an \<open>effect\<close>, a function from a state to a result
  and a state (Effects: \<open>abind\<close> for \<open>await\<close> in sequence, \<open>ensuring\<close> for \<open>finally\<close>, \<open>catching\<close> for \<open>catch\<close>, \<open>wp\<close> for
  reasoning).  Strings are lists of characters, so UTF-16 code units beyond a byte are outside the model; a \<open>number\<close>
  that the code tests for being an integer is a \<open>jsnum\<close>; \<open>bigint\<close> is \<open>int\<close>; arbitrary values are \<open>js_value\<close>.  The
  order and the guards of each function are those of the source.

  \<^bold>\<open>Theories.\<close>
  \<^item> Prelude, Effects, Instants: shared library; \<open>Date\<close> on the proleptic Gregorian calendar and ISO texts.
  \<^item> Access_Policy: \<open>packages/security/src/policy.ts\<close> and the policy tables of \<open>packages/administration\<close>; role
    assignments never lose the last administrator.
  \<^item> Domain_States: \<open>packages/domain/src/analysis.ts\<close>, \<open>publication.ts\<close>; terminal jobs stay so, at most one publication.
  \<^item> Identities, Canonical_Json: identifiers, the inputs of the identity hashes, canonical JSON and what it determines.
  \<^item> Envelopes: \<open>packages/domain/src/envelopes.ts\<close>; whatever is read is well formed and can be read back.
  \<^item> Requests, Request_Refinement, Request_History, Postgres_Store, Postgres_Requests, Request_Properties:
    \<open>packages/application/src/use-cases.ts\<close> and \<open>publication-use-cases.ts\<close> on the request store of
    \<open>infrastructure/postgres/src/index.ts\<close>.  The locale \<open>request_store\<close> is the contract of the ports in terms of an abstract
    view; it is interpreted on tables with the constraints of the migrations.  The use cases refine operations on maps;
    histories keep the tables consistent.
  \<^item> Analysis_Contracts, Analysis_Requests, Analysis: \<open>packages/analysis/src\<close>, the contracts with their schemas, the capture of
    a request and the attachment evidence port, and the orchestrator.  Analysis_Store, Analysis_History:
    \<open>PostgresAnalysisExecutionStore\<close> (\<open>infrastructure/postgres/src/analysis\<close>) and the job operations of operators, with the
    histories of any workers.  Analysis_Properties states the contract of the store as the locale \<open>analysis_store\<close>, proves
    the run inside it and interprets it on the tables; Analysis_Stages and Analysis_Claims hold the properties.
  \<^item> Outbox, Outbox_Delivery: \<open>OutboxRelay\<close>, the claims of \<open>PostgresOutboxStore\<close> and \<open>PgBossDurableMessageQueue\<close>, with
    any number of interleaved relays; Leases: \<open>PostgresResourceLeaseStore\<close> and the histories of its holders.
  \<^item> Cron, Schedulers: \<open>packages/scheduling/src\<close>.  The search for the next run scans minute by minute, at most 1054080
    minutes (732 days), the bound of the code; within it the result is the least matching minute.
  \<^item> Decimal, Pricing, Ai_Types, Bindings, Catalog: \<open>packages/ai-config/src\<close>, \<open>packages/ai-sdk/src\<close>; prices are exact.
  \<^item> Metering, Gateway, Gateway_Properties, Agent_Costs: \<open>packages/ai-execution/src/gateway.ts\<close>; nothing is dispatched
    without a committed reservation, and a reservation is settled exactly once.
  \<^item> Retrieval, Retrieval_Properties: \<open>packages/retrieval/src\<close>; fusion equals a reference definition, evidence stays
    within authorization, quotas and budgets.
  \<^item> Prompts: \<open>packages/prompts/src\<close>; evidence is framed, budgets kept, answers grounded in what was supplied.
  \<^item> Publication, Publication_Properties, Publication_Rendering: \<open>packages/publication/src\<close>; the protocol of an execution
    for all answers of its ports, and a destination is never published to twice if it keeps its contract.

  \<^bold>\<open>Lemmas.\<close>  Each component theory has the characteristic equations of its operations (\<open>_iff\<close>, \<open>_Some\<close>, \<open>_Inr\<close>), then the
  invariants and the preservation lemmas, then the numbered properties with their witnesses on concrete inputs.
  Contracts between components are locales (\<open>request_store\<close>, \<open>analysis_store\<close>, \<open>date_parser\<close>), interpreted on the model that provides them.

  \<^bold>\<open>Parameters.\<close>  Code that is not in the repository is an argument of the definitions: SHA-256, \<open>new Date\<close> of a text
  (interpreted by \<open>parse_iso\<close> where a law is needed), \<open>JSON.parse\<close>, the time zone rules, token counters, rounding of
  floating-point sums, pg-boss, the order in which the database returns updated rows, model providers, destinations and
  vector search, \<open>localeCompare\<close>, the texts that the schema library takes as instants and URLs, and the rows that a claim
  of an analysis joins (profile, recipe, snapshot).  What is assumed of them is a named hypothesis of the property
  (\<open>durable\<close>, \<open>accepting\<close> and the like).

  \<^bold>\<open>Bounds.\<close>  All recursions are structural or have a termination proof; no property depends on fuel.  Transactions of the
  request store run one after the other, as its advisory and row locks make those of one key; time only moves on in
  \<open>time_passes\<close> and \<open>time_passed\<close> steps.

  \<^bold>\<open>Not modelled.\<close>  User interface, HTTP routes and process composition (\<open>apps\<close>), because their rules are those of the
  packages; SQL stores other than those named, because their meaning is the database server, so they are ports; file
  systems, sockets, containers and provider SDKs; archives, images and text extraction of attachments (binary third-party
  formats).  Knowledge ingestion, webhooks, repository changes, the remaining administration services and operational use
  cases are ordinary code that a continuation of this development can add on the same library.
\<close>

end
